(* ===== verification/Prelude.thy ===== *)
theory Prelude
  imports Main "HOL-Library.Word" "HOL-Library.Signed_Division"
begin

text \<open>
  Shared vocabulary of the development: the driver's integer types, the error values its
  functions hand back through \<open>GError **\<close>, reads of a byte buffer that say when they leave
  the buffer, the little- and big-endian field helpers that several C files repeat, and the
  list and word facts the component theories share.

  A C function that returns \<open>gboolean\<close> and fills an out parameter is a function into
  \<open>gerror + 'a\<close>: \<open>Inl\<close> is the \<open>FALSE\<close> return with the error it set, \<open>Inr\<close> the
  \<open>TRUE\<close> return with the out parameters.
\<close>

unbundle bit_operations_syntax

subsection \<open>Types\<close>

type_synonym byte = "8 word"        \<comment> \<open>guint8\<close>
type_synonym u16 = "16 word"        \<comment> \<open>guint16\<close>
type_synonym u32 = "32 word"        \<comment> \<open>guint32, uid_t\<close>
type_synonym u64 = "64 word"        \<comment> \<open>gsize, guint64\<close>
type_synonym bytes = "byte list"

datatype crypto_code = INVALID_DATA | FAILED
datatype moc_code = MOC_INVALID_ARGUMENT | MOC_INVALID_DATA
datatype device_code = DEVICE_GENERAL | DEVICE_PROTO | DEVICE_DATA_INVALID
datatype file_code = FILE_NOENT | FILE_OTHER nat

text \<open>
  The GError domains the driver raises or passes on, with the message (its format string) and
  the integers it prints. \<open>Out_Of_Bounds\<close>, \<open>Assert_Not_Reached\<close> and \<open>No_Machine\<close> are not GErrors: they
  mark the points where the C code would read outside a buffer, run into
  \<open>g_assert_not_reached ()\<close>, or resume a state machine through a pointer that is \<open>NULL\<close> or
  names another machine; the safety theorems show that none is produced.
\<close>

datatype gerror =
    Usb_Timed_Out
  | Usb_Error nat
  | Io_Cancelled
  | Crypto_Error crypto_code string "nat list"
  | Moc_Error moc_code string
  | Device_Error device_code string "nat list"
  | Device_Retry string
  | File_Error file_code
  | Out_Of_Bounds
  | Assert_Not_Reached
  | No_Machine

type_synonym 'a res = "gerror + 'a"

named_theorems in_bounds \<open>facts that a function never leaves its buffers\<close>
named_theorems wire_len \<open>lengths of the wire encodings\<close>

subsection \<open>Sequencing of fallible calls\<close>

definition bind_res :: "'a res \<Rightarrow> ('a \<Rightarrow> 'b res) \<Rightarrow> 'b res" where
  "bind_res m f = (case m of Inl e \<Rightarrow> Inl e | Inr a \<Rightarrow> f a)"

lemma bind_res_simps [simp]:
  "bind_res (Inl e) f = Inl e"
  "bind_res (Inr a) f = f a"
  by (simp_all add: bind_res_def)

lemma bind_res_Inr: "bind_res m f = Inr b \<longleftrightarrow> (\<exists>a. m = Inr a \<and> f a = Inr b)"
  by (cases m) auto

lemma bind_res_Inl: "bind_res m f = Inl e \<longleftrightarrow> m = Inl e \<or> (\<exists>a. m = Inr a \<and> f a = Inl e)"
  by (cases m) auto

lemma bind_res_cong [fundef_cong]:
  "m = m' \<Longrightarrow> (\<And>a. m' = Inr a \<Longrightarrow> f a = g a) \<Longrightarrow> bind_res m f = bind_res m' g"
  by (cases m') auto

text \<open>What no GError stands for: a read outside a buffer, a failed assertion, a machine that is not there.\<close>

definition defect :: "gerror \<Rightarrow> bool" where
  "defect e \<longleftrightarrow> e = Out_Of_Bounds \<or> e = Assert_Not_Reached \<or> e = No_Machine"

lemma defect_simps [simp]:
  "defect Out_Of_Bounds" "defect Assert_Not_Reached" "defect No_Machine" "\<not> defect Usb_Timed_Out" "\<not> defect (Usb_Error n)"
  "\<not> defect Io_Cancelled" "\<not> defect (Crypto_Error c m as)" "\<not> defect (Moc_Error k m)" "\<not> defect (Device_Error d m as)"
  "\<not> defect (Device_Retry m)" "\<not> defect (File_Error f)"
  by (simp_all add: defect_def)

definition in_buffer :: "'a res \<Rightarrow> bool" where
  "in_buffer m \<longleftrightarrow> (\<forall>e. m = Inl e \<longrightarrow> \<not> defect e)"

lemma in_buffer_simps [simp]: "in_buffer (Inr a)" "in_buffer (Inl e) \<longleftrightarrow> \<not> defect e"
  by (simp_all add: in_buffer_def)

lemma in_buffer_Inl: "in_buffer m \<Longrightarrow> m = Inl e \<Longrightarrow> \<not> defect e"
  by simp

lemma bind_res_in_bounds [in_bounds]:
  "in_buffer m \<Longrightarrow> (\<And>a. m = Inr a \<Longrightarrow> in_buffer (f a)) \<Longrightarrow> in_buffer (bind_res m f)"
  by (cases m) auto

text \<open>The same for calls that also change the state \<open>'s\<close> of the caller, errors included.\<close>

definition bind_st :: "'a res \<times> 's \<Rightarrow> ('a \<Rightarrow> 's \<Rightarrow> 'b res \<times> 's) \<Rightarrow> 'b res \<times> 's" where
  "bind_st m f = (case m of (Inl e, s) \<Rightarrow> (Inl e, s) | (Inr a, s) \<Rightarrow> f a s)"

lemma bind_st_simps [simp]:
  "bind_st (Inl e, s) f = (Inl e, s)"
  "bind_st (Inr a, s) f = f a s"
  by (simp_all add: bind_st_def)

lemma bind_st_Inr: "bind_st m f = (Inr b, s') \<longleftrightarrow> (\<exists>a s. m = (Inr a, s) \<and> f a s = (Inr b, s'))"
  by (auto simp: bind_st_def split: sum.splits prod.splits)

lemma bind_st_Inl:
  "bind_st m f = (Inl e, s') \<longleftrightarrow> m = (Inl e, s') \<or> (\<exists>a s. m = (Inr a, s) \<and> f a s = (Inl e, s'))"
  by (auto simp: bind_st_def split: sum.splits prod.splits)

lemma bind_st_cong [fundef_cong]:
  "m = m' \<Longrightarrow> (\<And>a s. m' = (Inr a, s) \<Longrightarrow> f a s = g a s) \<Longrightarrow> bind_st m f = bind_st m' g"
  by (auto simp: bind_st_def split: sum.splits prod.splits)

lemma bind_st_in_bounds [in_bounds]:
  "in_buffer (fst m) \<Longrightarrow> (\<And>a s. m = (Inr a, s) \<Longrightarrow> in_buffer (fst (f a s))) \<Longrightarrow> in_buffer (fst (bind_st m f))"
  by (cases m, cases "fst m") auto

lemma fst_in_buffer: "in_buffer (fst m) \<Longrightarrow> m = (r, s) \<Longrightarrow> in_buffer r"
  by simp

subsection \<open>Buffer reads\<close>

definition rd8 :: "bytes \<Rightarrow> nat \<Rightarrow> byte res" where
  "rd8 buf i = (if i < length buf then Inr (buf ! i) else Inl Out_Of_Bounds)"

definition rd_slice :: "bytes \<Rightarrow> nat \<Rightarrow> nat \<Rightarrow> bytes res" where
  "rd_slice buf off n =
     (if off + n \<le> length buf then Inr (take n (drop off buf)) else Inl Out_Of_Bounds)"

lemma rd8_ok [simp]: "i < length buf \<Longrightarrow> rd8 buf i = Inr (buf ! i)"
  by (simp add: rd8_def)

lemma rd_slice_ok [simp]: "off + n \<le> length buf \<Longrightarrow> rd_slice buf off n = Inr (take n (drop off buf))"
  by (simp add: rd_slice_def)

lemma rd8_InrD: "rd8 buf i = Inr b \<Longrightarrow> i < length buf \<and> b = buf ! i"
  by (simp add: rd8_def split: if_splits)

lemma rd_slice_InrD:
  "rd_slice buf off n = Inr b \<Longrightarrow> off + n \<le> length buf \<and> b = take n (drop off buf) \<and> length b = n"
  by (auto simp: rd_slice_def split: if_splits)

subsection \<open>Integer fields of the wire formats\<close>

text \<open>\<open>(guint16) p[0] | ((guint16) p[1] << 8)\<close>, the expression behind \<open>rd_u16le\<close>,
  \<open>moc_rd_u16le\<close> and the certificate fields, and the big-endian record length.\<close>

definition u16_of_le :: "byte \<Rightarrow> byte \<Rightarrow> u16" where
  "u16_of_le lo hi = ucast lo OR push_bit 8 (ucast hi)"

definition u16_of_be :: "byte \<Rightarrow> byte \<Rightarrow> u16" where
  "u16_of_be hi lo = push_bit 8 (ucast hi) OR ucast lo"

definition u16_lo :: "u16 \<Rightarrow> byte" where
  "u16_lo v = ucast (v AND 0xff)"

definition u16_hi :: "u16 \<Rightarrow> byte" where
  "u16_hi v = ucast (drop_bit 8 v AND 0xff)"

lemma byte_bit_bound: "bit (b :: byte) n \<Longrightarrow> n < 8"
  using bit_imp_le_length [of b n] by simp

lemma bit_0xff:
  "bit (255 :: u16) n \<longleftrightarrow> n < 8" "bit (255 :: u32) n \<longleftrightarrow> n < 8"
  "bit (255 :: int) n \<longleftrightarrow> n < 8" "bit (255 :: nat) n \<longleftrightarrow> n < 8"
proof -
  have "(255 :: u16) = mask 8" "(255 :: u32) = mask 8" "(255 :: int) = mask 8" "(255 :: nat) = mask 8"
    by (simp_all add: mask_eq_exp_minus_1)
  then show "bit (255 :: u16) n \<longleftrightarrow> n < 8" "bit (255 :: u32) n \<longleftrightarrow> n < 8"
    "bit (255 :: int) n \<longleftrightarrow> n < 8" "bit (255 :: nat) n \<longleftrightarrow> n < 8"
    by (simp_all only: bit_mask_iff) auto
qed

lemma u16_of_be_le: "u16_of_be hi lo = u16_of_le lo hi"
  by (simp add: u16_of_be_def u16_of_le_def or.commute)

lemma u16_or_plus: "(ucast (lo :: byte) :: u16) OR push_bit 8 (ucast (hi :: byte)) = ucast lo + push_bit 8 (ucast hi)"
  by (rule disjunctive_add_eq_or [symmetric], rule bit_eqI) (auto simp: bit_simps dest: byte_bit_bound)

lemma unat_u16_of_le: "unat (u16_of_le lo hi) = unat lo + 256 * unat hi"
proof -
  have lo: "unat lo < 256" and hi: "unat hi < 256"
    using unsigned_less [of lo] unsigned_less [of hi] by simp_all
  then show ?thesis
    unfolding u16_of_le_def u16_or_plus
    by (simp add: unat_word_ariths push_bit_eq_mult unsigned_ucast_eq take_bit_nat_eq_self)
qed

lemma unat_u16_of_be: "unat (u16_of_be hi lo) = 256 * unat hi + unat lo"
  by (simp add: u16_of_be_le unat_u16_of_le)

lemma u16_of_le_split [simp]: "u16_of_le (u16_lo v) (u16_hi v) = v"
  by (rule bit_eqI) (auto simp: u16_of_le_def u16_lo_def u16_hi_def bit_simps bit_0xff dest: byte_bit_bound)

lemma u16_lo_of_le [simp]: "u16_lo (u16_of_le lo hi) = lo"
  by (rule bit_eqI) (auto simp: u16_of_le_def u16_lo_def bit_simps bit_0xff dest: byte_bit_bound)

lemma u16_hi_of_le [simp]: "u16_hi (u16_of_le lo hi) = hi"
  by (rule bit_eqI) (auto simp: u16_of_le_def u16_hi_def bit_simps bit_0xff dest: byte_bit_bound)

text \<open>\<open>wr_u16le\<close>, \<open>wr_u32le\<close>: the bytes written at \<open>p[0..]\<close>.\<close>

definition wr_u16le :: "u16 \<Rightarrow> bytes" where
  "wr_u16le v = [u16_lo v, u16_hi v]"

definition wr_u32le :: "u32 \<Rightarrow> bytes" where
  "wr_u32le v =
     [ucast (v AND 0xff), ucast (drop_bit 8 v AND 0xff),
      ucast (drop_bit 16 v AND 0xff), ucast (drop_bit 24 v AND 0xff)]"

definition u32_of_le :: "byte \<Rightarrow> byte \<Rightarrow> byte \<Rightarrow> byte \<Rightarrow> u32" where
  "u32_of_le b0 b1 b2 b3 =
     ucast b0 OR push_bit 8 (ucast b1) OR push_bit 16 (ucast b2) OR push_bit 24 (ucast b3)"

lemma length_wr_u16le [simp, wire_len]: "length (wr_u16le v) = 2"
  by (simp add: wr_u16le_def)

lemma app_eq_wr_u16le: "[a, b] @ xs = wr_u16le v @ ys \<longleftrightarrow> u16_of_le a b = v \<and> xs = ys"
proof
  assume "[a, b] @ xs = wr_u16le v @ ys"
  then have "a = u16_lo v" "b = u16_hi v" "xs = ys" by (simp_all add: wr_u16le_def)
  then show "u16_of_le a b = v \<and> xs = ys" by simp
qed (auto simp: wr_u16le_def)

lemma length_wr_u32le [simp, wire_len]: "length (wr_u32le v) = 4"
  by (simp add: wr_u32le_def)

lemma u32_of_le_wr:
  "u32_of_le (wr_u32le v ! 0) (wr_u32le v ! 1) (wr_u32le v ! 2) (wr_u32le v ! 3) = v"
proof (rule bit_word_eqI)
  fix n assume "n < LENGTH(32)"
  then have "n < 32" by simp
  then consider "n < 8" | "8 \<le> n" "n < 16" | "16 \<le> n" "n < 24" | "24 \<le> n" "n < 32"
    by fastforce
  then show "bit (u32_of_le (wr_u32le v ! 0) (wr_u32le v ! 1) (wr_u32le v ! 2) (wr_u32le v ! 3)) n = bit v n"
    by cases (auto simp: u32_of_le_def wr_u32le_def bit_simps bit_0xff)
qed

lemma wr_u32le_of_le: "wr_u32le (u32_of_le b0 b1 b2 b3) = [b0, b1, b2, b3]"
  by (auto simp: u32_of_le_def wr_u32le_def bit_eq_iff bit_simps bit_0xff dest: byte_bit_bound)

lemma wr_u32le_inj: "wr_u32le v = wr_u32le v' \<Longrightarrow> v = v'"
  by (metis u32_of_le_wr)

subsection \<open>\<open>gsize\<close> arithmetic\<close>

lemma unat_of_nat_u64: "k < 2 ^ 64 \<Longrightarrow> unat (word_of_nat k :: u64) = k"
  by (simp add: unat_of_nat)

lemma unat_u64_less: "unat (x :: u64) < 2 ^ 64"
proof -
  have "unat x < 2 ^ LENGTH(64)" by (rule unsigned_less)
  then show ?thesis by simp
qed

lemma unat_add_u64: "unat (a :: u64) + unat b < 2 ^ 64 \<Longrightarrow> unat (a + b) = unat a + unat b"
  by (simp add: unat_word_ariths)

lemma unat_sub_u64: "b \<le> (a :: u64) \<Longrightarrow> unat (a - b) = unat a - unat b"
  by (rule unat_sub)

lemma unat_min_u64: "unat (min a (b :: u64)) = min (unat a) (unat b)"
  by (simp add: min_def word_le_nat_alt)

subsection \<open>Lists\<close>

text \<open>\<open>memcpy (buf + off, src, length src)\<close> into a buffer that has room for it.\<close>

definition splice :: "bytes \<Rightarrow> nat \<Rightarrow> bytes \<Rightarrow> bytes" where
  "splice buf off src = take off buf @ src @ drop (off + length src) buf"

lemma length_splice [simp, wire_len]:
  "off + length src \<le> length buf \<Longrightarrow> length (splice buf off src) = length buf"
  by (simp add: splice_def)

lemma slice_splice_same:
  "off \<le> length buf \<Longrightarrow> take (length src) (drop off (splice buf off src)) = src"
  by (simp add: splice_def)

lemma take_splice: "off \<le> length buf \<Longrightarrow> take off (splice buf off src) = take off buf"
  by (simp add: splice_def)

lemma nth_splice:
  assumes "off + length src \<le> length buf" "i < length buf"
  shows "splice buf off src ! i = (if off \<le> i \<and> i < off + length src then src ! (i - off) else buf ! i)"
  using assms by (auto simp: splice_def nth_append)

lemma take_replicate_append: "take n (xs @ replicate k a) = take n xs @ replicate (min (n - length xs) k) a"
  by (simp add: min.commute)

lemma drop_4:
  "off + 4 \<le> length xs \<Longrightarrow> drop off xs = [xs ! off, xs ! (off + 1), xs ! (off + 2), xs ! (off + 3)] @ drop (off + 4) xs"
  by (simp add: Cons_nth_drop_Suc numeral_eq_Suc)

lemma take_4: "4 \<le> length xs \<Longrightarrow> take 4 xs = [xs ! 0, xs ! 1, xs ! 2, xs ! 3]"
  using arg_cong [OF drop_4 [of 0 xs], of "take 4"] by (simp add: numeral_2_eq_2)

end
