(* ===== verification/Codec.thy ===== *)
theory Codec
  imports Prelude
begin

text \<open>
  The interface between a wire format and the code that stores or sends it: an encoder, a
  decoder that may refuse, the values that fit the format, and its width. The certificate,
  the EC field, the pairing blob and the integer fields all satisfy it; the file layer and the
  handshake only use the laws below.
\<close>

locale byte_codec =
  fixes enc :: "'a \<Rightarrow> bytes"
    and dec :: "bytes \<Rightarrow> 'a res"
    and fits :: "'a \<Rightarrow> bool"
    and width :: nat
  assumes enc_width: "fits a \<Longrightarrow> length (enc a) = width"
    and dec_enc: "fits a \<Longrightarrow> dec (enc a) = Inr a"
begin

lemma enc_inj: "fits a \<Longrightarrow> fits b \<Longrightarrow> enc a = enc b \<Longrightarrow> a = b"
  by (metis dec_enc sum.inject(2))

lemma enc_eq_iff: "fits a \<Longrightarrow> fits b \<Longrightarrow> enc a = enc b \<longleftrightarrow> a = b"
  using enc_inj by blast

text \<open>A field stored at an offset of a larger blob is read back whatever surrounds it.\<close>

lemma dec_field: "fits a \<Longrightarrow> dec (take width (drop (length pre) (pre @ enc a @ post))) = Inr a"
  by (simp add: enc_width dec_enc)

lemma dec_last_field: "fits a \<Longrightarrow> dec (drop (length pre) (pre @ enc a)) = Inr a"
  by (simp add: dec_enc)

end

text \<open>
  A codec whose decoder produces only values that fit: what it accepts is safe to encode and
  to hand on, and re-encoding it keeps it.
\<close>

locale checked_codec = byte_codec +
  assumes dec_fits: "length buf = width \<Longrightarrow> dec buf = Inr a \<Longrightarrow> fits a"
begin

lemma dec_stable: "length buf = width \<Longrightarrow> dec buf = Inr a \<Longrightarrow> dec (enc a) = Inr a"
  by (simp add: dec_fits dec_enc)

lemma enc_dec_idem:
  assumes "length buf = width" "dec buf = Inr a" "dec (enc a) = Inr b"
  shows "enc b = enc a"
  using assms dec_stable by simp

end

definition rd_u16le :: "bytes \<Rightarrow> u16 res" where
  "rd_u16le p = bind_res (rd8 p 0) (\<lambda>lo. bind_res (rd8 p 1) (\<lambda>hi. Inr (u16_of_le lo hi)))"

lemma rd_u16le_ok: "2 \<le> length p \<Longrightarrow> rd_u16le p = Inr (u16_of_le (p ! 0) (p ! 1))"
  by (auto simp: rd_u16le_def rd8_def)

interpretation u16_codec: checked_codec wr_u16le rd_u16le "\<lambda>_. True" 2
  by unfold_locales (simp_all add: rd_u16le_def wr_u16le_def)

end
