(* ===== verification/Platform.thy ===== *)
theory Platform
  imports Prelude
begin

text \<open>
  Everything the driver calls that is not in the repository, as parameters: OpenSSL
  (\<open>crypto\<close>), and the operating environment \<open>'w platform\<close> over an arbitrary type \<open>'w\<close> of
  worlds (GUsb transfers, the monotonic clock, \<open>RAND_bytes\<close>, the file system, the
  USB topology, and libfprint's \<open>FpiSsm\<close> dispatcher). The driver's definitions take a
  platform as their argument; nothing here says how these operations work.

  The predicates ending in \<open>_doc\<close> state the documented behaviour some theorems rely on.
\<close>

subsection \<open>libcrypto\<close>

datatype md = MD_SHA256 | MD_SHA384

fun md_size :: "md \<Rightarrow> nat" where
  "md_size MD_SHA256 = 32"
| "md_size MD_SHA384 = 48"

text \<open>
  \<open>None\<close>, \<open>False\<close> or a value other than 1 is a failing OpenSSL call. The AES-256-GCM
  calls take key, IV, AAD and text (and the tag), and stand for the \<open>EVP_Encrypt\<close> and
  \<open>EVP_Decrypt\<close> sequences on one context. Big integers are their 32 big-endian bytes.
\<close>

record crypto =
  hmac :: "md \<Rightarrow> bytes \<Rightarrow> bytes \<Rightarrow> bytes option"
  sha256 :: "bytes \<Rightarrow> bytes"
  gcm_encrypt :: "bytes \<Rightarrow> bytes \<Rightarrow> bytes \<Rightarrow> bytes \<Rightarrow> (bytes \<times> bytes) option"
  gcm_decrypt :: "bytes \<Rightarrow> bytes \<Rightarrow> bytes \<Rightarrow> bytes \<Rightarrow> bytes \<Rightarrow> bytes option"
  ec_set_private_key :: "bytes \<Rightarrow> bool"
  ec_set_public_key :: "bytes \<Rightarrow> bytes \<Rightarrow> bool"
  ecdh_compute_key :: "bytes \<Rightarrow> bytes \<Rightarrow> bytes \<Rightarrow> bytes"
  ec_point_mul :: "bytes \<Rightarrow> (bytes \<times> bytes) option"
  evp_digest_verify :: "bytes \<Rightarrow> bytes \<Rightarrow> bytes \<Rightarrow> bytes \<Rightarrow> int"

definition mac_doc :: "crypto \<Rightarrow> bool" where
  "mac_doc C \<longleftrightarrow> (\<forall>m k x. \<exists>t. hmac C m k x = Some t \<and> length t = md_size m)"

definition aead_doc :: "crypto \<Rightarrow> bool" where
  "aead_doc C \<longleftrightarrow>
     (\<forall>k iv a p. \<exists>c t. gcm_encrypt C k iv a p = Some (c, t) \<and> length c = length p \<and> length t = 16
        \<and> gcm_decrypt C k iv a c t = Some p)
   \<and> (\<forall>k iv a c t p. gcm_decrypt C k iv a c t = Some p \<longrightarrow> length p = length c)"

definition curve_doc :: "crypto \<Rightarrow> bool" where
  "curve_doc C \<longleftrightarrow> (\<forall>d x y. ec_point_mul C d = Some (x, y) \<longrightarrow> length x = 32 \<and> length y = 32)"

definition hash_doc :: "crypto \<Rightarrow> bool" where
  "hash_doc C \<longleftrightarrow> (\<forall>x. length (sha256 C x) = 32)"

subsection \<open>The state-machine dispatcher\<close>

text \<open>
  The calls a handler or a callback makes on its \<open>FpiSsm\<close>, and where the machine goes
  after one of them. \<open>fpi_ssm_doc\<close> is what libfprint's documentation of these calls says;
  the first argument is the number of states given to \<open>fpi_ssm_new\<close>, the second the
  current state.
\<close>

datatype ssm_call =
    Next_State
  | Jump_To_State nat
  | Jump_To_State_Delayed nat nat      \<comment> \<open>state, milliseconds\<close>
  | Mark_Completed
  | Mark_Failed gerror

datatype ssm_after = Enters nat | Enters_After nat nat | Completes | Fails gerror

type_synonym fpi_ssm = "nat \<Rightarrow> nat \<Rightarrow> ssm_call \<Rightarrow> ssm_after"

definition fpi_ssm_doc :: "fpi_ssm \<Rightarrow> bool" where
  "fpi_ssm_doc L \<longleftrightarrow>
     (\<forall>n c. Suc c < n \<longrightarrow> L n c Next_State = Enters (Suc c))
   \<and> (\<forall>n c. Suc c = n \<longrightarrow> L n c Next_State = Completes)
   \<and> (\<forall>n c s. s < n \<longrightarrow> L n c (Jump_To_State s) = Enters s)
   \<and> (\<forall>n c s ms. s < n \<longrightarrow> L n c (Jump_To_State_Delayed s ms) = Enters_After ms s)
   \<and> (\<forall>n c. L n c Mark_Completed = Completes)
   \<and> (\<forall>n c e. L n c (Mark_Failed e) = Fails e)"

lemma fpi_ssm_docD:
  assumes "fpi_ssm_doc L"
  shows "Suc c < n \<Longrightarrow> L n c Next_State = Enters (Suc c)"
    and "Suc c = n \<Longrightarrow> L n c Next_State = Completes"
    and "s < n \<Longrightarrow> L n c (Jump_To_State s) = Enters s"
    and "s < n \<Longrightarrow> L n c (Jump_To_State_Delayed s ms) = Enters_After ms s"
    and "L n c Mark_Completed = Completes"
    and "L n c (Mark_Failed e) = Fails e"
  using assms unfolding fpi_ssm_doc_def by auto

subsection \<open>The operating environment\<close>

record 'w platform =
  ctrl_out :: "'w \<Rightarrow> byte \<Rightarrow> u16 \<Rightarrow> bytes \<Rightarrow> unit res \<times> 'w"    \<comment> \<open>bRequest, wValue, data\<close>
  ctrl_in :: "'w \<Rightarrow> byte \<Rightarrow> u16 \<Rightarrow> nat \<Rightarrow> bytes res \<times> 'w"       \<comment> \<open>bRequest, wValue, length\<close>
  intr_in :: "'w \<Rightarrow> byte \<Rightarrow> nat \<Rightarrow> nat \<Rightarrow> bytes res \<times> 'w"      \<comment> \<open>endpoint, length, timeout ms\<close>
  mono_time :: "'w \<Rightarrow> int \<times> 'w"                                \<comment> \<open>microseconds\<close>
  pause_us :: "nat \<Rightarrow> 'w \<Rightarrow> 'w"
  unix_time :: "'w \<Rightarrow> u32 \<times> 'w"
  rand_bytes :: "'w \<Rightarrow> nat \<Rightarrow> bytes \<times> 'w"
  evp_digest_sign :: "'w \<Rightarrow> bytes \<Rightarrow> bytes \<Rightarrow> bytes option \<times> 'w"  \<comment> \<open>private key, message\<close>
  ecdsa_sign :: "'w \<Rightarrow> bytes \<Rightarrow> bytes \<Rightarrow> bytes option \<times> 'w"       \<comment> \<open>private key, digest\<close>
  ec_generate :: "'w \<Rightarrow> (bytes \<times> bytes \<times> bytes) option \<times> 'w"  \<comment> \<open>private, x, y\<close>
  usb_interfaces :: "'w \<Rightarrow> (nat \<times> byte list) list res \<times> 'w"    \<comment> \<open>number, endpoint addresses\<close>
  usb_claim :: "'w \<Rightarrow> nat \<Rightarrow> unit res \<times> 'w"
  usb_release :: "'w \<Rightarrow> nat \<Rightarrow> unit res \<times> 'w"
  env_var :: "string \<Rightarrow> string option"
  fs_mkdir :: "'w \<Rightarrow> string \<Rightarrow> nat \<Rightarrow> unit res \<times> 'w"            \<comment> \<open>path, mode\<close>
  fs_open_trunc :: "'w \<Rightarrow> string \<Rightarrow> nat \<Rightarrow> unit res \<times> 'w"       \<comment> \<open>path, mode\<close>
  fs_write :: "'w \<Rightarrow> string \<Rightarrow> bytes \<Rightarrow> (nat \<times> file_code) \<times> 'w" \<comment> \<open>bytes written, 0 for -1; errno\<close>
  build_filename :: "string \<Rightarrow> string \<Rightarrow> string"
  fs_read :: "'w \<Rightarrow> string \<Rightarrow> bytes res \<times> 'w"
  user_id :: u32
  fpi :: fpi_ssm
  lib :: crypto

text \<open>A USB IN transfer never delivers more than the buffer it was given.\<close>

definition usb_doc :: "'w platform \<Rightarrow> bool" where
  "usb_doc P \<longleftrightarrow> (\<forall>w req v n data w'. ctrl_in P w req v n = (Inr data, w') \<longrightarrow> length data \<le> n)"

lemma usb_doc_ctrl_in: "usb_doc P \<Longrightarrow> ctrl_in P w req v n = (Inr data, w') \<Longrightarrow> length data \<le> n"
  unfolding usb_doc_def by blast

definition rand_doc :: "'w platform \<Rightarrow> bool" where
  "rand_doc P \<longleftrightarrow> (\<forall>w n. length (fst (rand_bytes P w n)) = n)"

lemma rand_docD: "rand_doc P \<Longrightarrow> rand_bytes P w n = (b, w') \<Longrightarrow> length b = n"
  unfolding rand_doc_def by (metis fst_conv)

text \<open>\<open>EC_KEY_generate_key\<close> on P-256, with the private scalar padded to 32 bytes.\<close>

definition keygen_doc :: "'w platform \<Rightarrow> bool" where
  "keygen_doc P \<longleftrightarrow> (\<forall>w k x y w'. ec_generate P w = (Some (k, x, y), w') \<longrightarrow> length k = 32)"

lemma keygen_docD: "keygen_doc P \<Longrightarrow> ec_generate P w = (Some (k, x, y), w') \<Longrightarrow> length k = 32"
  unfolding keygen_doc_def by blast

text \<open>The clock does not go back, and an interrupt transfer takes at least a microsecond;
  \<open>T\<close> is the time of a world.\<close>

definition clock_doc :: "'w platform \<Rightarrow> ('w \<Rightarrow> int) \<Rightarrow> bool" where
  "clock_doc P T \<longleftrightarrow>
     (\<forall>w. fst (mono_time P w) = T w \<and> T w \<le> T (snd (mono_time P w)))
   \<and> (\<forall>w ep n t. T w < T (snd (intr_in P w ep n t)))"

lemma clock_docD:
  assumes "clock_doc P T"
  shows "mono_time P w = (now, w') \<Longrightarrow> now = T w \<and> T w \<le> T w'"
    and "intr_in P w ep n t = (r, w') \<Longrightarrow> T w < T w'"
  using assms unfolding clock_doc_def by (metis fst_conv snd_conv)+

text \<open>An interrupt endpoint with a queue \<open>q\<close> of pending events: a transfer takes the oldest
  one, or times out.\<close>

definition event_queue :: "'w platform \<Rightarrow> byte \<Rightarrow> ('w \<Rightarrow> bytes list) \<Rightarrow> bool" where
  "event_queue P ep q \<longleftrightarrow>
     (\<forall>w n t. case q w of
        [] \<Rightarrow> fst (intr_in P w ep n t) = Inl Usb_Timed_Out \<and> q (snd (intr_in P w ep n t)) = []
      | ev # evs \<Rightarrow> fst (intr_in P w ep n t) = Inr ev \<and> q (snd (intr_in P w ep n t)) = evs)
   \<and> (\<forall>w. q (snd (mono_time P w)) = q w)"

lemma event_queue_next:
  "event_queue P ep q \<Longrightarrow> q w = ev # evs \<Longrightarrow> \<exists>w'. intr_in P w ep n t = (Inr ev, w') \<and> q w' = evs"
  using event_queue_def [THEN iffD1, THEN conjunct1, rule_format, of P ep q w n t]
  by (cases "intr_in P w ep n t") simp

lemma event_queue_empty:
  "event_queue P ep q \<Longrightarrow> q w = [] \<Longrightarrow> \<exists>w'. intr_in P w ep n t = (Inl Usb_Timed_Out, w') \<and> q w' = []"
  using event_queue_def [THEN iffD1, THEN conjunct1, rule_format, of P ep q w n t]
  by (cases "intr_in P w ep n t") simp

lemma event_queue_clock: "event_queue P ep q \<Longrightarrow> mono_time P w = (now, w') \<Longrightarrow> q w' = q w"
  using spec [OF conjunct2 [OF iffD1 [OF event_queue_def]], of P ep q w] by simp

text \<open>Files, as a map \<open>F\<close> from paths to contents: opening with \<open>O_CREAT | O_TRUNC\<close> leaves the
  file empty, a write puts a prefix of the data into it, a read that succeeds gives the contents,
  and \<open>G_FILE_ERROR_NOENT\<close> is the error of a missing file and of no other. A file that is there
  may still be refused.\<close>

definition files_doc :: "'w platform \<Rightarrow> ('w \<Rightarrow> string \<Rightarrow> bytes option) \<Rightarrow> bool" where
  "files_doc P F \<longleftrightarrow>
     (\<forall>w path m. F (snd (fs_mkdir P w path m)) = F w)
   \<and> (\<forall>w path m w'. fs_open_trunc P w path m = (Inr (), w') \<longrightarrow> F w' = (F w)(path \<mapsto> []))
   \<and> (\<forall>w path m e w'. fs_open_trunc P w path m = (Inl e, w') \<longrightarrow> F w' = F w)
   \<and> (\<forall>w path data n c w'. fs_write P w path data = ((n, c), w')
        \<longrightarrow> n \<le> length data \<and> F w' = (F w)(path \<mapsto> take n data))
   \<and> (\<forall>w path. F (snd (fs_read P w path)) = F w)
   \<and> (\<forall>w path data. fst (fs_read P w path) = Inr data \<longrightarrow> F w path = Some data)
   \<and> (\<forall>w path. fst (fs_read P w path) = Inl (File_Error FILE_NOENT) \<longleftrightarrow> F w path = None)"

lemma files_docD:
  assumes "files_doc P F"
  shows "fs_mkdir P w path m = (r, w') \<Longrightarrow> F w' = F w"
    and "fs_open_trunc P w path m = (Inr (), w') \<Longrightarrow> F w' = (F w)(path \<mapsto> [])"
    and "fs_open_trunc P w path m = (Inl e, w') \<Longrightarrow> F w' = F w"
    and "fs_write P w path data = ((n, c), w') \<Longrightarrow> n \<le> length data \<and> F w' = (F w)(path \<mapsto> take n data)"
    and "fs_read P w path = (q, w') \<Longrightarrow> F w' = F w"
    and "fs_read P w path = (Inr data, w') \<Longrightarrow> F w path = Some data"
    and "fs_read P w path = (q, w') \<Longrightarrow> q = Inl (File_Error FILE_NOENT) \<longleftrightarrow> F w path = None"
proof -
  note d = assms [unfolded files_doc_def]
  show "fs_mkdir P w path m = (r, w') \<Longrightarrow> F w' = F w" using d by (metis snd_conv)
  show "fs_open_trunc P w path m = (Inr (), w') \<Longrightarrow> F w' = (F w)(path \<mapsto> [])" using d by simp
  show "fs_open_trunc P w path m = (Inl e, w') \<Longrightarrow> F w' = F w" using d by simp
  show "fs_write P w path data = ((n, c), w') \<Longrightarrow> n \<le> length data \<and> F w' = (F w)(path \<mapsto> take n data)"
    using d by simp
  show "fs_read P w path = (q, w') \<Longrightarrow> F w' = F w" using d by (metis snd_conv)
  show "fs_read P w path = (Inr data, w') \<Longrightarrow> F w path = Some data" using d by (metis fst_conv)
  show "fs_read P w path = (q, w') \<Longrightarrow> q = Inl (File_Error FILE_NOENT) \<longleftrightarrow> F w path = None" using d by (metis fst_conv)
qed

text \<open>The same where every file that is there can be read.\<close>

definition fs_doc :: "'w platform \<Rightarrow> ('w \<Rightarrow> string \<Rightarrow> bytes option) \<Rightarrow> bool" where
  "fs_doc P F \<longleftrightarrow> files_doc P F \<and> (\<forall>w path data. F w path = Some data \<longrightarrow> fst (fs_read P w path) = Inr data)"

lemma fs_doc_files: "fs_doc P F \<Longrightarrow> files_doc P F"
  by (simp add: fs_doc_def)

lemma fs_docD:
  assumes "fs_doc P F"
  shows "fs_mkdir P w path m = (r, w') \<Longrightarrow> F w' = F w"
    and "fs_open_trunc P w path m = (Inr (), w') \<Longrightarrow> F w' = (F w)(path \<mapsto> [])"
    and "fs_open_trunc P w path m = (Inl e, w') \<Longrightarrow> F w' = F w"
    and "fs_write P w path data = ((n, c), w') \<Longrightarrow> n \<le> length data \<and> F w' = (F w)(path \<mapsto> take n data)"
    and "fs_read P w path = (q, w') \<Longrightarrow> F w' = F w"
    and "F w path = Some data \<Longrightarrow> fst (fs_read P w path) = Inr data"
    and "F w path = None \<Longrightarrow> fst (fs_read P w path) = Inl (File_Error FILE_NOENT)"
proof -
  note d = files_docD [OF fs_doc_files [OF assms]]
  show "fs_mkdir P w path m = (r, w') \<Longrightarrow> F w' = F w" by (rule d(1))
  show "fs_open_trunc P w path m = (Inr (), w') \<Longrightarrow> F w' = (F w)(path \<mapsto> [])" by (rule d(2))
  show "fs_open_trunc P w path m = (Inl e, w') \<Longrightarrow> F w' = F w" by (rule d(3))
  show "fs_write P w path data = ((n, c), w') \<Longrightarrow> n \<le> length data \<and> F w' = (F w)(path \<mapsto> take n data)" by (rule d(4))
  show "fs_read P w path = (q, w') \<Longrightarrow> F w' = F w" by (rule d(5))
  show "F w path = Some data \<Longrightarrow> fst (fs_read P w path) = Inr data" using assms by (simp add: fs_doc_def)
  show "F w path = None \<Longrightarrow> fst (fs_read P w path) = Inl (File_Error FILE_NOENT)"
    using d(7) [of w path "fst (fs_read P w path)" "snd (fs_read P w path)"] by simp
qed

end
