(* ===== verification/Ssm.thy ===== *)
theory Ssm
  imports Platform
begin

text \<open>
  Executions of an \<open>FpiSsm\<close> and the two contracts every machine of the driver is checked
  against: \<open>ssm_contract\<close> (an invariant per state, and what holds when the machine completes
  or fails) and \<open>ssm_measured\<close> (a measure that makes it finish).
\<close>

subsection \<open>Running a state machine\<close>

text \<open>
  One pass of the GLib main loop for a machine: the handler of the current state starts its
  transfer, the transfer's callback makes one \<open>ssm_call\<close> (\<open>step\<close> is both together, on
  the state \<open>'s\<close> they share), and the dispatcher says which state is entered next. The
  recursion spends one unit of fuel per state entered; \<open>None\<close> is ``has not finished within
  the fuel'', which is also what a nested machine that has not finished makes of its caller.
\<close>

fun ssm_run :: "fpi_ssm \<Rightarrow> (nat \<Rightarrow> 's \<Rightarrow> 's) \<Rightarrow> nat \<Rightarrow> (nat \<Rightarrow> 's \<Rightarrow> (ssm_call \<times> 's) option)
    \<Rightarrow> nat \<Rightarrow> nat \<Rightarrow> 's \<Rightarrow> (unit res \<times> 's) option" where
  "ssm_run L delay n step 0 c s = None"
| "ssm_run L delay n step (Suc fuel) c s =
     (case step c s of
        None \<Rightarrow> None
      | Some (call, s') \<Rightarrow>
          (case L n c call of
             Enters c' \<Rightarrow> ssm_run L delay n step fuel c' s'
           | Enters_After ms c' \<Rightarrow> ssm_run L delay n step fuel c' (delay ms s')
           | Completes \<Rightarrow> Some (Inr (), s')
           | Fails e \<Rightarrow> Some (Inl e, s')))"

text \<open>\<open>fpi_ssm_jump_to_state_delayed\<close> re-enters the state after so many milliseconds.\<close>

definition world_delay :: "'w platform \<Rightarrow> nat \<Rightarrow> 'c \<times> 'w \<Rightarrow> 'c \<times> 'w" where
  "world_delay P ms = (\<lambda>(c, w). (c, pause_us P (1000 * ms) w))"

lemma ssm_run_mono_Suc:
  "ssm_run L delay n step fuel c s = Some r \<Longrightarrow> ssm_run L delay n step (Suc fuel) c s = Some r"
proof (induction fuel arbitrary: c s)
  case 0
  then show ?case by simp
next
  case (Suc fuel)
  from Suc.prems show ?case
    by (auto simp del: ssm_run.simps
        simp: ssm_run.simps(2) [of L delay n step fuel c s] ssm_run.simps(2) [of L delay n step "Suc fuel" c s]
        intro: Suc.IH split: option.splits ssm_after.splits)
qed

lemma ssm_run_mono:
  "ssm_run L delay n step fuel c s = Some r \<Longrightarrow> fuel \<le> fuel'
    \<Longrightarrow> ssm_run L delay n step fuel' c s = Some r"
proof (induction fuel' rule: nat_induct)
  case 0
  then show ?case by simp
next
  case (Suc m)
  then show ?case
    by (cases "fuel = Suc m") (auto intro: ssm_run_mono_Suc simp del: ssm_run.simps)
qed

text \<open>One state of a run, by the call its callback makes.\<close>

lemma ssm_run_steps:
  assumes "fpi_ssm_doc L"
  shows "step c s = None \<Longrightarrow> ssm_run L delay n step (Suc fuel) c s = None"
    and "step c s = Some (Next_State, s') \<Longrightarrow> Suc c < n
      \<Longrightarrow> ssm_run L delay n step (Suc fuel) c s = ssm_run L delay n step fuel (Suc c) s'"
    and "step c s = Some (Next_State, s') \<Longrightarrow> Suc c = n \<Longrightarrow> ssm_run L delay n step (Suc fuel) c s = Some (Inr (), s')"
    and "step c s = Some (Jump_To_State t, s') \<Longrightarrow> t < n
      \<Longrightarrow> ssm_run L delay n step (Suc fuel) c s = ssm_run L delay n step fuel t s'"
    and "step c s = Some (Jump_To_State_Delayed t ms, s') \<Longrightarrow> t < n
      \<Longrightarrow> ssm_run L delay n step (Suc fuel) c s = ssm_run L delay n step fuel t (delay ms s')"
    and "step c s = Some (Mark_Completed, s') \<Longrightarrow> ssm_run L delay n step (Suc fuel) c s = Some (Inr (), s')"
    and "step c s = Some (Mark_Failed e, s') \<Longrightarrow> ssm_run L delay n step (Suc fuel) c s = Some (Inl e, s')"
  using fpi_ssm_docD [OF assms] by auto

subsection \<open>Contracts of a machine\<close>

locale ssm_contract =
  fixes n :: nat
    and step :: "nat \<Rightarrow> 's \<Rightarrow> (ssm_call \<times> 's) option"
    and delay :: "nat \<Rightarrow> 's \<Rightarrow> 's"
    and inv :: "nat \<Rightarrow> 's \<Rightarrow> bool"
    and post :: "unit res \<Rightarrow> 's \<Rightarrow> bool"
  assumes next_state: "c < n \<Longrightarrow> inv c s \<Longrightarrow> step c s = Some (Next_State, s') \<Longrightarrow>
      if Suc c < n then inv (Suc c) s' else post (Inr ()) s'"
    and jump: "c < n \<Longrightarrow> inv c s \<Longrightarrow> step c s = Some (Jump_To_State t, s') \<Longrightarrow> t < n \<and> inv t s'"
    and jump_delayed: "c < n \<Longrightarrow> inv c s \<Longrightarrow> step c s = Some (Jump_To_State_Delayed t ms, s')
      \<Longrightarrow> t < n \<and> inv t (delay ms s')"
    and completed: "c < n \<Longrightarrow> inv c s \<Longrightarrow> step c s = Some (Mark_Completed, s') \<Longrightarrow> post (Inr ()) s'"
    and failed: "c < n \<Longrightarrow> inv c s \<Longrightarrow> step c s = Some (Mark_Failed e, s') \<Longrightarrow> post (Inl e) s'"
begin

lemma run_post:
  assumes "fpi_ssm_doc L" "c < n" "inv c s" "ssm_run L delay n step fuel c s = Some (r, s')"
  shows "post r s'"
  using assms(2-)
proof (induction fuel arbitrary: c s)
  case 0
  then show ?case by simp
next
  case (Suc fuel)
  obtain call s1 where st: "step c s = Some (call, s1)"
    using Suc.prems(3) by (auto split: option.splits)
  note doc = fpi_ssm_docD [OF assms(1)]
  show ?case
  proof (cases call)
    case Next_State
    with next_state [OF Suc.prems(1,2)] st have h: "if Suc c < n then inv (Suc c) s1 else post (Inr ()) s1"
      by simp
    show ?thesis
    proof (cases "Suc c < n")
      case True
      then show ?thesis using Suc.IH [OF True, of s1] h Suc.prems(3) st Next_State by (simp add: doc)
    next
      case False
      then have "Suc c = n" using Suc.prems(1) by simp
      then show ?thesis using h Suc.prems(3) st Next_State by (simp add: doc)
    qed
  next
    case (Jump_To_State t)
    with jump [OF Suc.prems(1,2)] st have "t < n" "inv t s1" by auto
    then show ?thesis using Suc.IH [of t s1] Suc.prems(3) st Jump_To_State by (simp add: doc)
  next
    case (Jump_To_State_Delayed t ms)
    with jump_delayed [OF Suc.prems(1,2)] st have "t < n" "inv t (delay ms s1)" by auto
    then show ?thesis
      using Suc.IH [of t "delay ms s1"] Suc.prems(3) st Jump_To_State_Delayed by (simp add: doc)
  next
    case Mark_Completed
    with completed [OF Suc.prems(1,2)] st Suc.prems(3) show ?thesis by (simp add: doc)
  next
    case (Mark_Failed e)
    with failed [OF Suc.prems(1,2)] st Suc.prems(3) show ?thesis by (simp add: doc)
  qed
qed

end

text \<open>The five laws at once: what must hold where a call leads.\<close>

definition ssm_allows :: "nat \<Rightarrow> (nat \<Rightarrow> 's \<Rightarrow> 's) \<Rightarrow> (nat \<Rightarrow> 's \<Rightarrow> bool) \<Rightarrow> (unit res \<Rightarrow> 's \<Rightarrow> bool)
    \<Rightarrow> nat \<Rightarrow> ssm_call \<times> 's \<Rightarrow> bool" where
  "ssm_allows n delay I Q c = (\<lambda>(call, s).
     case call of
       Next_State \<Rightarrow> if Suc c < n then I (Suc c) s else Q (Inr ()) s
     | Jump_To_State t \<Rightarrow> t < n \<and> I t s
     | Jump_To_State_Delayed t ms \<Rightarrow> t < n \<and> I t (delay ms s)
     | Mark_Completed \<Rightarrow> Q (Inr ()) s
     | Mark_Failed e \<Rightarrow> Q (Inl e) s)"

lemma ssm_contractI:
  assumes "\<And>c s q. c < n \<Longrightarrow> I c s \<Longrightarrow> step c s = Some q \<Longrightarrow> ssm_allows n delay I Q c q"
  shows "ssm_contract n step delay I Q"
  by unfold_locales (use assms in \<open>force simp: ssm_allows_def\<close>)+

text \<open>The states a call leads to, and the measure that must go down on the way.\<close>

locale ssm_measured = ssm_contract +
  fixes mu :: "nat \<Rightarrow> 's \<Rightarrow> nat"
  assumes progress: "c < n \<Longrightarrow> inv c s \<Longrightarrow> step c s \<noteq> None"
    and next_less: "Suc c < n \<Longrightarrow> inv c s \<Longrightarrow> step c s = Some (Next_State, s') \<Longrightarrow> mu (Suc c) s' < mu c s"
    and jump_less: "c < n \<Longrightarrow> inv c s \<Longrightarrow> step c s = Some (Jump_To_State t, s') \<Longrightarrow> mu t s' < mu c s"
    and delayed_less: "c < n \<Longrightarrow> inv c s \<Longrightarrow> step c s = Some (Jump_To_State_Delayed t ms, s')
      \<Longrightarrow> mu t (delay ms s') < mu c s"
begin

lemma run_total:
  assumes "fpi_ssm_doc L" "c < n" "inv c s" "mu c s < fuel"
  shows "\<exists>r s'. ssm_run L delay n step fuel c s = Some (r, s') \<and> post r s'"
proof -
  have "\<exists>r s'. ssm_run L delay n step fuel c s = Some (r, s')"
    using assms(2-)
  proof (induction fuel arbitrary: c s)
    case 0
    then show ?case by simp
  next
    case (Suc fuel)
    obtain call s1 where st: "step c s = Some (call, s1)"
      using progress [OF Suc.prems(1,2)] by auto
    note doc = fpi_ssm_docD [OF assms(1)]
    show ?case
    proof (cases call)
      case Next_State
      show ?thesis
      proof (cases "Suc c < n")
        case True
        with Suc.prems(2) next_state [OF Suc.prems(1,2)] next_less st Next_State
        have "inv (Suc c) s1" "mu (Suc c) s1 < mu c s" by auto
        then show ?thesis using Suc.IH [OF True, of s1] Suc.prems(3) st Next_State True by (simp add: doc)
      next
        case False
        then have "Suc c = n" using Suc.prems(1) by simp
        then show ?thesis using st Next_State by (simp add: doc)
      qed
    next
      case (Jump_To_State t)
      with jump [OF Suc.prems(1,2)] jump_less [OF Suc.prems(1,2)] st
      have "t < n" "inv t s1" "mu t s1 < mu c s" by auto
      then show ?thesis using Suc.IH [of t s1] Suc.prems(3) st Jump_To_State by (simp add: doc)
    next
      case (Jump_To_State_Delayed t ms)
      with jump_delayed [OF Suc.prems(1,2)] delayed_less [OF Suc.prems(1,2)] st
      have "t < n" "inv t (delay ms s1)" "mu t (delay ms s1) < mu c s" by auto
      then show ?thesis
        using Suc.IH [of t "delay ms s1"] Suc.prems(3) st Jump_To_State_Delayed by (simp add: doc)
    next
      case Mark_Completed
      then show ?thesis using st by (simp add: doc)
    next
      case (Mark_Failed e)
      then show ?thesis using st by (simp add: doc)
    qed
  qed
  then show ?thesis using run_post [OF assms(1-3)] by blast
qed

end

end
