(* ===== verification/Sample.thy ===== *)
theory Sample
  imports Ssm
begin

text \<open>
  A concrete platform the hypotheses of the theorems are satisfied at: a dispatcher that does
  what libfprint documents, a trivial libcrypto with the documented lengths, and a world with
  a pending reply, a number of not-ready answers before it, an interrupt queue, a clock and
  files.
\<close>

definition sample_ssm :: fpi_ssm where
  "sample_ssm n c call =
     (case call of
        Next_State \<Rightarrow> if Suc c < n then Enters (Suc c) else Completes
      | Jump_To_State s \<Rightarrow> Enters s
      | Jump_To_State_Delayed s ms \<Rightarrow> Enters_After ms s
      | Mark_Completed \<Rightarrow> Completes
      | Mark_Failed e \<Rightarrow> Fails e)"

lemma sample_ssm_doc: "fpi_ssm_doc sample_ssm"
  by (simp add: fpi_ssm_doc_def sample_ssm_def)

definition sample_crypto :: crypto where
  "sample_crypto = \<lparr>hmac = \<lambda>m k x. Some (replicate (md_size m) 0), sha256 = \<lambda>x. replicate 32 0,
     gcm_encrypt = \<lambda>k iv a p. Some (p, replicate 16 0), gcm_decrypt = \<lambda>k iv a c t. Some c,
     ec_set_private_key = \<lambda>d. True, ec_set_public_key = \<lambda>x y. True,
     ecdh_compute_key = \<lambda>d x y. replicate 32 0, ec_point_mul = \<lambda>d. Some (replicate 32 1, replicate 32 2),
     evp_digest_verify = \<lambda>x y m s. 1\<rparr>"

lemma sample_crypto_docs:
  "mac_doc sample_crypto" "aead_doc sample_crypto" "curve_doc sample_crypto" "hash_doc sample_crypto"
  by (simp_all add: mac_doc_def aead_doc_def curve_doc_def hash_doc_def sample_crypto_def)

record world =
  w_pend :: bytes
  w_busy :: nat
  w_events :: "bytes list"
  w_now :: int
  w_files :: "string \<Rightarrow> bytes option"
  w_sent :: "(u16 \<times> bytes) list"

definition sample :: "'a world_scheme platform" where
  "sample = \<lparr>
     ctrl_out = \<lambda>w req v data. (Inr (), w\<lparr>w_sent := w_sent w @ [(v, data)]\<rparr>),
     ctrl_in = \<lambda>w req v n. if 0 < w_busy w then (Inl Usb_Timed_Out, w\<lparr>w_busy := w_busy w - 1\<rparr>)
       else (Inr (take n (w_pend w)), w\<lparr>w_pend := drop n (w_pend w)\<rparr>),
     intr_in = \<lambda>w ep n t. (case w_events w of
         [] \<Rightarrow> (Inl Usb_Timed_Out, w\<lparr>w_now := w_now w + 1000 * int t + 1\<rparr>)
       | ev # evs \<Rightarrow> (Inr ev, w\<lparr>w_events := evs, w_now := w_now w + 1\<rparr>)),
     mono_time = \<lambda>w. (2 * w_now w, w), pause_us = \<lambda>us w. w\<lparr>w_now := w_now w + int us\<rparr>, unix_time = \<lambda>w. (0, w),
     rand_bytes = \<lambda>w n. (replicate n 7, w),
     evp_digest_sign = \<lambda>w k m. (Some [1, 2, 3], w), ecdsa_sign = \<lambda>w k m. (Some [4, 5, 6], w),
     ec_generate = \<lambda>w. (Some (replicate 32 9, replicate 32 1, replicate 32 2), w),
     usb_interfaces = \<lambda>w. (Inr [(0, []), (1, [0x83])], w),
     usb_claim = \<lambda>w n. (Inr (), w), usb_release = \<lambda>w n. (Inr (), w),
     env_var = \<lambda>v. None,
     fs_mkdir = \<lambda>w p m. (Inr (), w),
     fs_open_trunc = \<lambda>w p m. (Inr (), w\<lparr>w_files := (w_files w)(p \<mapsto> [])\<rparr>),
     fs_write = \<lambda>w p d. ((length d, FILE_OTHER 0), w\<lparr>w_files := (w_files w)(p \<mapsto> d)\<rparr>),
     build_filename = \<lambda>d f. d @ ''/'' @ f,
     fs_read = \<lambda>w p. (case w_files w p of None \<Rightarrow> Inl (File_Error FILE_NOENT) | Some d \<Rightarrow> Inr d, w),
     user_id = 1000, fpi = sample_ssm, lib = sample_crypto\<rparr>"

definition world0 :: world where
  "world0 = \<lparr>w_pend = [], w_busy = 0, w_events = [], w_now = 0, w_files = (\<lambda>_. None), w_sent = []\<rparr>"

lemma sample_sel [simp]: "fpi sample = sample_ssm" "lib sample = sample_crypto"
  by (simp_all add: sample_def)

text \<open>The clock shows even numbers of microseconds.\<close>

definition sample_time :: "'a world_scheme \<Rightarrow> int" where
  "sample_time w = 2 * w_now w"

lemma sample_clock: "clock_doc sample sample_time"
  by (auto simp: clock_doc_def sample_time_def sample_def split: list.splits)

lemma sample_rand: "rand_doc sample"
  by (simp add: rand_doc_def sample_def)

lemma sample_queue: "event_queue sample ep w_events"
  by (auto simp: event_queue_def sample_def split: list.splits)

lemma sample_fs: "fs_doc sample w_files"
  by (auto simp: fs_doc_def files_doc_def sample_def split: option.splits)

lemma sample_keygen: "keygen_doc sample"
  by (auto simp: keygen_doc_def sample_def)

end
