(* ===== verification/Crypto.thy ===== *)
theory Crypto
  imports Codec Sample
begin

text \<open>
  \<open>verimark-tls-crypto.c\<close>: the TLS 1.2 PRF and key schedule, the sensor's certificate and
  pairing-blob formats, the AES-GCM record protection, and the EC operations. OpenSSL itself
  is the parameter \<open>crypto\<close>.
\<close>

subsection \<open>PRF and key schedule\<close>

text \<open>\<open>memcpy (inp, label, strlen (label))\<close>\<close>

definition label_bytes :: "string \<Rightarrow> bytes" where
  "label_bytes s = map of_char s"

text \<open>
  The \<open>while (done < out_len)\<close> loop, with \<open>a\<close> the current \<open>A(i)\<close>, \<open>out\<close> the bytes
  produced. Every pass adds at least one byte as long as the MAC is not empty, so \<open>out_len\<close>
  passes of fuel are enough; the caller gives one more.
\<close>

fun prf_loop :: "crypto \<Rightarrow> md \<Rightarrow> bytes \<Rightarrow> bytes \<Rightarrow> nat \<Rightarrow> nat \<Rightarrow> bytes \<Rightarrow> bytes \<Rightarrow> bytes option" where
  "prf_loop C m secret inp out_len 0 a out = None"
| "prf_loop C m secret inp out_len (Suc fuel) a out =
     (if length out < out_len then
        (case hmac C m secret (a @ inp) of
           None \<Rightarrow> None
         | Some block \<Rightarrow>
             let n = min (length block) (out_len - length out); out' = out @ take n block
             in (case hmac C m secret a of
                   None \<Rightarrow> None
                 | Some a' \<Rightarrow> prf_loop C m secret inp out_len fuel a' out'))
      else Some out)"

definition verimark_tls_prf :: "crypto \<Rightarrow> md \<Rightarrow> bytes \<Rightarrow> string \<Rightarrow> bytes \<Rightarrow> nat \<Rightarrow> bytes option" where
  "verimark_tls_prf C m secret label seed out_len =
     (let inp = label_bytes label @ seed
      in (case hmac C m secret inp of
            None \<Rightarrow> None
          | Some a \<Rightarrow> prf_loop C m secret inp out_len (Suc out_len) a []))"

definition verimark_tls_derive_master_secret :: "crypto \<Rightarrow> bytes \<Rightarrow> bytes \<Rightarrow> bytes \<Rightarrow> bytes option" where
  "verimark_tls_derive_master_secret C premaster client_random server_random =
     verimark_tls_prf C MD_SHA384 premaster ''master secret'' (client_random @ server_random) 48"

record tls_keys =
  encr_key :: bytes
  decr_key :: bytes
  encr_iv :: bytes
  decr_iv :: bytes

definition verimark_tls_derive_keys :: "crypto \<Rightarrow> bytes \<Rightarrow> bytes \<Rightarrow> bytes \<Rightarrow> tls_keys option" where
  "verimark_tls_derive_keys C master_secret client_random server_random =
     (case verimark_tls_prf C MD_SHA384 master_secret ''key expansion'' (client_random @ server_random) 72 of
        None \<Rightarrow> None
      | Some block \<Rightarrow> Some \<lparr>encr_key = take 32 block, decr_key = take 32 (drop 32 block),
          encr_iv = take 4 (drop 64 block), decr_iv = take 4 (drop 68 block)\<rparr>)"

subsection \<open>Fields, certificates, pairing blob\<close>

text \<open>The first loop of \<open>le_field_to_be32\<close> looks for a nonzero byte at 32 and above. The functions
  below are given arrays of a fixed length; one that is shorter is a read outside it.\<close>

definition le_field_to_be32 :: "bytes \<Rightarrow> nat \<Rightarrow> bytes res" where
  "le_field_to_be32 le field_len =
     (if length le < field_len then Inl Out_Of_Bounds
      else if \<exists>i \<in> set [32..<field_len]. le ! i \<noteq> 0
      then Inl (Crypto_Error INVALID_DATA ''EC value exceeds 32 bytes'' [])
      else Inr (map (\<lambda>i. le ! (31 - i)) [0..<32]))"

definition be32_to_le_field :: "bytes \<Rightarrow> nat \<Rightarrow> bytes" where
  "be32_to_le_field be field_len = map (\<lambda>i. be ! (31 - i)) [0..<32] @ replicate (field_len - 32) 0"

text \<open>\<open>VerimarkCert\<close> and \<open>VerimarkPairing\<close>; the arrays are 32, 32, 256 and 32 bytes.\<close>

record cert =
  pub_x :: bytes
  pub_y :: bytes
  cert_type :: byte
  sign_size :: u16
  signature :: bytes

record pairing =
  priv_scalar :: bytes
  host_cert :: cert
  sensor_cert :: cert

definition verimark_cert_parse :: "bytes \<Rightarrow> cert res" where
  "verimark_cert_parse buf =
     (if length buf < 400 then Inl Out_Of_Bounds
      else let magic = u16_of_le (buf ! 0) (buf ! 1); curve = u16_of_le (buf ! 2) (buf ! 3)
      in if magic \<noteq> 0x5f3f \<or> curve \<noteq> 23
         then Inl (Crypto_Error INVALID_DATA ''bad cert magic/curve (0x%04x/%u)'' [unat magic, unat curve])
         else bind_res (le_field_to_be32 (drop 4 buf) 68) (\<lambda>x.
              bind_res (le_field_to_be32 (drop 72 buf) 68) (\<lambda>y.
              let sz = u16_of_le (buf ! 142) (buf ! 143)
              in if 256 < sz then Inl (Crypto_Error INVALID_DATA ''sign_size > 256'' [])
                 else Inr \<lparr>pub_x = x, pub_y = y, cert_type = buf ! 141, sign_size = sz,
                           signature = take 256 (drop 144 buf)\<rparr>)))"

definition verimark_cert_serialize :: "cert \<Rightarrow> bytes" where
  "verimark_cert_serialize c =
     [0x3f, 0x5f, 23, 0] @ be32_to_le_field (pub_x c) 68 @ be32_to_le_field (pub_y c) 68
     @ [0, cert_type c, u16_lo (sign_size c), u16_hi (sign_size c)] @ signature c"

definition verimark_cert_signbytes :: "cert \<Rightarrow> bytes" where
  "verimark_cert_signbytes c = take 142 (verimark_cert_serialize c)"

definition verimark_pairing_load :: "bytes \<Rightarrow> pairing res" where
  "verimark_pairing_load buf =
     bind_res (le_field_to_be32 buf 0x44) (\<lambda>d.
     bind_res (verimark_cert_parse (take 400 (drop 0x44 buf))) (\<lambda>host.
     bind_res (verimark_cert_parse (take 400 (drop (0x44 + 400) buf))) (\<lambda>sensor.
     Inr \<lparr>priv_scalar = d, host_cert = host, sensor_cert = sensor\<rparr>)))"

definition verimark_pairing_save :: "pairing \<Rightarrow> bytes" where
  "verimark_pairing_save pd =
     be32_to_le_field (priv_scalar pd) 0x44 @ verimark_cert_serialize (host_cert pd)
     @ verimark_cert_serialize (sensor_cert pd)"

definition verimark_load_tsk_pubkey :: "bytes \<Rightarrow> (bytes \<times> bytes) res" where
  "verimark_load_tsk_pubkey buf =
     bind_res (le_field_to_be32 buf 0x44) (\<lambda>x.
     bind_res (le_field_to_be32 (drop 0x44 buf) 0x44) (\<lambda>y. Inr (x, y)))"

subsection \<open>Record protection\<close>

definition gcm_build_aad :: "u64 \<Rightarrow> byte \<Rightarrow> nat \<Rightarrow> bytes" where
  "gcm_build_aad seq content_type plain_len =
     [ucast (drop_bit 56 seq), ucast (drop_bit 48 seq), ucast (drop_bit 40 seq), ucast (drop_bit 32 seq),
      ucast (drop_bit 24 seq), ucast (drop_bit 16 seq), ucast (drop_bit 8 seq), ucast seq,
      content_type, 0x03, 0x03,
      of_nat (plain_len div 256 mod 256), of_nat (plain_len mod 256)]"

definition gcm_iv :: "bytes \<Rightarrow> bytes \<Rightarrow> bytes" where
  "gcm_iv fixed_iv nonce = take 4 fixed_iv @ take 8 nonce"

definition verimark_tls_gcm_wrap ::
  "crypto \<Rightarrow> bytes \<Rightarrow> bytes \<Rightarrow> u64 \<Rightarrow> byte \<Rightarrow> bytes \<Rightarrow> bytes \<Rightarrow> bytes res" where
  "verimark_tls_gcm_wrap C key fixed_iv seq content_type nonce plain =
     (case gcm_encrypt C key (gcm_iv fixed_iv nonce) (gcm_build_aad seq content_type (length plain)) plain of
        None \<Rightarrow> Inl (Crypto_Error FAILED ''GCM wrap failed'' [])
      | Some (ct, tag) \<Rightarrow> Inr (nonce @ ct @ tag))"

definition verimark_tls_gcm_unwrap ::
  "crypto \<Rightarrow> bytes \<Rightarrow> bytes \<Rightarrow> u64 \<Rightarrow> byte \<Rightarrow> bytes \<Rightarrow> bytes res" where
  "verimark_tls_gcm_unwrap C key fixed_iv seq content_type frag =
     (if length frag < 8 + 16 then Inl (Crypto_Error INVALID_DATA ''short GCM record'' [])
      else
        let plain_len = length frag - 8 - 16; nonce = take 8 frag;
            ct = take plain_len (drop 8 frag); tag = drop (length frag - 16) frag
        in (case gcm_decrypt C key (gcm_iv fixed_iv nonce) (gcm_build_aad seq content_type plain_len) ct tag of
              None \<Rightarrow> Inl (Crypto_Error FAILED ''GCM unwrap/auth failed'' [])
            | Some p \<Rightarrow> Inr p))"

subsection \<open>Elliptic-curve operations\<close>

definition verimark_ecdh_premaster :: "crypto \<Rightarrow> bytes \<Rightarrow> bytes \<Rightarrow> bytes \<Rightarrow> bytes res" where
  "verimark_ecdh_premaster C eph_priv peer_x peer_y =
     (if \<not> ec_set_private_key C eph_priv then Inl (Crypto_Error FAILED ''ECDH failed'' [])
      else if \<not> ec_set_public_key C peer_x peer_y then Inl (Crypto_Error FAILED ''ECDH failed'' [])
      else if length (ecdh_compute_key C eph_priv peer_x peer_y) \<noteq> 32
      then Inl (Crypto_Error FAILED ''ECDH failed'' [])
      else Inr (ecdh_compute_key C eph_priv peer_x peer_y))"

definition verimark_pub_from_priv :: "crypto \<Rightarrow> bytes \<Rightarrow> (bytes \<times> bytes) res" where
  "verimark_pub_from_priv C priv =
     (case ec_point_mul C priv of
        None \<Rightarrow> Inl (Crypto_Error FAILED ''pub-from-priv failed'' [])
      | Some (x, y) \<Rightarrow> Inr (x, y))"

definition verimark_ecdsa_verify :: "crypto \<Rightarrow> bytes \<Rightarrow> bytes \<Rightarrow> bytes \<Rightarrow> bytes \<Rightarrow> unit res" where
  "verimark_ecdsa_verify C x y msg sig_der =
     (if ec_set_public_key C x y \<and> evp_digest_verify C x y msg sig_der = 1 then Inr ()
      else Inl (Crypto_Error FAILED ''ECDSA verify failed'' []))"

definition verimark_ecdsa_sign :: "'w platform \<Rightarrow> bytes \<Rightarrow> bytes \<Rightarrow> 'w \<Rightarrow> bytes res \<times> 'w" where
  "verimark_ecdsa_sign P priv msg w =
     (if \<not> ec_set_private_key (lib P) priv \<or> ec_point_mul (lib P) priv = None
      then (Inl (Crypto_Error FAILED ''ECDSA sign failed'' []), w)
      else
        (case evp_digest_sign P w priv msg of
           (None, w') \<Rightarrow> (Inl (Crypto_Error FAILED ''ECDSA sign failed'' []), w')
         | (Some sig, w') \<Rightarrow> (Inr sig, w')))"

definition verimark_ecdsa_sign_prehashed :: "'w platform \<Rightarrow> bytes \<Rightarrow> bytes \<Rightarrow> 'w \<Rightarrow> bytes res \<times> 'w" where
  "verimark_ecdsa_sign_prehashed P priv digest w =
     (if \<not> ec_set_private_key (lib P) priv
      then (Inl (Crypto_Error FAILED ''ECDSA prehashed sign failed'' []), w)
      else
        (case ecdsa_sign P w priv digest of
           (None, w') \<Rightarrow> (Inl (Crypto_Error FAILED ''ECDSA prehashed sign failed'' []), w')
         | (Some sig, w') \<Rightarrow> (Inr sig, w')))"

subsection \<open>The PRF is \<open>P_hash\<close> of RFC 5246\<close>

text \<open>\<open>A(0) = seed\<close>, \<open>A(i) = HMAC(secret, A(i-1))\<close>, and \<open>P_hash\<close> the concatenation of
  \<open>HMAC(secret, A(i) + seed)\<close> for \<open>i = 1, 2, ...\<close>, here for \<open>n\<close> blocks.\<close>

fun rfc_A :: "(bytes \<Rightarrow> bytes) \<Rightarrow> bytes \<Rightarrow> nat \<Rightarrow> bytes" where
  "rfc_A h seed 0 = seed"
| "rfc_A h seed (Suc i) = h (rfc_A h seed i)"

definition rfc_P_hash :: "(bytes \<Rightarrow> bytes) \<Rightarrow> bytes \<Rightarrow> nat \<Rightarrow> bytes" where
  "rfc_P_hash h seed n = concat (map (\<lambda>i. h (rfc_A h seed (Suc i) @ seed)) [0..<n])"

definition mac :: "crypto \<Rightarrow> md \<Rightarrow> bytes \<Rightarrow> bytes \<Rightarrow> bytes" where
  "mac C m k x = the (hmac C m k x)"

lemma mac_docD:
  assumes "mac_doc C"
  shows "hmac C m k x = Some (mac C m k x)" "length (mac C m k x) = md_size m"
  using assms unfolding mac_doc_def mac_def by (metis option.sel)+

lemma md_size_bounds: "32 \<le> md_size m" "md_size m \<le> 48"
  by (cases m; simp)+

lemma length_rfc_P_hash: "mac_doc C \<Longrightarrow> length (rfc_P_hash (mac C m k) seed n) = n * md_size m"
  by (induction n) (simp_all add: rfc_P_hash_def mac_docD)

lemma rfc_P_hash_Suc:
  "rfc_P_hash h seed (Suc n) = rfc_P_hash h seed n @ h (rfc_A h seed (Suc n) @ seed)"
  by (simp add: rfc_P_hash_def)

lemma rfc_P_hash_prefix:
  assumes "mac_doc C" "out_len \<le> n * md_size m"
  shows "take out_len (rfc_P_hash (mac C m k) seed (n + d)) = take out_len (rfc_P_hash (mac C m k) seed n)"
  by (induction d) (use assms in \<open>simp_all add: rfc_P_hash_Suc length_rfc_P_hash trans_le_add1 add_mult_distrib\<close>)

lemma prf_loop_P_hash:
  assumes "mac_doc C" "out_len \<le> fuel + i * md_size m"
  shows "prf_loop C m k seed out_len (Suc fuel) (rfc_A (mac C m k) seed (Suc i))
      (take out_len (rfc_P_hash (mac C m k) seed i)) =
    Some (take out_len (rfc_P_hash (mac C m k) seed (i + fuel)))"
  using assms(2)
proof (induction fuel arbitrary: i)
  case 0
  then show ?case using assms(1) by (simp add: length_rfc_P_hash)
next
  case (Suc fuel)
  note len = length_rfc_P_hash [OF assms(1)] and md = mac_docD [OF assms(1)]
  show ?case
  proof (cases "i * md_size m < out_len")
    case False
    then show ?thesis
      using rfc_P_hash_prefix [OF assms(1), of out_len i m k seed "Suc fuel"]
      by (simp add: len)
  next
    case True
    have next_out: "take out_len (rfc_P_hash (mac C m k) seed i)
          @ take (min (md_size m) (out_len - i * md_size m)) (mac C m k (rfc_A (mac C m k) seed (Suc i) @ seed))
        = take out_len (rfc_P_hash (mac C m k) seed (Suc i))"
      using True by (simp add: rfc_P_hash_Suc len md min_def)
    have "out_len \<le> fuel + Suc i * md_size m"
      using Suc.prems md_size_bounds(1) [of m] by simp
    from Suc.IH [OF this] show ?thesis
      using True next_out
      by (subst prf_loop.simps) (simp add: md len Let_def min_absorb1 del: prf_loop.simps)
  qed
qed

lemma prf_is_P_hash:
  assumes "mac_doc C" "out_len \<le> n * md_size m"
  shows "verimark_tls_prf C m secret label seed out_len =
    Some (take out_len (rfc_P_hash (mac C m secret) (label_bytes label @ seed) n))"
proof -
  let ?h = "mac C m secret" and ?s = "label_bytes label @ seed"
  have "verimark_tls_prf C m secret label seed out_len = Some (take out_len (rfc_P_hash ?h ?s out_len))"
    using prf_loop_P_hash [OF assms(1), of out_len out_len 0 m secret ?s] mac_docD(1) [OF assms(1)]
    by (simp add: verimark_tls_prf_def rfc_P_hash_def Let_def del: prf_loop.simps)
  also have "take out_len (rfc_P_hash ?h ?s out_len) = take out_len (rfc_P_hash ?h ?s n)"
  proof -
    have "out_len \<le> out_len * md_size m"
      using md_size_bounds(1) [of m] by (cases "md_size m") auto
    then show ?thesis
      using rfc_P_hash_prefix [OF assms(1), of out_len out_len m secret ?s n]
        rfc_P_hash_prefix [OF assms, of secret ?s out_len]
      by (simp add: add.commute)
  qed
  finally show ?thesis .
qed

lemma length_prf: "mac_doc C \<Longrightarrow> \<exists>out. verimark_tls_prf C m secret label seed n = Some out \<and> length out = n"
proof -
  assume doc: "mac_doc C"
  have "n \<le> n * md_size m"
    using md_size_bounds(1) [of m] by (cases "md_size m") auto
  then show ?thesis
    using prf_is_P_hash [OF doc, of n n m secret label seed] length_rfc_P_hash [OF doc] by simp
qed

definition keys_wf :: "tls_keys \<Rightarrow> bool" where
  "keys_wf k \<longleftrightarrow> length (encr_key k) = 32 \<and> length (decr_key k) = 32 \<and> length (encr_iv k) = 4 \<and> length (decr_iv k) = 4"

lemma derive_keys_wf:
  assumes "mac_doc C"
  shows "\<exists>k. verimark_tls_derive_keys C ms cr sr = Some k \<and> keys_wf k"
  using length_prf [OF assms, of MD_SHA384 ms "''key expansion''" "cr @ sr" 72]
  by (auto simp: verimark_tls_derive_keys_def keys_wf_def)

lemma derive_master_total:
  assumes "mac_doc C"
  shows "\<exists>ms. verimark_tls_derive_master_secret C pm cr sr = Some ms \<and> length ms = 48"
  using length_prf [OF assms, of MD_SHA384 pm "''master secret''" "cr @ sr" 48]
  by (simp add: verimark_tls_derive_master_secret_def)

subsection \<open>The formats are codecs\<close>

lemma length_be32_to_le_field [simp, wire_len]: "32 \<le> n \<Longrightarrow> length (be32_to_le_field be n) = n"
  by (simp add: be32_to_le_field_def)

lemma rev_nth_map: "length be = n \<Longrightarrow> map (\<lambda>i. be ! (n - 1 - i)) [0..<n] = rev be"
  by (rule nth_equalityI) (auto simp: rev_nth)

lemma be32_to_le_field_rev: "length be = 32 \<Longrightarrow> be32_to_le_field be n = rev be @ replicate (n - 32) 0"
  using rev_nth_map [of be 32] by (simp add: be32_to_le_field_def)

lemma le_field_rev:
  assumes "32 \<le> length le"
  shows "map (\<lambda>i. le ! (31 - i)) [0..<32] = rev (take 32 le)"
proof -
  have "map (\<lambda>i. le ! (31 - i)) [0..<32] = map (\<lambda>i. take 32 le ! (31 - i)) [0..<32]"
    by (rule map_cong) auto
  also have "\<dots> = rev (take 32 le)"
    using rev_nth_map [of "take 32 le" 32] assms by (simp add: min_def)
  finally show ?thesis .
qed

lemma le_field_app:
  assumes "length be = 32" "32 \<le> n"
  shows "le_field_to_be32 (be32_to_le_field be n @ rest) n = Inr be"
proof -
  have "map (\<lambda>i. (be32_to_le_field be n @ rest) ! (31 - i)) [0..<32] = be"
    using assms le_field_rev [of "be32_to_le_field be n @ rest"]
    by (simp add: be32_to_le_field_rev)
  moreover have "\<forall>i \<in> set [32..<n]. (be32_to_le_field be n @ rest) ! i = 0"
    using assms by (auto simp: be32_to_le_field_rev nth_append)
  ultimately show ?thesis
    using assms(2) by (simp add: le_field_to_be32_def not_less)
qed

lemma le_field_cong:
  assumes "\<And>i. i < n \<Longrightarrow> le ! i = le' ! i" "32 \<le> n" "length le = length le'"
  shows "le_field_to_be32 le n = le_field_to_be32 le' n"
proof -
  have "(\<exists>i \<in> set [32..<n]. le ! i \<noteq> 0) \<longleftrightarrow> (\<exists>i \<in> set [32..<n]. le' ! i \<noteq> 0)"
    using assms(1) by (intro bex_cong) auto
  moreover have "map (\<lambda>i. le ! (31 - i)) [0..<32] = map (\<lambda>i. le' ! (31 - i)) [0..<32]"
    by (rule map_cong) (use assms in auto)
  ultimately show ?thesis using assms(3) by (simp only: le_field_to_be32_def)
qed

lemma le_field_length: "le_field_to_be32 le n = Inr be \<Longrightarrow> length be = 32"
  by (auto simp: le_field_to_be32_def split: if_splits)

lemma le_field_accepts:
  assumes "32 \<le> n" "n \<le> length le"
  shows "le_field_to_be32 le n = Inr be \<longleftrightarrow> take n le = be32_to_le_field be n \<and> length be = 32"
proof
  assume dec: "le_field_to_be32 le n = Inr be"
  then have be: "be = rev (take 32 le)" and zero: "\<forall>i. 32 \<le> i \<and> i < n \<longrightarrow> le ! i = 0"
    using assms le_field_rev [of le] by (auto simp: le_field_to_be32_def split: if_splits)
  have len: "length be = 32" using dec le_field_length by blast
  have "take n le = take 32 le @ replicate (n - 32) 0"
    by (rule nth_equalityI) (use zero assms in \<open>auto simp: nth_append\<close>)
  then show "take n le = be32_to_le_field be n \<and> length be = 32"
    using len be by (simp add: be32_to_le_field_rev)
next
  assume "take n le = be32_to_le_field be n \<and> length be = 32"
  then show "le_field_to_be32 le n = Inr be"
    using le_field_app [of be n "drop n le"] assms(1) by (metis append_take_drop_id)
qed

interpretation ec_field: checked_codec "\<lambda>be. be32_to_le_field be 68" "\<lambda>le. le_field_to_be32 le 68"
    "\<lambda>be. length be = 32" 68
  by unfold_locales (use le_field_app [of _ 68 "[]"] le_field_length in auto)

definition cert_wf :: "cert \<Rightarrow> bool" where
  "cert_wf c \<longleftrightarrow> length (pub_x c) = 32 \<and> length (pub_y c) = 32 \<and> length (signature c) = 256 \<and> sign_size c \<le> 256"

definition pairing_wf :: "pairing \<Rightarrow> bool" where
  "pairing_wf pd \<longleftrightarrow> length (priv_scalar pd) = 32 \<and> cert_wf (host_cert pd) \<and> cert_wf (sensor_cert pd)"

lemma length_cert_serialize [simp, wire_len]: "cert_wf c \<Longrightarrow> length (verimark_cert_serialize c) = 400"
  by (simp add: verimark_cert_serialize_def cert_wf_def)

lemma cert_serialize_nth:
  assumes "cert_wf c"
  shows "verimark_cert_serialize c ! 141 = cert_type c"
    and "verimark_cert_serialize c ! 142 = u16_lo (sign_size c)"
    and "verimark_cert_serialize c ! 143 = u16_hi (sign_size c)"
  using assms by (simp_all add: verimark_cert_serialize_def nth_append)

lemma cert_parse_serialize:
  assumes "cert_wf c"
  shows "verimark_cert_parse (verimark_cert_serialize c) = Inr c"
proof -
  let ?s = "verimark_cert_serialize c"
  note len = assms [unfolded cert_wf_def]
  have "drop 4 ?s = be32_to_le_field (pub_x c) 68 @ drop 72 ?s"
    "drop 72 ?s = be32_to_le_field (pub_y c) 68 @ drop 140 ?s"
    "take 256 (drop 144 ?s) = signature c"
    using len by (simp_all add: verimark_cert_serialize_def)
  then have "le_field_to_be32 (drop 4 ?s) 68 = Inr (pub_x c)" "le_field_to_be32 (drop 72 ?s) 68 = Inr (pub_y c)"
    "take 256 (drop 144 ?s) = signature c"
    using len le_field_app [of "pub_x c" 68] le_field_app [of "pub_y c" 68] by simp_all
  moreover have "u16_of_le (?s ! 0) (?s ! 1) = 0x5f3f" "u16_of_le (?s ! 2) (?s ! 3) = 23"
    by (simp_all add: verimark_cert_serialize_def u16_of_le_def)
  ultimately show ?thesis
    using len cert_serialize_nth [OF assms] length_cert_serialize [OF assms] by (simp add: verimark_cert_parse_def Let_def leD)
qed

lemma cert_parse_wf:
  assumes "length buf = 400" "verimark_cert_parse buf = Inr c"
  shows "cert_wf c"
  using assms
  by (auto simp: verimark_cert_parse_def Let_def cert_wf_def bind_res_Inr le_field_length not_less split: if_splits)

lemma le_field_error:
  "le_field_to_be32 le n = Inl e \<Longrightarrow> length le < n \<and> e = Out_Of_Bounds \<or> n \<le> length le \<and> (\<exists>m ns. e = Crypto_Error INVALID_DATA m ns)"
  by (auto simp: le_field_to_be32_def split: if_splits)

lemma cert_parse_error:
  "verimark_cert_parse buf = Inl e \<Longrightarrow> length buf < 400 \<and> e = Out_Of_Bounds \<or> 400 \<le> length buf \<and> (\<exists>m ns. e = Crypto_Error INVALID_DATA m ns)"
  by (auto simp: verimark_cert_parse_def Let_def bind_res_Inl dest!: le_field_error split: if_splits)

lemma cert_parse_in_bounds [in_bounds]: "400 \<le> length buf \<Longrightarrow> in_buffer (verimark_cert_parse buf)"
  by (auto simp: in_buffer_def dest: cert_parse_error)

interpretation cert_codec: checked_codec verimark_cert_serialize verimark_cert_parse cert_wf 400
  by unfold_locales (simp_all add: cert_parse_serialize cert_parse_wf)

lemma length_pairing_save [simp, wire_len]: "pairing_wf pd \<Longrightarrow> length (verimark_pairing_save pd) = 868"
  by (simp add: verimark_pairing_save_def pairing_wf_def)

lemma pairing_load_save:
  assumes "pairing_wf pd"
  shows "verimark_pairing_load (verimark_pairing_save pd) = Inr pd"
proof -
  let ?d = "be32_to_le_field (priv_scalar pd) 68" and ?h = "verimark_cert_serialize (host_cert pd)"
    and ?s = "verimark_cert_serialize (sensor_cert pd)"
  note wf = assms [unfolded pairing_wf_def]
  have "take 400 (drop 68 (?d @ ?h @ ?s)) = ?h" "take 400 (drop 468 (?d @ ?h @ ?s)) = ?s"
    using wf by simp_all
  moreover have "le_field_to_be32 (?d @ ?h @ ?s) 68 = Inr (priv_scalar pd)"
    using wf by (simp add: le_field_app)
  ultimately show ?thesis
    using wf cert_codec.dec_enc
    by (simp add: verimark_pairing_load_def verimark_pairing_save_def)
qed

lemma pairing_load_wf:
  assumes "length buf = 868" "verimark_pairing_load buf = Inr pd"
  shows "pairing_wf pd"
  using assms cert_parse_wf [of "take 400 (drop 68 buf)"] cert_parse_wf [of "drop 468 buf"]
  by (auto simp: verimark_pairing_load_def bind_res_Inr pairing_wf_def le_field_length)

lemma pairing_load_error:
  "verimark_pairing_load buf = Inl e \<Longrightarrow> length buf < 868 \<and> e = Out_Of_Bounds \<or> (\<exists>m ns. e = Crypto_Error INVALID_DATA m ns)"
  by (auto simp: verimark_pairing_load_def bind_res_Inl dest!: le_field_error cert_parse_error split: if_splits)

lemma pairing_load_in_bounds [in_bounds]: "868 \<le> length buf \<Longrightarrow> in_buffer (verimark_pairing_load buf)"
  by (auto simp: in_buffer_def dest: pairing_load_error)

interpretation pairing_codec: checked_codec verimark_pairing_save verimark_pairing_load pairing_wf 868
  by unfold_locales (simp_all add: pairing_load_save pairing_load_wf)

lemma length_signbytes [simp, wire_len]: "cert_wf c \<Longrightarrow> length (verimark_cert_signbytes c) = 142"
  by (simp add: verimark_cert_signbytes_def)

subsection \<open>Record protection\<close>

lemma length_gcm_build_aad [simp, wire_len]: "length (gcm_build_aad seq ct n) = 13"
  by (simp add: gcm_build_aad_def)

lemma seq_bytes_inj:
  assumes "map (\<lambda>k. ucast (drop_bit k (s :: u64)) :: byte) [56, 48, 40, 32, 24, 16, 8, 0]
    = map (\<lambda>k. ucast (drop_bit k (t :: u64))) [56, 48, 40, 32, 24, 16, 8, 0]"
  shows "s = t"
proof (rule bit_word_eqI)
  have byte_eq: "bit s (k + n) = bit t (k + n)"
    if "k \<in> {56, 48, 40, 32, 24, 16, 8, 0}" "n < 8" for k n
  proof -
    have "(ucast (drop_bit k s) :: byte) = ucast (drop_bit k t)"
      using assms that(1) by auto
    then have "bit (ucast (drop_bit k s) :: byte) n = bit (ucast (drop_bit k t) :: byte) n"
      by simp
    then show ?thesis using that(2) by (simp add: bit_simps)
  qed
  fix n assume "n < LENGTH(64)"
  then have "n < 64" by simp
  then have "8 * (n div 8) \<in> {56, 48, 40, 32, 24, 16, 8, 0 :: nat}"
  proof -
    have "n div 8 < 8" using \<open>n < 64\<close> by simp
    then have "n div 8 \<in> {7, 6, 5, 4, 3, 2, 1, 0}" by auto
    then show ?thesis by auto
  qed
  from byte_eq [OF this, of "n mod 8"] show "bit s n = bit t n" by simp
qed

lemma gcm_aad_inj:
  assumes "gcm_build_aad s c n = gcm_build_aad s' c' n'"
  shows "s = s' \<and> c = c' \<and> n mod 65536 = n' mod 65536"
proof -
  note eq = assms [unfolded gcm_build_aad_def]
  have "s = s'" by (rule seq_bytes_inj) (use eq in simp)
  moreover have "c = c'" using eq by simp
  moreover have b: "n div 256 mod 256 = n' div 256 mod 256" "n mod 256 = n' mod 256"
  proof -
    have inj: "of_nat i = (of_nat j :: byte) \<Longrightarrow> i < 256 \<Longrightarrow> j < 256 \<Longrightarrow> i = j" for i j
      by (drule arg_cong [of _ _ unat]) (simp add: unat_of_nat)
    show "n div 256 mod 256 = n' div 256 mod 256"
      using eq by (intro inj) auto
    show "n mod 256 = n' mod 256"
      using eq by (intro inj) auto
  qed
  moreover have "m mod 65536 = m div 256 mod 256 * 256 + m mod 256" for m :: nat
    using mod_mult2_eq [of m 256 256] by simp
  ultimately show ?thesis by simp
qed

lemma aead_docD:
  assumes "aead_doc C"
  obtains c t where "gcm_encrypt C k iv a p = Some (c, t)" "length c = length p" "length t = 16"
    "gcm_decrypt C k iv a c t = Some p"
  using assms unfolding aead_doc_def by blast

lemma gcm_unwrap_wrap:
  assumes "aead_doc C" "length nonce = 8"
  shows "\<exists>frag. verimark_tls_gcm_wrap C key fixed_iv seq ct nonce plain = Inr frag
    \<and> length frag = length plain + 24
    \<and> verimark_tls_gcm_unwrap C key fixed_iv seq ct frag = Inr plain"
proof -
  let ?aad = "gcm_build_aad seq ct (length plain)" and ?iv = "gcm_iv fixed_iv nonce"
  obtain c t where enc: "gcm_encrypt C key ?iv ?aad plain = Some (c, t)" "length c = length plain" "length t = 16"
    "gcm_decrypt C key ?iv ?aad c t = Some plain"
    using aead_docD [OF assms(1)] .
  then show ?thesis
    using assms(2) by (simp add: verimark_tls_gcm_wrap_def verimark_tls_gcm_unwrap_def Let_def)
qed

lemma gcm_wrap_total:
  assumes "aead_doc C" "length nonce = 8"
  obtains frag where "verimark_tls_gcm_wrap C key fixed_iv seq ct nonce plain = Inr frag" "length frag = length plain + 24"
  using gcm_unwrap_wrap [OF assms] by blast

lemma gcm_unwrap_length:
  assumes "aead_doc C" "verimark_tls_gcm_unwrap C key fixed_iv seq ct frag = Inr p"
  shows "length frag = length p + 24"
proof -
  from assms(2) obtain k iv a t where "24 \<le> length frag"
    "gcm_decrypt C k iv a (take (length frag - 8 - 16) (drop 8 frag)) t = Some p"
    by (auto simp: verimark_tls_gcm_unwrap_def Let_def split: if_splits option.splits)
  moreover have "length p = length c" if "gcm_decrypt C k iv a c t = Some p" for c
    using assms(1) that unfolding aead_doc_def by blast
  ultimately show ?thesis by fastforce
qed

subsection \<open>Properties\<close>

text \<open>C36: The PRF is the RFC 5246 one: with a MAC of the documented length it never fails, and gives
  exactly the first \<open>out_len\<close> bytes of \<open>P_hash(secret, label + seed)\<close>, for any number of
  blocks that covers them.\<close>

theorem verimark_tls_prf_rfc5246:
  assumes "mac_doc C" "out_len \<le> n * md_size m"
  shows "\<exists>out. verimark_tls_prf C m secret label seed out_len = Some out \<and> length out = out_len
    \<and> out = take out_len (rfc_P_hash (mac C m secret) (label_bytes label @ seed) n)"
  using prf_is_P_hash [OF assms] assms by (simp add: length_rfc_P_hash)

lemma verimark_tls_prf_rfc5246_witness:
  "\<exists>out. verimark_tls_prf sample_crypto MD_SHA384 [1, 2] ''key expansion'' [3] 72 = Some out \<and> length out = 72"
  using verimark_tls_prf_rfc5246 [OF sample_crypto_docs(1), of 72 2 MD_SHA384 "[1, 2]" "''key expansion''" "[3]"]
  by auto

text \<open>The 400 bytes of a certificate, field by field.\<close>

lemma cert_layout: "xs = take 4 xs @ take 68 (drop 4 xs) @ take 68 (drop 72 xs) @ take 4 (drop 140 xs) @ drop 144 xs" for xs :: bytes
proof -
  have "take 72 xs = take 4 xs @ take 68 (drop 4 xs)" "take 140 xs = take 72 xs @ take 68 (drop 72 xs)"
    "take 144 xs = take 140 xs @ take 4 (drop 140 xs)"
    using take_add [of 4 68 xs] take_add [of 72 68 xs] take_add [of 140 4 xs] by simp_all
  then show ?thesis using append_take_drop_id [of 144 xs] by (metis append.assoc)
qed

lemma cert_parse_fields:
  assumes "length buf = 400" "verimark_cert_parse buf = Inr c"
  shows "take 4 buf = [0x3f, 0x5f, 23, 0]"
    "take 68 (drop 4 buf) = be32_to_le_field (pub_x c) 68" "take 68 (drop 72 buf) = be32_to_le_field (pub_y c) 68"
    "take 4 (drop 140 buf) = [buf ! 140, cert_type c, u16_lo (sign_size c), u16_hi (sign_size c)]" "drop 144 buf = signature c"
proof -
  let ?m = "u16_of_le (buf ! 0) (buf ! 1)" and ?cv = "u16_of_le (buf ! 2) (buf ! 3)"
  from assms(2) have hd: "?m = 0x5f3f" "?cv = 23"
    and x: "le_field_to_be32 (drop 4 buf) 68 = Inr (pub_x c)" and y: "le_field_to_be32 (drop 72 buf) 68 = Inr (pub_y c)"
    and c: "cert_type c = buf ! 141" "sign_size c = u16_of_le (buf ! 142) (buf ! 143)" "signature c = drop 144 buf"
    using assms(1) by (auto simp: verimark_cert_parse_def Let_def bind_res_Inr split: if_splits)
  have "u16_lo ?m = 0x3f" "u16_hi ?m = 0x5f" "u16_lo ?cv = 23" "u16_hi ?cv = 0"
    unfolding hd by (simp_all add: u16_lo_def u16_hi_def)
  then show "take 4 buf = [0x3f, 0x5f, 23, 0]" using assms(1) by (simp add: take_4)
  show "take 68 (drop 4 buf) = be32_to_le_field (pub_x c) 68" "take 68 (drop 72 buf) = be32_to_le_field (pub_y c) 68"
    using le_field_accepts [of 68 "drop 4 buf" "pub_x c"] le_field_accepts [of 68 "drop 72 buf" "pub_y c"] x y assms(1) by simp_all
  show "take 4 (drop 140 buf) = [buf ! 140, cert_type c, u16_lo (sign_size c), u16_hi (sign_size c)]"
    using assms(1) c take_4 [of "drop 140 buf"] by simp
  show "drop 144 buf = signature c" using c(3) by simp
qed

text \<open>The pad byte is not read.\<close>

lemma cert_parse_pad:
  assumes "length buf = 400"
  shows "verimark_cert_parse (buf[140 := b]) = verimark_cert_parse buf"
proof -
  have le: "le_field_to_be32 (drop k (buf[140 := b])) 68 = le_field_to_be32 (drop k buf) 68" if "k + 68 \<le> 140" for k
    by (rule le_field_cong) (use that assms in simp_all)
  have "le_field_to_be32 (drop 4 (buf[140 := b])) 68 = le_field_to_be32 (drop 4 buf) 68"
    "le_field_to_be32 (drop 72 (buf[140 := b])) 68 = le_field_to_be32 (drop 72 buf) 68"
    by (rule le, simp)+
  moreover have "buf[140 := b] ! i = buf ! i" if "i \<noteq> 140" for i using that by simp
  moreover have "drop 144 (buf[140 := b]) = drop 144 buf" by simp
  moreover have "length (buf[140 := b]) = length buf" by simp
  ultimately show ?thesis unfolding verimark_cert_parse_def by (simp only:)
qed

text \<open>C34: The certificate parser accepts a 400-byte blob exactly when it is the serialisation of a
  certificate whose fields fit (up to the pad byte 140, which is not read), and returns that
  certificate.\<close>

theorem verimark_cert_parse_accepts:
  assumes "length buf = 400"
  shows "verimark_cert_parse buf = Inr c \<longleftrightarrow> cert_wf c \<and> verimark_cert_serialize c = buf[140 := 0]"
proof
  let ?buf = "buf[140 := 0]"
  assume ok: "verimark_cert_parse buf = Inr c"
  then have "verimark_cert_parse ?buf = Inr c" by (simp add: cert_parse_pad [OF assms])
  with cert_parse_fields [of ?buf c] cert_parse_wf [OF assms ok] assms cert_layout [of ?buf]
  show "cert_wf c \<and> verimark_cert_serialize c = ?buf" by (simp add: verimark_cert_serialize_def)
next
  assume c: "cert_wf c \<and> verimark_cert_serialize c = buf[140 := 0]"
  with cert_parse_serialize [of c] cert_parse_pad [OF assms, of 0] show "verimark_cert_parse buf = Inr c" by simp
qed

definition sample_cert :: cert where
  "sample_cert = \<lparr>pub_x = replicate 32 1, pub_y = replicate 32 2, cert_type = 0, sign_size = 3,
     signature = [1, 2, 3] @ replicate 253 0\<rparr>"

definition sample_pairing :: pairing where
  "sample_pairing = \<lparr>priv_scalar = replicate 32 9, host_cert = sample_cert, sensor_cert = sample_cert\<rparr>"

lemma sample_cert_wf: "cert_wf sample_cert"
  by (simp add: cert_wf_def sample_cert_def)

lemma sample_pairing_wf: "pairing_wf sample_pairing"
  by (simp add: pairing_wf_def sample_pairing_def sample_cert_wf)

lemma verimark_cert_parse_accepts_witness:
  "verimark_cert_parse (verimark_cert_serialize sample_cert) = Inr sample_cert
    \<and> verimark_cert_parse (replicate 400 0) \<noteq> Inr sample_cert"
proof -
  have "replicate 400 0 ! 0 \<noteq> verimark_cert_serialize sample_cert ! 0"
    by (simp add: verimark_cert_serialize_def)
  then have "verimark_cert_serialize sample_cert \<noteq> (replicate 400 0)[140 := 0]" by auto
  moreover have "verimark_cert_serialize sample_cert ! 140 = 0"
    by (simp add: verimark_cert_serialize_def sample_cert_def nth_append)
  then have "verimark_cert_serialize sample_cert = (verimark_cert_serialize sample_cert)[140 := 0]"
    by (metis list_update_id)
  ultimately show ?thesis
    using verimark_cert_parse_accepts [of "verimark_cert_serialize sample_cert" sample_cert]
      verimark_cert_parse_accepts [of "replicate 400 0" sample_cert] sample_cert_wf
    by simp
qed

text \<open>The pairing blob: what is saved has 868 bytes and loads as itself, and whatever an
  868-byte blob loads as can be saved and loaded again without change.\<close>

lemma verimark_pairing_blob_roundtrip:
  assumes "pairing_wf pd" "length buf = 868" "verimark_pairing_load buf = Inr pd'"
  shows "length (verimark_pairing_save pd) = 868 \<and> verimark_pairing_load (verimark_pairing_save pd) = Inr pd
    \<and> pairing_wf pd' \<and> verimark_pairing_load (verimark_pairing_save pd') = Inr pd'"
  using pairing_codec.enc_width [OF assms(1)] pairing_codec.dec_enc [OF assms(1)]
    pairing_codec.dec_fits [OF assms(2,3)] pairing_codec.dec_stable [OF assms(2,3)] by simp

lemma verimark_pairing_blob_roundtrip_witness:
  "length (verimark_pairing_save sample_pairing) = 868
    \<and> verimark_pairing_load (verimark_pairing_save sample_pairing) = Inr sample_pairing"
  using verimark_pairing_blob_roundtrip [OF sample_pairing_wf, of "verimark_pairing_save sample_pairing" sample_pairing]
    sample_pairing_wf by (simp add: pairing_load_save)

text \<open>The additional data of a record binds it: two records with the same additional data have
  the same sequence number, the same content type and the same length modulo 65536.\<close>

lemma gcm_build_aad_injective:
  assumes "gcm_build_aad s c n = gcm_build_aad s' c' n'"
  shows "s = s' \<and> c = c' \<and> n mod 65536 = n' mod 65536"
  by (rule gcm_aad_inj [OF assms])

lemma gcm_build_aad_injective_witness:
  "gcm_build_aad 7 0x17 65541 = gcm_build_aad 7 0x17 5 \<and> (65541 :: nat) mod 65536 = 5 mod 65536"
  using gcm_build_aad_injective [of 7 "0x17" 65541 7 "0x17" 5] by (simp add: gcm_build_aad_def)

text \<open>Record protection: with an AEAD that decrypts what it encrypted, a wrapped record is 24
  bytes longer than its plaintext and the receiver with the same key, IV, sequence number and
  content type gets the plaintext back; and any record the receiver accepts was 24 bytes longer
  than what it returns.\<close>

lemma verimark_tls_gcm_roundtrip:
  assumes "aead_doc C" "length nonce = 8" "verimark_tls_gcm_unwrap C key' iv' seq' ct' frag' = Inr plain'"
  shows "(\<exists>frag. verimark_tls_gcm_wrap C key iv seq ct nonce plain = Inr frag
      \<and> length frag = length plain + 24 \<and> verimark_tls_gcm_unwrap C key iv seq ct frag = Inr plain)
    \<and> length frag' = length plain' + 24"
  using gcm_unwrap_wrap [OF assms(1,2)] gcm_unwrap_length [OF assms(1,3)] by blast

lemma verimark_tls_gcm_roundtrip_witness:
  "\<exists>frag. verimark_tls_gcm_wrap sample_crypto [] [] 5 0x17 [1, 2, 3, 4, 5, 6, 7, 8] [0x99] = Inr frag
    \<and> length frag = 25 \<and> verimark_tls_gcm_unwrap sample_crypto [] [] 5 0x17 frag = Inr [0x99]"
proof -
  have "verimark_tls_gcm_unwrap sample_crypto [] [] 0 0 (replicate 24 0) = Inr []"
    by (simp add: verimark_tls_gcm_unwrap_def sample_crypto_def)
  from verimark_tls_gcm_roundtrip [OF sample_crypto_docs(2) _ this, of "[1, 2, 3, 4, 5, 6, 7, 8]" "[]" "[]" 5 "0x17" "[0x99]"]
  show ?thesis by simp
qed

end
