(* ===== verification/Tls.thy ===== *)
theory Tls
  imports Crypto
begin

text \<open>
  \<open>verimark-tls.c\<close>: the handshake of the sensor's TLS dialect (two round trips over a
  synchronous \<open>io\<close> callback) and its record layer. The running SHA-256 context is the list of
  bytes fed to it. This is the code as the driver is built; the build with the test-only pins
  (\<open>VERIMARK_TESTING\<close>) is in theory \<open>Testing\<close>.
\<close>

subsection \<open>State\<close>

record tls =
  t_have_pairing :: bool
  t_established :: bool
  t_pd :: pairing
  t_client_random :: bytes
  t_server_random :: bytes
  t_eph_priv :: bytes
  t_master_secret :: bytes
  t_verify_digest :: bytes
  t_keys :: tls_keys
  t_encr_seq :: u64
  t_decr_seq :: u64
  t_transcript :: bytes

type_synonym 'w tls_io = "'w \<Rightarrow> bytes \<Rightarrow> bytes res \<times> 'w"

definition VERIMARK_TLS_CT_APPDATA :: byte where "VERIMARK_TLS_CT_APPDATA = 0x17"

definition set_error :: "string \<Rightarrow> gerror" where
  "set_error msg = Crypto_Error FAILED msg []"

text \<open>\<open>g_new0\<close>: all arrays zero.\<close>

definition cert_zero :: cert where
  "cert_zero = \<lparr>pub_x = replicate 32 0, pub_y = replicate 32 0, cert_type = 0, sign_size = 0,
     signature = replicate 256 0\<rparr>"

definition verimark_tls_new :: tls where
  "verimark_tls_new = \<lparr>t_have_pairing = False, t_established = False,
     t_pd = \<lparr>priv_scalar = replicate 32 0, host_cert = cert_zero, sensor_cert = cert_zero\<rparr>,
     t_client_random = replicate 32 0, t_server_random = replicate 32 0, t_eph_priv = replicate 32 0,
     t_master_secret = replicate 48 0, t_verify_digest = replicate 32 0,
     t_keys = \<lparr>encr_key = replicate 32 0, decr_key = replicate 32 0, encr_iv = replicate 4 0,
       decr_iv = replicate 4 0\<rparr>,
     t_encr_seq = 0, t_decr_seq = 0, t_transcript = []\<rparr>"

definition verimark_tls_set_pairing :: "tls \<Rightarrow> pairing \<Rightarrow> tls" where
  "verimark_tls_set_pairing t pd = t\<lparr>t_pd := pd, t_have_pairing := True\<rparr>"

definition verimark_tls_is_established :: "tls option \<Rightarrow> bool" where
  "verimark_tls_is_established t = (case t of None \<Rightarrow> False | Some t \<Rightarrow> t_established t)"

subsection \<open>Records and messages\<close>

definition rec_write_plain :: "bytes \<Rightarrow> byte \<Rightarrow> bytes \<Rightarrow> bytes" where
  "rec_write_plain out ct body =
     out @ [ct, 0x03, 0x03, of_nat (length body div 256), of_nat (length body)] @ body"

definition hs_bytes :: "byte \<Rightarrow> bytes \<Rightarrow> bytes" where
  "hs_bytes mid body =
     [mid, of_nat (length body div 65536), of_nat (length body div 256), of_nat (length body)] @ body"

definition hs_msg :: "tls \<Rightarrow> bytes \<Rightarrow> byte \<Rightarrow> bytes \<Rightarrow> bytes \<times> tls" where
  "hs_msg t dst mid body =
     (dst @ hs_bytes mid body,
      if mid \<noteq> 0x14 then t\<lparr>t_transcript := t_transcript t @ hs_bytes mid body\<rparr> else t)"

definition transcript_snapshot :: "crypto \<Rightarrow> tls \<Rightarrow> bytes" where
  "transcript_snapshot C t = sha256 C (t_transcript t)"

text \<open>The checks at the head of the three record loops; \<open>who\<close> is the prefix of their
  messages. The result is the content type and the fragment.\<close>

definition rec_header :: "string \<Rightarrow> bytes \<Rightarrow> nat \<Rightarrow> (byte \<times> bytes) res" where
  "rec_header who resp off =
     (if length resp < off + 5 then Inl (set_error (who @ '': truncated record header''))
      else bind_res (rd8 resp off) (\<lambda>ct.
           bind_res (rd8 resp (off + 3)) (\<lambda>hi.
           bind_res (rd8 resp (off + 4)) (\<lambda>lo.
           let rlen = unat (u16_of_be hi lo)
           in if length resp < off + 5 + rlen then Inl (set_error (who @ '': truncated record body''))
              else bind_res (rd_slice resp (off + 5) rlen) (\<lambda>frag. Inr (ct, frag))))))"

text \<open>
  The loop the three functions share: \<open>body\<close> is what one of them does with a content type, a
  fragment and its own variables \<open>'s\<close>, which it keeps changed when it fails.
\<close>

function rec_loop ::
  "string \<Rightarrow> (byte \<Rightarrow> bytes \<Rightarrow> 's \<Rightarrow> unit res \<times> 's) \<Rightarrow> bytes \<Rightarrow> nat \<Rightarrow> 's \<Rightarrow> unit res \<times> 's" where
  "rec_loop who body resp off s =
     (if off < length resp then
        bind_st (rec_header who resp off, s) (\<lambda>(ct, frag) s.
        bind_st (body ct frag s) (\<lambda>_ s.
        rec_loop who body resp (off + 5 + length frag) s))
      else (Inr (), s))"
  by pat_completeness auto
termination by (relation "measure (\<lambda>(_, _, resp, off, _). length resp - off)") auto

declare rec_loop.simps [simp del]

subsection \<open>RT1 request: ClientHello\<close>

definition ext_supported_groups :: bytes where
  "ext_supported_groups = [0x00, 0x0a, 0x00, 0x04, 0x00, 0x02, 0x00, 0x17]"

definition ext_ec_point_formats :: bytes where
  "ext_ec_point_formats = [0x00, 0x0b, 0x00, 0x02, 0x01, 0x00]"

definition client_hello_body :: "bytes \<Rightarrow> bytes" where
  "client_hello_body cr =
     [0x03, 0x03] @ cr @ [0x07, 0, 0, 0, 0, 0, 0, 0] @ [0x00, 0x04, 0xc0, 0x05, 0xc0, 0x2e] @ [0x00]
     @ ext_supported_groups @ ext_ec_point_formats"

definition hs_build_client_hello :: "'w platform \<Rightarrow> tls \<Rightarrow> 'w \<Rightarrow> bytes \<times> tls \<times> 'w" where
  "hs_build_client_hello P t w =
     (let (now, w1) = unix_time P w; (rnd, w2) = rand_bytes P w1 28;
          cr = [ucast (drop_bit 24 now), ucast (drop_bit 16 now), ucast (drop_bit 8 now), ucast now] @ rnd;
          (content, t') = hs_msg (t\<lparr>t_client_random := cr\<rparr>) [] 0x01 (client_hello_body cr)
      in (rec_write_plain [] 0x16 content, t', w2))"

subsection \<open>RT1 response\<close>

definition rt1_record :: "byte \<Rightarrow> bytes \<Rightarrow> bytes \<Rightarrow> unit res \<times> bytes" where
  "rt1_record ct frag hsbuf =
     (if ct \<noteq> 0x16 then (Inl (set_error ''RT1: unexpected content type''), hsbuf)
      else (Inr (), hsbuf @ frag))"

definition rt1_server_hello :: "tls \<Rightarrow> bytes \<Rightarrow> unit res \<times> tls" where
  "rt1_server_hello t body =
     (if length body < 2 + 32 + 1 + 2 + 1 then (Inl (set_error ''RT1: ServerHello too short''), t)
      else bind_st (rd_slice body 2 32, t) (\<lambda>rnd t.
        (bind_res (rd8 body 34) (\<lambda>ses_len.
           let p = 35 + unat ses_len
           in if length body < p + 3 then Inl (set_error ''RT1: ServerHello session id overruns'')
              else bind_res (rd8 body p) (\<lambda>hi.
                   bind_res (rd8 body (p + 1)) (\<lambda>lo.
                   if u16_of_be hi lo \<noteq> 0xc02e
                   then Inl (set_error ''RT1: unexpected cipher suite (want 0xC02E)'') else Inr ()))),
         t\<lparr>t_server_random := rnd\<rparr>)))"

definition rt1_cert_request :: "bytes \<Rightarrow> unit res" where
  "rt1_cert_request body =
     (if length body < 1 then Inl (set_error ''RT1: CertificateRequest too short'')
      else bind_res (rd8 body 0) (\<lambda>count.
        if length body < 1 + unat count
        then Inl (set_error ''RT1: CertificateRequest cert-type vector overruns'')
        else bind_res (rd_slice body 1 (unat count)) (\<lambda>types.
          if 64 \<notin> set types then Inl (set_error ''RT1: CertificateRequest lacks ECDSA_SIGN'')
          else Inr ())))"

text \<open>The \<open>switch\<close>, with \<open>got_server_hello\<close> and \<open>rt1_done\<close> as its result.\<close>

definition rt1_switch :: "tls \<Rightarrow> byte \<Rightarrow> bytes \<Rightarrow> bool \<Rightarrow> (bool \<times> bool) res \<times> tls" where
  "rt1_switch t mid body got =
     (if mid = 0x02 then bind_st (rt1_server_hello t body) (\<lambda>_ t. (Inr (True, False), t))
      else if mid = 0x0b then (Inr (got, False), t)
      else if mid = 0x0d then bind_st (rt1_cert_request body, t) (\<lambda>_ t. (Inr (got, False), t))
      else if mid = 0x0e then
        (if \<not> got then (Inl (set_error ''RT1: ServerHelloDone before ServerHello''), t)
         else (Inr (got, True), t))
      else (Inl (set_error ''RT1: unexpected handshake message id''), t))"

definition rt1_header :: "bytes \<Rightarrow> nat \<Rightarrow> (byte \<times> bytes) res" where
  "rt1_header hsbuf off =
     (if length hsbuf < off + 4 then Inl (set_error ''RT1: truncated handshake header'')
      else bind_res (rd8 hsbuf off) (\<lambda>mid.
           bind_res (rd8 hsbuf (off + 1)) (\<lambda>b1.
           bind_res (rd8 hsbuf (off + 2)) (\<lambda>b2.
           bind_res (rd8 hsbuf (off + 3)) (\<lambda>b3.
           let mlen = unat b1 * 65536 + unat b2 * 256 + unat b3
           in if length hsbuf < off + 4 + mlen then Inl (set_error ''RT1: truncated handshake body'')
              else bind_res (rd_slice hsbuf (off + 4) mlen) (\<lambda>body. Inr (mid, body)))))))"

function rt1_messages :: "bytes \<Rightarrow> nat \<Rightarrow> bool \<Rightarrow> bool \<Rightarrow> tls \<Rightarrow> bool res \<times> tls" where
  "rt1_messages hsbuf off got rt1_done t =
     (if off < length hsbuf then
        bind_st (rt1_header hsbuf off, t) (\<lambda>(mid, body) t.
        bind_st (rd_slice hsbuf off (4 + length body), t) (\<lambda>raw t.
          let t = t\<lparr>t_transcript := t_transcript t @ raw\<rparr>
          in if rt1_done then (Inl (set_error ''RT1: message after ServerHelloDone''), t)
             else bind_st (rt1_switch t mid body got) (\<lambda>(got', done') t.
                    rt1_messages hsbuf (off + 4 + length body) got' done' t)))
      else (Inr rt1_done, t))"
  by pat_completeness auto
termination by (relation "measure (\<lambda>(hsbuf, off, _). length hsbuf - off)") auto

declare rt1_messages.simps [simp del]

definition hs_process_rt1 :: "tls \<Rightarrow> bytes \<Rightarrow> unit res \<times> tls" where
  "hs_process_rt1 t resp =
     (let (r, hsbuf) = rec_loop ''RT1'' rt1_record resp 0 []
      in bind_st (r, t) (\<lambda>_ t.
         bind_st (rt1_messages hsbuf 0 False False t) (\<lambda>rt1_done t.
         if \<not> rt1_done then (Inl (set_error ''RT1: incomplete (no ServerHelloDone)''), t) else (Inr (), t))))"

subsection \<open>RT2 request\<close>

text \<open>Certificate, ClientKeyExchange and CertificateVerify: the plaintext flight.\<close>

definition rt2_flight :: "'w platform \<Rightarrow> tls \<times> 'w \<Rightarrow> bytes res \<times> tls \<times> 'w" where
  "rt2_flight P = (\<lambda>(t, w).
     let certbody = [0x00, 0x01, 0x90] @ [0x00, 0x01, 0x90] @ [0x00, 0x00] @ verimark_cert_serialize (host_cert (t_pd t));
         (content16, t) = hs_msg t [] 0x0b certbody;
         (eph, w) = rand_bytes P w 32;
         t = t\<lparr>t_eph_priv := eph\<rparr>
     in bind_st (verimark_pub_from_priv (lib P) eph, t, w) (\<lambda>(x, y) (t, w).
        let (content16, t) = hs_msg t content16 0x10 ([0x04] @ x @ y);
            (sig, w) = verimark_ecdsa_sign_prehashed P (priv_scalar (t_pd t)) (transcript_snapshot (lib P) t) w
        in bind_st (sig, t, w) (\<lambda>sig_der (t, w).
           let (content16, t) = hs_msg t content16 0x0f sig_der
           in (Inr (rec_write_plain [] 0x16 content16), t, w))))"

text \<open>The premaster secret, the master secret and the key block.\<close>

definition rt2_keys :: "crypto \<Rightarrow> tls \<Rightarrow> unit res \<times> tls" where
  "rt2_keys C t =
     bind_st (verimark_ecdh_premaster C (t_eph_priv t) (pub_x (sensor_cert (t_pd t))) (pub_y (sensor_cert (t_pd t))), t)
       (\<lambda>premaster t.
         (case verimark_tls_derive_master_secret C premaster (t_client_random t) (t_server_random t) of
            None \<Rightarrow> (Inl (set_error ''master secret derivation failed''), t)
          | Some ms \<Rightarrow>
              let t = t\<lparr>t_master_secret := ms\<rparr>
              in (case verimark_tls_derive_keys C ms (t_client_random t) (t_server_random t) of
                    None \<Rightarrow> (Inl (set_error ''key block derivation failed''), t)
                  | Some ks \<Rightarrow> (Inr (), t\<lparr>t_keys := ks, t_encr_seq := 0, t_decr_seq := 0\<rparr>))))"

text \<open>ChangeCipherSpec and the encrypted Finished, appended to the flight.\<close>

definition rt2_finished :: "'w platform \<Rightarrow> bytes \<Rightarrow> tls \<times> 'w \<Rightarrow> bytes res \<times> tls \<times> 'w" where
  "rt2_finished P out = (\<lambda>(t, w).
     let out = rec_write_plain out 0x14 [0x01];
         t = t\<lparr>t_verify_digest := transcript_snapshot (lib P) t\<rparr>
     in (case verimark_tls_prf (lib P) MD_SHA384 (t_master_secret t) ''client finished'' (t_verify_digest t) 12 of
           None \<Rightarrow> (Inl (set_error ''client Finished PRF failed''), t, w)
         | Some verify_data \<Rightarrow>
             let (finmsg, t) = hs_msg t [] 0x14 verify_data;
                 (nonce, w) = rand_bytes P w 8
             in bind_st (verimark_tls_gcm_wrap (lib P) (encr_key (t_keys t)) (encr_iv (t_keys t)) (t_encr_seq t)
                           0x16 nonce finmsg, t, w) (\<lambda>frag (t, w).
                (Inr (rec_write_plain out 0x16 frag), t\<lparr>t_encr_seq := t_encr_seq t + 1\<rparr>, w))))"

definition hs_build_rt2 :: "'w platform \<Rightarrow> tls \<times> 'w \<Rightarrow> bytes res \<times> tls \<times> 'w" where
  "hs_build_rt2 P s =
     bind_st (rt2_flight P s) (\<lambda>out (t, w).
       let (r, t) = rt2_keys (lib P) t
       in bind_st (r, t, w) (\<lambda>_ s. rt2_finished P out s))"

subsection \<open>RT2 response\<close>

definition rt2_server_finished :: "crypto \<Rightarrow> tls \<Rightarrow> bytes \<Rightarrow> unit res \<times> tls" where
  "rt2_server_finished C t frag =
     bind_st (verimark_tls_gcm_unwrap C (decr_key (t_keys t)) (decr_iv (t_keys t)) (t_decr_seq t) 0x16 frag, t)
       (\<lambda>plain t.
         let t = t\<lparr>t_decr_seq := t_decr_seq t + 1\<rparr>
         in if length plain \<noteq> 16 \<or> plain ! 0 \<noteq> 0x14 then (Inl (set_error ''RT2: malformed server Finished''), t)
            else if verimark_tls_prf C MD_SHA384 (t_master_secret t) ''server finished'' (t_verify_digest t) 12
                      = Some (drop 4 plain)
            then (Inr (), t)
            else (Inl (set_error ''RT2: server Finished verify_data mismatch''), t))"

text \<open>The variables of the loop are \<open>ccs_seen\<close>, \<open>fin_seen\<close> and the session.\<close>

definition rt2_record :: "crypto \<Rightarrow> byte \<Rightarrow> bytes \<Rightarrow> bool \<times> bool \<times> tls \<Rightarrow> unit res \<times> bool \<times> bool \<times> tls" where
  "rt2_record C ct frag = (\<lambda>(ccs_seen, fin_seen, t).
     if ct = 0x14 then
       (if length frag \<noteq> 1 \<or> frag ! 0 \<noteq> 0x01
        then (Inl (set_error ''RT2: malformed ChangeCipherSpec''), ccs_seen, fin_seen, t)
        else (Inr (), True, fin_seen, t))
     else if ct = 0x16 then
       (if \<not> ccs_seen then (Inl (set_error ''RT2: Finished before ChangeCipherSpec''), ccs_seen, fin_seen, t)
        else (case rt2_server_finished C t frag of
                (Inl e, t) \<Rightarrow> (Inl e, ccs_seen, fin_seen, t)
              | (Inr _, t) \<Rightarrow> (Inr (), ccs_seen, True, t)))
     else (Inl (set_error ''RT2: unexpected content type''), ccs_seen, fin_seen, t))"

definition hs_process_rt2 :: "crypto \<Rightarrow> tls \<Rightarrow> bytes \<Rightarrow> unit res \<times> tls" where
  "hs_process_rt2 C t resp =
     (case rec_loop ''RT2'' (rt2_record C) resp 0 (False, False, t) of
        (Inl e, _, _, t) \<Rightarrow> (Inl e, t)
      | (Inr _, ccs_seen, fin_seen, t) \<Rightarrow>
          if \<not> ccs_seen \<or> \<not> fin_seen then (Inl (set_error ''RT2: incomplete''), t)
          else (Inr (), t\<lparr>t_established := True\<rparr>))"

subsection \<open>The handshake\<close>

text \<open>\<open>Inr b\<close> is ``returns \<open>b\<close> and sets no error''.\<close>

definition verimark_tls_handshake :: "'w platform \<Rightarrow> 'w tls_io \<Rightarrow> tls \<times> 'w \<Rightarrow> bool res \<times> tls \<times> 'w" where
  "verimark_tls_handshake P io = (\<lambda>(t, w).
     if \<not> t_have_pairing t then (Inl (set_error ''no pairing set''), t, w)
     else
       let (out, t, w) = hs_build_client_hello P t w;
           (resp, w) = io w out
       in bind_st (resp, t, w) (\<lambda>resp (t, w).
          let (r1, t) = hs_process_rt1 t resp
          in bind_st (r1, t, w) (\<lambda>_ s.
             bind_st (hs_build_rt2 P s) (\<lambda>out (t, w).
             let (resp, w) = io w out
             in bind_st (resp, t, w) (\<lambda>resp (t, w).
                let (r2, t) = hs_process_rt2 (lib P) t resp
                in bind_st (r2, t, w) (\<lambda>_ (t, w). (Inr (t_established t), t, w)))))))"

subsection \<open>Record layer\<close>

definition verimark_tls_wrap :: "'w platform \<Rightarrow> tls \<times> 'w \<Rightarrow> bytes \<Rightarrow> bytes res \<times> tls \<times> 'w" where
  "verimark_tls_wrap P = (\<lambda>(t, w) plain.
     if \<not> t_established t then (Inr plain, t, w)
     else
       let (nonce, w) = rand_bytes P w 8
       in bind_st (verimark_tls_gcm_wrap (lib P) (encr_key (t_keys t)) (encr_iv (t_keys t)) (t_encr_seq t)
                     VERIMARK_TLS_CT_APPDATA nonce plain, t, w) (\<lambda>frag (t, w).
          (Inr (rec_write_plain [] VERIMARK_TLS_CT_APPDATA frag), t\<lparr>t_encr_seq := t_encr_seq t + 1\<rparr>, w)))"

definition unwrap_record :: "crypto \<Rightarrow> byte \<Rightarrow> bytes \<Rightarrow> bytes \<times> tls \<Rightarrow> unit res \<times> bytes \<times> tls" where
  "unwrap_record C ct frag = (\<lambda>(out, t).
     case verimark_tls_gcm_unwrap C (decr_key (t_keys t)) (decr_iv (t_keys t)) (t_decr_seq t) ct frag of
       Inl e \<Rightarrow> (Inl e, out, t)
     | Inr dec \<Rightarrow>
         let t = t\<lparr>t_decr_seq := t_decr_seq t + 1\<rparr>
         in if ct = VERIMARK_TLS_CT_APPDATA then (Inr (), out @ dec, t)
            else if ct = 0x15 then
              (Inl (Crypto_Error FAILED ''TLS alert received (level=%u descr=%u)''
                      [if 0 < length dec then unat (dec ! 0) else 0,
                       if 1 < length dec then unat (dec ! 1) else 0]), out, t)
            else (Inl (set_error ''unwrap: unexpected content type''), out, t))"

definition verimark_tls_unwrap :: "crypto \<Rightarrow> tls \<Rightarrow> bytes \<Rightarrow> bytes res \<times> tls" where
  "verimark_tls_unwrap C t record =
     (if \<not> t_established t then (Inr record, t)
      else (case rec_loop ''unwrap'' (unwrap_record C) record 0 ([], t) of
              (Inl e, _, t) \<Rightarrow> (Inl e, t)
            | (Inr _, out, t) \<Rightarrow> (Inr out, t)))"

definition verimark_tls_close :: "'w platform \<Rightarrow> 'w tls_io \<Rightarrow> tls \<times> 'w \<Rightarrow> tls \<times> 'w" where
  "verimark_tls_close P io = (\<lambda>(t, w).
     if \<not> t_established t then (t, w)
     else
       let (nonce, w) = rand_bytes P w 8
       in (case verimark_tls_gcm_wrap (lib P) (encr_key (t_keys t)) (encr_iv (t_keys t)) (t_encr_seq t)
                  0x15 nonce [0x01, 0x00] of
             Inl e \<Rightarrow> (t\<lparr>t_established := False\<rparr>, w)
           | Inr frag \<Rightarrow>
               let (resp, w) = io w (rec_write_plain [] 0x15 frag)
               in (t\<lparr>t_encr_seq := t_encr_seq t + 1, t_established := False\<rparr>, w)))"

end
