(* ===== verification/Tls_Records.thy ===== *)
theory Tls_Records
  imports Tls
begin

text \<open>
  What the loops of \<open>verimark-tls.c\<close> accept: the record loop, by the records its input is made of, and the
  message loop of the first server flight, whose accepted flights and resulting state are
  characterised exactly; and that neither loop, whatever it is given, reads outside its buffers.
\<close>

subsection \<open>The record loop, by the records of its input\<close>

text \<open>A record as the sensor may send it: the version bytes are not checked.\<close>

type_synonym tls_record = "byte \<times> (byte \<times> byte) \<times> bytes"

definition rec_enc :: "tls_record \<Rightarrow> bytes" where
  "rec_enc = (\<lambda>(ct, (v1, v2), frag). [ct, v1, v2, of_nat (length frag div 256), of_nat (length frag)] @ frag)"

definition rec_fits :: "tls_record \<Rightarrow> bool" where
  "rec_fits = (\<lambda>(ct, v, frag). length frag < 65536)"

lemma rec_write_plain_enc: "rec_write_plain out ct body = out @ rec_enc (ct, (3, 3), body)"
  by (simp add: rec_write_plain_def rec_enc_def)

lemma length_rec_enc [simp, wire_len]: "length (rec_enc (ct, v, frag)) = 5 + length frag"
  by (cases v) (simp add: rec_enc_def)

lemma unat_byte_of_nat: "unat (of_nat n :: byte) = n mod 256"
  by (simp add: unat_of_nat)

lemma byte_of_nat_unat: "of_nat (n * 256 + unat (b :: byte)) = b"
proof -
  have "unat b < 256" using unsigned_less [of b] by simp
  then have "unat (of_nat (n * 256 + unat b) :: byte) = unat b"
    by (simp add: unat_byte_of_nat del: of_nat_add of_nat_mult)
  then show ?thesis by (rule unsigned_word_eqI)
qed

lemma unat_be16_length: "n < 65536 \<Longrightarrow> unat (u16_of_be (of_nat (n div 256)) (of_nat n)) = n"
  using mod_mult2_eq [of n 256 256] by (simp add: unat_u16_of_be unat_byte_of_nat)

lemma rec_header_enc:
  assumes "rec_fits (ct, v, frag)"
  shows "rec_header who (pre @ rec_enc (ct, v, frag) @ rest) (length pre) = Inr (ct, frag)"
proof -
  obtain v1 v2 where v: "v = (v1, v2)" by fastforce
  let ?r = "pre @ rec_enc (ct, v, frag) @ rest"
  have "?r ! length pre = ct" "?r ! (length pre + 3) = of_nat (length frag div 256)"
    "?r ! (length pre + 4) = of_nat (length frag)"
    by (simp_all add: v rec_enc_def nth_append)
  moreover have "take (length frag) (drop (length pre + 5) ?r) = frag"
    by (simp add: v rec_enc_def)
  ultimately show ?thesis
    using assms by (simp add: rec_header_def rec_fits_def Let_def unat_be16_length)
qed

lemma drop_prefix: "b = take (length b) (drop k xs) \<Longrightarrow> drop k xs = b @ drop (k + length b) xs"
  by (metis append_take_drop_id drop_drop add.commute)

lemma rec_header_in_bounds [in_bounds]: "in_buffer (rec_header who resp off)"
  by (auto simp: rec_header_def Let_def set_error_def rd8_def rd_slice_def)

lemma rec_header_InrD:
  assumes "rec_header who resp off = Inr (ct, frag)"
  shows "\<exists>v. rec_fits (ct, v, frag) \<and> drop off resp = rec_enc (ct, v, frag) @ drop (off + 5 + length frag) resp
    \<and> off + 5 + length frag \<le> length resp"
proof -
  let ?hi = "resp ! (off + 3)" and ?lo = "resp ! (off + 4)"
  let ?n = "unat (u16_of_be ?hi ?lo)"
  from assms have len: "off + 5 + ?n \<le> length resp" and ct: "ct = resp ! off"
    and frag: "frag = take ?n (drop (off + 5) resp)"
    by (auto simp: rec_header_def Let_def bind_res_Inr rd8_def rd_slice_def not_less split: if_splits)
  have n: "length frag = ?n" using frag len by simp
  then have nd: "length frag = unat ?hi * 256 + unat ?lo" by (simp add: unat_u16_of_be)
  have hi: "of_nat (length frag div 256) = ?hi"
  proof -
    have "unat ?lo < 256" using unsigned_less [of ?lo] by simp
    then show ?thesis using byte_of_nat_unat [of 0 ?hi] by (simp add: nd)
  qed
  have lo: "of_nat (length frag) = ?lo"
    using byte_of_nat_unat [of "unat ?hi" ?lo] by (simp only: nd)
  have "drop off resp = [resp ! off, resp ! (off + 1), resp ! (off + 2), ?hi, ?lo] @ drop (off + 5) resp"
    using len by (simp add: Cons_nth_drop_Suc numeral_eq_Suc)
  also have "drop (off + 5) resp = frag @ drop (off + 5 + length frag) resp"
    using n frag by (intro drop_prefix) simp
  finally have "drop off resp = rec_enc (ct, (resp ! (off + 1), resp ! (off + 2)), frag) @ drop (off + 5 + length frag) resp"
    by (simp add: rec_enc_def ct hi lo)
  moreover have "?n < 65536" using unsigned_less [of "u16_of_be ?hi ?lo"] by simp
  ultimately show ?thesis using n len unfolding rec_fits_def by auto
qed

fun run_recs :: "(byte \<Rightarrow> bytes \<Rightarrow> 's \<Rightarrow> unit res \<times> 's) \<Rightarrow> tls_record list \<Rightarrow> 's \<Rightarrow> unit res \<times> 's" where
  "run_recs body [] s = (Inr (), s)"
| "run_recs body ((ct, v, frag) # rs) s = bind_st (body ct frag s) (\<lambda>_ s. run_recs body rs s)"

lemma rec_loop_enc:
  assumes "\<forall>r \<in> set rs. rec_fits r"
  shows "rec_loop who body (pre @ concat (map rec_enc rs)) (length pre) s = run_recs body rs s"
  using assms
proof (induction rs arbitrary: pre s)
  case Nil
  then show ?case by (simp add: rec_loop.simps)
next
  case (Cons r rs)
  obtain ct v frag where r: "r = (ct, v, frag)" by (cases r) auto
  from Cons.prems have fits: "rec_fits (ct, v, frag)" by (simp add: r)
  have rec: "rec_loop who body (pre @ rec_enc (ct, v, frag) @ concat (map rec_enc rs)) (length pre + 5 + length frag)
      = run_recs body rs"
    using Cons.IH [of "pre @ rec_enc (ct, v, frag)"] Cons.prems by (intro ext) (simp add: add.assoc)
  show ?case
    by (subst rec_loop.simps) (simp add: r rec_header_enc [OF fits] rec)
qed

lemma rec_loop_InrD:
  assumes "rec_loop who body resp off s = (Inr (), s')" "off \<le> length resp"
  shows "\<exists>rs. drop off resp = concat (map rec_enc rs) \<and> (\<forall>r \<in> set rs. rec_fits r) \<and> run_recs body rs s = (Inr (), s')"
  using assms
proof (induction who body resp off s rule: rec_loop.induct)
  case (1 who body resp off s)
  show ?case
  proof (cases "off < length resp")
    case False
    then have "drop off resp = concat (map rec_enc [])" "run_recs body [] s = (Inr (), s')"
      using "1.prems"(1) rec_loop.simps [of who body resp off s] by simp_all
    then show ?thesis by (metis empty_iff empty_set)
  next
    case True
    with "1.prems"(1) obtain ct frag s1 where hd: "rec_header who resp off = Inr (ct, frag)"
      and body: "body ct frag s = (Inr (), s1)"
      and rest: "rec_loop who body resp (off + 5 + length frag) s1 = (Inr (), s')"
      by (subst (asm) rec_loop.simps) (auto simp: bind_st_Inr)
    from rec_header_InrD [OF hd] obtain v where fits: "rec_fits (ct, v, frag)"
      and drop: "drop off resp = rec_enc (ct, v, frag) @ drop (off + 5 + length frag) resp"
      and le: "off + 5 + length frag \<le> length resp" by blast
    have hd': "bind_st (rec_header who resp off, s) (\<lambda>a s. (Inr a, s)) = (Inr (ct, frag), s)"
      by (simp add: hd)
    from "1.IH" [OF True _ refl body rest le] hd obtain rs where
      "drop (off + 5 + length frag) resp = concat (map rec_enc rs)" "\<forall>r \<in> set rs. rec_fits r"
      "run_recs body rs s1 = (Inr (), s')"
      by auto
    then have "drop off resp = concat (map rec_enc ((ct, v, frag) # rs))"
      "\<forall>r \<in> set ((ct, v, frag) # rs). rec_fits r" "run_recs body ((ct, v, frag) # rs) s = (Inr (), s')"
      using drop fits body by simp_all
    then show ?thesis by blast
  qed
qed

text \<open>An invariant of the loop's variables, and what an error it stops with can be.\<close>

lemma rec_loop_outcome:
  assumes "\<And>ct frag s r s'. I s \<Longrightarrow> body ct frag s = (r, s') \<Longrightarrow> I s' \<and> (\<forall>e. r = Inl e \<longrightarrow> Q e)"
    and "\<And>off e. rec_header who resp off = Inl e \<Longrightarrow> Q e"
    and "I s" "rec_loop who body resp off s = (r, s')"
  shows "I s' \<and> (\<forall>e. r = Inl e \<longrightarrow> Q e)"
  using assms(3,4)
proof (induction "length resp - off" arbitrary: off s rule: less_induct)
  case less
  note loop = rec_loop.simps [of who body resp off s]
  show ?case
  proof (cases "off < length resp")
    case False
    then show ?thesis using less.prems loop by auto
  next
    case True
    show ?thesis
    proof (cases "rec_header who resp off")
      case (Inl e)
      then show ?thesis using less.prems True assms(2) [OF Inl] loop by auto
    next
      case (Inr hd)
      obtain ct frag where hd: "hd = (ct, frag)" by (cases hd) auto
      obtain rb s1 where body: "body ct frag s = (rb, s1)" by fastforce
      note b = assms(1) [OF less.prems(1) body]
      have short: "length resp - (off + 5 + length frag) < length resp - off" using True by simp
      show ?thesis
      proof (cases rb)
        case (Inl e)
        then show ?thesis using less.prems(2) True Inr hd body b loop by auto
      next
        case (Inr u)
        have "rec_loop who body resp (off + 5 + length frag) s1 = (r, s')"
          using less.prems(2) True \<open>rec_header who resp off = Inr hd\<close> hd body Inr loop by simp
        then show ?thesis using less.hyps [OF short conjunct1 [OF b]] by blast
      qed
    qed
  qed
qed

lemma rec_loop_in_bounds [in_bounds]:
  assumes "\<And>ct frag s. in_buffer (fst (body ct frag s))"
  shows "in_buffer (fst (rec_loop who body resp off s))"
proof (cases "rec_loop who body resp off s")
  case (Pair r s')
  have body: "True \<and> (\<forall>e. r = Inl e \<longrightarrow> \<not> defect e)" if "body ct frag s = (r, s')" for ct frag s r s'
    using assms [of ct frag s] that by auto
  have "True \<and> (\<forall>e. r = Inl e \<longrightarrow> \<not> defect e)"
    by (rule rec_loop_outcome [where I = "\<lambda>_. True", OF body _ _ Pair])
      (use in_buffer_Inl [OF rec_header_in_bounds] in blast)+
  then show ?thesis using Pair by (cases r) auto
qed

subsection \<open>The message loop of RT1\<close>

definition msg_fits :: "byte \<times> bytes \<Rightarrow> bool" where
  "msg_fits = (\<lambda>(mid, body). length body < 16777216)"

definition msg_enc :: "byte \<times> bytes \<Rightarrow> bytes" where
  "msg_enc = (\<lambda>(mid, body). hs_bytes mid body)"

lemma length_hs_bytes [simp, wire_len]: "length (hs_bytes mid body) = 4 + length body"
  by (simp add: hs_bytes_def)

lemma be24_length:
  assumes "n < 16777216"
  shows "unat (of_nat (n div 65536) :: byte) * 65536 + unat (of_nat (n div 256) :: byte) * 256 + unat (of_nat n :: byte) = n"
proof -
  have "n div 65536 < 256" using assms by simp
  moreover have "n div 256 mod 256 * 256 + n mod 256 = n mod 65536"
    using mod_mult2_eq [of n 256 256] by simp
  moreover have "n div 65536 * 65536 + n mod 65536 = n" by simp
  ultimately have "n div 65536 mod 256 * 65536 + n div 256 mod 256 * 256 + n mod 256 = n"
    by (simp only: mod_less)
  then show ?thesis by (simp only: unat_byte_of_nat)
qed

lemma rt1_header_enc:
  assumes "msg_fits (mid, body)"
  shows "rt1_header (pre @ hs_bytes mid body @ rest) (length pre) = Inr (mid, body)"
proof -
  let ?b = "pre @ hs_bytes mid body @ rest"
  have "?b ! length pre = mid" "?b ! (length pre + 1) = of_nat (length body div 65536)"
    "?b ! (length pre + 2) = of_nat (length body div 256)" "?b ! (length pre + 3) = of_nat (length body)"
    by (simp_all add: hs_bytes_def nth_append)
  moreover have "take (length body) (drop (length pre + 4) ?b) = body"
    by (simp add: hs_bytes_def)
  ultimately show ?thesis
    using assms be24_length [of "length body"] by (simp add: rt1_header_def msg_fits_def Let_def)
qed

lemma rt1_header_in_bounds [in_bounds]: "in_buffer (rt1_header hsbuf off)"
  by (auto simp: rt1_header_def Let_def set_error_def rd8_def rd_slice_def)

lemma rt1_header_InrD:
  assumes "rt1_header hsbuf off = Inr (mid, body)"
  shows "msg_fits (mid, body) \<and> drop off hsbuf = hs_bytes mid body @ drop (off + 4 + length body) hsbuf
    \<and> off + 4 + length body \<le> length hsbuf"
proof -
  let ?b1 = "hsbuf ! (off + 1)" and ?b2 = "hsbuf ! (off + 2)" and ?b3 = "hsbuf ! (off + 3)"
  let ?n = "unat ?b1 * 65536 + unat ?b2 * 256 + unat ?b3"
  from assms have len: "off + 4 + ?n \<le> length hsbuf" and mid: "mid = hsbuf ! off"
    and body: "body = take ?n (drop (off + 4) hsbuf)"
    by (auto simp: rt1_header_def Let_def bind_res_Inr rd8_def rd_slice_def not_less split: if_splits)
  have n: "length body = ?n" using body len by simp
  have small: "unat ?b1 < 256" "unat ?b2 < 256" "unat ?b3 < 256"
    using unsigned_less [of ?b1] unsigned_less [of ?b2] unsigned_less [of ?b3] by simp_all
  have b1: "of_nat (length body div 65536) = ?b1"
  proof -
    have "?n div 65536 = unat ?b1" using small by simp
    then show ?thesis by (simp add: n)
  qed
  have b2: "of_nat (length body div 256) = ?b2"
  proof -
    have "?n div 256 = unat ?b1 * 256 + unat ?b2" using small by simp
    then show ?thesis using byte_of_nat_unat [of "unat ?b1" ?b2] by (simp only: n)
  qed
  have b3: "of_nat (length body) = ?b3"
  proof -
    have "?n = (unat ?b1 * 256 + unat ?b2) * 256 + unat ?b3" by simp
    then show ?thesis using byte_of_nat_unat [of "unat ?b1 * 256 + unat ?b2" ?b3] by (simp only: n)
  qed
  have "drop off hsbuf = [hsbuf ! off, ?b1, ?b2, ?b3] @ drop (off + 4) hsbuf"
    using len by (intro drop_4) simp
  also have "drop (off + 4) hsbuf = body @ drop (off + 4 + length body) hsbuf"
    using n body by (intro drop_prefix) simp
  finally have "drop off hsbuf = hs_bytes mid body @ drop (off + 4 + length body) hsbuf"
    by (simp add: hs_bytes_def mid b1 b2 b3)
  then show ?thesis using n small len by (simp add: msg_fits_def)
qed

text \<open>The loop over a list of messages, with \<open>got_server_hello\<close> and \<open>rt1_done\<close>.\<close>

fun run_msgs :: "(byte \<times> bytes) list \<Rightarrow> bool \<Rightarrow> bool \<Rightarrow> tls \<Rightarrow> bool res \<times> tls" where
  "run_msgs [] got rt1_done t = (Inr rt1_done, t)"
| "run_msgs ((mid, body) # ms) got rt1_done t =
     (let t = t\<lparr>t_transcript := t_transcript t @ hs_bytes mid body\<rparr>
      in if rt1_done then (Inl (set_error ''RT1: message after ServerHelloDone''), t)
         else bind_st (rt1_switch t mid body got) (\<lambda>(got', done') t. run_msgs ms got' done' t))"

lemma rt1_messages_enc:
  assumes "\<forall>m \<in> set ms. msg_fits m"
  shows "rt1_messages (pre @ concat (map msg_enc ms)) (length pre) got rt1_done t = run_msgs ms got rt1_done t"
  using assms
proof (induction ms arbitrary: pre got rt1_done t)
  case Nil
  then show ?case by (simp add: rt1_messages.simps)
next
  case (Cons m ms)
  obtain mid body where m: "m = (mid, body)" by (cases m) auto
  from Cons.prems have fits: "msg_fits (mid, body)" by (simp add: m)
  have rec: "rt1_messages (pre @ hs_bytes mid body @ concat (map msg_enc ms)) (length pre + 4 + length body) = run_msgs ms"
    using Cons.IH [of "pre @ hs_bytes mid body"] Cons.prems by (intro ext) (simp add: add.assoc)
  have raw: "take (4 + length body) (hs_bytes mid body @ concat (map msg_enc ms)) = hs_bytes mid body"
    by simp
  show ?case
    by (subst rt1_messages.simps) (simp add: m msg_enc_def rt1_header_enc [OF fits] rec [unfolded msg_enc_def] Let_def)
qed

lemma rt1_messages_InrD:
  assumes "rt1_messages hsbuf off got rt1_done t = (Inr d, t')" "off \<le> length hsbuf"
  shows "\<exists>ms. drop off hsbuf = concat (map msg_enc ms) \<and> (\<forall>m \<in> set ms. msg_fits m)
    \<and> run_msgs ms got rt1_done t = (Inr d, t')"
  using assms
proof (induction "length hsbuf - off" arbitrary: off got rt1_done t rule: less_induct)
  case less
  note loop = rt1_messages.simps [of hsbuf off got rt1_done t]
  show ?case
  proof (cases "off < length hsbuf")
    case False
    then have "drop off hsbuf = concat (map msg_enc [])" "run_msgs [] got rt1_done t = (Inr d, t')"
      using less.prems(1) loop by simp_all
    then show ?thesis by (metis empty_iff empty_set)
  next
    case True
    with less.prems(1) loop obtain mid body where hd: "rt1_header hsbuf off = Inr (mid, body)"
      by (auto simp: bind_st_Inr)
    note h = rt1_header_InrD [OF hd]
    have raw: "rd_slice hsbuf off (4 + length body) = Inr (hs_bytes mid body)"
      using h by (simp add: add.assoc)
    let ?t = "t\<lparr>t_transcript := t_transcript t @ hs_bytes mid body\<rparr>"
    from less.prems(1) loop True hd raw obtain got' done' t1 where nd: "\<not> rt1_done"
      and sw: "rt1_switch ?t mid body got = (Inr (got', done'), t1)"
      and rest: "rt1_messages hsbuf (off + 4 + length body) got' done' t1 = (Inr d, t')"
      by (auto simp: bind_st_Inr Let_def split: if_splits)
    have short: "length hsbuf - (off + 4 + length body) < length hsbuf - off" using True by simp
    from less.hyps [OF short rest] h obtain ms where
      "drop (off + 4 + length body) hsbuf = concat (map msg_enc ms)" "\<forall>m \<in> set ms. msg_fits m"
      "run_msgs ms got' done' t1 = (Inr d, t')" by auto
    then have "drop off hsbuf = concat (map msg_enc ((mid, body) # ms))"
      "\<forall>m \<in> set ((mid, body) # ms). msg_fits m" "run_msgs ((mid, body) # ms) got rt1_done t = (Inr d, t')"
      using h nd sw by (simp_all add: msg_enc_def Let_def)
    then show ?thesis by blast
  qed
qed

subsection \<open>What RT1 accepts\<close>

definition server_hello_ok :: "bytes \<Rightarrow> bool" where
  "server_hello_ok body \<longleftrightarrow> 38 \<le> length body \<and>
     (let p = 35 + unat (body ! 34) in p + 3 \<le> length body \<and> u16_of_be (body ! p) (body ! (p + 1)) = 0xc02e)"

definition cert_request_ok :: "bytes \<Rightarrow> bool" where
  "cert_request_ok body \<longleftrightarrow> 1 \<le> length body \<and> 1 + unat (body ! 0) \<le> length body
     \<and> 64 \<in> set (take (unat (body ! 0)) (drop 1 body))"

text \<open>A server flight: any number of ServerHello, Certificate and CertificateRequest messages,
  at least one ServerHello, then ServerHelloDone and nothing else.\<close>

definition rt1_msg_ok :: "byte \<times> bytes \<Rightarrow> bool" where
  "rt1_msg_ok m \<longleftrightarrow> (case m of (mid, body) \<Rightarrow>
     mid = 0x02 \<and> server_hello_ok body \<or> mid = 0x0b \<or> mid = 0x0d \<and> cert_request_ok body)"

definition rt1_valid :: "(byte \<times> bytes) list \<Rightarrow> bool" where
  "rt1_valid ms \<longleftrightarrow> ms \<noteq> [] \<and> fst (last ms) = 0x0e \<and> list_all rt1_msg_ok (butlast ms) \<and> 0x02 \<in> fst ` set (butlast ms)"

text \<open>The server random kept is the last ServerHello's.\<close>

fun rt1_random :: "(byte \<times> bytes) list \<Rightarrow> bytes \<Rightarrow> bytes" where
  "rt1_random [] r = r"
| "rt1_random ((mid, body) # ms) r = rt1_random ms (if mid = 0x02 then take 32 (drop 2 body) else r)"

definition rt1_wire :: "bytes \<Rightarrow> (byte \<times> bytes) list \<Rightarrow> bool" where
  "rt1_wire resp ms \<longleftrightarrow> list_all msg_fits ms \<and>
     (\<exists>rs. resp = concat (map rec_enc rs) \<and> list_all (\<lambda>r. rec_fits r \<and> fst r = 0x16) rs
        \<and> concat (map (snd \<circ> snd) rs) = concat (map msg_enc ms))"

lemma rt1_server_hello_Inr:
  "rt1_server_hello t body = (Inr (), t') \<longleftrightarrow>
     server_hello_ok body \<and> t' = t\<lparr>t_server_random := take 32 (drop 2 body)\<rparr>"
proof (cases "length body < 38")
  case True
  then show ?thesis by (simp add: rt1_server_hello_def server_hello_ok_def)
next
  case False
  then have n: "38 \<le> length body" by simp
  let ?p = "35 + unat (body ! 34)"
  show ?thesis
  proof (cases "?p + 3 \<le> length body")
    case True
    then have "?p < length body" "?p + 1 < length body" by simp_all
    then show ?thesis using n True
      by (auto simp: rt1_server_hello_def server_hello_ok_def Let_def split: if_splits)
  next
    case False
    then show ?thesis using n by (simp add: rt1_server_hello_def server_hello_ok_def Let_def)
  qed
qed

lemma rt1_cert_request_Inr: "rt1_cert_request body = Inr () \<longleftrightarrow> cert_request_ok body"
  by (auto simp: rt1_cert_request_def cert_request_ok_def bind_res_Inr rd8_def rd_slice_def not_less
      split: if_splits)

lemma rt1_switch_Inr:
  "rt1_switch t mid body got = (Inr (got', done'), t') \<longleftrightarrow>
     (if mid = 0x0e then got \<and> got' \<and> done' \<and> t' = t
      else rt1_msg_ok (mid, body) \<and> (got' \<longleftrightarrow> got \<or> mid = 0x02) \<and> \<not> done'
        \<and> t' = (if mid = 0x02 then t\<lparr>t_server_random := take 32 (drop 2 body)\<rparr> else t))"
  unfolding rt1_switch_def rt1_msg_ok_def
  by (auto simp: bind_st_Inr rt1_server_hello_Inr rt1_cert_request_Inr split: if_splits)

definition rt1_after :: "(byte \<times> bytes) list \<Rightarrow> tls \<Rightarrow> tls" where
  "rt1_after ms t = t\<lparr>t_transcript := t_transcript t @ concat (map msg_enc ms),
     t_server_random := rt1_random ms (t_server_random t)\<rparr>"

lemma run_msgs_done: "run_msgs ms got True t = (Inr d, t') \<longleftrightarrow> ms = [] \<and> d \<and> t' = t"
  by (cases ms) auto

lemma run_msgs_Cons:
  assumes "u = t\<lparr>t_transcript := t_transcript t @ hs_bytes mid body\<rparr>" "mid \<noteq> 0x0e"
  shows "run_msgs ((mid, body) # ms) got False t = (Inr True, t') \<longleftrightarrow> rt1_msg_ok (mid, body)
    \<and> run_msgs ms (got \<or> mid = 2) False
        (if mid = 2 then u\<lparr>t_server_random := take 32 (drop 2 body)\<rparr> else u) = (Inr True, t')"
    (is "_ \<longleftrightarrow> _ \<and> run_msgs ms _ False ?t' = _")
proof (cases "rt1_switch u mid body got")
  case (Pair r t1)
  show ?thesis
  proof (cases r)
    case (Inl e)
    have "\<not> rt1_msg_ok (mid, body)"
      using rt1_switch_Inr [of u mid body got "got \<or> mid = 2" False ?t'] Pair Inl assms(2) by simp
    then show ?thesis using Pair Inl by (simp add: Let_def assms(1))
  next
    case (Inr gd)
    obtain g d where gd: "gd = (g, d)" by (cases gd) auto
    have "rt1_msg_ok (mid, body)" "g \<longleftrightarrow> got \<or> mid = 2" "\<not> d" "t1 = ?t'"
      using rt1_switch_Inr [of u mid body got g d t1] Pair Inr gd assms(2) by simp_all
    then show ?thesis using Pair Inr gd by (simp add: Let_def assms(1))
  qed
qed

lemma run_msgs_Inr:
  "run_msgs ms got False t = (Inr True, t') \<longleftrightarrow>
     ms \<noteq> [] \<and> fst (last ms) = 0x0e \<and> list_all rt1_msg_ok (butlast ms) \<and> (got \<or> 0x02 \<in> fst ` set (butlast ms))
     \<and> t' = rt1_after ms t"
proof (induction ms arbitrary: got t)
  case Nil
  then show ?case by simp
next
  case (Cons m ms)
  obtain mid body where m: "m = (mid, body)" by (cases m) auto
  let ?t = "t\<lparr>t_transcript := t_transcript t @ hs_bytes mid body\<rparr>"
  show ?case
  proof (cases "mid = 0x0e")
    case True
    have "\<not> rt1_msg_ok (0x0e, body)" by (simp add: rt1_msg_ok_def)
    then show ?thesis
      using True
      by (auto simp: m Let_def bind_st_Inr rt1_switch_Inr run_msgs_done rt1_after_def msg_enc_def)
  next
    case False
    let ?t' = "if mid = 2 then ?t\<lparr>t_server_random := take 32 (drop 2 body)\<rparr> else ?t"
    have after: "rt1_after ms ?t' = rt1_after (m # ms) t"
      by (simp add: m rt1_after_def msg_enc_def)
    have "run_msgs (m # ms) got False t = (Inr True, t') \<longleftrightarrow>
        rt1_msg_ok m \<and> run_msgs ms (got \<or> mid = 2) False ?t' = (Inr True, t')"
      unfolding m by (rule run_msgs_Cons [OF refl False])
    also have "\<dots> \<longleftrightarrow> rt1_msg_ok m \<and> ms \<noteq> [] \<and> fst (last ms) = 0x0e \<and> list_all rt1_msg_ok (butlast ms)
        \<and> ((got \<or> mid = 2) \<or> 0x02 \<in> fst ` set (butlast ms)) \<and> t' = rt1_after (m # ms) t"
      unfolding Cons.IH after by blast
    finally show ?thesis using False by (auto simp: m)
  qed
qed

lemma run_rt1_records:
  "run_recs rt1_record rs buf = (Inr (), buf') \<longleftrightarrow>
     list_all (\<lambda>r. fst r = 0x16) rs \<and> buf' = buf @ concat (map (snd \<circ> snd) rs)"
proof (induction rs arbitrary: buf)
  case Nil
  then show ?case by auto
next
  case (Cons r rs)
  then show ?case by (cases r, cases "fst r = 0x16") (auto simp: rt1_record_def)
qed

lemma hs_process_rt1_accepts:
  "hs_process_rt1 t resp = (Inr (), t') \<longleftrightarrow> (\<exists>ms. rt1_wire resp ms \<and> rt1_valid ms \<and> t' = rt1_after ms t)"
proof
  assume acc: "hs_process_rt1 t resp = (Inr (), t')"
  then obtain hsbuf where rl: "rec_loop ''RT1'' rt1_record resp 0 [] = (Inr (), hsbuf)"
    and ml: "rt1_messages hsbuf 0 False False t = (Inr True, t')"
    by (auto simp: hs_process_rt1_def bind_st_Inr split: prod.splits if_splits)
  from rec_loop_InrD [OF rl] obtain rs where rs: "resp = concat (map rec_enc rs)" "\<forall>r \<in> set rs. rec_fits r"
    "run_recs rt1_record rs [] = (Inr (), hsbuf)" by auto
  from rt1_messages_InrD [OF ml] obtain ms where ms: "hsbuf = concat (map msg_enc ms)"
    "\<forall>m \<in> set ms. msg_fits m" "run_msgs ms False False t = (Inr True, t')" by auto
  have "rt1_wire resp ms"
    using rs ms unfolding rt1_wire_def by (auto simp: run_rt1_records list_all_iff intro!: exI [of _ rs])
  with ms(3) show "\<exists>ms. rt1_wire resp ms \<and> rt1_valid ms \<and> t' = rt1_after ms t"
    by (auto simp: run_msgs_Inr rt1_valid_def)
next
  assume "\<exists>ms. rt1_wire resp ms \<and> rt1_valid ms \<and> t' = rt1_after ms t"
  then obtain ms rs where ms: "\<forall>m \<in> set ms. msg_fits m" "rt1_valid ms" "t' = rt1_after ms t"
    and rs: "resp = concat (map rec_enc rs)" "\<forall>r \<in> set rs. rec_fits r" "list_all (\<lambda>r. fst r = 0x16) rs"
    "concat (map (snd \<circ> snd) rs) = concat (map msg_enc ms)"
    unfolding rt1_wire_def by (auto simp: list_all_iff)
  have "rec_loop ''RT1'' rt1_record resp 0 [] = (Inr (), concat (map msg_enc ms))"
    using rec_loop_enc [OF rs(2), of "''RT1''" rt1_record "[]" "[]"] rs(1,3,4) run_rt1_records [of rs "[]"] by simp
  moreover have "rt1_messages (concat (map msg_enc ms)) 0 False False t = (Inr True, t')"
    using rt1_messages_enc [OF ms(1), of "[]"] ms(2,3) by (simp add: run_msgs_Inr rt1_valid_def)
  ultimately show "hs_process_rt1 t resp = (Inr (), t')"
    by (simp add: hs_process_rt1_def)
qed

subsection \<open>The handshake stays inside its buffers\<close>

lemma rt1_server_hello_in_bounds [in_bounds]: "in_buffer (fst (rt1_server_hello t body))"
proof (cases "length body < 38 \<or> length body < 35 + unat (body ! 34) + 3")
  case True
  then show ?thesis by (auto simp: rt1_server_hello_def set_error_def Let_def)
next
  case False
  then have "35 + unat (body ! 34) < length body" "35 + unat (body ! 34) + 1 < length body" by simp_all
  then show ?thesis using False by (simp add: rt1_server_hello_def set_error_def Let_def)
qed

lemma rt1_cert_request_in_bounds [in_bounds]: "in_buffer (rt1_cert_request body)"
  by (auto simp: rt1_cert_request_def set_error_def bind_res_Inl rd8_def rd_slice_def)

lemma rt1_switch_in_bounds [in_bounds]: "in_buffer (fst (rt1_switch t mid body got))"
  unfolding rt1_switch_def
  using rt1_server_hello_in_bounds [of t body] rt1_cert_request_in_bounds [of body]
  by (auto simp: set_error_def bind_st_def split: prod.splits sum.splits)

lemma rt1_messages_in_bounds [in_bounds]: "in_buffer (fst (rt1_messages hsbuf off got rt1_done t))"
proof (induction "length hsbuf - off" arbitrary: off got rt1_done t rule: less_induct)
  case less
  note loop = rt1_messages.simps [of hsbuf off got rt1_done t]
  show ?case
  proof (cases "off < length hsbuf")
    case False
    then show ?thesis using loop by simp
  next
    case True
    show ?thesis
    proof (cases "rt1_header hsbuf off")
      case (Inl e)
      then show ?thesis using loop True rt1_header_in_bounds [of hsbuf off] by simp
    next
      case (Inr hd)
      obtain mid body where hd: "hd = (mid, body)" by (cases hd) auto
      let ?t = "t\<lparr>t_transcript := t_transcript t @ hs_bytes mid body\<rparr>"
      have "rd_slice hsbuf off (4 + length body) = Inr (hs_bytes mid body)"
        using rt1_header_InrD [of hsbuf off mid body] Inr hd by (simp add: add.assoc)
      then have unfold: "rt1_messages hsbuf off got rt1_done t =
          (if rt1_done then (Inl (set_error ''RT1: message after ServerHelloDone''), ?t)
           else bind_st (rt1_switch ?t mid body got)
                  (\<lambda>(got', done') t. rt1_messages hsbuf (off + 4 + length body) got' done' t))"
        using loop True Inr hd by (simp add: Let_def)
      have "length hsbuf - (off + 4 + length body) < length hsbuf - off" using True by simp
      note rec = less.hyps [OF this]
      show ?thesis
        unfolding unfold
        by (auto simp: set_error_def intro!: bind_st_in_bounds rec rt1_switch_in_bounds)
    qed
  qed
qed

lemma rt1_record_in_bounds [in_bounds]: "in_buffer (fst (rt1_record ct frag s))"
  by (simp add: rt1_record_def set_error_def)

lemma hs_process_rt1_in_bounds [in_bounds]: "in_buffer (fst (hs_process_rt1 t resp))"
  using rec_loop_in_bounds [of rt1_record "''RT1''" resp 0 "[]", OF rt1_record_in_bounds]
  by (auto simp: hs_process_rt1_def set_error_def split: prod.splits
      intro!: bind_st_in_bounds rt1_messages_in_bounds)

lemma gcm_in_bounds [in_bounds]:
  "in_buffer (verimark_tls_gcm_wrap C key iv seq ct nonce plain)"
  "in_buffer (verimark_tls_gcm_unwrap C key iv seq ct frag)"
  by (auto simp: verimark_tls_gcm_wrap_def verimark_tls_gcm_unwrap_def Let_def split: option.splits)

lemma ec_in_bounds [in_bounds]:
  "in_buffer (verimark_pub_from_priv C d)"
  "in_buffer (verimark_ecdh_premaster C d x y)"
  "in_buffer (fst (verimark_ecdsa_sign_prehashed P d digest w))"
  by (auto simp: verimark_pub_from_priv_def verimark_ecdh_premaster_def verimark_ecdsa_sign_prehashed_def
      split: option.splits prod.splits)

lemma hs_build_rt2_in_bounds [in_bounds]: "in_buffer (fst (hs_build_rt2 P s))"
proof -
  have "in_buffer (fst (rt2_flight P s))"
    by (auto simp: rt2_flight_def Let_def split_beta intro!: in_bounds)
  moreover have "in_buffer (fst (rt2_keys C t))" for C t
    by (auto simp: rt2_keys_def Let_def set_error_def split: option.splits intro!: in_bounds)
  moreover have "in_buffer (fst (rt2_finished P out s))" for out s
    by (auto simp: rt2_finished_def Let_def set_error_def split: option.splits prod.splits intro!: in_bounds)
  ultimately show ?thesis
    by (auto simp: hs_build_rt2_def Let_def split_beta intro!: bind_st_in_bounds)
qed

lemma rt2_server_finished_in_bounds [in_bounds]: "in_buffer (fst (rt2_server_finished C t frag))"
  by (auto simp: rt2_server_finished_def Let_def set_error_def intro!: in_bounds)

lemma rt2_record_in_bounds [in_bounds]: "in_buffer (fst (rt2_record C ct frag s))"
  using rt2_server_finished_in_bounds [of C "snd (snd s)" frag]
  by (auto simp: rt2_record_def set_error_def split: prod.splits sum.splits)

lemma hs_process_rt2_in_bounds [in_bounds]: "in_buffer (fst (hs_process_rt2 C t resp))"
  using rec_loop_in_bounds [of "rt2_record C" "''RT2''" resp 0 "(False, False, t)", OF rt2_record_in_bounds]
  by (auto simp: hs_process_rt2_def set_error_def split: prod.splits sum.splits)

lemma unwrap_record_in_bounds [in_bounds]: "in_buffer (fst (unwrap_record C ct frag s))"
  using in_buffer_Inl [OF gcm_in_bounds(2)]
  by (auto simp: unwrap_record_def set_error_def Let_def split: prod.splits sum.splits)

lemma unwrap_in_bounds [in_bounds]: "in_buffer (fst (verimark_tls_unwrap C t rec))"
  using rec_loop_in_bounds [of "unwrap_record C" "''unwrap''" rec 0 "([], t)", OF unwrap_record_in_bounds]
  by (auto simp: verimark_tls_unwrap_def split: prod.splits sum.splits)

lemma handshake_in_bounds:
  assumes "\<And>w out. in_buffer (fst (io w out))"
  shows "in_buffer (fst (verimark_tls_handshake P io s))"
  by (auto simp: verimark_tls_handshake_def Let_def set_error_def split_beta intro!: in_bounds assms)

subsection \<open>Properties\<close>

text \<open>C30: The parser of the first server flight accepts exactly the byte strings that are
  plaintext handshake records (cut anywhere) carrying well-formed messages: ServerHello with the
  one cipher suite, Certificate and CertificateRequest (with ECDSA), in any order and number but
  at least one ServerHello, then ServerHelloDone as the very last message. The transcript grows by
  exactly those messages and the server random is the last ServerHello's.\<close>

theorem hs_process_rt1_spec:
  "hs_process_rt1 t resp = (Inr (), t') \<longleftrightarrow> (\<exists>ms. rt1_wire resp ms \<and> rt1_valid ms \<and> t' = rt1_after ms t)"
  by (rule hs_process_rt1_accepts)

text \<open>No reply of the sensor, however malformed, makes the handshake or the record layer read
  outside a buffer: every length and offset taken from the wire is checked before it is used.\<close>

lemma tls_reads_in_bounds:
  assumes "\<And>w out. in_buffer (fst (io w out))"
  shows "in_buffer (fst (verimark_tls_handshake P io s)) \<and> in_buffer (fst (verimark_tls_unwrap C t resp))"
  using handshake_in_bounds [of io P s] unwrap_in_bounds [of C t resp] assms by simp

lemma tls_reads_in_bounds_witness:
  "in_buffer (fst (verimark_tls_handshake sample (\<lambda>w out. (Inr [0x16, 3], w)) (verimark_tls_new, world0)))"
  using tls_reads_in_bounds [of "\<lambda>w out. (Inr [0x16, 3], w)" sample "(verimark_tls_new, world0)"] by simp

end
