(* ===== verification/Tls_Auth.thy ===== *)
theory Tls_Auth
  imports Tls_Records
begin

text \<open>
  A session that is established was authenticated: the only way through \<open>verimark_tls_handshake\<close> to
  \<open>established\<close> is a Finished of the sensor under the keys both sides derive.
\<close>

subsection \<open>An established session was authenticated\<close>

text \<open>The keys in use come from the ECDH secret with the paired sensor's public key and the two
  randoms of this handshake.\<close>

definition session_keys :: "crypto \<Rightarrow> tls \<Rightarrow> bool" where
  "session_keys C t \<longleftrightarrow>
     (\<exists>pm. verimark_ecdh_premaster C (t_eph_priv t) (pub_x (sensor_cert (t_pd t))) (pub_y (sensor_cert (t_pd t))) = Inr pm
        \<and> verimark_tls_derive_master_secret C pm (t_client_random t) (t_server_random t) = Some (t_master_secret t)
        \<and> verimark_tls_derive_keys C (t_master_secret t) (t_client_random t) (t_server_random t) = Some (t_keys t))"

text \<open>A record opened under those keys was a Finished message with the expected
  verify data.\<close>

definition finished_seen :: "crypto \<Rightarrow> tls \<Rightarrow> bool" where
  "finished_seen C t \<longleftrightarrow>
     (\<exists>seq frag plain. verimark_tls_gcm_unwrap C (decr_key (t_keys t)) (decr_iv (t_keys t)) seq 0x16 frag = Inr plain
        \<and> length plain = 16 \<and> plain ! 0 = 0x14
        \<and> verimark_tls_prf C MD_SHA384 (t_master_secret t) ''server finished'' (t_verify_digest t) 12
            = Some (drop 4 plain))"

lemma rt2_server_finished_Inr:
  "rt2_server_finished C t frag = (Inr (), t') \<Longrightarrow> finished_seen C t \<and> t' = t\<lparr>t_decr_seq := t_decr_seq t + 1\<rparr>"
  by (auto simp: rt2_server_finished_def finished_seen_def bind_st_Inr Let_def split: if_splits)

lemma rt2_server_finished_frame:
  "rt2_server_finished C t frag = (r, t') \<Longrightarrow> \<exists>n. t' = t\<lparr>t_decr_seq := n\<rparr>"
  by (cases r) (auto simp: rt2_server_finished_def bind_st_Inr bind_st_Inl Let_def split: if_splits intro: exI [of _ "t_decr_seq t"])

definition rt2_inv :: "crypto \<Rightarrow> tls \<Rightarrow> bool \<times> bool \<times> tls \<Rightarrow> bool" where
  "rt2_inv C t0 = (\<lambda>(ccs, fin, t). (fin \<longrightarrow> finished_seen C t0) \<and> (\<exists>n. t = t0\<lparr>t_decr_seq := n\<rparr>))"

lemma finished_seen_seq [simp]: "finished_seen C (t\<lparr>t_decr_seq := n\<rparr>) = finished_seen C t"
  by (simp add: finished_seen_def)

lemma rt2_record_inv:
  assumes "rt2_inv C t0 s" "rt2_record C ct frag s = (r, s')"
  shows "rt2_inv C t0 s'"
proof -
  obtain ccs fin t where s: "s = (ccs, fin, t)" by (cases s) auto
  with assms(1) obtain n where n: "t = t0\<lparr>t_decr_seq := n\<rparr>" and fin: "fin \<longrightarrow> finished_seen C t0"
    by (auto simp: rt2_inv_def)
  obtain r1 t1 where sf: "rt2_server_finished C t frag = (r1, t1)" by fastforce
  from rt2_server_finished_frame [OF sf] n have t1: "\<exists>n. t1 = t0\<lparr>t_decr_seq := n\<rparr>" by auto
  have "finished_seen C t0" if "r1 = Inr ()"
    using rt2_server_finished_Inr [of C t frag t1] sf that n by simp
  then show ?thesis
    using assms(2) fin n t1 sf
    by (cases r1) (auto simp: s rt2_record_def rt2_inv_def split: if_splits)
qed

lemma hs_process_rt2_cases:
  assumes "hs_process_rt2 C t resp = (r, t')"
  shows "(case r of Inl e \<Rightarrow> \<exists>n. t' = t\<lparr>t_decr_seq := n\<rparr>
    | Inr _ \<Rightarrow> finished_seen C t \<and> (\<exists>n. t' = t\<lparr>t_decr_seq := n, t_established := True\<rparr>))"
proof -
  obtain r1 ccs fin t1 where loop: "rec_loop ''RT2'' (rt2_record C) resp 0 (False, False, t) = (r1, ccs, fin, t1)"
    by (metis prod_cases4)
  have "rt2_inv C t (False, False, t)"
    by (auto simp: rt2_inv_def intro: exI [of _ "t_decr_seq t"])
  from rec_loop_outcome [where I = "rt2_inv C t" and Q = "\<lambda>_. True", OF _ _ this loop] rt2_record_inv [of C t]
  have "rt2_inv C t (ccs, fin, t1)" by blast
  then show ?thesis
    using assms loop by (auto simp: hs_process_rt2_def rt2_inv_def split: sum.splits if_splits)
qed

text \<open>The client's part of the flight, as it enters the transcript.\<close>

definition client_flight :: "tls \<Rightarrow> bytes \<Rightarrow> bytes \<Rightarrow> bytes \<Rightarrow> bytes" where
  "client_flight t x y sig =
     hs_bytes 0x0b ([0x00, 0x01, 0x90, 0x00, 0x01, 0x90, 0x00, 0x00] @ verimark_cert_serialize (host_cert (t_pd t)))
     @ hs_bytes 0x10 ([0x04] @ x @ y) @ hs_bytes 0x0f sig"

lemma rt2_flight_Inr:
  assumes "rt2_flight P (t, w) = (Inr out, t', w')"
  shows "\<exists>x y sig. verimark_pub_from_priv (lib P) (t_eph_priv t') = Inr (x, y)
    \<and> out = rec_enc (0x16, (3, 3), client_flight t x y sig)
    \<and> t' = t\<lparr>t_eph_priv := t_eph_priv t', t_transcript := t_transcript t @ client_flight t x y sig\<rparr>"
proof -
  obtain eph w1 where rnd: "rand_bytes P w 32 = (eph, w1)" by fastforce
  with assms obtain x y where pub: "verimark_pub_from_priv (lib P) eph = Inr (x, y)"
    by (auto simp: rt2_flight_def Let_def hs_msg_def bind_st_Inr)
  let ?t = "t\<lparr>t_eph_priv := eph, t_transcript := t_transcript t
    @ hs_bytes 0x0b ([0x00, 0x01, 0x90, 0x00, 0x01, 0x90, 0x00, 0x00] @ verimark_cert_serialize (host_cert (t_pd t)))
    @ hs_bytes 0x10 ([0x04] @ x @ y)\<rparr>"
  obtain r w2 where sig: "verimark_ecdsa_sign_prehashed P (priv_scalar (t_pd t)) (transcript_snapshot (lib P) ?t) w1 = (r, w2)"
    by fastforce
  show ?thesis
    using assms rnd pub sig
    by (cases r) (auto simp: rt2_flight_def Let_def hs_msg_def client_flight_def rec_write_plain_enc)
qed

lemma rt2_keys_Inr:
  assumes "rt2_keys C t = (Inr (), t')"
  shows "session_keys C t' \<and> t' = t\<lparr>t_master_secret := t_master_secret t', t_keys := t_keys t', t_encr_seq := 0, t_decr_seq := 0\<rparr>"
proof -
  obtain pm where pm: "verimark_ecdh_premaster C (t_eph_priv t) (pub_x (sensor_cert (t_pd t))) (pub_y (sensor_cert (t_pd t))) = Inr pm"
    using assms by (auto simp: rt2_keys_def bind_st_Inr)
  obtain ms where ms: "verimark_tls_derive_master_secret C pm (t_client_random t) (t_server_random t) = Some ms"
    using assms pm by (auto simp: rt2_keys_def split: option.split_asm)
  obtain ks where ks: "verimark_tls_derive_keys C ms (t_client_random t) (t_server_random t) = Some ks"
    using assms pm ms by (auto simp: rt2_keys_def Let_def split: option.split_asm)
  from assms pm ms ks show ?thesis
    by (auto simp: rt2_keys_def Let_def session_keys_def)
qed

lemma rt2_finished_Inr:
  assumes "rt2_finished P out (t, w) = (Inr out', t', w')"
  shows "\<exists>vd nonce frag. verimark_tls_prf (lib P) MD_SHA384 (t_master_secret t) ''client finished''
        (sha256 (lib P) (t_transcript t)) 12 = Some vd
    \<and> verimark_tls_gcm_wrap (lib P) (encr_key (t_keys t)) (encr_iv (t_keys t)) (t_encr_seq t) 0x16 nonce (hs_bytes 0x14 vd) = Inr frag
    \<and> nonce = fst (rand_bytes P w 8)
    \<and> out' = out @ rec_enc (0x14, (3, 3), [0x01]) @ rec_enc (0x16, (3, 3), frag)
    \<and> t' = t\<lparr>t_verify_digest := sha256 (lib P) (t_transcript t), t_encr_seq := t_encr_seq t + 1\<rparr>"
  using assms
  by (auto simp: rt2_finished_def Let_def hs_msg_def bind_st_Inr rec_write_plain_enc transcript_snapshot_def
      split: prod.splits option.splits)

lemma hs_build_rt2_Inr:
  assumes "hs_build_rt2 P (t, w) = (Inr out, t', w')"
  shows "session_keys (lib P) t' \<and> t_verify_digest t' = sha256 (lib P) (t_transcript t')
    \<and> t_encr_seq t' = 1 \<and> t_decr_seq t' = 0 \<and> t_established t' = t_established t
    \<and> t_pd t' = t_pd t \<and> t_client_random t' = t_client_random t \<and> t_server_random t' = t_server_random t
    \<and> (\<exists>x y sig vd nonce frag. verimark_pub_from_priv (lib P) (t_eph_priv t') = Inr (x, y)
        \<and> t_transcript t' = t_transcript t @ client_flight t x y sig
        \<and> verimark_tls_prf (lib P) MD_SHA384 (t_master_secret t') ''client finished'' (t_verify_digest t') 12 = Some vd
        \<and> verimark_tls_gcm_wrap (lib P) (encr_key (t_keys t')) (encr_iv (t_keys t')) 0 0x16 nonce (hs_bytes 0x14 vd) = Inr frag
        \<and> nonce \<in> range (\<lambda>w. fst (rand_bytes P w 8))
        \<and> out = rec_enc (0x16, (3, 3), client_flight t x y sig) @ rec_enc (0x14, (3, 3), [0x01]) @ rec_enc (0x16, (3, 3), frag))"
proof -
  obtain r1 t1 w1 where fl: "rt2_flight P (t, w) = (r1, t1, w1)" by (metis prod_cases3)
  obtain r2 t2 where k: "rt2_keys (lib P) t1 = (r2, t2)" by fastforce
  from assms fl k obtain out1 where r: "r1 = Inr out1" "r2 = Inr ()"
    and fin: "rt2_finished P out1 (t2, w1) = (Inr out, t', w')"
    by (cases r1; cases r2) (auto simp: hs_build_rt2_def)
  from rt2_flight_Inr [OF fl [unfolded r]] obtain x y sig where
    a: "verimark_pub_from_priv (lib P) (t_eph_priv t1) = Inr (x, y)"
    "out1 = rec_enc (0x16, (3, 3), client_flight t x y sig)"
    "t1 = t\<lparr>t_eph_priv := t_eph_priv t1, t_transcript := t_transcript t @ client_flight t x y sig\<rparr>" by blast
  from rt2_keys_Inr [OF k [unfolded r]] have b: "session_keys (lib P) t2"
    "t2 = t1\<lparr>t_master_secret := t_master_secret t2, t_keys := t_keys t2, t_encr_seq := 0, t_decr_seq := 0\<rparr>" by blast+
  from rt2_finished_Inr [OF fin] obtain vd nonce frag where
    c: "verimark_tls_prf (lib P) MD_SHA384 (t_master_secret t2) ''client finished'' (sha256 (lib P) (t_transcript t2)) 12 = Some vd"
    "verimark_tls_gcm_wrap (lib P) (encr_key (t_keys t2)) (encr_iv (t_keys t2)) (t_encr_seq t2) 0x16 nonce (hs_bytes 0x14 vd) = Inr frag"
    "nonce = fst (rand_bytes P w1 8)"
    "out = out1 @ rec_enc (0x14, (3, 3), [0x01]) @ rec_enc (0x16, (3, 3), frag)"
    "t' = t2\<lparr>t_verify_digest := sha256 (lib P) (t_transcript t2), t_encr_seq := t_encr_seq t2 + 1\<rparr>" by blast
  have t1: "t_transcript t1 = t_transcript t @ client_flight t x y sig" "t_established t1 = t_established t"
    "t_pd t1 = t_pd t" "t_client_random t1 = t_client_random t" "t_server_random t1 = t_server_random t"
    by (subst a(3), simp)+
  have t2: "t_transcript t2 = t_transcript t1" "t_established t2 = t_established t1" "t_pd t2 = t_pd t1"
    "t_client_random t2 = t_client_random t1" "t_server_random t2 = t_server_random t1"
    "t_eph_priv t2 = t_eph_priv t1" "t_encr_seq t2 = 0" "t_decr_seq t2 = 0"
    by (subst b(2), simp)+
  have "session_keys (lib P) t'"
    using b(1) by (simp add: session_keys_def c(5))
  moreover have "\<exists>x y sig vd nonce frag. verimark_pub_from_priv (lib P) (t_eph_priv t') = Inr (x, y)
        \<and> t_transcript t' = t_transcript t @ client_flight t x y sig
        \<and> verimark_tls_prf (lib P) MD_SHA384 (t_master_secret t') ''client finished'' (t_verify_digest t') 12 = Some vd
        \<and> verimark_tls_gcm_wrap (lib P) (encr_key (t_keys t')) (encr_iv (t_keys t')) 0 0x16 nonce (hs_bytes 0x14 vd) = Inr frag
        \<and> nonce \<in> range (\<lambda>w. fst (rand_bytes P w 8))
        \<and> out = rec_enc (0x16, (3, 3), client_flight t x y sig) @ rec_enc (0x14, (3, 3), [0x01]) @ rec_enc (0x16, (3, 3), frag)"
    by (rule exI [of _ x], rule exI [of _ y], rule exI [of _ sig], rule exI [of _ vd], rule exI [of _ nonce], rule exI [of _ frag])
      (use a c t1(1) t2 in simp)
  ultimately show ?thesis
    using t1 t2 by (simp add: c(5))
qed

lemma hs_build_rt2_established: "t_established (fst (snd (hs_build_rt2 P (t, w)))) = t_established t"
proof -
  have fl: "t_established (fst (snd (rt2_flight P (t, w)))) = t_established t"
    by (auto simp: rt2_flight_def Let_def hs_msg_def bind_st_def split: prod.splits sum.splits)
  have k: "t_established (snd (rt2_keys C t)) = t_established t" for C t
    by (auto simp: rt2_keys_def Let_def bind_st_def split: prod.splits sum.splits option.splits)
  have fn: "t_established (fst (snd (rt2_finished P out (t, w)))) = t_established t" for out t w
    by (auto simp: rt2_finished_def Let_def hs_msg_def bind_st_def split: prod.splits sum.splits option.splits)
  show ?thesis
    using fl k fn
    by (auto simp: hs_build_rt2_def Let_def bind_st_def split: prod.splits sum.splits) (metis fst_conv snd_conv)+
qed

lemma hs_build_client_hello_eq:
  assumes "hs_build_client_hello P t w = (out, t', w')"
  shows "out = rec_enc (0x16, (3, 3), hs_bytes 0x01 (client_hello_body (t_client_random t')))
    \<and> t' = t\<lparr>t_client_random := t_client_random t',
          t_transcript := t_transcript t @ hs_bytes 0x01 (client_hello_body (t_client_random t'))\<rparr>"
  using assms
  by (auto simp: hs_build_client_hello_def Let_def hs_msg_def rec_write_plain_enc split: prod.splits)

text \<open>
  What a successful handshake has established about the session \<open>t\<close> that started as \<open>t0\<close>:
  keys from the paired sensor's public key and this handshake's randoms, the transcript made of
  exactly the messages exchanged, and a server Finished opened under those keys that is right
  for that transcript.
\<close>

definition authenticated :: "crypto \<Rightarrow> tls \<Rightarrow> tls \<Rightarrow> bool" where
  "authenticated C t0 t \<longleftrightarrow>
     session_keys C t \<and> finished_seen C t \<and> t_verify_digest t = sha256 C (t_transcript t) \<and> t_pd t = t_pd t0
   \<and> (\<exists>ms x y sig. rt1_valid ms \<and> t_server_random t = rt1_random ms (t_server_random t0)
        \<and> verimark_pub_from_priv C (t_eph_priv t) = Inr (x, y)
        \<and> t_transcript t = t_transcript t0 @ hs_bytes 0x01 (client_hello_body (t_client_random t))
            @ concat (map msg_enc ms) @ client_flight t x y sig)"

lemma handshake_Inr:
  assumes "verimark_tls_handshake P io (t, w) = (Inr b, t', w')"
  obtains out1 t1 w1 resp1 w2 t2 out2 t3 w3 resp2 where
    "hs_build_client_hello P t w = (out1, t1, w1)" "io w1 out1 = (Inr resp1, w2)"
    "hs_process_rt1 t1 resp1 = (Inr (), t2)" "hs_build_rt2 P (t2, w2) = (Inr out2, t3, w3)"
    "io w3 out2 = (Inr resp2, w')" "hs_process_rt2 (lib P) t3 resp2 = (Inr (), t')" "b = t_established t'"
  using assms
  by (auto simp: verimark_tls_handshake_def Let_def bind_st_def
      split: prod.split_asm sum.split_asm if_split_asm)

lemma hs_process_rt1_established: "t_established (snd (hs_process_rt1 t resp)) = t_established t"
proof -
  have sw: "rt1_switch t mid body got = (r, t') \<Longrightarrow> t_established t' = t_established t" for t mid body got r t'
    by (auto simp: rt1_switch_def rt1_server_hello_def bind_st_def split: prod.splits sum.splits if_splits)
  have ms: "rt1_messages hsbuf off got d t = (r, t') \<Longrightarrow> t_established t' = t_established t" for hsbuf off got d t r t'
  proof (induction "length hsbuf - off" arbitrary: off got d t rule: less_induct)
    case less
    note loop = rt1_messages.simps [of hsbuf off got d t]
    show ?case
    proof (cases "off < length hsbuf \<and> (\<exists>mid body raw. rt1_header hsbuf off = Inr (mid, body)
        \<and> rd_slice hsbuf off (4 + length body) = Inr raw) \<and> \<not> d")
      case False
      then show ?thesis
        using less.prems loop
        by (auto simp: bind_st_def Let_def split: if_splits sum.splits)
    next
      case True
      then obtain mid body raw where hd: "rt1_header hsbuf off = Inr (mid, body)"
        "rd_slice hsbuf off (4 + length body) = Inr raw" by blast
      let ?t = "t\<lparr>t_transcript := t_transcript t @ raw\<rparr>"
      obtain r1 t1 where s: "rt1_switch ?t mid body got = (r1, t1)" by fastforce
      have off: "off < length hsbuf" using True by blast
      then have short: "length hsbuf - (off + 4 + length body) < length hsbuf - off" by simp
      show ?thesis
        using less.prems loop True hd s sw [OF s] less.hyps [OF short]
        by (cases r1) (auto simp: Let_def split: prod.splits)
    qed
  qed
  show ?thesis
    by (auto simp: hs_process_rt1_def bind_st_def split: prod.splits sum.splits dest: ms)
qed

lemma handshake_authenticated:
  assumes "verimark_tls_handshake P io (t, w) = (Inr b, t', w')"
  shows "b \<and> t_established t' \<and> authenticated (lib P) t t'"
proof -
  from handshake_Inr [OF assms] obtain out1 t1 w1 resp1 w2 t2 out2 t3 w3 resp2 where
    ch: "hs_build_client_hello P t w = (out1, t1, w1)" and rt1: "hs_process_rt1 t1 resp1 = (Inr (), t2)"
    and b2: "hs_build_rt2 P (t2, w2) = (Inr out2, t3, w3)"
    and rt2: "hs_process_rt2 (lib P) t3 resp2 = (Inr (), t')" and b: "b = t_established t'" by metis
  from hs_build_client_hello_eq [OF ch] have t1:
    "t1 = t\<lparr>t_client_random := t_client_random t1,
          t_transcript := t_transcript t @ hs_bytes 0x01 (client_hello_body (t_client_random t1))\<rparr>" by blast
  have t1': "t_pd t1 = t_pd t" "t_server_random t1 = t_server_random t"
    "t_transcript t1 = t_transcript t @ hs_bytes 0x01 (client_hello_body (t_client_random t1))"
    by (subst t1, simp)+
  from rt1 obtain ms where ms: "rt1_valid ms" "t2 = rt1_after ms t1"
    unfolding hs_process_rt1_accepts by blast
  from hs_build_rt2_Inr [OF b2] obtain x y sig where t3: "session_keys (lib P) t3"
    "t_verify_digest t3 = sha256 (lib P) (t_transcript t3)" "t_pd t3 = t_pd t2"
    "t_client_random t3 = t_client_random t2" "t_server_random t3 = t_server_random t2"
    "verimark_pub_from_priv (lib P) (t_eph_priv t3) = Inr (x, y)"
    "t_transcript t3 = t_transcript t2 @ client_flight t2 x y sig" by blast
  from hs_process_rt2_cases [OF rt2] obtain n where fin: "finished_seen (lib P) t3"
    and t': "t' = t3\<lparr>t_decr_seq := n, t_established := True\<rparr>" by auto
  have "client_flight t2 x y sig = client_flight t' x y sig"
    by (simp add: client_flight_def t' t3)
  then have "t_transcript t' = t_transcript t @ hs_bytes 0x01 (client_hello_body (t_client_random t'))
      @ concat (map msg_enc ms) @ client_flight t' x y sig"
    using t3(4,7) ms(2) t1'(3) by (simp add: t' rt1_after_def)
  moreover have "t_server_random t' = rt1_random ms (t_server_random t)"
    using t3(5) ms(2) t1'(2) by (simp add: t' rt1_after_def)
  moreover have "session_keys (lib P) t'" "finished_seen (lib P) t'"
    using t3(1) fin by (simp_all add: session_keys_def finished_seen_def t')
  moreover have "verimark_pub_from_priv (lib P) (t_eph_priv t') = Inr (x, y)"
    "t_verify_digest t' = sha256 (lib P) (t_transcript t')" "t_pd t' = t_pd t"
    using t3 ms(2) t1'(1) by (simp_all add: t' rt1_after_def)
  ultimately have "authenticated (lib P) t t'"
    unfolding authenticated_def using ms(1) by blast
  then show ?thesis using b t' by simp
qed

lemma handshake_error:
  assumes "verimark_tls_handshake P io (t, w) = (Inl e, t', w')"
  shows "t_established t' = t_established t"
proof -
  have ch: "hs_build_client_hello P t w = (out, t1, w1) \<Longrightarrow> t_established t1 = t_established t" for out t1 w1
    by (auto simp: hs_build_client_hello_def Let_def hs_msg_def split: prod.splits)
  have rt1: "hs_process_rt1 t resp = (r, t1) \<Longrightarrow> t_established t1 = t_established t" for t resp r t1
    using hs_process_rt1_established [of t resp] by simp
  have b2: "hs_build_rt2 P (t, w) = (r, t1, w1) \<Longrightarrow> t_established t1 = t_established t" for t w r t1 w1
    using hs_build_rt2_established [of P t w] by simp
  have rt2: "hs_process_rt2 C t resp = (Inl e, t1) \<Longrightarrow> t_established t1 = t_established t" for C t resp e t1
    using hs_process_rt2_cases [of C t resp "Inl e" t1] by auto
  show ?thesis
    using assms
    by (auto simp: verimark_tls_handshake_def Let_def bind_st_def
        split: prod.split_asm sum.split_asm if_split_asm dest!: ch rt1 b2 rt2)
qed

end
