(* ===== verification/Sensor.thy ===== *)
theory Sensor
  imports Tls_Auth
begin

text \<open>
  The other end of the handshake: a sensor that follows the dialect of \<open>verimark-tls.c\<close>, as an
  executable specification, and the proof that the driver's handshake with it succeeds and that
  both ends then hold the same keys.
\<close>

subsection \<open>The sensor\<close>

record sensor =
  s_priv :: bytes
  s_random :: bytes
  s_nonce :: bytes
  s_client_random :: bytes
  s_transcript :: bytes
  s_phase :: nat
  s_keys :: tls_keys

text \<open>ServerHello (with the version bytes the sensor really sends), CertificateRequest for
  ECDSA, ServerHelloDone.\<close>

definition sensor_flight :: "bytes \<Rightarrow> (byte \<times> bytes) list" where
  "sensor_flight rnd = [(0x02, [0x03, 0x83] @ rnd @ [0x00, 0xc0, 0x2e, 0x00]), (0x0d, [0x01, 64]), (0x0e, [])]"

definition sensor_rt1 :: "sensor \<Rightarrow> bytes \<Rightarrow> bytes \<times> sensor" where
  "sensor_rt1 s out =
     (let hello = drop 5 out; flight = concat (map msg_enc (sensor_flight (s_random s)))
      in (rec_enc (0x16, (3, 3), flight),
          s\<lparr>s_client_random := take 32 (drop 6 hello), s_transcript := hello @ flight, s_phase := 1\<rparr>))"

text \<open>The point of the ClientKeyExchange follows the 412 bytes of the Certificate message and
  five bytes of its own.\<close>

definition sensor_rt2 :: "crypto \<Rightarrow> sensor \<Rightarrow> bytes \<Rightarrow> bytes \<times> sensor" where
  "sensor_rt2 C s out =
     (let n = unat (u16_of_be (out ! 3) (out ! 4)); flight = take n (drop 5 out);
          frag = drop (5 + n + 6 + 5) out;
          pm = ecdh_compute_key C (s_priv s) (take 32 (drop 417 flight)) (take 32 (drop 449 flight));
          ms = the (verimark_tls_derive_master_secret C pm (s_client_random s) (s_random s));
          ks = the (verimark_tls_derive_keys C ms (s_client_random s) (s_random s));
          digest = sha256 C (s_transcript s @ flight);
          client_vd = the (verimark_tls_prf C MD_SHA384 ms ''client finished'' digest 12);
          server_vd = the (verimark_tls_prf C MD_SHA384 ms ''server finished'' digest 12)
      in if verimark_tls_gcm_unwrap C (encr_key ks) (encr_iv ks) 0 0x16 frag = Inr (hs_bytes 0x14 client_vd)
         then
           (case verimark_tls_gcm_wrap C (decr_key ks) (decr_iv ks) 0 0x16 (s_nonce s) (hs_bytes 0x14 server_vd) of
              Inl _ \<Rightarrow> ([], s)
            | Inr reply \<Rightarrow> (rec_enc (0x14, (3, 3), [0x01]) @ rec_enc (0x16, (3, 3), reply),
                s\<lparr>s_phase := 2, s_keys := ks\<rparr>))
         else (rec_enc (0x15, (3, 3), [0x02, 51]), s))"

text \<open>An alert ends the session, and the next message is a ClientHello again.\<close>

definition sensor_step :: "crypto \<Rightarrow> sensor \<Rightarrow> bytes \<Rightarrow> bytes \<times> sensor" where
  "sensor_step C s out =
     (if take 1 out = [0x15] then ([], s\<lparr>s_phase := 0\<rparr>)
      else if s_phase s = 0 then sensor_rt1 s out else sensor_rt2 C s out)"

text \<open>Its answers fit the driver's read, and what identifies it does not change.\<close>

lemma sensor_step_reply:
  assumes "mac_doc C" "aead_doc C" "length (s_random s) = 32" "length (s_nonce s) = 8"
  shows "length (fst (sensor_step C s out)) \<le> 256"
proof -
  have rt1: "length (fst (sensor_rt1 s out)) \<le> 256"
    using assms(3) by (simp add: sensor_rt1_def Let_def sensor_flight_def msg_enc_def rec_enc_def)
  have vd: "length (the (verimark_tls_prf C MD_SHA384 ms label seed 12)) = 12" for ms label seed
    using length_prf [OF assms(1), of MD_SHA384 ms label seed 12] by auto
  have wrap: "length reply = length plain + 24"
    if "verimark_tls_gcm_wrap C k iv n ct (s_nonce s) plain = Inr reply" for k iv n ct plain reply
    using gcm_unwrap_wrap [OF assms(2,4), of k iv n ct plain] that by auto
  have "length (fst (sensor_rt2 C s out)) \<le> 256"
    by (auto simp: sensor_rt2_def Let_def rec_enc_def vd hs_bytes_def dest!: wrap split: sum.split)
  with rt1 show ?thesis by (simp add: sensor_step_def)
qed

lemma sensor_step_identity:
  "s_priv (snd (sensor_step C s out)) = s_priv s" "s_random (snd (sensor_step C s out)) = s_random s"
  "s_nonce (snd (sensor_step C s out)) = s_nonce s"
  by (simp_all add: sensor_step_def sensor_rt1_def sensor_rt2_def Let_def split: sum.split)

subsection \<open>The link\<close>

text \<open>\<open>S\<close> is the sensor in the world, \<open>R\<close> the worlds in which it takes messages: \<open>io\<close> talks to it,
  and nothing else the handshake calls changes it.\<close>

definition sensor_link :: "'w platform \<Rightarrow> 'w tls_io \<Rightarrow> ('w \<Rightarrow> bool) \<Rightarrow> ('w \<Rightarrow> sensor) \<Rightarrow> bool" where
  "sensor_link P io R S \<longleftrightarrow>
     (\<forall>w out. R w \<and> length out \<le> 2000 \<longrightarrow> fst (io w out) = Inr (fst (sensor_step (lib P) (S w) out))
        \<and> S (snd (io w out)) = snd (sensor_step (lib P) (S w) out) \<and> R (snd (io w out)))
   \<and> (\<forall>w. R w \<longrightarrow> S (snd (unix_time P w)) = S w \<and> R (snd (unix_time P w)))
   \<and> (\<forall>w n. R w \<longrightarrow> S (snd (rand_bytes P w n)) = S w \<and> R (snd (rand_bytes P w n)))
   \<and> (\<forall>w d m. R w \<longrightarrow> S (snd (ecdsa_sign P w d m)) = S w \<and> R (snd (ecdsa_sign P w d m)))"

lemma sensor_linkD:
  assumes "sensor_link P io R S"
  shows "io w out = (r, w') \<Longrightarrow> R w \<Longrightarrow> length out \<le> 2000
      \<Longrightarrow> r = Inr (fst (sensor_step (lib P) (S w) out)) \<and> S w' = snd (sensor_step (lib P) (S w) out) \<and> R w'"
    and "unix_time P w = (now, w') \<Longrightarrow> R w \<Longrightarrow> S w' = S w \<and> R w'"
    and "rand_bytes P w n = (rnd, w') \<Longrightarrow> R w \<Longrightarrow> S w' = S w \<and> R w'"
    and "ecdsa_sign P w d m = (sig, w') \<Longrightarrow> R w \<Longrightarrow> S w' = S w \<and> R w'"
  using assms unfolding sensor_link_def by (metis fst_conv snd_conv)+

text \<open>P-256 as documented: Diffie-Hellman commutes and gives 32 bytes, public keys made from
  private ones are accepted.\<close>

definition dh_doc :: "crypto \<Rightarrow> bool" where
  "dh_doc C \<longleftrightarrow>
     (\<forall>d x y d' x' y'. ec_point_mul C d = Some (x, y) \<and> ec_point_mul C d' = Some (x', y')
        \<longrightarrow> ecdh_compute_key C d x' y' = ecdh_compute_key C d' x y \<and> length (ecdh_compute_key C d x' y') = 32)
   \<and> (\<forall>d x y. ec_point_mul C d = Some (x, y) \<longrightarrow> ec_set_private_key C d \<and> ec_set_public_key C x y)"

text \<open>Any 32 random bytes are a private key, and signing with the pairing's key works and gives at
  most 80 bytes.\<close>

definition keys_doc :: "'w platform \<Rightarrow> bytes \<Rightarrow> bool" where
  "keys_doc P priv \<longleftrightarrow> (\<forall>w. ec_point_mul (lib P) (fst (rand_bytes P w 32)) \<noteq> None) \<and> ec_set_private_key (lib P) priv
     \<and> (\<forall>w d. \<exists>sig. fst (ecdsa_sign P w priv d) = Some sig \<and> length sig \<le> 80)"

subsection \<open>The driver's second flight goes out\<close>

lemma rt2_keys_total:
  assumes "ct = sensor_cert (t_pd t)" "mac_doc (lib P)" "dh_doc (lib P)" "ec_point_mul (lib P) d = Some (pub_x ct, pub_y ct)"
    and "ec_point_mul (lib P) (t_eph_priv t) \<noteq> None"
  shows "\<exists>pm ms ks. verimark_ecdh_premaster (lib P) (t_eph_priv t) (pub_x ct) (pub_y ct) = Inr pm
    \<and> rt2_keys (lib P) t = (Inr (), t\<lparr>t_master_secret := ms, t_keys := ks, t_encr_seq := 0, t_decr_seq := 0\<rparr>)"
proof -
  obtain x y where e: "ec_point_mul (lib P) (t_eph_priv t) = Some (x, y)" using assms(5) by auto
  have "ec_set_private_key (lib P) (t_eph_priv t)" "ec_set_public_key (lib P) (pub_x ct) (pub_y ct)"
    "length (ecdh_compute_key (lib P) (t_eph_priv t) (pub_x ct) (pub_y ct)) = 32"
    using assms(3,4) e unfolding dh_doc_def by blast+
  then obtain pm where pm: "verimark_ecdh_premaster (lib P) (t_eph_priv t) (pub_x ct) (pub_y ct) = Inr pm"
    by (simp add: verimark_ecdh_premaster_def)
  obtain ms where ms: "verimark_tls_derive_master_secret (lib P) pm (t_client_random t) (t_server_random t) = Some ms"
    using derive_master_total [OF assms(2)] by blast
  obtain ks where "verimark_tls_derive_keys (lib P) ms (t_client_random t) (t_server_random t) = Some ks"
    using derive_keys_wf [OF assms(2)] by blast
  with pm ms have "rt2_keys (lib P) t = (Inr (), t\<lparr>t_master_secret := ms, t_keys := ks, t_encr_seq := 0, t_decr_seq := 0\<rparr>)"
    by (simp add: rt2_keys_def Let_def assms(1))
  with pm show ?thesis by blast
qed

lemma hs_build_rt2_total:
  assumes "mac_doc (lib P)" "aead_doc (lib P)" "rand_doc P" "dh_doc (lib P)"
    and "keys_doc P (priv_scalar (t_pd t))"
    and "ec_point_mul (lib P) d = Some (pub_x (sensor_cert (t_pd t)), pub_y (sensor_cert (t_pd t)))"
    and "sensor_link P io R S" "R w"
  shows "\<exists>out t' w' x y sig. hs_build_rt2 P (t, w) = (Inr out, t', w') \<and> S w' = S w \<and> R w'
    \<and> ec_point_mul (lib P) (t_eph_priv t') = Some (x, y) \<and> t_transcript t' = t_transcript t @ client_flight t x y sig
    \<and> length sig \<le> 80"
proof -
  note S = sensor_linkD [OF assms(7)]
  obtain eph w1 where rnd: "rand_bytes P w 32 = (eph, w1)" by fastforce
  with assms(5) have "ec_point_mul (lib P) eph \<noteq> None"
    unfolding keys_doc_def by (metis fst_conv)
  then obtain x y where pub: "ec_point_mul (lib P) eph = Some (x, y)" by auto
  let ?t = "t\<lparr>t_eph_priv := eph, t_transcript := t_transcript t
    @ hs_bytes 0x0b ([0x00, 0x01, 0x90, 0x00, 0x01, 0x90, 0x00, 0x00] @ verimark_cert_serialize (host_cert (t_pd t)))
    @ hs_bytes 0x10 ([0x04] @ x @ y)\<rparr>"
  obtain sg w2 where sign: "ecdsa_sign P w1 (priv_scalar (t_pd t)) (transcript_snapshot (lib P) ?t) = (sg, w2)"
    by fastforce
  with assms(5) obtain sig where sig: "sg = Some sig" "length sig \<le> 80"
    unfolding keys_doc_def by (metis fst_conv)
  let ?t1 = "?t\<lparr>t_transcript := t_transcript ?t @ hs_bytes 0x0f sig\<rparr>"
  have fl: "rt2_flight P (t, w) = (Inr (rec_enc (0x16, (3, 3), client_flight t x y sig)), ?t1, w2)"
    using rnd pub sign sig assms(5)
    by (simp add: rt2_flight_def Let_def hs_msg_def client_flight_def rec_write_plain_enc verimark_pub_from_priv_def
        verimark_ecdsa_sign_prehashed_def keys_doc_def)
  let ?ct = "sensor_cert (t_pd t)"
  obtain pm ms ks where keys: "verimark_ecdh_premaster (lib P) eph (pub_x ?ct) (pub_y ?ct) = Inr pm"
      "rt2_keys (lib P) ?t1 = (Inr (), ?t1\<lparr>t_master_secret := ms, t_keys := ks, t_encr_seq := 0, t_decr_seq := 0\<rparr>)"
    using rt2_keys_total [of ?ct ?t1 P d, OF _ assms(1,4)] pub assms(6) by auto
  let ?t2 = "?t1\<lparr>t_master_secret := ms, t_keys := ks, t_encr_seq := 0, t_decr_seq := 0\<rparr>"
  note k = keys(2)
  obtain vd where vd: "verimark_tls_prf (lib P) MD_SHA384 ms ''client finished'' (transcript_snapshot (lib P) ?t2) 12 = Some vd"
    using length_prf [OF assms(1)] by blast
  obtain nonce w3 where nonce: "rand_bytes P w2 8 = (nonce, w3)" by fastforce
  obtain frag where frag: "verimark_tls_gcm_wrap (lib P) (encr_key ks) (encr_iv ks) 0 0x16 nonce (hs_bytes 0x14 vd) = Inr frag"
    using gcm_unwrap_wrap [OF assms(2) rand_docD [OF assms(3) nonce]] by blast
  obtain out t' where fin: "rt2_finished P (rec_enc (0x16, (3, 3), client_flight t x y sig)) (?t2, w2) = (Inr out, t', w3)"
    and t': "t_eph_priv t' = eph" "t_transcript t' = t_transcript ?t1"
    using vd nonce frag by (simp add: rt2_finished_def Let_def hs_msg_def)
  have "hs_build_rt2 P (t, w) = (Inr out, t', w3)"
    using fl k fin by (simp add: hs_build_rt2_def)
  moreover have "S w3 = S w \<and> R w3"
    using S(3) [OF rnd] S(4) [OF sign] S(3) [OF nonce] assms(8) by simp
  moreover have "t_transcript t' = t_transcript t @ client_flight t x y sig"
    by (simp add: t' client_flight_def)
  ultimately show ?thesis using pub sig(2) t'(1) by blast
qed

subsection \<open>Both flights are understood\<close>

lemma client_flight_layout:
  assumes "cert_wf (host_cert (t_pd t))" "length x = 32" "length y = 32"
  shows "take 32 (drop 417 (client_flight t x y sig)) = x" "take 32 (drop 449 (client_flight t x y sig)) = y"
    "length (client_flight t x y sig) = 485 + length sig"
  using assms by (simp_all add: client_flight_def hs_bytes_def)

lemma sensor_flight_wire:
  assumes "length rnd = 32"
  shows "rt1_wire (rec_enc (0x16, (3, 3), concat (map msg_enc (sensor_flight rnd)))) (sensor_flight rnd)"
    and "rt1_valid (sensor_flight rnd)" "rt1_random (sensor_flight rnd) r = rnd"
proof -
  let ?flight = "concat (map msg_enc (sensor_flight rnd))"
  have "length ?flight < 65536"
    using assms by (simp add: sensor_flight_def msg_enc_def)
  then show "rt1_wire (rec_enc (0x16, (3, 3), ?flight)) (sensor_flight rnd)"
    using assms unfolding rt1_wire_def
    by (intro conjI exI [of _ "[(0x16, (3, 3), ?flight)]"])
      (simp_all add: rec_fits_def sensor_flight_def msg_fits_def)
  have "([0x03, 0x83] @ rnd @ [0x00, 0xc0, 0x2e, 0x00]) ! 34 = 0" "([0x03, 0x83] @ rnd @ [0x00, 0xc0, 0x2e, 0x00]) ! 35 = 0xc0"
    "([0x03, 0x83] @ rnd @ [0x00, 0xc0, 0x2e, 0x00]) ! 36 = 0x2e"
    using assms by (simp_all add: nth_append nth_Cons')
  then have "server_hello_ok ([0x03, 0x83] @ rnd @ [0x00, 0xc0, 0x2e, 0x00])"
    using assms by (simp add: server_hello_ok_def u16_of_be_def)
  then show "rt1_valid (sensor_flight rnd)"
    by (simp add: rt1_valid_def sensor_flight_def rt1_msg_ok_def cert_request_ok_def)
  show "rt1_random (sensor_flight rnd) r = rnd"
    using assms by (simp add: sensor_flight_def)
qed

lemma sensor_rt2_layout:
  assumes "length flight < 65536"
    and "out = rec_enc (0x16, (3, 3), flight) @ rec_enc (0x14, (3, 3), [0x01]) @ rec_enc (0x16, (3, 3), frag)"
  defines "n \<equiv> unat (u16_of_be (out ! 3) (out ! 4))"
  shows "n = length flight" "take n (drop 5 out) = flight" "drop (5 + n + 6 + 5) out = frag"
proof -
  have "out ! 3 = of_nat (length flight div 256)" "out ! 4 = of_nat (length flight)"
    by (simp_all add: assms(2) rec_enc_def)
  then show n: "n = length flight"
    using assms(1) by (simp add: n_def unat_be16_length)
  show "take n (drop 5 out) = flight"
    unfolding n by (simp add: assms(2) rec_enc_def)
  let ?pre = "rec_enc (0x16, (3, 3), flight) @ rec_enc (0x14, (3, 3), [0x01])
    @ [0x16, 3, 3, of_nat (length frag div 256), of_nat (length frag)]"
  have "out = ?pre @ frag" "length ?pre = 5 + n + 6 + 5"
    by (simp_all add: assms(2) n) (simp add: rec_enc_def)
  then show "drop (5 + n + 6 + 5) out = frag" by (metis append_eq_conv_conj)
qed

lemma hs_process_rt2_accepts:
  assumes "verimark_tls_gcm_wrap C (decr_key (t_keys t)) (decr_iv (t_keys t)) 0 0x16 nonce (hs_bytes 0x14 vd) = Inr reply"
    and "aead_doc C" "length nonce = 8" "length vd = 12" "t_decr_seq t = 0"
    and "verimark_tls_prf C MD_SHA384 (t_master_secret t) ''server finished'' (t_verify_digest t) 12 = Some vd"
  shows "hs_process_rt2 C t (rec_enc (0x14, (3, 3), [0x01]) @ rec_enc (0x16, (3, 3), reply)) =
    (Inr (), t\<lparr>t_decr_seq := 1, t_established := True\<rparr>)"
proof -
  from gcm_unwrap_wrap [OF assms(2,3), of "decr_key (t_keys t)" "decr_iv (t_keys t)" 0 "0x16" "hs_bytes 0x14 vd"] assms(1,4)
  have un: "verimark_tls_gcm_unwrap C (decr_key (t_keys t)) (decr_iv (t_keys t)) 0 0x16 reply = Inr (hs_bytes 0x14 vd)"
    and len: "length reply = 40" by simp_all
  let ?rs = "[(0x14, (3, 3), [0x01]), (0x16, (3, 3), reply)] :: tls_record list"
  have fin: "rt2_server_finished C t reply = (Inr (), t\<lparr>t_decr_seq := 1\<rparr>)"
    using un assms(4-6) by (simp add: rt2_server_finished_def Let_def hs_bytes_def)
  have fits: "\<forall>r \<in> set ?rs. rec_fits r" by (simp add: rec_fits_def len)
  have "run_recs (rt2_record C) ?rs (False, False, t) = (Inr (), True, True, t\<lparr>t_decr_seq := 1\<rparr>)"
    by (simp add: rt2_record_def fin)
  then have "rec_loop ''RT2'' (rt2_record C) (concat (map rec_enc ?rs)) 0 (False, False, t) = (Inr (), True, True, t\<lparr>t_decr_seq := 1\<rparr>)"
    using rec_loop_enc [OF fits, of "''RT2''" "rt2_record C" "[]" "(False, False, t)"] by simp
  then show ?thesis by (simp add: hs_process_rt2_def)
qed

lemma client_hello_random:
  assumes "hs_build_client_hello P t w = (out, t', w')" "rand_doc P"
  shows "length (t_client_random t') = 32"
  using assms rand_docD [OF assms(2)]
  by (auto simp: hs_build_client_hello_def Let_def hs_msg_def split: prod.splits)

lemma client_hello_sensor:
  assumes "sensor_link P io R S" "hs_build_client_hello P t w = (out, t', w')" "R w"
  shows "S w' = S w \<and> R w'"
  using assms(2,3) sensor_linkD(2,3) [OF assms(1)]
  by (auto simp: hs_build_client_hello_def Let_def split: prod.splits)

lemma drop_hello:
  assumes "length cr = 32"
  shows "take 32 (drop 6 (hs_bytes 0x01 (client_hello_body cr))) = cr"
  using assms by (simp add: hs_bytes_def client_hello_body_def)

text \<open>The first round trip.\<close>

lemma hello_round:
  assumes "rand_doc P" "sensor_link P io R S" "R w" "t_transcript t = []" "s_phase (S w) = 0" "length (s_random (S w)) = 32"
  shows "\<exists>out t1 w1 resp w2 t2. hs_build_client_hello P t w = (out, t1, w1) \<and> io w1 out = (Inr resp, w2)
    \<and> hs_process_rt1 t1 resp = (Inr (), t2) \<and> t_pd t2 = t_pd t \<and> t_server_random t2 = s_random (S w)
    \<and> S w2 = (S w)\<lparr>s_client_random := t_client_random t2, s_transcript := t_transcript t2, s_phase := 1\<rparr> \<and> R w2"
proof -
  let ?ms = "sensor_flight (s_random (S w))"
  obtain out t1 w1 where ch: "hs_build_client_hello P t w = (out, t1, w1)" by (metis surj_pair)
  note che = hs_build_client_hello_eq [OF ch]
  let ?hello = "hs_bytes 0x01 (client_hello_body (t_client_random t1))"
  have cr: "length (t_client_random t1) = 32" by (rule client_hello_random [OF ch assms(1)])
  have S1: "S w1 = S w" "R w1" using client_hello_sensor [OF assms(2) ch assms(3)] by simp_all
  have "t_transcript t1 = t_transcript t @ ?hello" "t_pd t1 = t_pd t" "t_server_random t1 = t_server_random t"
    by (subst conjunct2 [OF che], simp)+
  then have t1: "t_transcript t1 = ?hello" "t_pd t1 = t_pd t" "t_server_random t1 = t_server_random t"
    using assms(4) by simp_all
  obtain r w2 where io: "io w1 out = (r, w2)" by fastforce
  have out: "drop 5 out = ?hello" "length out \<le> 2000" "take 1 out \<noteq> [0x15]"
    using conjunct1 [OF che] cr by (simp_all add: rec_enc_def hs_bytes_def client_hello_body_def
        ext_supported_groups_def ext_ec_point_formats_def)
  let ?resp = "rec_enc (0x16, (3, 3), concat (map msg_enc ?ms))"
  have r: "r = Inr ?resp" and S2: "R w2" "S w2 = (S w)\<lparr>s_client_random := t_client_random t1,
      s_transcript := ?hello @ concat (map msg_enc ?ms), s_phase := 1\<rparr>"
    using sensor_linkD(1) [OF assms(2) io S1(2) out(2)] S1(1) assms(5) out(1,3) drop_hello [OF cr]
    by (simp_all add: sensor_step_def sensor_rt1_def Let_def)
  note flight = sensor_flight_wire [OF assms(6)]
  have "hs_process_rt1 t1 ?resp = (Inr (), rt1_after ?ms t1)"
    unfolding hs_process_rt1_accepts using flight(1,2) by blast
  moreover have "t_pd (rt1_after ?ms t1) = t_pd t" "t_client_random (rt1_after ?ms t1) = t_client_random t1"
    "t_server_random (rt1_after ?ms t1) = s_random (S w)" "t_transcript (rt1_after ?ms t1) = ?hello @ concat (map msg_enc ?ms)"
    using t1 flight(3) by (simp_all add: rt1_after_def)
  ultimately show ?thesis using ch io r S2 by auto
qed

text \<open>The keys both ends derive.\<close>

lemma sensor_agrees:
  assumes "dh_doc C" "session_keys C t" "ec_point_mul C d = Some (pub_x (sensor_cert (t_pd t)), pub_y (sensor_cert (t_pd t)))"
    and "ec_point_mul C (t_eph_priv t) = Some (x, y)"
  shows "verimark_tls_derive_master_secret C (ecdh_compute_key C d x y) (t_client_random t) (t_server_random t) = Some (t_master_secret t)"
    "verimark_tls_derive_keys C (t_master_secret t) (t_client_random t) (t_server_random t) = Some (t_keys t)"
proof -
  from assms(2) obtain pm where
    pm: "ecdh_compute_key C (t_eph_priv t) (pub_x (sensor_cert (t_pd t))) (pub_y (sensor_cert (t_pd t))) = pm"
    and ms: "verimark_tls_derive_master_secret C pm (t_client_random t) (t_server_random t) = Some (t_master_secret t)"
    and ks: "verimark_tls_derive_keys C (t_master_secret t) (t_client_random t) (t_server_random t) = Some (t_keys t)"
    by (auto simp: session_keys_def verimark_ecdh_premaster_def split: if_splits)
  have "ecdh_compute_key C d x y = pm" using assms(1,3,4) pm unfolding dh_doc_def by metis
  with ms ks show "verimark_tls_derive_master_secret C (ecdh_compute_key C d x y) (t_client_random t) (t_server_random t) = Some (t_master_secret t)"
    "verimark_tls_derive_keys C (t_master_secret t) (t_client_random t) (t_server_random t) = Some (t_keys t)" by simp_all
qed

text \<open>The second round trip: what the driver sends, and the sensor's answer to it.\<close>

lemma second_flight:
  assumes docs: "mac_doc (lib P)" "aead_doc (lib P)" "rand_doc P" "dh_doc (lib P)" "curve_doc (lib P)"
    and keys: "keys_doc P (priv_scalar (t_pd t))" "cert_wf (host_cert (t_pd t))"
    and paired: "ec_point_mul (lib P) d = Some (pub_x (sensor_cert (t_pd t)), pub_y (sensor_cert (t_pd t)))"
    and link: "sensor_link P io R S" "R w"
  shows "\<exists>out t' w' fl x y vd frag. hs_build_rt2 P (t, w) = (Inr out, t', w') \<and> S w' = S w \<and> R w'
    \<and> out = rec_enc (0x16, (3, 3), fl) @ rec_enc (0x14, (3, 3), [0x01]) @ rec_enc (0x16, (3, 3), frag)
    \<and> length out \<le> 2000 \<and> length fl < 65536 \<and> take 32 (drop 417 fl) = x \<and> take 32 (drop 449 fl) = y
    \<and> ec_point_mul (lib P) (t_eph_priv t') = Some (x, y) \<and> session_keys (lib P) t'
    \<and> t_verify_digest t' = sha256 (lib P) (t_transcript t @ fl) \<and> t_encr_seq t' = 1 \<and> t_decr_seq t' = 0
    \<and> t_pd t' = t_pd t \<and> t_client_random t' = t_client_random t \<and> t_server_random t' = t_server_random t
    \<and> verimark_tls_prf (lib P) MD_SHA384 (t_master_secret t') ''client finished'' (t_verify_digest t') 12 = Some vd
    \<and> verimark_tls_gcm_unwrap (lib P) (encr_key (t_keys t')) (encr_iv (t_keys t')) 0 0x16 frag = Inr (hs_bytes 0x14 vd)"
proof -
  let ?C = "lib P"
  from hs_build_rt2_total [OF docs(1-4) keys(1) paired link] obtain out t' w' x y sig where
    b: "hs_build_rt2 P (t, w) = (Inr out, t', w')" "S w' = S w" "R w'" and pub: "ec_point_mul ?C (t_eph_priv t') = Some (x, y)"
    and tr: "t_transcript t' = t_transcript t @ client_flight t x y sig" and sig: "length sig \<le> 80" by blast
  from hs_build_rt2_Inr [OF b(1)] obtain x' y' sig' vd nonce frag where
    sk: "session_keys ?C t'" and vdig: "t_verify_digest t' = sha256 ?C (t_transcript t')"
    and seqs: "t_encr_seq t' = 1" "t_decr_seq t' = 0"
    and same: "t_pd t' = t_pd t" "t_client_random t' = t_client_random t" "t_server_random t' = t_server_random t"
    and pub': "verimark_pub_from_priv ?C (t_eph_priv t') = Inr (x', y')"
    and tr': "t_transcript t' = t_transcript t @ client_flight t x' y' sig'"
    and vd: "verimark_tls_prf ?C MD_SHA384 (t_master_secret t') ''client finished'' (t_verify_digest t') 12 = Some vd"
    and frag: "verimark_tls_gcm_wrap ?C (encr_key (t_keys t')) (encr_iv (t_keys t')) 0 0x16 nonce (hs_bytes 0x14 vd) = Inr frag"
    and nonce: "nonce \<in> range (\<lambda>w. fst (rand_bytes P w 8))"
    and out: "out = rec_enc (0x16, (3, 3), client_flight t x' y' sig') @ rec_enc (0x14, (3, 3), [0x01]) @ rec_enc (0x16, (3, 3), frag)"
    by blast
  let ?fl = "client_flight t x y sig"
  have fl: "client_flight t x' y' sig' = ?fl" using tr tr' by simp
  have "length x = 32" "length y = 32" using pub docs(5) unfolding curve_doc_def by blast+
  note lay = client_flight_layout [OF keys(2) this, of sig]
  have "length nonce = 8" using nonce docs(3) by (auto simp: rand_doc_def)
  from gcm_unwrap_wrap [OF docs(2) this, of "encr_key (t_keys t')" "encr_iv (t_keys t')" 0 "0x16" "hs_bytes 0x14 vd"] frag
  have un: "verimark_tls_gcm_unwrap ?C (encr_key (t_keys t')) (encr_iv (t_keys t')) 0 0x16 frag = Inr (hs_bytes 0x14 vd)"
    "length frag = 28 + length vd" by simp_all
  have "length vd = 12"
    using length_prf [OF docs(1), of MD_SHA384 "t_master_secret t'" "''client finished''" "t_verify_digest t'" 12] vd by auto
  then have "length out \<le> 2000" "length ?fl < 65536" using un(2) lay(3) sig by (simp_all add: out fl rec_enc_def)
  then show ?thesis using b sk vdig seqs same vd un(1) out pub lay(1,2) tr unfolding fl by (metis (no_types))
qed

lemma finished_round:
  assumes docs: "mac_doc (lib P)" "aead_doc (lib P)" "rand_doc P" "dh_doc (lib P)" "curve_doc (lib P)"
    and keys: "keys_doc P (priv_scalar (t_pd t))" "cert_wf (host_cert (t_pd t))"
    and paired: "ec_point_mul (lib P) (s_priv (S w)) = Some (pub_x (sensor_cert (t_pd t)), pub_y (sensor_cert (t_pd t)))"
    and link: "sensor_link P io R S" "R w"
    and met: "s_client_random (S w) = t_client_random t" "s_random (S w) = t_server_random t"
      "s_transcript (S w) = t_transcript t" "s_phase (S w) = 1" "length (s_nonce (S w)) = 8"
  shows "\<exists>out t3 w3 resp w4. hs_build_rt2 P (t, w) = (Inr out, t3, w3) \<and> io w3 out = (Inr resp, w4)
    \<and> hs_process_rt2 (lib P) t3 resp = (Inr (), t3\<lparr>t_decr_seq := 1, t_established := True\<rparr>) \<and> t_encr_seq t3 = 1
    \<and> S w4 = (S w)\<lparr>s_phase := 2, s_keys := t_keys t3\<rparr> \<and> R w4"
proof -
  let ?C = "lib P"
  from second_flight [OF docs keys paired link] obtain out t3 w3 fl x y vd frag where
    b: "hs_build_rt2 P (t, w) = (Inr out, t3, w3)" "S w3 = S w" "R w3"
    and out: "out = rec_enc (0x16, (3, 3), fl) @ rec_enc (0x14, (3, 3), [0x01]) @ rec_enc (0x16, (3, 3), frag)"
    "length out \<le> 2000" "length fl < 65536"
    and xy: "take 32 (drop 417 fl) = x" "take 32 (drop 449 fl) = y" "ec_point_mul ?C (t_eph_priv t3) = Some (x, y)"
    and sk: "session_keys ?C t3" and digest: "t_verify_digest t3 = sha256 ?C (t_transcript t @ fl)"
    and seqs: "t_encr_seq t3 = 1" "t_decr_seq t3 = 0"
    and same: "t_pd t3 = t_pd t" "t_client_random t3 = t_client_random t" "t_server_random t3 = t_server_random t"
    and vd: "verimark_tls_prf ?C MD_SHA384 (t_master_secret t3) ''client finished'' (t_verify_digest t3) 12 = Some vd"
    and un: "verimark_tls_gcm_unwrap ?C (encr_key (t_keys t3)) (encr_iv (t_keys t3)) 0 0x16 frag = Inr (hs_bytes 0x14 vd)"
    by blast
  note agrees = sensor_agrees [OF docs(4) sk paired [folded same(1)] xy(3), unfolded same(2,3)]
  note lay = sensor_rt2_layout [OF out(3,1)]
  from length_prf [OF docs(1), of MD_SHA384 "t_master_secret t3" "''server finished''" "t_verify_digest t3" 12]
  obtain svd where svd: "verimark_tls_prf ?C MD_SHA384 (t_master_secret t3) ''server finished'' (t_verify_digest t3) 12 = Some svd"
    "length svd = 12" by blast
  obtain reply where reply: "verimark_tls_gcm_wrap ?C (decr_key (t_keys t3)) (decr_iv (t_keys t3)) 0 0x16 (s_nonce (S w)) (hs_bytes 0x14 svd) = Inr reply"
    using gcm_wrap_total [OF docs(2) met(5)] by blast
  let ?resp = "rec_enc (0x14, (3, 3), [0x01]) @ rec_enc (0x16, (3, 3), reply)"
  have "take 1 out \<noteq> [0x15]" by (simp add: out rec_enc_def)
  then have "sensor_step ?C (S w) out = (?resp, (S w)\<lparr>s_phase := 2, s_keys := t_keys t3\<rparr>)"
    unfolding sensor_step_def sensor_rt2_def Let_def lay(1) lay(2,3) [unfolded lay(1)] met(1-3)
    using xy(1,2) agrees digest vd svd un reply met(4) by simp
  moreover obtain r w4 where io: "io w3 out = (r, w4)" by fastforce
  moreover note sensor_linkD(1) [OF link(1) io b(3) out(2)]
  moreover have "hs_process_rt2 ?C t3 ?resp = (Inr (), t3\<lparr>t_decr_seq := 1, t_established := True\<rparr>)"
    by (rule hs_process_rt2_accepts [OF reply docs(2) met(5) svd(2) seqs(2) svd(1)])
  ultimately show ?thesis using b seqs(1) by auto
qed

lemma handshake_with_sensor:
  assumes docs: "mac_doc (lib P)" "aead_doc (lib P)" "rand_doc P" "dh_doc (lib P)" "curve_doc (lib P)"
    and keys: "keys_doc P (priv_scalar (t_pd t))" "cert_wf (host_cert (t_pd t))"
    and paired: "ec_point_mul (lib P) (s_priv (S w)) = Some (pub_x (sensor_cert (t_pd t)), pub_y (sensor_cert (t_pd t)))"
    and link: "sensor_link P io R S" "R w"
    and start: "t_have_pairing t" "t_transcript t = []" "s_phase (S w) = 0" "length (s_random (S w)) = 32"
      "length (s_nonce (S w)) = 8"
  shows "\<exists>t' w'. verimark_tls_handshake P io (t, w) = (Inr True, t', w') \<and> s_phase (S w') = 2
    \<and> s_keys (S w') = t_keys t' \<and> t_encr_seq t' = 1 \<and> t_decr_seq t' = 1 \<and> R w'"
proof -
  from hello_round [OF docs(3) link start(2-4)] obtain out t1 w1 resp w2 t2 where
    1: "hs_build_client_hello P t w = (out, t1, w1)" "io w1 out = (Inr resp, w2)" "hs_process_rt1 t1 resp = (Inr (), t2)"
    and t2: "t_pd t2 = t_pd t" "t_server_random t2 = s_random (S w)"
    and s2: "S w2 = (S w)\<lparr>s_client_random := t_client_random t2, s_transcript := t_transcript t2, s_phase := 1\<rparr>" "R w2" by blast
  from finished_round [OF docs, of t2 S w2 io R] keys paired link(1) start(5) t2 s2 obtain out2 t3 w3 resp2 w4 where
    2: "hs_build_rt2 P (t2, w2) = (Inr out2, t3, w3)" "io w3 out2 = (Inr resp2, w4)"
      "hs_process_rt2 (lib P) t3 resp2 = (Inr (), t3\<lparr>t_decr_seq := 1, t_established := True\<rparr>)" "t_encr_seq t3 = 1"
    and s4: "S w4 = (S w2)\<lparr>s_phase := 2, s_keys := t_keys t3\<rparr>" "R w4" by auto
  have "verimark_tls_handshake P io (t, w) = (Inr True, t3\<lparr>t_decr_seq := 1, t_established := True\<rparr>, w4)"
    using start(1) 1 2 by (simp add: verimark_tls_handshake_def)
  with s4 2(4) show ?thesis by simp
qed

subsection \<open>Properties\<close>

record sensor_world = world + w_sensor :: sensor

definition sample_io :: "sensor_world tls_io" where
  "sample_io w out = (let (r, s) = sensor_step sample_crypto (w_sensor w) out in (Inr r, w\<lparr>w_sensor := s\<rparr>))"

definition sample_sensor :: sensor where
  "sample_sensor = \<lparr>s_priv = replicate 32 3, s_random = replicate 32 5, s_nonce = replicate 8 6, s_client_random = [],
     s_transcript = [], s_phase = 0, s_keys = t_keys verimark_tls_new\<rparr>"

definition sensor_world0 :: sensor_world where
  "sensor_world0 = world.extend world0 (sensor_world.fields sample_sensor)"

definition sample_tls :: tls where
  "sample_tls = verimark_tls_set_pairing verimark_tls_new sample_pairing"

lemma sample_link: "sensor_link sample sample_io (\<lambda>_. True) w_sensor"
  by (auto simp: sensor_link_def sample_io_def sample_def Let_def split: prod.splits)

lemma sample_dh: "dh_doc sample_crypto"
  by (simp add: dh_doc_def sample_crypto_def)

lemma sample_keys: "keys_doc sample priv"
  by (simp add: keys_doc_def sample_def sample_crypto_def)

lemma sample_paired:
  "ec_point_mul sample_crypto d = Some (pub_x (sensor_cert (t_pd sample_tls)), pub_y (sensor_cert (t_pd sample_tls)))"
  by (simp add: sample_crypto_def sample_tls_def verimark_tls_set_pairing_def sample_pairing_def sample_cert_def)

lemma sample_tls_start: "t_have_pairing sample_tls" "t_transcript sample_tls = []" "cert_wf (host_cert (t_pd sample_tls))"
  by (simp_all add: sample_tls_def verimark_tls_set_pairing_def verimark_tls_new_def sample_pairing_def sample_cert_wf)

lemma sensor_world0_sensor: "w_sensor sensor_world0 = sample_sensor"
  by (simp add: sensor_world0_def sensor_world.defs world.defs)

lemma sample_sensor_start: "s_phase sample_sensor = 0" "length (s_random sample_sensor) = 32" "length (s_nonce sample_sensor) = 8"
  by (simp_all add: sample_sensor_def)

text \<open>With a sensor that follows the protocol and holds the private key of the paired sensor
  certificate, the driver's handshake succeeds: both flights are understood, the sensor accepts
  the client's Finished, and both ends hold the same keys with both sequence numbers at 1.\<close>

lemma verimark_tls_handshake_completes:
  assumes "mac_doc (lib P)" "aead_doc (lib P)" "rand_doc P" "dh_doc (lib P)" "curve_doc (lib P)"
    and "keys_doc P (priv_scalar (t_pd t))" "cert_wf (host_cert (t_pd t))"
    and "ec_point_mul (lib P) (s_priv (S w)) = Some (pub_x (sensor_cert (t_pd t)), pub_y (sensor_cert (t_pd t)))"
    and "sensor_link P io R S" "R w"
    and "t_have_pairing t" "t_transcript t = []" "s_phase (S w) = 0" "length (s_random (S w)) = 32"
      "length (s_nonce (S w)) = 8"
  shows "\<exists>t' w'. verimark_tls_handshake P io (t, w) = (Inr True, t', w') \<and> s_phase (S w') = 2
    \<and> s_keys (S w') = t_keys t' \<and> t_encr_seq t' = 1 \<and> t_decr_seq t' = 1 \<and> R w'"
  by (rule handshake_with_sensor [OF assms])

lemma verimark_tls_handshake_completes_witness:
  "\<exists>t' w'. verimark_tls_handshake sample sample_io (sample_tls, sensor_world0) = (Inr True, t', w')
    \<and> s_phase (w_sensor w') = 2"
  using verimark_tls_handshake_completes [of "sample :: sensor_world platform" sample_tls w_sensor sensor_world0 sample_io "\<lambda>_. True"]
  by (auto simp: sample_crypto_docs sample_rand sample_dh sample_keys sample_tls_start sample_link
      sensor_world0_sensor sample_sensor_start sample_paired)

text \<open>C2: A session becomes established only by an authenticated handshake: the keys come from the
  ECDH secret with the paired sensor's public key and both randoms, the transcript consists of
  exactly the messages exchanged, and a Finished message opened under those keys carried the
  verify data of that transcript. A handshake that fails leaves the session as established as it
  was before.\<close>

theorem verimark_tls_handshake_sound:
  assumes "verimark_tls_handshake P io (t, w) = (r, t', w')"
  shows "case r of
      Inr b \<Rightarrow> b \<and> t_established t' \<and> authenticated (lib P) t t'
    | Inl e \<Rightarrow> t_established t' = t_established t"
  using assms handshake_authenticated handshake_error by (cases r) fastforce+

lemma verimark_tls_handshake_sound_witness:
  "\<exists>t' w'. verimark_tls_handshake sample sample_io (sample_tls, sensor_world0) = (Inr True, t', w')
    \<and> authenticated sample_crypto sample_tls t'"
proof -
  from handshake_with_sensor [of "sample :: sensor_world platform" sample_tls w_sensor sensor_world0 sample_io "\<lambda>_. True"]
  obtain t' w' where run: "verimark_tls_handshake sample sample_io (sample_tls, sensor_world0) = (Inr True, t', w')"
    by (auto simp: sample_crypto_docs sample_rand sample_dh sample_keys sample_tls_start sample_link
        sensor_world0_sensor sample_sensor_start sample_paired)
  from verimark_tls_handshake_sound [OF run] run show ?thesis by simp
qed

end
