(* ===== verification/Framing.thy ===== *)
theory Framing
  imports Prelude
begin

text \<open>
  \<open>verimark-transport-framing.c\<close>: the arithmetic that splits a command into EP0 control
  transfers. \<open>gsize\<close> is a 64-bit word, so the wrap-around of the C code is kept.
\<close>

subsection \<open>The code\<close>

definition FRAME_MAXCHUNK :: u64 where
  "FRAME_MAXCHUNK = 0x1000"

definition VERIMARK_WRITE_CHUNKS_MAX :: nat where
  "VERIMARK_WRITE_CHUNKS_MAX = 8"

record write_chunk =
  wc_offset :: u64
  wc_len :: u64
  wc_wvalue :: u16

text \<open>\<open>(gsize) ((-(gssize) unpadded_len) % 8)\<close>: C's \<open>%\<close> truncates towards zero, so
  the value may be negative and is normalised by the second statement.\<close>

definition frame_padded_len :: "u64 \<Rightarrow> u64" where
  "frame_padded_len unpadded_len =
     (let pad = word_of_int (sint (- unpadded_len) smod 8) :: u64;
          pad' = (if sint pad < 0 then pad + 8 else pad)
      in unpadded_len + pad')"

text \<open>The \<open>while\<close> loop of \<open>verimark_frame_write_chunks\<close>; \<open>out\<close> is
  \<open>chunks_out[0..n)\<close>.\<close>

function write_chunks_loop ::
  "u64 \<Rightarrow> u64 \<Rightarrow> u64 \<Rightarrow> bool \<Rightarrow> nat \<Rightarrow> write_chunk list \<Rightarrow> write_chunk list" where
  "write_chunks_loop unpadded_len padded off first n out =
     (if off < padded \<and> n < VERIMARK_WRITE_CHUNKS_MAX then
        let remaining_total = padded - off;
            chunklen = min remaining_total FRAME_MAXCHUNK;
            islast = padded \<le> off + chunklen;
            wvalue = (if first then 0x0000 else 0x4000);
            wvalue' = (if islast then wvalue OR ucast (unpadded_len AND 7)
                       else if chunklen = FRAME_MAXCHUNK then wvalue OR 0x8000
                       else wvalue)
        in write_chunks_loop unpadded_len padded (off + chunklen) False (n + 1)
             (out @ [\<lparr>wc_offset = off, wc_len = chunklen, wc_wvalue = wvalue'\<rparr>])
      else out)"
  by pat_completeness auto
termination
  by (relation "measure (\<lambda>(_, _, _, _, n, _). VERIMARK_WRITE_CHUNKS_MAX - n)") auto

declare write_chunks_loop.simps [simp del]

definition frame_write_chunks :: "u64 \<Rightarrow> write_chunk list" where
  "frame_write_chunks unpadded_len =
     (let padded = frame_padded_len unpadded_len
      in if padded = 0
         then [\<lparr>wc_offset = 0, wc_len = 0, wc_wvalue = ucast (unpadded_len AND 7)\<rparr>]
         else write_chunks_loop unpadded_len padded 0 True 0 [])"

text \<open>\<open>*want_out\<close> and \<open>*wvalue_out\<close>.\<close>

definition frame_read_chunk_next :: "u64 \<Rightarrow> bool \<Rightarrow> u64 \<times> u16" where
  "frame_read_chunk_next remaining first =
     (let want = min remaining FRAME_MAXCHUNK;
          wvalue = (if first then 0x0000 else 0x4000);
          wvalue' = (if want = FRAME_MAXCHUNK then wvalue OR 0x8000 else wvalue)
      in (want, wvalue'))"

subsection \<open>Padding\<close>

lemma uint_small: "unat (x :: u64) < 2 ^ 63 \<Longrightarrow> 0 \<le> uint x \<and> uint x < 2 ^ 63"
  by (metis of_nat_less_iff of_nat_numeral of_nat_power uint_nat uint_ge_0)

lemma sint_minus_small:
  assumes "unat (x :: u64) < 2 ^ 63"
  shows "sint (- x) = - uint x"
proof -
  from uint_small [OF assms] have u: "0 \<le> uint x" "uint x < 2 ^ 63" by simp_all
  have "signed_take_bit 63 (uint x) = uint x"
    by (rule signed_take_bit_int_eq_self) (use u in linarith)+
  moreover have "signed_take_bit 63 (- uint x) = - uint x"
    by (rule signed_take_bit_int_eq_self) (use u in linarith)+
  ultimately show ?thesis
    unfolding sint_word_minus by (simp add: sint_uint)
qed

lemma sbt_small: "0 \<le> k \<Longrightarrow> k < 8 \<Longrightarrow> signed_take_bit 63 (- k) = - (k :: int)"
  by (rule signed_take_bit_int_eq_self) auto

lemma neg_smod_8: "0 \<le> k \<Longrightarrow> (- k) smod 8 = - (k mod (8 :: int))"
  by (cases "k = 0") (simp_all add: signed_modulo_int_def)

lemma unat_frame_padded_len:
  assumes "unat n + 8 \<le> 2 ^ 63"
  shows "unat (frame_padded_len n) = unat n + (8 - unat n mod 8) mod 8"
proof -
  let ?m = "uint n mod 8"
  have m: "0 \<le> ?m" "?m < 8" by simp_all
  have mn: "?m = int (unat n mod 8)"
    by (simp add: zmod_int)
  have "sint (- n) smod 8 = - ?m"
    using assms sint_minus_small [of n] neg_smod_8 [of "uint n"] by simp
  then have p: "(word_of_int (sint (- n) smod 8) :: u64) = word_of_int (- ?m)"
    by (rule arg_cong)
  have s: "sint (word_of_int (- ?m) :: u64) = - ?m"
    using sbt_small [OF m] unfolding sint_sbintrunc' by simp
  show ?thesis
  proof (cases "?m = 0")
    case True
    then have "unat n mod 8 = 0" using mn by simp
    then show ?thesis using True p s by (simp add: frame_padded_len_def Let_def)
  next
    case False
    with mn have nz: "unat n mod 8 \<noteq> 0" by linarith
    from mn have im: "8 - ?m = int (8 - unat n mod 8)"
      by (simp add: of_nat_diff)
    have "frame_padded_len n = n + (word_of_int (- ?m) + 8)"
      using False m by (simp only: frame_padded_len_def p s Let_def) simp
    also have "word_of_int (- ?m) + 8 = (word_of_int (8 - ?m) :: u64)"
      by simp
    also have "(word_of_int (8 - ?m) :: u64) = word_of_nat (8 - unat n mod 8)"
      by (simp only: im of_int_of_nat_eq)
    finally have "frame_padded_len n = n + word_of_nat (8 - unat n mod 8)" .
    moreover have "unat (word_of_nat (8 - unat n mod 8) :: u64) = 8 - unat n mod 8"
      by (rule unat_of_nat_u64) simp
    ultimately show ?thesis
      using assms nz by (simp add: unat_add_u64)
  qed
qed

subsection \<open>The write plan in closed form\<close>

text \<open>The \<open>i\<close>-th chunk of a padded length \<open>t\<close>, and how many chunks the code plans.\<close>

definition plan_chunk :: "u64 \<Rightarrow> nat \<Rightarrow> nat \<Rightarrow> write_chunk" where
  "plan_chunk unpadded_len t i =
     \<lparr>wc_offset = word_of_nat (4096 * i), wc_len = word_of_nat (min (t - 4096 * i) 4096),
      wc_wvalue = (if i = 0 then 0 else 0x4000) OR
        (if t \<le> 4096 * Suc i then ucast (unpadded_len AND 7) else 0x8000)\<rparr>"

definition plan_count :: "nat \<Rightarrow> nat" where
  "plan_count t = min VERIMARK_WRITE_CHUNKS_MAX ((t + 4095) div 4096)"

lemma plan_count_le: "plan_count t \<le> 8"
  by (simp add: plan_count_def VERIMARK_WRITE_CHUNKS_MAX_def)

lemma less_plan_count: "k < plan_count t \<longleftrightarrow> k < 8 \<and> 4096 * k < t"
  unfolding plan_count_def VERIMARK_WRITE_CHUNKS_MAX_def by auto

lemma unat_FRAME_MAXCHUNK: "unat FRAME_MAXCHUNK = 4096"
  by (simp add: FRAME_MAXCHUNK_def)

lemma u64_eq_iff: "(a :: u64) = b \<longleftrightarrow> unat a = unat b"
  by (auto intro: unsigned_word_eqI)

lemma u64_of_unat: "word_of_nat (unat (w :: u64)) = w"
  by simp

text \<open>One iteration of the loop at the offset of chunk \<open>k\<close>.\<close>

lemma loop_chunk:
  assumes "unat off = 4096 * k" "4096 * k < unat padded" "k < 8" "unat padded < 2 ^ 63"
  defines "len \<equiv> min (padded - off) FRAME_MAXCHUNK"
  shows "off < padded"
    and "unat len = min (unat padded - 4096 * k) 4096"
    and "unat (off + len) = min (unat padded) (4096 * Suc k)"
    and "len = FRAME_MAXCHUNK \<longleftrightarrow> unat padded \<ge> 4096 * Suc k"
proof -
  show lt: "off < padded"
    using assms(1,2) by (simp add: word_less_nat_alt)
  then have sub: "unat (padded - off) = unat padded - 4096 * k"
    using assms(1) by (simp add: unat_sub_u64)
  show len: "unat len = min (unat padded - 4096 * k) 4096"
    by (simp add: len_def unat_min_u64 sub unat_FRAME_MAXCHUNK)
  show "unat (off + len) = min (unat padded) (4096 * Suc k)"
    using len assms(1,2,3) by (subst unat_add_u64) auto
  show "len = FRAME_MAXCHUNK \<longleftrightarrow> unat padded \<ge> 4096 * Suc k"
    unfolding u64_eq_iff len unat_FRAME_MAXCHUNK using assms(2) by auto
qed

lemma plan_chunk_loop:
  assumes "unat off = 4096 * k" "4096 * k < unat padded" "k < 8" "unat padded < 2 ^ 63"
  shows "\<lparr>wc_offset = off, wc_len = min (padded - off) FRAME_MAXCHUNK,
      wc_wvalue = (if padded \<le> off + min (padded - off) FRAME_MAXCHUNK
                   then (if k = 0 then 0 else 0x4000) OR ucast (m AND 7)
                   else if min (padded - off) FRAME_MAXCHUNK = FRAME_MAXCHUNK
                   then (if k = 0 then 0 else 0x4000) OR 0x8000 else (if k = 0 then 0 else 0x4000))\<rparr>
    = plan_chunk m (unat padded) k"
proof -
  note ch = loop_chunk [OF assms]
  have "off = word_of_nat (4096 * k)"
    by (simp only: assms(1) [symmetric] u64_of_unat)
  moreover have "min (padded - off) FRAME_MAXCHUNK = word_of_nat (min (unat padded - 4096 * k) 4096)"
    by (simp only: ch(2) [symmetric] u64_of_unat)
  moreover have "padded \<le> off + min (padded - off) FRAME_MAXCHUNK \<longleftrightarrow> unat padded \<le> 4096 * Suc k"
    unfolding word_le_nat_alt ch(3) by auto
  ultimately show ?thesis
    using ch(4) by (simp add: plan_chunk_def FRAME_MAXCHUNK_def)
qed

lemma write_chunks_loop_closed:
  assumes "unat padded < 2 ^ 63" "k \<le> plan_count (unat padded)"
    and "unat off = min (unat padded) (4096 * k)"
  shows "write_chunks_loop m padded off (k = 0) k out =
         out @ map (plan_chunk m (unat padded)) [k..<plan_count (unat padded)]"
  using assms(2,3)
proof (induction "plan_count (unat padded) - k" arbitrary: k off out)
  case 0
  then have k: "k = plan_count (unat padded)" by simp
  have "\<not> (off < padded \<and> k < VERIMARK_WRITE_CHUNKS_MAX)"
    using less_plan_count [of k "unat padded"] plan_count_le [of "unat padded"] "0.prems" k
    by (auto simp: VERIMARK_WRITE_CHUNKS_MAX_def word_less_nat_alt)
  then show ?case
    using k by (subst write_chunks_loop.simps) auto
next
  case (Suc d)
  let ?t = "unat padded"
  from Suc.hyps(2) have lt: "k < plan_count ?t" by simp
  then have k: "k < 8" "4096 * k < ?t" by (simp_all add: less_plan_count)
  with Suc.prems have off: "unat off = 4096 * k" by simp
  note args = off k(2,1) assms(1)
  have rec: "write_chunks_loop m padded (off + min (padded - off) FRAME_MAXCHUNK) False (Suc k) out' =
      out' @ map (plan_chunk m ?t) [Suc k..<plan_count ?t]" for out'
    using Suc.hyps(1) [of "Suc k" "off + min (padded - off) FRAME_MAXCHUNK" out'] Suc.hyps(2) lt
      loop_chunk(3) [OF args] by simp
  show ?case
    by (subst write_chunks_loop.simps)
      (use loop_chunk(1) [OF args] k(1) lt in
        \<open>simp add: Let_def rec plan_chunk_loop [OF args, of m] VERIMARK_WRITE_CHUNKS_MAX_def upt_conv_Cons\<close>)
qed

text \<open>No chunk leaves the padded buffer, for any length.\<close>

lemma write_chunks_loop_in_bounds:
  assumes "\<forall>c \<in> set out. unat (wc_offset c) + unat (wc_len c) \<le> unat padded" "c \<in> set (write_chunks_loop m padded off first n out)"
  shows "unat (wc_offset c) + unat (wc_len c) \<le> unat padded"
  using assms
proof (induction m padded off first n out rule: write_chunks_loop.induct)
  case (1 m padded off first n out)
  show ?case
  proof (cases "off < padded \<and> n < VERIMARK_WRITE_CHUNKS_MAX")
    case True
    let ?len = "min (padded - off) FRAME_MAXCHUNK"
    have "off \<le> padded" using True by (blast intro: order.strict_implies_order)
    then have "unat (padded - off) = unat padded - unat off" by (rule unat_sub_u64)
    then have "unat off + unat ?len \<le> unat padded" using True by (auto simp: word_le_nat_alt word_less_nat_alt min_def)
    then have "\<forall>c \<in> set (out @ [\<lparr>wc_offset = off, wc_len = ?len, wc_wvalue = v\<rparr>]). unat (wc_offset c) + unat (wc_len c) \<le> unat padded" for v
      using "1.prems"(1) by simp
    then show ?thesis
      using "1.IH" [OF True refl refl refl refl refl] "1.prems"(2) True by (subst (asm) (2) write_chunks_loop.simps) (simp add: Let_def)
  next
    case False
    then show ?thesis using "1.prems" by (subst (asm) (1) write_chunks_loop.simps) auto
  qed
qed

lemma frame_write_chunks_in_bounds:
  "c \<in> set (frame_write_chunks m) \<Longrightarrow> unat (wc_offset c) + unat (wc_len c) \<le> unat (frame_padded_len m)"
  using write_chunks_loop_in_bounds [of "[]" "frame_padded_len m" c m 0 True 0]
  by (auto simp: frame_write_chunks_def Let_def split: if_split_asm)

lemma frame_write_chunks_closed:
  assumes "unat m + 8 \<le> 2 ^ 63"
  defines "t \<equiv> unat (frame_padded_len m)"
  shows "frame_write_chunks m = map (plan_chunk m t) [0..<max 1 (plan_count t)]"
proof (cases "t = 0")
  case True
  then have "frame_padded_len m = 0" by (simp add: t_def u64_eq_iff)
  then show ?thesis
    by (simp add: frame_write_chunks_def plan_count_def True plan_chunk_def)
next
  case False
  then have "frame_padded_len m \<noteq> 0" "0 < plan_count t"
    by (auto simp: t_def less_plan_count)
  moreover have "t < 2 ^ 63"
    unfolding t_def using assms(1) unat_frame_padded_len [OF assms(1)] by arith
  ultimately show ?thesis
    using write_chunks_loop_closed [of "frame_padded_len m" 0 0 m "[]"]
    by (simp add: frame_write_chunks_def Let_def t_def max_def)
qed

subsection \<open>What the sensor receives\<close>

text \<open>
  The control-WRITEs of a command: each chunk's \<open>wValue\<close> with the bytes
  \<open>wbuf + offset .. + len\<close> of the zero-padded buffer. \<open>reassemble\<close> is the receiving end the
  framing is for: concatenate the data stages and cut the padding, whose size the low three bits
  of the last \<open>wValue\<close> give.
\<close>

definition padded_buf :: "bytes \<Rightarrow> bytes" where
  "padded_buf cmd =
     cmd @ replicate (unat (frame_padded_len (word_of_nat (length cmd))) - length cmd) 0"

definition chunk_bytes :: "bytes \<Rightarrow> write_chunk \<Rightarrow> bytes" where
  "chunk_bytes wbuf c = take (unat (wc_len c)) (drop (unat (wc_offset c)) wbuf)"

definition write_frames :: "bytes \<Rightarrow> (u16 \<times> bytes) list" where
  "write_frames cmd =
     map (\<lambda>c. (wc_wvalue c, chunk_bytes (padded_buf cmd) c)) (frame_write_chunks (word_of_nat (length cmd)))"

definition reassemble :: "(u16 \<times> bytes) list \<Rightarrow> bytes" where
  "reassemble fs =
     (let data = concat (map snd fs); low = unat (fst (last fs) AND 7)
      in take (length data - (8 - low) mod 8) data)"

lemma and_7: "(x :: 'a :: len word) AND 7 = take_bit 3 x"
proof -
  have "(7 :: 'a word) = mask 3" by (simp add: mask_eq_exp_minus_1)
  then show ?thesis by (simp add: take_bit_eq_mask)
qed

lemma low3_ucast: "unat ((ucast (m AND 7) :: u16) AND 7) = unat (m :: u64) mod 8"
  unfolding and_7 unsigned_take_bit_eq unsigned_ucast_eq
  by (simp add: take_bit_eq_mod mod_mod_cancel)

lemma low3_flagged: "unat (((0x4000 :: u16) OR ucast (m AND 7)) AND 7) = unat (m :: u64) mod 8"
proof -
  have "((0x4000 :: u16) OR ucast (m AND 7)) AND 7 = ucast (m AND 7) AND 7"
    by (simp add: bit.conj_disj_distrib2)
  then show ?thesis by (simp only: low3_ucast)
qed

lemma unat_padded_len_of_len:
  assumes "length cmd + 8 \<le> 2 ^ 63"
  shows "unat (frame_padded_len (word_of_nat (length cmd))) = length cmd + (8 - length cmd mod 8) mod 8"
  using assms unat_frame_padded_len [of "word_of_nat (length cmd)"]
  by (simp add: unat_of_nat_u64)

lemma length_padded_buf:
  assumes "length cmd + 8 \<le> 2 ^ 63"
  shows "length (padded_buf cmd) = length cmd + (8 - length cmd mod 8) mod 8"
  using unat_padded_len_of_len [OF assms] by (simp add: padded_buf_def)

lemma dvd_pad_8: "8 dvd n + (8 - n mod 8) mod (8 :: nat)"
proof (cases "n mod 8 = 0")
  case True
  then show ?thesis by (simp add: dvd_eq_mod_eq_0)
next
  case False
  have "8 * q + r + (8 - r) = 8 * (q + 1)" if "r < 8" for q r :: nat
    using that by simp
  from this [of "n mod 8" "n div 8"] have "n + (8 - n mod 8) = 8 * (n div 8 + 1)"
    by simp
  then have "8 dvd n + (8 - n mod 8)" by (simp only: dvd_triv_left)
  then show ?thesis using False by simp
qed

lemma padded_buf_dvd:
  assumes "length cmd + 8 \<le> 2 ^ 63"
  shows "8 dvd length (padded_buf cmd)"
  using dvd_pad_8 [of "length cmd"] unfolding length_padded_buf [OF assms] .

lemma write_frames_closed:
  assumes "length cmd + 8 \<le> 2 ^ 63"
  defines "t \<equiv> length (padded_buf cmd)"
  shows "write_frames cmd = map (\<lambda>i. (wc_wvalue (plan_chunk (word_of_nat (length cmd)) t i),
      take 4096 (drop (4096 * i) (padded_buf cmd)))) [0..<max 1 (plan_count t)]"
proof -
  have u: "unat (word_of_nat (length cmd) :: u64) = length cmd"
    using assms(1) by (intro unat_of_nat_u64) simp
  have t: "unat (frame_padded_len (word_of_nat (length cmd))) = t"
    using length_padded_buf [OF assms(1)] unat_padded_len_of_len [OF assms(1)] by (simp add: t_def)
  have data: "chunk_bytes (padded_buf cmd) (plan_chunk m t i) = take 4096 (drop (4096 * i) (padded_buf cmd))"
    if "i < max 1 (plan_count t)" for i m
  proof -
    have i: "i < 8" using that plan_count_le [of t] by auto
    then have "unat (word_of_nat (4096 * i) :: u64) = 4096 * i"
      by (intro unat_of_nat_u64) simp
    moreover have "unat (word_of_nat (min (t - 4096 * i) 4096) :: u64) = min (t - 4096 * i) 4096"
      by (intro unat_of_nat_u64) simp
    ultimately have "chunk_bytes (padded_buf cmd) (plan_chunk m t i) =
        take (min (t - 4096 * i) 4096) (drop (4096 * i) (padded_buf cmd))"
      by (simp add: chunk_bytes_def plan_chunk_def del: of_nat_mult)
    also have "\<dots> = take 4096 (drop (4096 * i) (padded_buf cmd))"
      by (simp add: t_def min_def)
    finally show ?thesis .
  qed
  show ?thesis
    using frame_write_chunks_closed [of "word_of_nat (length cmd)"] assms(1) u
    by (simp add: write_frames_def t data)
qed

lemma concat_slices: "concat (map (\<lambda>i. take k (drop (k * i) xs)) [0..<n]) = take (k * n) xs"
  by (induction n) (simp_all add: take_add [symmetric] add.commute)

lemma write_frames_data:
  assumes "length cmd + 8 \<le> 2 ^ 63"
  shows "concat (map snd (write_frames cmd)) = take 32768 (padded_buf cmd)"
proof -
  let ?t = "length (padded_buf cmd)"
  have "concat (map snd (write_frames cmd)) = take (4096 * max 1 (plan_count ?t)) (padded_buf cmd)"
    by (simp add: write_frames_closed [OF assms] comp_def concat_slices)
  also have "\<dots> = take 32768 (padded_buf cmd)"
  proof (cases "?t \<le> 32768")
    case True
    then have "?t \<le> 4096 * max 1 (plan_count ?t)"
      by (simp add: plan_count_def VERIMARK_WRITE_CHUNKS_MAX_def)
    with True show ?thesis by simp
  next
    case False
    then have "plan_count ?t = 8"
      by (simp add: plan_count_def VERIMARK_WRITE_CHUNKS_MAX_def)
    then show ?thesis by simp
  qed
  finally show ?thesis .
qed

lemma write_frames_last:
  assumes "length cmd + 8 \<le> 2 ^ 63"
  defines "t \<equiv> length (padded_buf cmd)"
  shows "fst (last (write_frames cmd)) = wc_wvalue (plan_chunk (word_of_nat (length cmd)) t (max 1 (plan_count t) - 1))"
proof -
  have "max 1 (plan_count t) = Suc (max 1 (plan_count t) - 1)" by simp
  then have "[0..<max 1 (plan_count t)] = [0..<max 1 (plan_count t) - 1] @ [max 1 (plan_count t) - 1]"
    by (metis upt_Suc_append zero_le)
  then show ?thesis
    unfolding write_frames_closed [OF assms(1)] t_def [symmetric] by simp
qed

lemma padded_small:
  assumes "length cmd \<le> 32768"
  shows "length (padded_buf cmd) \<le> 32768"
proof -
  have "length cmd + 8 \<le> 2 ^ 63" using assms by simp
  from padded_buf_dvd [OF this] length_padded_buf [OF this] obtain q where
    q: "length (padded_buf cmd) = 8 * q" "length (padded_buf cmd) < length cmd + 8" by (auto elim: dvdE)
  then have "8 * q < 8 * 4097" using assms by simp
  then show ?thesis using q by simp
qed

text \<open>Splitting a command of at most eight chunks into EP0 control writes loses nothing: the
  receiver that concatenates the data stages and drops the padding announced in the low three
  bits of the last \<open>wValue\<close> gets the command back.\<close>

lemma reassemble_write_frames:
  assumes "length cmd \<le> 32768"
  shows "reassemble (write_frames cmd) = cmd"
proof -
  let ?t = "length (padded_buf cmd)" and ?n = "length cmd" and ?k = "max 1 (plan_count (length (padded_buf cmd))) - 1"
  have big: "?n + 8 \<le> 2 ^ 63" using assms by simp
  have t: "?t \<le> 32768" by (rule padded_small [OF assms])
  have last: "?t \<le> 4096 * Suc ?k"
    using t by (auto simp: plan_count_def VERIMARK_WRITE_CHUNKS_MAX_def)
  have "unat (fst (last (write_frames cmd)) AND 7) = unat (word_of_nat ?n :: u64) mod 8"
    using last by (simp add: write_frames_last [OF big] plan_chunk_def low3_ucast low3_flagged del: mult_Suc_right)
  also have "\<dots> = ?n mod 8"
    using big by (simp add: unat_of_nat_u64)
  finally have low: "unat (fst (last (write_frames cmd)) AND 7) = ?n mod 8" .
  have "concat (map snd (write_frames cmd)) = padded_buf cmd"
    using t by (simp add: write_frames_data [OF big])
  then show ?thesis
    using length_padded_buf [OF big]
    by (simp add: reassemble_def Let_def low) (simp add: padded_buf_def)
qed

text \<open>C40: A command longer than eight chunks is cut: exactly its first 32768 bytes are sent, and
  every transfer carries the more-follows flag, so none announces the end of the command.\<close>

theorem write_frames_overlong:
  assumes "32768 < length cmd" "length cmd + 8 \<le> 2 ^ 63"
  shows "concat (map snd (write_frames cmd)) = take 32768 cmd \<and> list_all (\<lambda>f. bit (fst f) 15) (write_frames cmd)"
proof -
  let ?t = "length (padded_buf cmd)"
  have t: "32768 < ?t" using assms length_padded_buf [OF assms(2)] by simp
  have "take 32768 (padded_buf cmd) = take 32768 cmd"
    using assms(1) by (simp add: padded_buf_def)
  moreover have "plan_count ?t = 8"
    using t by (simp add: plan_count_def VERIMARK_WRITE_CHUNKS_MAX_def)
  moreover have "bit ((0x4000 :: u16) OR 0x8000) 15" "bit (0x8000 :: u16) 15"
    by (simp_all add: bit_iff_odd)
  ultimately show ?thesis
    using t by (simp add: write_frames_data [OF assms(2)])
      (auto simp: write_frames_closed [OF assms(2)] list_all_iff plan_chunk_def)
qed

lemma write_frames_overlong_witness:
  "concat (map snd (write_frames (replicate 32769 1))) = replicate 32768 1"
  using write_frames_overlong [of "replicate 32769 1"] by simp

end
