(* ===== verification/Transport.thy ===== *)
theory Transport
  imports Framing Sample
begin

text \<open>
  \<open>verimark-transport.c\<close> (the asynchronous command round-trip, the interrupt wait and the
  drain) and the synchronous control I/O of \<open>verimark.c\<close> that \<open>dev_open\<close> uses. The two
  command paths are written separately in C over the same framing; the equivalence theorem says
  they do the same thing to the device and return the same bytes.
\<close>

subsection \<open>Asynchronous command: \<open>verimark_cmd\<close>\<close>

definition VERIMARK_CTRL_REQ_WRITE :: byte where "VERIMARK_CTRL_REQ_WRITE = 0x16"
definition VERIMARK_CTRL_REQ_READ :: byte where "VERIMARK_CTRL_REQ_READ = 0x17"
definition VERIMARK_CTRL_READ_MAX_RETRIES :: nat where "VERIMARK_CTRL_READ_MAX_RETRIES = 25"
definition VERIMARK_CTRL_READ_RETRY_DELAY_MS :: nat where "VERIMARK_CTRL_READ_RETRY_DELAY_MS = 20"

abbreviation (input) VERIMARK_CMD_STATE_WRITE_CHUNK :: nat where "VERIMARK_CMD_STATE_WRITE_CHUNK \<equiv> 0"
abbreviation (input) VERIMARK_CMD_STATE_READ_CHUNK :: nat where "VERIMARK_CMD_STATE_READ_CHUNK \<equiv> 1"
abbreviation (input) VERIMARK_CMD_N_STATES :: nat where "VERIMARK_CMD_N_STATES \<equiv> 2"

text \<open>\<open>VerimarkCmdCtx\<close>; \<open>wchunks\<close> holds the \<open>wchunk_count\<close> planned entries.\<close>

record cmd_ctx =
  wbuf :: bytes
  wchunks :: "write_chunk list"
  wchunk_idx :: nat
  rbuf :: bytes
  rmax :: u64
  rfirst :: bool
  rretries :: nat

definition on_write_chunk_done :: "cmd_ctx \<Rightarrow> unit res \<Rightarrow> ssm_call \<times> cmd_ctx" where
  "on_write_chunk_done ctx r =
     (case r of
        Inl e \<Rightarrow> (Mark_Failed e, ctx)
      | Inr _ \<Rightarrow>
          let ctx' = ctx\<lparr>wchunk_idx := wchunk_idx ctx + 1\<rparr>
          in if wchunk_idx ctx' < length (wchunks ctx')
             then (Jump_To_State VERIMARK_CMD_STATE_WRITE_CHUNK, ctx')
             else (Next_State, ctx'))"

text \<open>\<open>want\<close> is \<open>transfer->length\<close>, the received bytes its first \<open>actual_length\<close>.\<close>

definition on_read_chunk_done :: "cmd_ctx \<Rightarrow> u64 \<Rightarrow> bytes res \<Rightarrow> ssm_call \<times> cmd_ctx" where
  "on_read_chunk_done ctx want r =
     (case r of
        Inl e \<Rightarrow>
          if e = Usb_Timed_Out \<and> rretries ctx < VERIMARK_CTRL_READ_MAX_RETRIES
          then (Jump_To_State_Delayed VERIMARK_CMD_STATE_READ_CHUNK VERIMARK_CTRL_READ_RETRY_DELAY_MS,
                ctx\<lparr>rretries := rretries ctx + 1\<rparr>)
          else (Mark_Failed e, ctx)
      | Inr data \<Rightarrow>
          let ctx' = ctx\<lparr>rretries := 0, rbuf := rbuf ctx @ data\<rparr>
          in if length data < unat want then (Mark_Completed, ctx')
             else if unat (rmax ctx') \<le> length (rbuf ctx') then (Mark_Completed, ctx')
             else (Jump_To_State VERIMARK_CMD_STATE_READ_CHUNK, ctx'\<lparr>rfirst := False\<rparr>))"

text \<open>\<open>cmd_ssm_handler\<close> with the completion of the transfer it submits.\<close>

definition cmd_step :: "'w platform \<Rightarrow> nat \<Rightarrow> cmd_ctx \<times> 'w \<Rightarrow> (ssm_call \<times> cmd_ctx \<times> 'w) option" where
  "cmd_step P st = (\<lambda>(ctx, w).
     if st = VERIMARK_CMD_STATE_WRITE_CHUNK then
       if wchunk_idx ctx < length (wchunks ctx) then
         let chunk = wchunks ctx ! wchunk_idx ctx
         in case rd_slice (wbuf ctx) (unat (wc_offset chunk)) (unat (wc_len chunk)) of
              Inl e \<Rightarrow> Some (Mark_Failed e, ctx, w)
            | Inr data \<Rightarrow>
                let (r, w') = ctrl_out P w VERIMARK_CTRL_REQ_WRITE (wc_wvalue chunk) data;
                    (call, ctx') = on_write_chunk_done ctx r
                in Some (call, ctx', w')
       else Some (Mark_Failed Out_Of_Bounds, ctx, w)
     else if st = VERIMARK_CMD_STATE_READ_CHUNK then
       let remaining = rmax ctx - word_of_nat (length (rbuf ctx));
           (want, wvalue) = frame_read_chunk_next remaining (rfirst ctx);
           (r, w') = ctrl_in P w VERIMARK_CTRL_REQ_READ wvalue (unat want);
           (call, ctx') = on_read_chunk_done ctx want r
       in Some (call, ctx', w')
     else Some (Mark_Failed Assert_Not_Reached, ctx, w))"

definition cmd_ssm_completed :: "unit res \<times> cmd_ctx \<times> 'w \<Rightarrow> bytes res \<times> 'w" where
  "cmd_ssm_completed = (\<lambda>(r, ctx, w). (case r of Inl e \<Rightarrow> Inl e | Inr _ \<Rightarrow> Inr (rbuf ctx), w))"

definition cmd_ctx_new :: "bytes \<Rightarrow> u64 \<Rightarrow> cmd_ctx" where
  "cmd_ctx_new cmd resp_max_len =
     \<lparr>wbuf = padded_buf cmd, wchunks = frame_write_chunks (word_of_nat (length cmd)), wchunk_idx = 0,
      rbuf = [], rmax = max resp_max_len 1, rfirst = True, rretries = 0\<rparr>"

definition verimark_cmd :: "'w platform \<Rightarrow> nat \<Rightarrow> bytes \<Rightarrow> u64 \<Rightarrow> 'w \<Rightarrow> (bytes res \<times> 'w) option" where
  "verimark_cmd P fuel cmd resp_max_len w =
     map_option cmd_ssm_completed
       (ssm_run (fpi P) (world_delay P) VERIMARK_CMD_N_STATES (cmd_step P) fuel
          VERIMARK_CMD_STATE_WRITE_CHUNK (cmd_ctx_new cmd resp_max_len, w))"

subsection \<open>Synchronous command: \<open>verimark_ctrl_cmd_sync\<close>\<close>

definition VERIMARK_SYNC_READ_MAX_RETRIES :: nat where "VERIMARK_SYNC_READ_MAX_RETRIES = 25"
definition VERIMARK_SYNC_READ_RETRY_DELAY_US :: nat where "VERIMARK_SYNC_READ_RETRY_DELAY_US = 20000"

text \<open>The \<open>for\<close> loop over the planned chunks.\<close>

fun ctrl_write_chunks :: "'w platform \<Rightarrow> bytes \<Rightarrow> write_chunk list \<Rightarrow> 'w \<Rightarrow> unit res \<times> 'w" where
  "ctrl_write_chunks P buf [] w = (Inr (), w)"
| "ctrl_write_chunks P buf (chunk # chunks) w =
     (case rd_slice buf (unat (wc_offset chunk)) (unat (wc_len chunk)) of
        Inl e \<Rightarrow> (Inl e, w)
      | Inr data \<Rightarrow>
          (case ctrl_out P w VERIMARK_CTRL_REQ_WRITE (wc_wvalue chunk) data of
             (Inl e, w') \<Rightarrow> (Inl e, w')
           | (Inr _, w') \<Rightarrow> ctrl_write_chunks P buf chunks w'))"

definition verimark_ctrl_write_sync :: "'w platform \<Rightarrow> bytes \<Rightarrow> 'w \<Rightarrow> unit res \<times> 'w" where
  "verimark_ctrl_write_sync P cmd w =
     ctrl_write_chunks P (padded_buf cmd) (frame_write_chunks (word_of_nat (length cmd))) w"

lemma read_want:
  assumes "len < unat (rmx :: u64)"
  shows "unat (fst (frame_read_chunk_next (rmx - word_of_nat len) first)) = min (unat rmx - len) 4096"
proof -
  have "len < 2 ^ 64"
    using assms unat_u64_less [of rmx] by linarith
  then have len: "unat (word_of_nat len :: u64) = len"
    by (rule unat_of_nat_u64)
  then have "unat (rmx - word_of_nat len) = unat rmx - len"
    using assms by (subst unat_sub_u64) (simp_all add: word_le_nat_alt)
  then show ?thesis
    by (simp add: frame_read_chunk_next_def Let_def unat_min_u64 unat_FRAME_MAXCHUNK)
qed

lemma read_want_pos:
  assumes "frame_read_chunk_next (rmx - word_of_nat len) first = (want, wvalue)" "len < unat rmx"
  shows "0 < unat want"
  using read_want [OF assms(2), of first] assms by simp

text \<open>The \<open>while (acc->len < rmax)\<close> loop of \<open>verimark_ctrl_read_sync\<close>.\<close>

function ctrl_read_loop ::
  "'w platform \<Rightarrow> u64 \<Rightarrow> bytes \<Rightarrow> bool \<Rightarrow> nat \<Rightarrow> 'w \<Rightarrow> bytes res \<times> 'w" where
  "ctrl_read_loop P rmx acc first retries w =
     (if length acc < unat rmx then
        (case frame_read_chunk_next (rmx - word_of_nat (length acc)) first of (want, wvalue) \<Rightarrow>
          (case ctrl_in P w VERIMARK_CTRL_REQ_READ wvalue (unat want) of
             (Inl e, w') \<Rightarrow>
               if e = Usb_Timed_Out \<and> retries < VERIMARK_SYNC_READ_MAX_RETRIES
               then ctrl_read_loop P rmx acc first (retries + 1)
                      (pause_us P VERIMARK_SYNC_READ_RETRY_DELAY_US w')
               else (Inl e, w')
           | (Inr data, w') \<Rightarrow>
               if length data < unat want then (Inr (acc @ data), w')
               else ctrl_read_loop P rmx (acc @ data) False 0 w'))
      else (Inr acc, w))"
  by pat_completeness auto
termination
  by (relation "measures [\<lambda>(P, rmx, acc, first, retries, w). unat rmx - length acc,
    \<lambda>(P, rmx, acc, first, retries, w). VERIMARK_SYNC_READ_MAX_RETRIES - retries]")
    (auto dest: read_want_pos [OF sym])

declare ctrl_read_loop.simps [simp del]

text \<open>One pass of the loop, by the outcome of its transfer, and the loop's runs as rules: an
  induction over the reads that were made.\<close>

lemma ctrl_read_loop_step:
  assumes "length acc < unat rmx" "frame_read_chunk_next (rmx - word_of_nat (length acc)) first = (want, wvalue)"
    and "ctrl_in P w VERIMARK_CTRL_REQ_READ wvalue (unat want) = (r, w')"
  shows "ctrl_read_loop P rmx acc first retries w =
    (case r of
       Inl e \<Rightarrow>
         if e = Usb_Timed_Out \<and> retries < VERIMARK_SYNC_READ_MAX_RETRIES
         then ctrl_read_loop P rmx acc first (retries + 1) (pause_us P VERIMARK_SYNC_READ_RETRY_DELAY_US w')
         else (Inl e, w')
     | Inr data \<Rightarrow>
         if length data < unat want then (Inr (acc @ data), w')
         else ctrl_read_loop P rmx (acc @ data) False 0 w')"
  by (subst ctrl_read_loop.simps) (simp add: assms)

lemma ctrl_read_loop_full: "unat rmx \<le> length acc \<Longrightarrow> ctrl_read_loop P rmx acc first retries w = (Inr acc, w)"
  by (simp add: ctrl_read_loop.simps)

definition read_step :: "'w platform \<Rightarrow> u64 \<Rightarrow> bytes \<Rightarrow> bool \<Rightarrow> 'w \<Rightarrow> u64 \<Rightarrow> u16 \<Rightarrow> bytes res \<Rightarrow> 'w \<Rightarrow> bool" where
  "read_step P rmx acc first w want wvalue r w' \<longleftrightarrow>
     length acc < unat rmx
   \<and> frame_read_chunk_next (rmx - word_of_nat (length acc)) first = (want, wvalue)
   \<and> unat want = min (unat rmx - length acc) 4096
   \<and> ctrl_in P w VERIMARK_CTRL_REQ_READ wvalue (unat want) = (r, w')"

lemma read_stepD:
  assumes "read_step P rmx acc first w want wvalue r w'"
  shows "length acc < unat rmx" "unat want = min (unat rmx - length acc) 4096"
    "frame_read_chunk_next (rmx - word_of_nat (length acc)) first = (want, wvalue)"
    "ctrl_in P w VERIMARK_CTRL_REQ_READ wvalue (unat want) = (r, w')"
  using assms by (auto simp: read_step_def simp del: min.absorb1)

lemma read_step_ex:
  assumes "length acc < unat rmx"
  obtains want wvalue r w' where "read_step P rmx acc first w want wvalue r w'"
  using read_want [OF assms, of first] assms unfolding read_step_def by (metis prod.exhaust_sel fst_conv)

lemma ctrl_read_loop_rule [consumes 1, case_names full failed retried ended more]:
  assumes run: "ctrl_read_loop P rmx acc first retries w = (r, w')"
    and full: "\<And>acc first retries w. unat rmx \<le> length acc \<Longrightarrow> Q acc first retries w (Inr acc) w"
    and failed: "\<And>acc first retries w want wvalue e w1. read_step P rmx acc first w want wvalue (Inl e) w1 \<Longrightarrow>
      \<not> (e = Usb_Timed_Out \<and> retries < VERIMARK_SYNC_READ_MAX_RETRIES) \<Longrightarrow> Q acc first retries w (Inl e) w1"
    and retried: "\<And>acc first retries w want wvalue w1 r w'.
      read_step P rmx acc first w want wvalue (Inl Usb_Timed_Out) w1 \<Longrightarrow> retries < VERIMARK_SYNC_READ_MAX_RETRIES \<Longrightarrow>
      Q acc first (retries + 1) (pause_us P VERIMARK_SYNC_READ_RETRY_DELAY_US w1) r w' \<Longrightarrow> Q acc first retries w r w'"
    and ended: "\<And>acc first retries w want wvalue data w1. read_step P rmx acc first w want wvalue (Inr data) w1 \<Longrightarrow>
      length data < unat want \<or> unat rmx \<le> length (acc @ data) \<Longrightarrow> Q acc first retries w (Inr (acc @ data)) w1"
    and more: "\<And>acc first retries w want wvalue data w1 r w'. read_step P rmx acc first w want wvalue (Inr data) w1 \<Longrightarrow>
      unat want \<le> length data \<Longrightarrow> length (acc @ data) < unat rmx \<Longrightarrow> Q (acc @ data) False 0 w1 r w' \<Longrightarrow>
      Q acc first retries w r w'"
  shows "Q acc first retries w r w'"
  using assms
proof (induction P rmx acc first retries w arbitrary: r w' rule: ctrl_read_loop.induct)
  case (1 P rmx acc first retries w)
  note hyps = "1.prems"(2-6)
  show ?case
  proof (cases "length acc < unat rmx")
    case False
    then show ?thesis using "1.prems"(1) hyps(1) by (auto simp: ctrl_read_loop_full)
  next
    case True
    then obtain want wvalue q w1 where st: "read_step P rmx acc first w want wvalue q w1" by (rule read_step_ex)
    then have nxt: "frame_read_chunk_next (rmx - word_of_nat (length acc)) first = (want, wvalue)"
      and io: "ctrl_in P w VERIMARK_CTRL_REQ_READ wvalue (unat want) = (q, w1)" by (fact read_stepD(3,4))+
    note IH = "1.IH"(1) [OF True nxt [symmetric] io [symmetric] _ _ _ hyps]
      "1.IH"(2) [OF True nxt [symmetric] io [symmetric] _ _ _ hyps]
    show ?thesis
    proof (cases q)
      case (Inl e)
      with "1.prems"(1) st hyps(2,3) IH(1) show ?thesis
        unfolding ctrl_read_loop_step [OF True nxt io] by (auto split: if_split_asm)
    next
      case (Inr d)
      with "1.prems"(1) st hyps(4,5) IH(2) show ?thesis
        unfolding ctrl_read_loop_step [OF True nxt io]
        by (cases "length (acc @ d) < unat rmx") (auto simp: ctrl_read_loop_full split: if_split_asm)
    qed
  qed
qed

definition verimark_ctrl_read_sync :: "'w platform \<Rightarrow> u64 \<Rightarrow> 'w \<Rightarrow> bytes res \<times> 'w" where
  "verimark_ctrl_read_sync P resp_max_len w = ctrl_read_loop P (max resp_max_len 1) [] True 0 w"

definition verimark_ctrl_cmd_sync :: "'w platform \<Rightarrow> bytes \<Rightarrow> u64 \<Rightarrow> 'w \<Rightarrow> bytes res \<times> 'w" where
  "verimark_ctrl_cmd_sync P cmd resp_max_len w =
     (case verimark_ctrl_write_sync P cmd w of
        (Inl e, w') \<Rightarrow> (Inl e, w')
      | (Inr _, w') \<Rightarrow> verimark_ctrl_read_sync P resp_max_len w')"

subsection \<open>The two command paths agree\<close>

lemma sync_constants:
  "VERIMARK_SYNC_READ_MAX_RETRIES = VERIMARK_CTRL_READ_MAX_RETRIES"
  "1000 * VERIMARK_CTRL_READ_RETRY_DELAY_MS = VERIMARK_SYNC_READ_RETRY_DELAY_US"
  by (simp_all add: VERIMARK_SYNC_READ_MAX_RETRIES_def VERIMARK_CTRL_READ_MAX_RETRIES_def
      VERIMARK_CTRL_READ_RETRY_DELAY_MS_def VERIMARK_SYNC_READ_RETRY_DELAY_US_def)

abbreviation cmd_run :: "'w platform \<Rightarrow> nat \<Rightarrow> nat \<Rightarrow> cmd_ctx \<times> 'w \<Rightarrow> (bytes res \<times> 'w) option" where
  "cmd_run P fuel st s \<equiv> map_option cmd_ssm_completed
     (ssm_run (fpi P) (world_delay P) VERIMARK_CMD_N_STATES (cmd_step P) fuel st s)"

text \<open>Entering \<open>READ_CHUNK\<close> once, by the outcome of the transfer.\<close>

lemma cmd_run_read:
  assumes "fpi_ssm_doc (fpi P)" "read_step P (rmax ctx) (rbuf ctx) (rfirst ctx) w want wvalue r w'"
  shows "cmd_run P (Suc fuel) VERIMARK_CMD_STATE_READ_CHUNK (ctx, w) =
    (case r of
       Inl e \<Rightarrow>
         if e = Usb_Timed_Out \<and> rretries ctx < VERIMARK_SYNC_READ_MAX_RETRIES
         then cmd_run P fuel VERIMARK_CMD_STATE_READ_CHUNK
                (ctx\<lparr>rretries := rretries ctx + 1\<rparr>, pause_us P VERIMARK_SYNC_READ_RETRY_DELAY_US w')
         else Some (Inl e, w')
     | Inr data \<Rightarrow>
         if length data < unat want \<or> unat (rmax ctx) \<le> length (rbuf ctx @ data)
         then Some (Inr (rbuf ctx @ data), w')
         else cmd_run P fuel VERIMARK_CMD_STATE_READ_CHUNK
                (ctx\<lparr>rbuf := rbuf ctx @ data, rfirst := False, rretries := 0\<rparr>, w'))"
  using assms(1) read_stepD(3,4) [OF assms(2)]
  by (cases ctx) (auto simp: cmd_step_def on_read_chunk_done_def world_delay_def cmd_ssm_completed_def
      fpi_ssm_docD sync_constants(2) [symmetric] sync_constants(1) Let_def split: sum.splits)

lemma read_fuel:
  assumes "len < rm" "26 * (rm - len) - retries \<le> fuel" "retries \<le> 25"
  obtains f where "fuel = Suc f"
proof -
  have "26 * 1 \<le> 26 * (rm - len)" using assms(1) by (intro mult_le_mono2) simp
  then show ?thesis using that assms(2,3) by (cases fuel) auto
qed

text \<open>\<open>READ_CHUNK\<close> run to its end is the loop, from any context with these read fields.\<close>

abbreviation read_ctx :: "cmd_ctx \<Rightarrow> bytes \<Rightarrow> bool \<Rightarrow> nat \<Rightarrow> cmd_ctx" where
  "read_ctx c acc first retries \<equiv> c\<lparr>rbuf := acc, rfirst := first, rretries := retries\<rparr>"

lemma cmd_run_read_phase:
  assumes "fpi_ssm_doc (fpi P)"
  shows "ctrl_read_loop P (rmax c) acc first retries w = (r, w') \<Longrightarrow> length acc < unat (rmax c) \<Longrightarrow>
    retries \<le> 25 \<Longrightarrow> 26 * (unat (rmax c) - length acc) - retries \<le> fuel \<Longrightarrow>
    cmd_run P fuel VERIMARK_CMD_STATE_READ_CHUNK (read_ctx c acc first retries, w) = Some (r, w')"
proof (induction arbitrary: fuel rule: ctrl_read_loop_rule)
  case (full acc first retries w)
  then show ?case by simp
next
  case (failed acc first retries w want wvalue e w1)
  note run = cmd_run_read [OF assms, of "read_ctx c acc first retries", simplified, OF failed(1)]
  obtain f where f: "fuel = Suc f" using failed.prems by (elim read_fuel)
  show ?case using run [of f] failed(2) unfolding f by simp
next
  case (retried acc first retries w want wvalue w1 r w')
  note run = cmd_run_read [OF assms, of "read_ctx c acc first retries", simplified, OF retried(1)]
  obtain f where f: "fuel = Suc f" using retried.prems by (elim read_fuel)
  have "retries + 1 \<le> 25" "26 * (unat (rmax c) - length acc) - (retries + 1) \<le> f"
    using retried f by (auto simp: VERIMARK_SYNC_READ_MAX_RETRIES_def)
  then show ?case using run [of f] retried unfolding f by simp
next
  case (ended acc first retries w want wvalue data w1)
  note run = cmd_run_read [OF assms, of "read_ctx c acc first retries", simplified, OF ended(1)]
  obtain f where f: "fuel = Suc f" using ended.prems by (elim read_fuel)
  show ?case using run [of f] ended(2) unfolding f by simp
next
  case (more acc first retries w want wvalue data w1 r w')
  note run = cmd_run_read [OF assms, of "read_ctx c acc first retries", simplified, OF more(1)]
  obtain f where f: "fuel = Suc f" using more.prems by (elim read_fuel)
  have "26 * (unat (rmax c) - length (acc @ data)) - 0 \<le> f"
    using more.prems f more.hyps(2,3) read_stepD(1,2) [OF more(1)] by simp
  with more show ?case using run [of f] unfolding f by simp
qed

text \<open>Entering \<open>WRITE_CHUNK\<close> once.\<close>

lemma cmd_run_write:
  assumes "fpi_ssm_doc (fpi P)" "wchunk_idx ctx < length (wchunks ctx)" "chunk = wchunks ctx ! wchunk_idx ctx"
    and "rd_slice (wbuf ctx) (unat (wc_offset chunk)) (unat (wc_len chunk)) = Inr data"
    and "ctrl_out P w VERIMARK_CTRL_REQ_WRITE (wc_wvalue chunk) data = (r, w')"
  shows "cmd_run P (Suc fuel) VERIMARK_CMD_STATE_WRITE_CHUNK (ctx, w) =
    (case r of Inl e \<Rightarrow> Some (Inl e, w')
     | Inr _ \<Rightarrow>
         cmd_run P fuel
           (if Suc (wchunk_idx ctx) < length (wchunks ctx) then VERIMARK_CMD_STATE_WRITE_CHUNK else VERIMARK_CMD_STATE_READ_CHUNK)
           (ctx\<lparr>wchunk_idx := Suc (wchunk_idx ctx)\<rparr>, w'))"
  using assms(2-5)
  by (auto simp: cmd_step_def Let_def fpi_ssm_docD [OF assms(1)] cmd_ssm_completed_def on_write_chunk_done_def
      split: sum.splits)

lemma cmd_run_write_phase:
  assumes "fpi_ssm_doc (fpi P)"
    and "wchunk_idx ctx < length (wchunks ctx)" "length (wchunks ctx) - wchunk_idx ctx \<le> fuel"
  shows "cmd_run P fuel VERIMARK_CMD_STATE_WRITE_CHUNK (ctx, w) =
    (case ctrl_write_chunks P (wbuf ctx) (drop (wchunk_idx ctx) (wchunks ctx)) w of
       (Inl e, w') \<Rightarrow> Some (Inl e, w')
     | (Inr _, w') \<Rightarrow>
         cmd_run P (fuel - (length (wchunks ctx) - wchunk_idx ctx)) VERIMARK_CMD_STATE_READ_CHUNK
           (ctx\<lparr>wchunk_idx := length (wchunks ctx)\<rparr>, w'))"
  using assms(2,3)
proof (induction "length (wchunks ctx) - wchunk_idx ctx" arbitrary: ctx fuel w)
  case 0
  then show ?case by simp
next
  case (Suc d)
  let ?i = "wchunk_idx ctx" and ?cs = "wchunks ctx"
  obtain f where f: "fuel = Suc f" using Suc.prems by (cases fuel) auto
  have cs: "drop ?i ?cs = ?cs ! ?i # drop (Suc ?i) ?cs"
    using Suc.prems(1) by (simp add: Cons_nth_drop_Suc)
  show ?case
  proof (cases "rd_slice (wbuf ctx) (unat (wc_offset (?cs ! ?i))) (unat (wc_len (?cs ! ?i)))")
    case (Inl e)
    then show ?thesis
      using Suc.prems(1) by (simp add: f cs cmd_step_def Let_def fpi_ssm_docD [OF assms(1)] cmd_ssm_completed_def)
  next
    case (Inr data)
    obtain r w' where io: "ctrl_out P w VERIMARK_CTRL_REQ_WRITE (wc_wvalue (?cs ! ?i)) data = (r, w')"
      by fastforce
    note run = cmd_run_write [OF assms(1) Suc.prems(1) refl Inr io, of f, folded f]
    show ?thesis
    proof (cases "r = Inr () \<and> Suc ?i < length ?cs")
      case True
      with Suc.hyps(1) [of "ctx\<lparr>wchunk_idx := Suc ?i\<rparr>" f w'] Suc.hyps(2) Suc.prems(2) f
      show ?thesis
        unfolding run by (simp add: cs Inr io diff_Suc_less split: sum.splits prod.splits)
    next
      case False
      moreover have "length ?cs = Suc ?i" if "r = Inr ()"
        using False that Suc.prems(1) by simp
      ultimately show ?thesis
        unfolding run using f by (cases r) (auto simp: cs Inr io)
    qed
  qed
qed

lemma length_frame_write_chunks:
  assumes "length cmd + 8 \<le> 2 ^ 63"
  shows "0 < length (frame_write_chunks (word_of_nat (length cmd)))"
    and "length (frame_write_chunks (word_of_nat (length cmd))) \<le> 8"
proof -
  have "unat (word_of_nat (length cmd) :: u64) = length cmd"
    using assms by (intro unat_of_nat_u64) simp
  then show "0 < length (frame_write_chunks (word_of_nat (length cmd)))"
    and "length (frame_write_chunks (word_of_nat (length cmd))) \<le> 8"
    using frame_write_chunks_closed [of "word_of_nat (length cmd)"] assms plan_count_le
    by simp_all
qed

text \<open>Enough state entries for any device: 8 writes, and 26 reads for each byte wanted.\<close>

definition cmd_fuel :: "u64 \<Rightarrow> nat" where
  "cmd_fuel resp_max_len = 8 + 26 * unat (max resp_max_len 1)"

lemma cmd_ctx_new_simps [simp]:
  "wbuf (cmd_ctx_new cmd m) = padded_buf cmd"
  "wchunks (cmd_ctx_new cmd m) = frame_write_chunks (word_of_nat (length cmd))"
  "wchunk_idx (cmd_ctx_new cmd m) = 0" "rbuf (cmd_ctx_new cmd m) = []"
  "rmax (cmd_ctx_new cmd m) = max m 1" "rfirst (cmd_ctx_new cmd m)" "rretries (cmd_ctx_new cmd m) = 0"
  by (simp_all add: cmd_ctx_new_def)

lemma verimark_cmd_sync:
  assumes "fpi_ssm_doc (fpi P)" "length cmd + 8 \<le> 2 ^ 63" "cmd_fuel resp_max_len \<le> fuel"
  shows "verimark_cmd P fuel cmd resp_max_len w = Some (verimark_ctrl_cmd_sync P cmd resp_max_len w)"
proof -
  let ?cs = "frame_write_chunks (word_of_nat (length cmd))" and ?c = "cmd_ctx_new cmd resp_max_len"
  note n = length_frame_write_chunks [OF assms(2)]
  have pos: "0 < unat (max resp_max_len 1)"
    by (simp add: max_def word_le_nat_alt)
  have read: "cmd_run P (fuel - length ?cs) VERIMARK_CMD_STATE_READ_CHUNK (?c\<lparr>wchunk_idx := length ?cs\<rparr>, w') =
      Some (verimark_ctrl_read_sync P resp_max_len w')" for w'
  proof -
    let ?d = "?c\<lparr>wchunk_idx := length ?cs\<rparr>"
    obtain r w'' where r: "verimark_ctrl_read_sync P resp_max_len w' = (r, w'')" by fastforce
    have self: "read_ctx ?d [] True 0 = ?d" by (simp add: cmd_ctx_new_def)
    have "26 * unat (max resp_max_len 1) \<le> fuel - length ?cs"
      using n(2) assms(3) by (simp add: cmd_fuel_def)
    with cmd_run_read_phase [OF assms(1), of ?d "[]" True 0 w' r w'' "fuel - length ?cs", unfolded self] pos r
    show ?thesis by (simp add: verimark_ctrl_read_sync_def)
  qed
  have "verimark_cmd P fuel cmd resp_max_len w =
      (case verimark_ctrl_write_sync P cmd w of
         (Inl e, w') \<Rightarrow> Some (Inl e, w')
       | (Inr _, w') \<Rightarrow> cmd_run P (fuel - length ?cs) VERIMARK_CMD_STATE_READ_CHUNK
            (?c\<lparr>wchunk_idx := length ?cs\<rparr>, w'))"
    using cmd_run_write_phase [OF assms(1), of ?c fuel w] n assms(3)
    unfolding verimark_cmd_def verimark_ctrl_write_sync_def cmd_ctx_new_simps cmd_fuel_def diff_zero by simp
  then show ?thesis
    unfolding read verimark_ctrl_cmd_sync_def by (auto split: prod.splits sum.splits)
qed

subsection \<open>What a command puts on the wire\<close>

fun send_frames :: "'w platform \<Rightarrow> (u16 \<times> bytes) list \<Rightarrow> 'w \<Rightarrow> unit res \<times> 'w" where
  "send_frames P [] w = (Inr (), w)"
| "send_frames P ((v, d) # fs) w =
     (case ctrl_out P w VERIMARK_CTRL_REQ_WRITE v d of
        (Inl e, w') \<Rightarrow> (Inl e, w')
      | (Inr _, w') \<Rightarrow> send_frames P fs w')"

lemma ctrl_write_chunks_in_bounds:
  assumes "\<forall>c \<in> set cs. unat (wc_offset c) + unat (wc_len c) \<le> length buf"
  shows "ctrl_write_chunks P buf cs w = send_frames P (map (\<lambda>c. (wc_wvalue c, chunk_bytes buf c)) cs) w"
  using assms
  by (induction cs arbitrary: w) (auto simp: chunk_bytes_def split: sum.splits prod.splits)

lemma plan_in_bounds:
  assumes "c \<in> set (frame_write_chunks (word_of_nat (length cmd)))"
  shows "unat (wc_offset c) + unat (wc_len c) \<le> length (padded_buf cmd)"
  using frame_write_chunks_in_bounds [OF assms] by (simp add: padded_buf_def)

lemma verimark_ctrl_write_frames: "verimark_ctrl_write_sync P cmd w = send_frames P (write_frames cmd) w"
  using plan_in_bounds by (simp add: verimark_ctrl_write_sync_def write_frames_def ctrl_write_chunks_in_bounds)

subsection \<open>What a command reads back\<close>

text \<open>
  A device with a pending reply: every control-READ is either not ready (a time-out, at most
  \<open>busy\<close> of them in a row) or delivers the next bytes of the reply.
\<close>

definition responder :: "'w platform \<Rightarrow> ('w \<Rightarrow> bytes) \<Rightarrow> ('w \<Rightarrow> nat) \<Rightarrow> bool" where
  "responder P pend busy \<longleftrightarrow>
     (\<forall>w v n. case ctrl_in P w VERIMARK_CTRL_REQ_READ v n of
        (Inl e, w') \<Rightarrow> e = Usb_Timed_Out \<and> busy w' < busy w \<and> pend w' = pend w
      | (Inr d, w') \<Rightarrow> d = take n (pend w) \<and> pend w' = drop n (pend w) \<and> busy w' \<le> 25)
   \<and> (\<forall>us w. pend (pause_us P us w) = pend w \<and> busy (pause_us P us w) = busy w)"

lemma responder_in:
  assumes "responder P pend busy" "ctrl_in P w VERIMARK_CTRL_REQ_READ v n = (r, w')"
  shows "r = Inl e \<Longrightarrow> e = Usb_Timed_Out \<and> busy w' < busy w \<and> pend w' = pend w"
    and "r = Inr d \<Longrightarrow> d = take n (pend w) \<and> pend w' = drop n (pend w) \<and> busy w' \<le> 25"
    and "pend (pause_us P us w) = pend w" and "busy (pause_us P us w) = busy w"
  using assms unfolding responder_def by (fastforce split: prod.splits sum.splits)+

lemma ctrl_read_loop_responder:
  assumes "responder P pend busy" "length acc < unat rmx" "busy w + retries \<le> 25"
  shows "\<exists>w'. ctrl_read_loop P rmx acc first retries w = (Inr (acc @ take (unat rmx - length acc) (pend w)), w')"
proof -
  obtain r w' where out: "ctrl_read_loop P rmx acc first retries w = (r, w')" by fastforce
  then have "r = Inr (acc @ take (unat rmx - length acc) (pend w))"
    using assms(3)
  proof (induction rule: ctrl_read_loop_rule)
    case (full acc first retries w)
    then show ?case by simp
  next
    case (failed acc first retries w want wvalue e w1)
    then show ?case
      using responder_in(1) [OF assms(1) read_stepD(4) [OF failed(1)]] by (simp add: VERIMARK_SYNC_READ_MAX_RETRIES_def)
  next
    case (retried acc first retries w want wvalue w1 r w')
    then have "busy w1 < busy w \<and> pend w1 = pend w"
      using responder_in(1) [OF assms(1) read_stepD(4) [OF retried(1)]] by simp
    with retried assms(1) show ?case by (simp add: responder_def)
  next
    case (ended acc first retries w want wvalue data w1)
    have "data = take (unat want) (pend w)"
      using responder_in(2) [OF assms(1) read_stepD(4) [OF ended(1)]] by simp
    with ended(2) read_stepD(2) [OF ended(1)] have "data = take (unat rmx - length acc) (pend w)"
      by (auto simp: min_def split: if_split_asm)
    then show ?case by simp
  next
    case (more acc first retries w want wvalue data w1 r w')
    have d: "data = take (unat want) (pend w)" "pend w1 = drop (unat want) (pend w)" "busy w1 \<le> 25"
      using responder_in(2) [OF assms(1) read_stepD(4) [OF more(1)]] by simp_all
    with more(2) have n: "length data = unat want" by simp
    then have "unat rmx - length acc = unat want + (unat rmx - length (acc @ data))"
      using read_stepD(1,2) [OF more(1)] by simp
    with d n more.IH show ?case by (simp add: take_add)
  qed
  with out show ?thesis by simp
qed

lemma verimark_ctrl_read_responder:
  assumes "responder P pend busy" "busy w \<le> 25"
  shows "\<exists>w'. verimark_ctrl_read_sync P m w = (Inr (take (unat (max m 1)) (pend w)), w')"
proof -
  have "0 < unat (max m 1)" by (simp add: max_def word_le_nat_alt)
  with assms ctrl_read_loop_responder [of P pend busy "[]" "max m 1" w 0 True]
  show ?thesis unfolding verimark_ctrl_read_sync_def by simp
qed

subsection \<open>A command reaches the device and its reply comes back\<close>

text \<open>A device that collects the frames (\<open>rx\<close>) and, after each, has the reply \<open>f\<close> of the
  command reassembled so far ready after at most 25 refusals.\<close>

definition command_device ::
  "'w platform \<Rightarrow> ('w \<Rightarrow> (u16 \<times> bytes) list) \<Rightarrow> ('w \<Rightarrow> bytes) \<Rightarrow> ('w \<Rightarrow> nat) \<Rightarrow> (bytes \<Rightarrow> bytes) \<Rightarrow> bool" where
  "command_device P rx pend busy f \<longleftrightarrow> responder P pend busy
     \<and> (\<forall>w v d. fst (ctrl_out P w VERIMARK_CTRL_REQ_WRITE v d) = Inr ()
          \<and> rx (snd (ctrl_out P w VERIMARK_CTRL_REQ_WRITE v d)) = rx w @ [(v, d)]
          \<and> pend (snd (ctrl_out P w VERIMARK_CTRL_REQ_WRITE v d)) = f (reassemble (rx w @ [(v, d)]))
          \<and> busy (snd (ctrl_out P w VERIMARK_CTRL_REQ_WRITE v d)) \<le> 25)"

lemma send_frames_device:
  assumes "command_device P rx pend busy f" "fs \<noteq> []"
  shows "\<exists>w'. send_frames P fs w = (Inr (), w') \<and> rx w' = rx w @ fs
    \<and> pend w' = f (reassemble (rx w @ fs)) \<and> busy w' \<le> 25"
  using assms(2)
proof (induction fs arbitrary: w)
  case Nil
  then show ?case by simp
next
  case (Cons vd fs)
  obtain v d where vd: "vd = (v, d)" by (cases vd) auto
  obtain r w1 where out: "ctrl_out P w VERIMARK_CTRL_REQ_WRITE v d = (r, w1)" by fastforce
  then have w1: "r = Inr ()" "rx w1 = rx w @ [(v, d)]" "pend w1 = f (reassemble (rx w @ [(v, d)]))" "busy w1 \<le> 25"
    using assms(1) unfolding command_device_def by (metis fst_conv snd_conv)+
  show ?case
  proof (cases "fs = []")
    case True
    then show ?thesis using out w1 by (simp add: vd)
  next
    case False
    from Cons.IH [OF this, of w1] show ?thesis using out w1 by (simp add: vd)
  qed
qed

lemma write_frames_nonempty: "length cmd + 8 \<le> 2 ^ 63 \<Longrightarrow> write_frames cmd \<noteq> []"
  using length_frame_write_chunks(1) [of cmd] by (auto simp: write_frames_def)

lemma ctrl_cmd_sync_device:
  assumes "command_device P rx pend busy f" "rx w = []" "length cmd \<le> 32768"
  shows "\<exists>w'. verimark_ctrl_cmd_sync P cmd m w = (Inr (take (unat (max m 1)) (f cmd)), w')"
proof -
  have n: "length cmd + 8 \<le> 2 ^ 63" using assms(3) by simp
  from send_frames_device [OF assms(1) write_frames_nonempty [OF n], of w] assms(2) obtain w1 where
    "send_frames P (write_frames cmd) w = (Inr (), w1)" "pend w1 = f cmd" "busy w1 \<le> 25"
    by (auto simp: reassemble_write_frames [OF assms(3)])
  moreover have "responder P pend busy" using assms(1) by (simp add: command_device_def)
  ultimately show ?thesis
    using verimark_ctrl_read_responder [of P pend busy w1 m]
    by (simp add: verimark_ctrl_cmd_sync_def verimark_ctrl_write_frames)
qed

text \<open>What none of the transfers changes, a command does not change.\<close>

lemma ctrl_write_chunks_keeps:
  assumes "\<And>w r v d. g (snd (ctrl_out P w r v d)) = g w"
  shows "ctrl_write_chunks P buf cs w = (r, w') \<Longrightarrow> g w' = g w"
proof (induction cs arbitrary: w)
  case (Cons c cs)
  obtain q w1 where "rd_slice buf (unat (wc_offset c)) (unat (wc_len c)) = Inr d
      \<Longrightarrow> ctrl_out P w VERIMARK_CTRL_REQ_WRITE (wc_wvalue c) d = (q, w1)" for d by (metis surj_pair sum.inject(2))
  with Cons assms show ?case
    by (auto split: sum.split_asm prod.split_asm) (metis snd_conv)+
qed simp

lemma ctrl_read_loop_keeps:
  assumes "\<And>w v n. g (snd (ctrl_in P w VERIMARK_CTRL_REQ_READ v n)) = g w" "\<And>us w. g (pause_us P us w) = g w"
  shows "ctrl_read_loop P rmx acc first retries w = (r, w') \<Longrightarrow> g w' = g w"
  by (induction rule: ctrl_read_loop_rule) (auto simp: assms(2) dest!: read_stepD(4) arg_cong [where f = "\<lambda>q. g (snd q)"] simp: assms(1))

lemma ctrl_cmd_sync_keeps:
  assumes "\<And>w r v d. g (snd (ctrl_out P w r v d)) = g w" "\<And>w r v n. g (snd (ctrl_in P w r v n)) = g w"
    "\<And>us w. g (pause_us P us w) = g w"
  shows "verimark_ctrl_cmd_sync P cmd m w = (r, w') \<Longrightarrow> g w' = g w"
proof -
  assume run: "verimark_ctrl_cmd_sync P cmd m w = (r, w')"
  obtain q w1 where wr: "verimark_ctrl_write_sync P cmd w = (q, w1)" by fastforce
  then have w1: "g w1 = g w"
    unfolding verimark_ctrl_write_sync_def by (rule ctrl_write_chunks_keeps [OF assms(1)])
  show "g w' = g w"
  proof (cases q)
    case (Inl e)
    then show ?thesis using run wr w1 by (simp add: verimark_ctrl_cmd_sync_def)
  next
    case (Inr u)
    then have "ctrl_read_loop P (max m 1) [] True 0 w1 = (r, w')"
      using run wr by (simp add: verimark_ctrl_cmd_sync_def verimark_ctrl_read_sync_def)
    from ctrl_read_loop_keeps [OF assms(2,3) this] w1 show ?thesis by simp
  qed
qed

text \<open>After a command that succeeded, whatever every delivered read establishes holds.\<close>

lemma ctrl_read_loop_last:
  assumes "\<And>w v n d w'. ctrl_in P w VERIMARK_CTRL_REQ_READ v n = (Inr d, w') \<Longrightarrow> Q w'"
  shows "ctrl_read_loop P rmx acc first retries w = (Inr data, w') \<Longrightarrow> length acc < unat rmx \<or> Q w \<Longrightarrow> Q w'"
  by (induction acc first retries w "Inr data :: bytes res" w' rule: ctrl_read_loop_rule)
    (auto dest: read_stepD assms)

subsection \<open>The reply fits the buffer\<close>

lemma ctrl_read_loop_bounded:
  assumes "usb_doc P" "length acc \<le> unat rmx" "ctrl_read_loop P rmx acc first retries w = (Inr data, w')"
  shows "length data \<le> unat rmx"
  using assms(3,2)
proof (induction acc first retries w "Inr data :: bytes res" w' rule: ctrl_read_loop_rule)
  case (ended acc first retries w want wvalue d w1)
  then show ?case
    using usb_doc_ctrl_in [OF assms(1) read_stepD(4) [OF ended(1)]] read_stepD(1,2) [OF ended(1)] by auto
qed auto

subsection \<open>Properties\<close>

text \<open>C15: The asynchronous command machine (\<open>verimark_cmd\<close>) and the synchronous command path of
  \<open>verimark.c\<close> are the same function: with enough state entries for the reply buffer, the
  machine always finishes, with the same result and the same effects on the device, for every
  behaviour of the transfers, errors and not-ready answers included.\<close>

theorem verimark_cmd_eq_sync:
  assumes "fpi_ssm_doc (fpi P)" "length cmd + 8 \<le> 2 ^ 63" "cmd_fuel resp_max_len \<le> fuel"
  shows "verimark_cmd P fuel cmd resp_max_len w = Some (verimark_ctrl_cmd_sync P cmd resp_max_len w)"
  by (rule verimark_cmd_sync [OF assms])

lemma verimark_cmd_eq_sync_witness:
  "verimark_cmd sample 10000 [0x01] 256 world0 = Some (verimark_ctrl_cmd_sync sample [0x01] 256 world0)"
  by (rule verimark_cmd_eq_sync) (simp_all add: sample_ssm_doc cmd_fuel_def max_def word_le_nat_alt)

text \<open>C16: End to end, a command of up to 32768 bytes reaches a device that reassembles the control
  writes, and the caller gets the device's reply to exactly that command, cut at the buffer it
  offered, even when the device answers ``not ready'' up to 25 times.\<close>

theorem verimark_cmd_end_to_end:
  assumes "fpi_ssm_doc (fpi P)" "command_device P rx pend busy f" "rx w = []" "length cmd \<le> 32768"
    "cmd_fuel resp_max_len \<le> fuel"
  shows "\<exists>w'. verimark_cmd P fuel cmd resp_max_len w = Some (Inr (take (unat (max resp_max_len 1)) (f cmd)), w')"
proof -
  have "length cmd + 8 \<le> 2 ^ 63" using assms(4) by simp
  from verimark_cmd_sync [OF assms(1) this assms(5)] ctrl_cmd_sync_device [OF assms(2-4)]
  show ?thesis by metis
qed

definition sample_device :: "world platform" where
  "sample_device = sample\<lparr>ctrl_out := \<lambda>w req v data.
     (Inr (), w\<lparr>w_sent := w_sent w @ [(v, data)], w_pend := rev (reassemble (w_sent w @ [(v, data)])), w_busy := 3\<rparr>)\<rparr>"

lemma sample_command_device: "command_device sample_device w_sent w_pend w_busy rev"
  by (auto simp: command_device_def responder_def sample_device_def sample_def)

lemma verimark_cmd_end_to_end_witness:
  "\<exists>w'. verimark_cmd sample_device 10000 [0x93, 0x00, 0x05] 256 world0 = Some (Inr [0x05, 0x00, 0x93], w')"
proof -
  have "fpi sample_device = sample_ssm" by (simp add: sample_device_def)
  then show ?thesis
    using verimark_cmd_end_to_end [OF _ sample_command_device, of world0 "[0x93, 0x00, 0x05]" 256 10000]
    by (simp add: sample_ssm_doc cmd_fuel_def world0_def max_def word_le_nat_alt)
qed

text \<open>A command reply is never longer than the buffer the caller offered (or one byte when it
  offered none), whatever the device delivers.\<close>

lemma verimark_cmd_bounded:
  assumes "fpi_ssm_doc (fpi P)" "usb_doc P" "length cmd + 8 \<le> 2 ^ 63" "cmd_fuel resp_max_len \<le> fuel"
    and "verimark_cmd P fuel cmd resp_max_len w = Some (Inr data, w')"
  shows "length data \<le> unat (max resp_max_len 1)"
proof -
  obtain w1 where "ctrl_read_loop P (max resp_max_len 1) [] True 0 w1 = (Inr data, w')"
    using assms(5) verimark_cmd_sync [OF assms(1,3,4), of w]
    by (auto simp: verimark_ctrl_cmd_sync_def verimark_ctrl_read_sync_def split: prod.split_asm sum.split_asm)
  from ctrl_read_loop_bounded [OF assms(2) _ this] show ?thesis by simp
qed

lemma verimark_cmd_bounded_witness:
  "\<exists>data w'. verimark_cmd sample_device 10000 [0x01, 0x02, 0x03] 2 world0 = Some (Inr data, w')
     \<and> length data \<le> unat (max 2 (1 :: u64))"
proof -
  have docs: "fpi_ssm_doc (fpi sample_device)" "usb_doc sample_device"
    by (auto simp: sample_device_def sample_ssm_doc usb_doc_def sample_def split: if_splits)
  have fuel: "cmd_fuel 2 \<le> 10000" by (simp add: cmd_fuel_def max_def word_le_nat_alt)
  obtain data w' where "verimark_ctrl_cmd_sync sample_device [0x01, 0x02, 0x03] 2 world0 = (Inr data, w')"
    using ctrl_cmd_sync_device [OF sample_command_device, of world0 "[0x01, 0x02, 0x03]" 2]
    by (auto simp: world0_def)
  then have run: "verimark_cmd sample_device 10000 [0x01, 0x02, 0x03] 2 world0 = Some (Inr data, w')"
    using verimark_cmd_sync [OF docs(1) _ fuel, of "[0x01, 0x02, 0x03]" world0] by simp
  from verimark_cmd_bounded [OF docs _ fuel run] run show ?thesis by simp
qed

end
