(* ===== verification/Usb_Device.thy ===== *)
theory Usb_Device
  imports Transport
begin

text \<open>
  A device on the other end of the control transfers that has a state: it reassembles the frames
  of a command, answers it when it is read, and only then moves on. A whole command is then one
  step of the device.
\<close>

text \<open>\<open>S\<close> is the state of the device, \<open>rx\<close> the frames of the command it has received so far, \<open>pend\<close> the
  reply it has ready, \<open>busy\<close> how often it will still answer ``not ready''. The first data it
  delivers ends the command.\<close>

definition frame_device ::
  "'w platform \<Rightarrow> ('w \<Rightarrow> (u16 \<times> bytes) list) \<Rightarrow> ('w \<Rightarrow> bytes) \<Rightarrow> ('w \<Rightarrow> nat) \<Rightarrow> ('w \<Rightarrow> 's)
     \<Rightarrow> ('s \<Rightarrow> bytes \<Rightarrow> bytes \<times> 's) \<Rightarrow> bool" where
  "frame_device P rx pend busy S step \<longleftrightarrow> responder P pend busy
     \<and> (\<forall>w v d. fst (ctrl_out P w VERIMARK_CTRL_REQ_WRITE v d) = Inr ()
          \<and> rx (snd (ctrl_out P w VERIMARK_CTRL_REQ_WRITE v d)) = rx w @ [(v, d)]
          \<and> pend (snd (ctrl_out P w VERIMARK_CTRL_REQ_WRITE v d)) = fst (step (S w) (reassemble (rx w @ [(v, d)])))
          \<and> busy (snd (ctrl_out P w VERIMARK_CTRL_REQ_WRITE v d)) \<le> 25
          \<and> S (snd (ctrl_out P w VERIMARK_CTRL_REQ_WRITE v d)) = S w)
     \<and> (\<forall>w v n d w'. ctrl_in P w VERIMARK_CTRL_REQ_READ v n = (Inr d, w')
          \<longrightarrow> rx w' = [] \<and> S w' = (if rx w = [] then S w else snd (step (S w) (reassemble (rx w)))))
     \<and> (\<forall>w v n e w'. ctrl_in P w VERIMARK_CTRL_REQ_READ v n = (Inl e, w') \<longrightarrow> rx w' = rx w \<and> S w' = S w)
     \<and> (\<forall>us w. rx (pause_us P us w) = rx w \<and> S (pause_us P us w) = S w)"

lemma frame_device_out:
  assumes "frame_device P rx pend busy S step" "ctrl_out P w VERIMARK_CTRL_REQ_WRITE v d = (r, w')"
  shows "r = Inr ()" "rx w' = rx w @ [(v, d)]" "pend w' = fst (step (S w) (reassemble (rx w @ [(v, d)])))"
    "busy w' \<le> 25" "S w' = S w"
  using assms unfolding frame_device_def by (metis fst_conv snd_conv)+

lemma send_frames_state:
  assumes "frame_device P rx pend busy S step" "fs \<noteq> []"
  shows "\<exists>w'. send_frames P fs w = (Inr (), w') \<and> rx w' = rx w @ fs
    \<and> pend w' = fst (step (S w) (reassemble (rx w @ fs))) \<and> busy w' \<le> 25 \<and> S w' = S w"
  using assms(2)
proof (induction fs arbitrary: w)
  case Nil
  then show ?case by simp
next
  case (Cons vd fs)
  obtain v d where vd: "vd = (v, d)" by (cases vd) auto
  obtain r w1 where out: "ctrl_out P w VERIMARK_CTRL_REQ_WRITE v d = (r, w1)" by fastforce
  note w1 = frame_device_out [OF assms(1) out]
  show ?case
  proof (cases "fs = []")
    case True
    then show ?thesis using out w1 by (simp add: vd)
  next
    case False
    from Cons.IH [OF this, of w1] show ?thesis using out w1 by (simp add: vd)
  qed
qed

text \<open>What the state will be once the command received so far has been answered. Reading does not
  change it.\<close>

definition settled :: "('w \<Rightarrow> (u16 \<times> bytes) list) \<Rightarrow> ('w \<Rightarrow> 's) \<Rightarrow> ('s \<Rightarrow> bytes \<Rightarrow> bytes \<times> 's) \<Rightarrow> 'w \<Rightarrow> 's" where
  "settled rx S step w = (if rx w = [] then S w else snd (step (S w) (reassemble (rx w))))"

lemma ctrl_in_settled:
  assumes "frame_device P rx pend busy S step"
  shows "settled rx S step (snd (ctrl_in P w VERIMARK_CTRL_REQ_READ v n)) = settled rx S step w"
proof (cases "ctrl_in P w VERIMARK_CTRL_REQ_READ v n")
  case (Pair r w')
  with assms show ?thesis by (cases r) (auto simp: frame_device_def settled_def)
qed

text \<open>One command, one step.\<close>

lemma frame_device_call:
  assumes "frame_device P rx pend busy S step" "rx w = []" "length cmd \<le> 32768"
  shows "\<exists>w'. verimark_ctrl_cmd_sync P cmd m w = (Inr (take (unat (max m 1)) (fst (step (S w) cmd))), w')
    \<and> rx w' = [] \<and> S w' = snd (step (S w) cmd)"
proof -
  have n: "length cmd + 8 \<le> 2 ^ 63" using assms(3) by simp
  have ne: "write_frames cmd \<noteq> []" by (rule write_frames_nonempty [OF n])
  from send_frames_state [OF assms(1) ne, of w] assms(2) obtain w1 where
    w1: "send_frames P (write_frames cmd) w = (Inr (), w1)" "rx w1 = write_frames cmd"
    "pend w1 = fst (step (S w) cmd)" "busy w1 \<le> 25" "S w1 = S w"
    by (auto simp: reassemble_write_frames [OF assms(3)])
  have resp: "responder P pend busy" using assms(1) by (simp add: frame_device_def)
  obtain w' where read: "verimark_ctrl_read_sync P m w1 = (Inr (take (unat (max m 1)) (fst (step (S w) cmd))), w')"
    using verimark_ctrl_read_responder [OF resp w1(4), of m] w1(3) by auto
  then have loop: "ctrl_read_loop P (max m 1) [] True 0 w1 = (Inr (take (unat (max m 1)) (fst (step (S w) cmd))), w')"
    by (simp add: verimark_ctrl_read_sync_def)
  have "0 < unat (max m 1)" by (simp add: max_def word_le_nat_alt)
  then have rx: "rx w' = []"
    using ctrl_read_loop_last [of P "\<lambda>w. rx w = []", OF _ loop] assms(1) by (auto simp: frame_device_def)
  have "settled rx S step w' = settled rx S step w1"
    by (rule ctrl_read_loop_keeps [OF _ _ loop])
      (use assms(1) ctrl_in_settled [OF assms(1)] in \<open>simp_all add: frame_device_def settled_def\<close>)
  then have "S w' = snd (step (S w) cmd)"
    using rx ne w1(2,5) by (simp add: settled_def reassemble_write_frames [OF assms(3)])
  then show ?thesis
    using w1(1) read rx by (intro exI [of _ w']) (simp add: verimark_ctrl_cmd_sync_def verimark_ctrl_write_frames)
qed

end
