(* ===== verification/Interrupt.thy ===== *)
theory Interrupt
  imports Sample
begin

text \<open>
  The interrupt endpoint (\<open>verimark-transport.c\<close>): waiting for an event of one type under an
  overall deadline (\<open>verimark_intr_wait_async\<close>) and discarding queued events at open
  (\<open>verimark_intr_drain_sync\<close>).
\<close>

definition VERIMARK_EP_INTR_IN :: byte where "VERIMARK_EP_INTR_IN = 0x83"
definition VERIMARK_INTR_MAXPKT :: nat where "VERIMARK_INTR_MAXPKT = 8"
definition VERIMARK_INTR_ATTEMPT_MS :: int where "VERIMARK_INTR_ATTEMPT_MS = 500"
definition G_MAXINT64 :: int where "G_MAXINT64 = 2 ^ 63 - 1"

abbreviation (input) VERIMARK_INTR_STATE_READ :: nat where "VERIMARK_INTR_STATE_READ \<equiv> 0"
abbreviation (input) VERIMARK_INTR_N_STATES :: nat where "VERIMARK_INTR_N_STATES \<equiv> 1"

subsection \<open>The wait\<close>

text \<open>\<open>VerimarkIntrCtx\<close>\<close>

record intr_ctx =
  ic_ep :: byte
  want_type :: byte
  deadline_us :: int
  got :: bool
  seq :: byte

text \<open>The deadline check \<open>on_intr_read_done\<close> makes after a time-out and after an event of
  another type.\<close>

definition intr_keep_waiting :: "'w platform \<Rightarrow> intr_ctx \<Rightarrow> 'w \<Rightarrow> ssm_call \<times> intr_ctx \<times> 'w" where
  "intr_keep_waiting P ctx w =
     (let (now, w') = mono_time P w
      in if deadline_us ctx \<noteq> G_MAXINT64 \<and> deadline_us ctx \<le> now
         then (Mark_Completed, ctx\<lparr>got := False\<rparr>, w')
         else (Jump_To_State VERIMARK_INTR_STATE_READ, ctx, w'))"

definition intr_event_seq :: "bytes \<Rightarrow> byte" where
  "intr_event_seq buffer = (if 6 < length buffer then buffer ! 6 else 0)"

definition on_intr_read_done :: "'w platform \<Rightarrow> intr_ctx \<Rightarrow> bytes res \<Rightarrow> 'w \<Rightarrow> ssm_call \<times> intr_ctx \<times> 'w" where
  "on_intr_read_done P ctx r w =
     (case r of
        Inl e \<Rightarrow> if e = Usb_Timed_Out then intr_keep_waiting P ctx w else (Mark_Failed e, ctx, w)
      | Inr buffer \<Rightarrow>
          if 1 \<le> length buffer \<and> buffer ! 0 = want_type ctx
          then (Mark_Completed, ctx\<lparr>got := True, seq := intr_event_seq buffer\<rparr>, w)
          else intr_keep_waiting P ctx w)"

definition intr_submit :: "'w platform \<Rightarrow> intr_ctx \<Rightarrow> int \<Rightarrow> 'w \<Rightarrow> (ssm_call \<times> intr_ctx \<times> 'w) option" where
  "intr_submit P ctx attempt_ms w =
     (case intr_in P w (ic_ep ctx) VERIMARK_INTR_MAXPKT (nat attempt_ms) of
        (r, w') \<Rightarrow> Some (on_intr_read_done P ctx r w'))"

definition intr_step :: "'w platform \<Rightarrow> nat \<Rightarrow> intr_ctx \<times> 'w \<Rightarrow> (ssm_call \<times> intr_ctx \<times> 'w) option" where
  "intr_step P st = (\<lambda>(ctx, w).
     if st = VERIMARK_INTR_STATE_READ then
       if deadline_us ctx \<noteq> G_MAXINT64 then
         let (now, w') = mono_time P w; remaining_us = deadline_us ctx - now
         in if remaining_us \<le> 0 then Some (Mark_Completed, ctx\<lparr>got := False\<rparr>, w')
            else intr_submit P ctx (min VERIMARK_INTR_ATTEMPT_MS ((remaining_us + 999) div 1000)) w'
       else intr_submit P ctx VERIMARK_INTR_ATTEMPT_MS w
     else Some (Mark_Failed Assert_Not_Reached, ctx, w))"

definition intr_ssm_completed :: "unit res \<times> intr_ctx \<times> 'w \<Rightarrow> (bool \<times> byte) res \<times> 'w" where
  "intr_ssm_completed = (\<lambda>(r, ctx, w).
     (case r of Inl e \<Rightarrow> Inl e | Inr _ \<Rightarrow> Inr (got ctx, seq ctx), w))"

text \<open>\<open>ep_intr_in\<close> is the device's stored endpoint, 0 when not open.\<close>

definition intr_ep :: "byte \<Rightarrow> byte" where
  "intr_ep ep_intr_in = (if ep_intr_in \<noteq> 0 then ep_intr_in else VERIMARK_EP_INTR_IN)"

definition verimark_intr_wait_async ::
  "'w platform \<Rightarrow> nat \<Rightarrow> byte \<Rightarrow> byte \<Rightarrow> nat \<Rightarrow> 'w \<Rightarrow> ((bool \<times> byte) res \<times> 'w) option" where
  "verimark_intr_wait_async P fuel ep_intr_in want timeout_ms w =
     (let (deadline, w') =
            (if timeout_ms = 0 then (G_MAXINT64, w)
             else let (now, w1) = mono_time P w in (now + int timeout_ms * 1000, w1));
          ctx = \<lparr>ic_ep = intr_ep ep_intr_in, want_type = want, deadline_us = deadline, got = False, seq = 0\<rparr>
      in map_option intr_ssm_completed
           (ssm_run (fpi P) (world_delay P) VERIMARK_INTR_N_STATES (intr_step P) fuel
              VERIMARK_INTR_STATE_READ (ctx, w')))"

subsection \<open>The drain\<close>

definition VERIMARK_INTR_DRAIN_TIMEOUT_MS :: nat where "VERIMARK_INTR_DRAIN_TIMEOUT_MS = 8"
definition VERIMARK_INTR_DRAIN_MAX_READS :: nat where "VERIMARK_INTR_DRAIN_MAX_READS = 16"

text \<open>The \<open>for\<close> loop, by the number of reads left.\<close>

fun intr_drain_loop :: "'w platform \<Rightarrow> byte \<Rightarrow> nat \<Rightarrow> 'w \<Rightarrow> 'w" where
  "intr_drain_loop P ep 0 w = w"
| "intr_drain_loop P ep (Suc k) w =
     (case intr_in P w ep VERIMARK_INTR_MAXPKT VERIMARK_INTR_DRAIN_TIMEOUT_MS of
        (Inl e, w') \<Rightarrow> w'
      | (Inr buf, w') \<Rightarrow> if length buf = 0 then w' else intr_drain_loop P ep k w')"

definition verimark_intr_drain_sync :: "'w platform \<Rightarrow> byte \<Rightarrow> 'w \<Rightarrow> 'w" where
  "verimark_intr_drain_sync P ep_intr_in w =
     intr_drain_loop P (intr_ep ep_intr_in) VERIMARK_INTR_DRAIN_MAX_READS w"

subsection \<open>What the wait reports\<close>

text \<open>
  The outcome of a wait in terms of the last thing it saw: the matching event itself, a clock
  reading at or past the deadline, or the transport error.
\<close>

definition intr_outcome :: "'w platform \<Rightarrow> byte \<Rightarrow> byte \<Rightarrow> int \<Rightarrow> (bool \<times> byte) res \<Rightarrow> 'w \<Rightarrow> bool" where
  "intr_outcome P ep want deadline r w' =
     (case r of
        Inr (True, s) \<Rightarrow>
          (\<exists>w t buf. intr_in P w ep VERIMARK_INTR_MAXPKT t = (Inr buf, w') \<and> 1 \<le> t \<and> t \<le> 500 \<and> buf \<noteq> []
             \<and> buf ! 0 = want \<and> s = intr_event_seq buf)
      | Inr (False, s) \<Rightarrow> s = 0 \<and> deadline \<noteq> G_MAXINT64 \<and> (\<exists>w now. mono_time P w = (now, w') \<and> deadline \<le> now)
      | Inl e \<Rightarrow> e \<noteq> Usb_Timed_Out \<and> (\<exists>w t. intr_in P w ep VERIMARK_INTR_MAXPKT t = (Inl e, w')))"

definition intr_inv :: "byte \<Rightarrow> byte \<Rightarrow> int \<Rightarrow> nat \<Rightarrow> intr_ctx \<times> 'w \<Rightarrow> bool" where
  "intr_inv ep want deadline st = (\<lambda>(ctx, w).
     ic_ep ctx = ep \<and> want_type ctx = want \<and> deadline_us ctx = deadline \<and> \<not> got ctx \<and> seq ctx = 0)"

definition intr_post :: "'w platform \<Rightarrow> byte \<Rightarrow> byte \<Rightarrow> int \<Rightarrow> unit res \<Rightarrow> intr_ctx \<times> 'w \<Rightarrow> bool" where
  "intr_post P ep want deadline r s =
     (let (r', w') = intr_ssm_completed (r, s) in intr_outcome P ep want deadline r' w')"

lemma intr_keep_cases:
  assumes "intr_inv ep want deadline 0 (ctx, w)" "intr_keep_waiting P ctx w1 = (call, s')"
  shows "(call = Jump_To_State 0 \<and> intr_inv ep want deadline 0 s')
    \<or> (call = Mark_Completed \<and> intr_post P ep want deadline (Inr ()) s')"
proof -
  obtain now w2 where "mono_time P w1 = (now, w2)" by fastforce
  then show ?thesis
    using assms
    by (cases "deadline \<noteq> G_MAXINT64 \<and> deadline \<le> now")
      (auto simp: intr_keep_waiting_def intr_inv_def intr_post_def intr_ssm_completed_def intr_outcome_def
        intro!: exI [of _ w1] exI [of _ now])
qed

lemma intr_submit_cases:
  assumes "intr_inv ep want deadline 0 (ctx, w)" "intr_submit P ctx t w1 = Some (call, s')" "1 \<le> t" "t \<le> 500"
  shows "(call = Jump_To_State 0 \<and> intr_inv ep want deadline 0 s')
    \<or> (call = Mark_Completed \<and> intr_post P ep want deadline (Inr ()) s')
    \<or> (\<exists>e. call = Mark_Failed e \<and> intr_post P ep want deadline (Inl e) s')"
proof -
  from assms(2) obtain r w2 where io: "intr_in P w1 ep VERIMARK_INTR_MAXPKT (nat t) = (r, w2)"
    and d: "on_intr_read_done P ctx r w2 = (call, s')"
    using assms(1) by (auto simp: intr_submit_def intr_inv_def split: prod.splits)
  have t: "1 \<le> nat t" "nat t \<le> 500" using assms(3,4) by auto
  consider "intr_keep_waiting P ctx w2 = (call, s')" | e where "r = Inl e" "e \<noteq> Usb_Timed_Out"
    | buf where "r = Inr buf" "1 \<le> length buf" "buf ! 0 = want"
    using d assms(1) by (auto simp: on_intr_read_done_def intr_inv_def split: sum.split_asm if_split_asm)
  then show ?thesis
  proof cases
    case 1
    from intr_keep_cases [OF assms(1) this] show ?thesis by blast
  next
    case 2
    then show ?thesis using d io by (auto simp: on_intr_read_done_def intr_post_def intr_ssm_completed_def intr_outcome_def)
  next
    case 3
    then have "buf \<noteq> []" by auto
    with 3 show ?thesis
      using d io t assms(1)
      by (auto simp: on_intr_read_done_def intr_inv_def intr_post_def intr_ssm_completed_def intr_outcome_def
          intro!: exI [of _ w1] exI [of _ "nat t"] exI [of _ buf])
  qed
qed

lemma intr_step_cases:
  assumes "intr_inv ep want deadline 0 (ctx, w)" "intr_step P 0 (ctx, w) = Some (call, s')"
  shows "(call = Jump_To_State 0 \<and> intr_inv ep want deadline 0 s')
    \<or> (call = Mark_Completed \<and> intr_post P ep want deadline (Inr ()) s')
    \<or> (\<exists>e. call = Mark_Failed e \<and> intr_post P ep want deadline (Inl e) s')"
proof (cases "deadline = G_MAXINT64")
  case True
  then show ?thesis
    using assms intr_submit_cases [OF assms(1), of P VERIMARK_INTR_ATTEMPT_MS w]
    by (auto simp: intr_step_def intr_inv_def VERIMARK_INTR_ATTEMPT_MS_def)
next
  case False
  obtain now w1 where clk: "mono_time P w = (now, w1)" by fastforce
  show ?thesis
  proof (cases "deadline - now \<le> 0")
    case True
    then show ?thesis
      using assms False clk
      by (auto simp: intr_step_def intr_inv_def intr_post_def intr_ssm_completed_def intr_outcome_def Let_def
          intro!: exI [of _ w] exI [of _ now])
  next
    case more: False
    then have "1 \<le> (deadline - now + 999) div 1000" by simp
    then show ?thesis
      using assms False more clk
        intr_submit_cases [OF assms(1), of P "min VERIMARK_INTR_ATTEMPT_MS ((deadline - now + 999) div 1000)" w1]
      by (auto simp: intr_step_def intr_inv_def VERIMARK_INTR_ATTEMPT_MS_def Let_def)
  qed
qed

interpretation intr_wait: ssm_contract VERIMARK_INTR_N_STATES "intr_step P" "world_delay P"
    "intr_inv ep want deadline" "intr_post P ep want deadline"
  for P :: "'w platform" and ep want deadline
proof (unfold_locales, goal_cases)
  case (1 c s s')
  then show ?case using intr_step_cases [of ep want deadline "fst s" "snd s" P] by auto
next
  case (2 c s t s')
  then show ?case using intr_step_cases [of ep want deadline "fst s" "snd s" P] by auto
next
  case (3 c s t ms s')
  then show ?case using intr_step_cases [of ep want deadline "fst s" "snd s" P] by auto
next
  case (4 c s s')
  then show ?case using intr_step_cases [of ep want deadline "fst s" "snd s" P] by auto
next
  case (5 c s e s')
  then show ?case using intr_step_cases [of ep want deadline "fst s" "snd s" P] by auto
qed

lemma intr_wait_reports:
  assumes "fpi_ssm_doc (fpi P)"
    and "verimark_intr_wait_async P fuel ep want timeout_ms w = Some (r, w')"
  shows "intr_outcome P (intr_ep ep) want
    (if timeout_ms = 0 then G_MAXINT64 else fst (mono_time P w) + int timeout_ms * 1000) r w'"
proof -
  let ?d = "if timeout_ms = 0 then G_MAXINT64 else fst (mono_time P w) + int timeout_ms * 1000"
  let ?w = "if timeout_ms = 0 then w else snd (mono_time P w)"
  let ?ctx = "\<lparr>ic_ep = intr_ep ep, want_type = want, deadline_us = ?d, got = False, seq = 0\<rparr>"
  from assms(2) obtain r0 s where run: "ssm_run (fpi P) (world_delay P) VERIMARK_INTR_N_STATES (intr_step P) fuel
      VERIMARK_INTR_STATE_READ (?ctx, ?w) = Some (r0, s)" and r: "intr_ssm_completed (r0, s) = (r, w')"
    by (auto simp: verimark_intr_wait_async_def Let_def split: prod.splits if_splits)
  have "intr_post P (intr_ep ep) want ?d r0 s"
    by (rule intr_wait.run_post [OF assms(1) _ _ run]) (simp_all add: intr_inv_def)
  then show ?thesis using r by (simp add: intr_post_def)
qed

text \<open>What a wait keeps of the world: \<open>K\<close>, which its clock readings and transfers keep, unless it ends on
  a failed transfer, of which \<open>bad\<close> holds.\<close>

definition intr_keeps :: "'w platform \<Rightarrow> ('w \<Rightarrow> bool) \<Rightarrow> (gerror \<Rightarrow> 'w \<Rightarrow> bool) \<Rightarrow> bool" where
  "intr_keeps P K bad \<longleftrightarrow> (\<forall>w now w'. K w \<longrightarrow> mono_time P w = (now, w') \<longrightarrow> K w')
     \<and> (\<forall>w ep n t r w'. K w \<longrightarrow> intr_in P w ep n t = (r, w') \<longrightarrow>
          (case r of Inl e \<Rightarrow> if e = Usb_Timed_Out then K w' else bad e w' | Inr _ \<Rightarrow> K w'))"

definition intr_kept :: "('w \<Rightarrow> bool) \<Rightarrow> (gerror \<Rightarrow> 'w \<Rightarrow> bool) \<Rightarrow> ssm_call \<Rightarrow> 'w \<Rightarrow> bool" where
  "intr_kept K bad call w \<longleftrightarrow> (call = Jump_To_State 0 \<or> call = Mark_Completed) \<and> K w \<or> (\<exists>e. call = Mark_Failed e \<and> bad e w)"

lemma intr_submit_keeps:
  assumes "intr_keeps P K bad" "K w" "intr_submit P ctx t w = Some (call, ctx', w')"
  shows "intr_kept K bad call w'"
proof -
  obtain r w1 where io: "intr_in P w (ic_ep ctx) VERIMARK_INTR_MAXPKT (nat t) = (r, w1)" by fastforce
  obtain now w2 where clk: "mono_time P w1 = (now, w2)" by fastforce
  have "case r of Inl e \<Rightarrow> if e = Usb_Timed_Out then K w1 else bad e w1 | Inr _ \<Rightarrow> K w1" "K w1 \<longrightarrow> K w2"
    using assms(1,2) io clk unfolding intr_keeps_def by blast+
  then show ?thesis
    using assms(3) io clk
    by (auto simp: intr_submit_def on_intr_read_done_def intr_keep_waiting_def intr_kept_def split: sum.split_asm if_split_asm)
qed

lemma intr_step_keeps:
  assumes "intr_keeps P K bad" "K w" "intr_step P 0 (ctx, w) = Some (call, ctx', w')"
  shows "intr_kept K bad call w'"
proof -
  obtain now w1 where clk: "mono_time P w = (now, w1)" by fastforce
  then have w1: "K w1" using assms(1,2) unfolding intr_keeps_def by blast
  show ?thesis
    using assms(3) clk w1 intr_submit_keeps [OF assms(1) w1] intr_submit_keeps [OF assms(1,2)]
    by (auto simp: intr_step_def Let_def intr_kept_def split: if_split_asm)
qed

lemma intr_wait_keeps:
  assumes "intr_keeps P K bad" "fpi_ssm_doc (fpi P)" "K w"
    and "verimark_intr_wait_async P fuel ep want timeout_ms w = Some (r, w')"
  shows "case r of Inl e \<Rightarrow> bad e w' | Inr _ \<Rightarrow> K w'"
proof -
  obtain now w1 where clk: "mono_time P w = (now, w1)" by fastforce
  obtain q ctx0 ctx w0 where run: "ssm_run (fpi P) (world_delay P) 1 (intr_step P) fuel 0 (ctx0, w0) = Some (q, ctx, w')"
    and w0: "w0 = w \<or> w0 = w1" and r: "(r, w') = intr_ssm_completed (q, ctx, w')"
    using assms(4) clk
    by (auto simp: verimark_intr_wait_async_def Let_def intr_ssm_completed_def simp del: ssm_run.simps split: if_split_asm)
  have "K w0" using w0 clk assms(1,3) unfolding intr_keeps_def by blast
  let ?post = "\<lambda>r (x :: intr_ctx \<times> 'a). case r of Inl e \<Rightarrow> bad e (snd x) | Inr _ \<Rightarrow> K (snd x)"
  have "ssm_contract 1 (intr_step P) (world_delay P) (\<lambda>c x. K (snd x)) ?post"
  proof (rule ssm_contractI)
    fix c and x :: "intr_ctx \<times> 'a" and s
    assume "c < 1" "K (snd x)" "intr_step P c x = Some s"
    then show "ssm_allows 1 (world_delay P) (\<lambda>c x. K (snd x)) ?post c s"
      using intr_step_keeps [OF assms(1), of "snd x" "fst x" "fst s" "fst (snd s)" "snd (snd s)"]
      by (auto simp: ssm_allows_def intr_kept_def split_beta)
  qed
  from ssm_contract.run_post [OF this assms(2) _ _ run] \<open>K w0\<close> r show ?thesis
    by (cases q) (auto simp: intr_ssm_completed_def)
qed

subsection \<open>The wait ends\<close>

text \<open>With a deadline, and a clock that moves, the wait is over after as many reads as there
  are microseconds left.\<close>

definition intr_timed_inv :: "'w platform \<Rightarrow> ('w \<Rightarrow> int) \<Rightarrow> byte \<Rightarrow> byte \<Rightarrow> int \<Rightarrow> nat \<Rightarrow> intr_ctx \<times> 'w \<Rightarrow> bool" where
  "intr_timed_inv P T ep want deadline st s \<longleftrightarrow>
     intr_inv ep want deadline st s \<and> clock_doc P T \<and> deadline \<noteq> G_MAXINT64"

definition intr_left :: "('w \<Rightarrow> int) \<Rightarrow> nat \<Rightarrow> intr_ctx \<times> 'w \<Rightarrow> nat" where
  "intr_left T st = (\<lambda>(ctx, w). nat (deadline_us ctx - T w))"

lemma intr_submit_some: "intr_submit P ctx t w = None \<longleftrightarrow> False"
  by (cases "intr_in P w (ic_ep ctx) VERIMARK_INTR_MAXPKT (nat t)") (simp add: intr_submit_def)

lemma intr_step_some: "intr_step P st s = None \<longleftrightarrow> False"
  by (cases s, cases "mono_time P (snd s)") (simp add: intr_step_def Let_def intr_submit_some del: not_None_eq)

lemma intr_step_less:
  assumes "clock_doc P T" "deadline_us ctx \<noteq> G_MAXINT64" "intr_step P 0 (ctx, w) = Some (Jump_To_State 0, s')"
  shows "intr_left T 0 s' < intr_left T 0 (ctx, w)"
proof -
  obtain now w1 where clk: "mono_time P w = (now, w1)" by fastforce
  with assms(2,3) have more: "now < deadline_us ctx" and
    sub: "intr_submit P ctx (min VERIMARK_INTR_ATTEMPT_MS ((deadline_us ctx - now + 999) div 1000)) w1
      = Some (Jump_To_State 0, s')"
    by (auto simp: intr_step_def Let_def split: if_splits)
  then obtain r w2 where io: "intr_in P w1 (ic_ep ctx) VERIMARK_INTR_MAXPKT
        (nat (min VERIMARK_INTR_ATTEMPT_MS ((deadline_us ctx - now + 999) div 1000))) = (r, w2)"
    and d: "on_intr_read_done P ctx r w2 = (Jump_To_State 0, s')"
    by (auto simp: intr_submit_def split: prod.splits)
  obtain now2 w3 where clk2: "mono_time P w2 = (now2, w3)" by fastforce
  have "s' = (ctx, w3)"
    using d clk2 by (auto simp: on_intr_read_done_def intr_keep_waiting_def split: sum.splits if_splits)
  moreover have "T w < T w3" and "now = T w"
    using clock_docD(1) [OF assms(1) clk] clock_docD(2) [OF assms(1) io] clock_docD(1) [OF assms(1) clk2]
    by simp_all
  ultimately show ?thesis
    using more by (simp add: intr_left_def)
qed

lemma intr_timed_cases:
  assumes "intr_timed_inv P T ep want deadline 0 s" "intr_step P 0 s = Some (call, s')"
  shows "(call = Jump_To_State 0 \<and> intr_timed_inv P T ep want deadline 0 s' \<and> intr_left T 0 s' < intr_left T 0 s)
    \<or> (call = Mark_Completed \<and> intr_post P ep want deadline (Inr ()) s')
    \<or> (\<exists>e. call = Mark_Failed e \<and> intr_post P ep want deadline (Inl e) s')"
  using assms intr_step_cases [of ep want deadline "fst s" "snd s" P call s']
    intr_step_less [of P T "fst s" "snd s" s']
  by (auto simp: intr_timed_inv_def intr_inv_def split: prod.splits)

interpretation intr_timed: ssm_measured VERIMARK_INTR_N_STATES "intr_step P" "world_delay P"
    "intr_timed_inv P T ep want deadline" "intr_post P ep want deadline" "intr_left T"
  for P :: "'w platform" and T ep want deadline
  by unfold_locales (use intr_timed_cases intr_step_some in fastforce)+

lemma intr_wait_total:
  assumes "fpi_ssm_doc (fpi P)" "clock_doc P T" "timeout_ms \<noteq> 0"
    and "T w + int timeout_ms * 1000 \<noteq> G_MAXINT64" "timeout_ms * 1000 < fuel"
  shows "\<exists>r w'. verimark_intr_wait_async P fuel ep want timeout_ms w = Some (r, w')
    \<and> intr_outcome P (intr_ep ep) want (T w + int timeout_ms * 1000) r w'"
proof -
  obtain now w1 where clk: "mono_time P w = (now, w1)" by fastforce
  note now = clock_docD(1) [OF assms(2) clk]
  let ?d = "T w + int timeout_ms * 1000"
  let ?ctx = "\<lparr>ic_ep = intr_ep ep, want_type = want, deadline_us = ?d, got = False, seq = 0\<rparr>"
  have inv: "intr_timed_inv P T (intr_ep ep) want ?d 0 (?ctx, w1)"
    using assms(2,4) by (simp add: intr_timed_inv_def intr_inv_def)
  have "intr_left T 0 (?ctx, w1) < fuel"
    using now assms(5) by (auto simp: intr_left_def)
  from intr_timed.run_total [OF assms(1) _ inv this]
  obtain r s where "ssm_run (fpi P) (world_delay P) 1 (intr_step P) fuel 0 (?ctx, w1) = Some (r, s)"
    and "intr_post P (intr_ep ep) want ?d r s" by auto
  then show ?thesis
    using clk now assms(3)
    by (cases "intr_ssm_completed (r, s)") (simp add: verimark_intr_wait_async_def intr_post_def)
qed

text \<open>C33: A wait with a deadline always ends, within as many reads as it has microseconds, on a
  clock that advances with the transfers. What it reports is then right: ``got'' means that an
  event of the wanted type was read, with its sequence byte; ``not got'' that the clock had
  reached the deadline; an error that a read failed with it, and never a time-out.\<close>

theorem intr_wait_ends:
  assumes "fpi_ssm_doc (fpi P)" "clock_doc P T" "timeout_ms \<noteq> 0"
    and "T w + int timeout_ms * 1000 \<noteq> G_MAXINT64" "timeout_ms * 1000 < fuel"
  shows "\<exists>r w'. verimark_intr_wait_async P fuel ep want timeout_ms w = Some (r, w')
    \<and> intr_outcome P (intr_ep ep) want (T w + int timeout_ms * 1000) r w'"
  by (rule intr_wait_total [OF assms])

lemma intr_wait_ends_witness:
  "\<exists>r w'. verimark_intr_wait_async sample 100000 0 0x01 50 world0 = Some (r, w')
    \<and> intr_outcome sample 0x83 0x01 50000 r w'"
  using intr_wait_ends [OF _ sample_clock, of 50 world0 100000 0 "0x01"]
  by (simp add: sample_ssm_doc sample_time_def world0_def G_MAXINT64_def intr_ep_def VERIMARK_EP_INTR_IN_def)

subsection \<open>Waiting and draining against an event queue\<close>

lemma intr_wait_queue_run:
  assumes "fpi_ssm_doc (fpi P)" "event_queue P (ic_ep ctx) q" "deadline_us ctx = G_MAXINT64"
    and "q w = pre @ ev # post" "length pre < fuel"
    and "\<forall>x \<in> set pre. x = [] \<or> x ! 0 \<noteq> want_type ctx" "ev \<noteq> []" "ev ! 0 = want_type ctx"
  shows "\<exists>w'. ssm_run (fpi P) (world_delay P) 1 (intr_step P) fuel 0 (ctx, w) =
      Some (Inr (), ctx\<lparr>got := True, seq := intr_event_seq ev\<rparr>, w') \<and> q w' = post"
  using assms(4-6)
proof (induction pre arbitrary: w fuel)
  case Nil
  then obtain f where f: "fuel = Suc f" by (cases fuel) auto
  from Nil obtain w' where "intr_in P w (ic_ep ctx) VERIMARK_INTR_MAXPKT (nat VERIMARK_INTR_ATTEMPT_MS) = (Inr ev, w')"
    "q w' = post"
    using event_queue_next [OF assms(2), of w ev post VERIMARK_INTR_MAXPKT "nat VERIMARK_INTR_ATTEMPT_MS"] by auto
  then show ?case
    using assms(3,7,8) fpi_ssm_docD(5) [OF assms(1)]
    by (cases ev) (auto simp: f intr_step_def intr_submit_def on_intr_read_done_def)
next
  case (Cons x pre)
  then obtain f where f: "fuel = Suc f" "length pre < f" by (cases fuel) auto
  from Cons.prems obtain w1 where io:
    "intr_in P w (ic_ep ctx) VERIMARK_INTR_MAXPKT (nat VERIMARK_INTR_ATTEMPT_MS) = (Inr x, w1)" "q w1 = pre @ ev # post"
    using event_queue_next [OF assms(2), of w x "pre @ ev # post" VERIMARK_INTR_MAXPKT "nat VERIMARK_INTR_ATTEMPT_MS"] by auto
  obtain now w2 where clk: "mono_time P w1 = (now, w2)" by fastforce
  with io(2) have "q w2 = pre @ ev # post"
    using event_queue_clock [OF assms(2)] by simp
  from Cons.IH [OF this f(2)] Cons.prems(3) obtain w' where run:
    "ssm_run (fpi P) (world_delay P) 1 (intr_step P) f 0 (ctx, w2) =
       Some (Inr (), ctx\<lparr>got := True, seq := intr_event_seq ev\<rparr>, w')" "q w' = post"
    by auto
  have "intr_step P 0 (ctx, w) = Some (Jump_To_State 0, ctx, w2)"
    using assms(3) Cons.prems(3) io(1) clk
    by (auto simp: intr_step_def intr_submit_def on_intr_read_done_def intr_keep_waiting_def)
  then show ?case
    using run fpi_ssm_docD(3) [OF assms(1), of 0 1] by (simp add: f(1))
qed

text \<open>Without a deadline the wait takes the first queued event of the wanted type: it skips
  and consumes events of other types and empty packets before it, reports its sequence byte, and
  leaves the events after it queued.\<close>

lemma intr_wait_queue:
  assumes "fpi_ssm_doc (fpi P)" "event_queue P (intr_ep ep) q" "q w = pre @ ev # post" "length pre < fuel"
    and "\<forall>x \<in> set pre. x = [] \<or> x ! 0 \<noteq> want" "ev \<noteq> []" "ev ! 0 = want"
  shows "\<exists>w'. verimark_intr_wait_async P fuel ep want 0 w = Some (Inr (True, intr_event_seq ev), w') \<and> q w' = post"
  using intr_wait_queue_run [OF assms(1), of "\<lparr>ic_ep = intr_ep ep, want_type = want, deadline_us = G_MAXINT64,
      got = False, seq = 0\<rparr>" q w pre ev post fuel] assms(2-)
  by (auto simp: verimark_intr_wait_async_def intr_ssm_completed_def)

lemma intr_wait_queue_witness:
  "\<exists>w'. verimark_intr_wait_async sample 10 0 0x01 0
      (world0\<lparr>w_events := [[2, 0], [], [1, 0, 0, 0, 0, 0, 9], [2]]\<rparr>) = Some (Inr (True, 9), w') \<and> w_events w' = [[2]]"
  using intr_wait_queue [OF _ sample_queue, of "world0\<lparr>w_events := [[2, 0], [], [1, 0, 0, 0, 0, 0, 9], [2]]\<rparr>"
      "[[2, 0], []]" "[1, 0, 0, 0, 0, 0, 9]" "[[2]]" 10 "0x01" 0]
  by (simp add: sample_ssm_doc intr_event_seq_def)

lemma intr_drain_queue:
  assumes "event_queue P ep q" "[] \<notin> set (take k (q w))"
  shows "q (intr_drain_loop P ep k w) = drop k (q w)"
  using assms(2)
proof (induction k arbitrary: w)
  case 0
  then show ?case by simp
next
  case (Suc k)
  show ?case
  proof (cases "q w")
    case Nil
    then show ?thesis
      using event_queue_empty [OF assms(1) Nil, of VERIMARK_INTR_MAXPKT VERIMARK_INTR_DRAIN_TIMEOUT_MS] by auto
  next
    case (Cons ev evs)
    then show ?thesis
      using event_queue_next [OF assms(1) Cons, of VERIMARK_INTR_MAXPKT VERIMARK_INTR_DRAIN_TIMEOUT_MS] Suc
      by auto
  qed
qed

text \<open>The drain at open discards exactly the first 16 queued events (fewer when the queue is
  shorter), so a queue of up to 16 stale events is empty afterwards.\<close>

lemma intr_drain_discards:
  assumes "event_queue P (intr_ep ep) q" "[] \<notin> set (q w)"
  shows "q (verimark_intr_drain_sync P ep w) = drop 16 (q w)"
proof -
  have "[] \<notin> set (take 16 (q w))" using assms(2) in_set_takeD by fastforce
  then show ?thesis
    using intr_drain_queue [OF assms(1), of 16 w]
    by (simp add: verimark_intr_drain_sync_def VERIMARK_INTR_DRAIN_MAX_READS_def)
qed

lemma intr_drain_discards_witness:
  "w_events (verimark_intr_drain_sync sample 0x83 (world0\<lparr>w_events := [[2], [1, 5]]\<rparr>)) = []"
  using intr_drain_discards [OF sample_queue, of "world0\<lparr>w_events := [[2], [1, 5]]\<rparr>" "0x83"] by simp

end
