(* ===== verification/Pairing.thy ===== *)
theory Pairing
  imports Crypto
begin

text \<open>
  \<open>verimark-pairing.c\<close>: the trust-on-first-use pairing exchange (command 0x93) and the
  pairing file of a sensor.
\<close>

subsection \<open>The host certificate\<close>

definition hs_secret :: bytes where
  "hs_secret = [0x71, 0x7c, 0xd7, 0x2d, 0x09, 0x62, 0xbc, 0x4a, 0x28, 0x46, 0x13, 0x8d, 0xbb, 0x2c, 0x24, 0x19]"

definition hs_seed :: bytes where
  "hs_seed = [0x25, 0x12, 0xa7, 0x64, 0x07, 0x06, 0x5f, 0x38, 0x38, 0x46, 0x13, 0x9d, 0x4b, 0xec, 0x20, 0x33,
    0xaa, 0xaa]"

definition hs_key_scalar :: "crypto \<Rightarrow> bytes res" where
  "hs_key_scalar C =
     (case verimark_tls_prf C MD_SHA256 hs_secret ''HS_KEY_PAIR_GEN'' hs_seed 32 of
        None \<Rightarrow> Inl (Crypto_Error FAILED ''HS-key PRF failed'' [])
      | Some prf \<Rightarrow> Inr (map (\<lambda>i. prf ! (31 - i)) [0..<32]))"

definition ec_keygen :: "'w platform \<Rightarrow> 'w \<Rightarrow> (bytes \<times> bytes \<times> bytes) res \<times> 'w" where
  "ec_keygen P w =
     (case ec_generate P w of
        (None, w') \<Rightarrow> (Inl (Crypto_Error FAILED ''EC keygen failed'' []), w')
      | (Some k, w') \<Rightarrow> (Inr k, w'))"

text \<open>The result is \<open>*cert\<close> and \<open>buf400\<close>.\<close>

definition build_host_cert :: "'w platform \<Rightarrow> bytes \<Rightarrow> 'w \<Rightarrow> (cert \<times> bytes) res \<times> 'w" where
  "build_host_cert P priv w =
     bind_st (verimark_pub_from_priv (lib P) priv, w) (\<lambda>(x, y) w.
       let c = \<lparr>pub_x = x, pub_y = y, cert_type = 0, sign_size = 0, signature = replicate 256 0\<rparr>;
           signbytes = verimark_cert_signbytes c
       in bind_st (hs_key_scalar (lib P), w) (\<lambda>hs w.
          bind_st (verimark_ecdsa_sign P hs signbytes w) (\<lambda>sig_der w.
          if 256 < length sig_der
          then (Inl (Crypto_Error INVALID_DATA ''HS signature too long'' []), w)
          else
            let c = c\<lparr>signature := sig_der @ drop (length sig_der) (signature c),
                      sign_size := of_nat (length sig_der)\<rparr>
            in (Inr (c, verimark_cert_serialize c), w))))"

subsection \<open>The exchange\<close>

definition verimark_pairing_do :: "'w platform \<Rightarrow> ('w \<Rightarrow> bytes \<Rightarrow> bytes res \<times> 'w) \<Rightarrow> 'w \<Rightarrow> pairing res \<times> 'w" where
  "verimark_pairing_do P io w =
     bind_st (ec_keygen P w) (\<lambda>(host_priv, x, y) w.
     bind_st (build_host_cert P host_priv w) (\<lambda>(host_cert, host_cert_400) w.
     bind_st (io w (0x93 # host_cert_400)) (\<lambda>resp w.
       if length resp \<noteq> 802 \<or> resp ! 0 \<noteq> 0 \<or> resp ! 1 \<noteq> 0
       then (Inl (Crypto_Error INVALID_DATA ''PAIR: unexpected reply (len=%lu)'' [length resp]), w)
       else
         (bind_res (rd_slice resp 2 400) (\<lambda>b. bind_res (verimark_cert_parse b) (\<lambda>host.
          bind_res (rd_slice resp 402 400) (\<lambda>b. bind_res (verimark_cert_parse b) (\<lambda>sensor.
          Inr \<lparr>priv_scalar = host_priv, host_cert = host, sensor_cert = sensor\<rparr>)))), w))))"

subsection \<open>The pairing file\<close>

definition VERIMARK_PDATA_DEFAULT_DIR :: string where
  "VERIMARK_PDATA_DEFAULT_DIR = ''/var/lib/fprint/verimark''"

definition pairing_base_dir :: "'w platform \<Rightarrow> string" where
  "pairing_base_dir P =
     (case env_var P ''VERIMARK_PDATA_DIR'' of None \<Rightarrow> VERIMARK_PDATA_DEFAULT_DIR | Some d \<Rightarrow> d)"

definition verimark_pairing_path :: "'w platform \<Rightarrow> string \<Rightarrow> string" where
  "verimark_pairing_path P sid = build_filename P (pairing_base_dir P) (sid @ ''.pdata'')"

definition verimark_pairing_save_file :: "'w platform \<Rightarrow> pairing \<Rightarrow> string \<Rightarrow> 'w \<Rightarrow> unit res \<times> 'w" where
  "verimark_pairing_save_file P pd sid w =
     bind_st (fs_mkdir P w (pairing_base_dir P) 0x1c0) (\<lambda>_ w.
       let buf = verimark_pairing_save pd; path = verimark_pairing_path P sid
       in bind_st (fs_open_trunc P w path 0x180) (\<lambda>_ w.
          let ((n, errno), w) = fs_write P w path buf
          in if n = 868 then (Inr (), w) else (Inl (File_Error errno), w)))"

definition verimark_pairing_load_file :: "'w platform \<Rightarrow> string \<Rightarrow> 'w \<Rightarrow> pairing res \<times> 'w" where
  "verimark_pairing_load_file P sid w =
     bind_st (fs_read P w (verimark_pairing_path P sid)) (\<lambda>data w.
       if length data \<noteq> 868
       then (Inl (Crypto_Error INVALID_DATA ''pdata file is not 868 bytes'' []), w)
       else (verimark_pairing_load data, w))"

subsection \<open>What pairing stores\<close>

lemma hs_key_scalar_length: "hs_key_scalar C = Inr k \<Longrightarrow> length k = 32"
  by (auto simp: hs_key_scalar_def split: option.splits)

lemma build_host_cert_Inr:
  assumes "curve_doc (lib P)" "build_host_cert P priv w = (Inr (c, buf), w')"
  shows "cert_wf c \<and> buf = verimark_cert_serialize c
    \<and> verimark_pub_from_priv (lib P) priv = Inr (pub_x c, pub_y c) \<and> cert_type c = 0"
proof -
  from assms(2) obtain x y hs sig w1 where pub: "verimark_pub_from_priv (lib P) priv = Inr (x, y)"
    and le: "length sig \<le> 256"
    and c: "c = \<lparr>pub_x = x, pub_y = y, cert_type = 0, sign_size = of_nat (length sig),
          signature = sig @ drop (length sig) (replicate 256 0)\<rparr>" "buf = verimark_cert_serialize c"
    by (auto simp: build_host_cert_def bind_st_Inr Let_def not_less split: if_splits)
  have "length x = 32" "length y = 32"
    using pub assms(1) by (auto simp: verimark_pub_from_priv_def curve_doc_def split: option.splits)
  moreover have "(of_nat (length sig) :: u16) \<le> 256"
    using le by (simp add: word_le_nat_alt unat_of_nat)
  ultimately show ?thesis
    using le pub by (simp add: c cert_wf_def)
qed

lemma pairing_do_Inr:
  assumes "verimark_pairing_do P io w = (Inr pd, w')"
  shows "\<exists>x y w1 c buf w2 resp. ec_generate P w = (Some (priv_scalar pd, x, y), w1)
    \<and> build_host_cert P (priv_scalar pd) w1 = (Inr (c, buf), w2) \<and> io w2 (0x93 # buf) = (Inr resp, w')
    \<and> length resp = 802 \<and> take 2 resp = [0, 0]
    \<and> verimark_cert_parse (take 400 (drop 2 resp)) = Inr (host_cert pd)
    \<and> verimark_cert_parse (drop 402 resp) = Inr (sensor_cert pd)"
proof -
  from assms obtain k x y w1 c buf w2 resp where
    gen: "ec_keygen P w = (Inr (k, x, y), w1)" and cert: "build_host_cert P k w1 = (Inr (c, buf), w2)"
    and io: "io w2 (0x93 # buf) = (Inr resp, w')" and ok: "length resp = 802" "resp ! 0 = 0" "resp ! 1 = 0"
    and pd: "verimark_cert_parse (take 400 (drop 2 resp)) = Inr (host_cert pd)"
    "verimark_cert_parse (drop 402 resp) = Inr (sensor_cert pd)" "priv_scalar pd = k"
    by (auto simp: verimark_pairing_do_def bind_st_Inr bind_res_Inr split: if_splits)
  have "take 2 resp = [0, 0]"
    by (rule nth_equalityI) (use ok in \<open>auto simp: less_Suc_eq numeral_2_eq_2\<close>)
  moreover have "ec_generate P w = (Some (k, x, y), w1)"
    using gen by (auto simp: ec_keygen_def split: prod.splits option.splits)
  ultimately show ?thesis using cert io ok(1) pd by blast
qed

lemma pairing_do_wf:
  assumes "verimark_pairing_do P io w = (Inr pd, w')"
    and "keygen_doc P"
  shows "pairing_wf pd"
proof -
  from pairing_do_Inr [OF assms(1)] obtain x y w1 resp where
    "ec_generate P w = (Some (priv_scalar pd, x, y), w1)" "length resp = 802"
    "verimark_cert_parse (take 400 (drop 2 resp)) = Inr (host_cert pd)"
    "verimark_cert_parse (drop 402 resp) = Inr (sensor_cert pd)" by metis
  then show ?thesis
    using keygen_docD [OF assms(2)] cert_parse_wf [of "take 400 (drop 2 resp)"] cert_parse_wf [of "drop 402 resp"]
    by (simp add: pairing_wf_def)
qed

lemma pairing_do_in_bounds:
  assumes "\<And>w out. in_buffer (fst (io w out))"
  shows "in_buffer (fst (verimark_pairing_do P io w))"
proof -
  have gen: "in_buffer (fst (ec_keygen P w))" for w
    by (auto simp: ec_keygen_def split: prod.splits option.splits)
  have hs: "in_buffer (hs_key_scalar C)" "in_buffer (verimark_pub_from_priv C k)" for C k
    by (auto simp: hs_key_scalar_def verimark_pub_from_priv_def split: option.splits)
  have sign: "in_buffer (fst (verimark_ecdsa_sign P k m w))" for k m w
    by (auto simp: verimark_ecdsa_sign_def split: prod.splits option.splits)
  have "in_buffer (fst (build_host_cert P k w))" for k w
    by (auto simp: build_host_cert_def Let_def intro!: bind_st_in_bounds hs sign)
  then show ?thesis
    by (auto simp: verimark_pairing_do_def intro!: bind_st_in_bounds bind_res_in_bounds assms cert_parse_in_bounds gen)
qed

subsection \<open>The file is read back\<close>

lemma save_file_Inr:
  assumes "files_doc P F" "pairing_wf pd" "verimark_pairing_save_file P pd sid w = (Inr (), w')"
  shows "F w' = (F w)(verimark_pairing_path P sid \<mapsto> verimark_pairing_save pd)"
proof -
  from assms(3) obtain w1 w2 where mk: "fs_mkdir P w (pairing_base_dir P) 0x1c0 = (Inr (), w1)"
    and op: "fs_open_trunc P w1 (verimark_pairing_path P sid) 0x180 = (Inr (), w2)"
    by (auto simp: verimark_pairing_save_file_def bind_st_Inr Let_def)
  obtain n errno w3 where wr: "fs_write P w2 (verimark_pairing_path P sid) (verimark_pairing_save pd) = ((n, errno), w3)"
    by (metis surj_pair)
  from assms(3) mk op wr have "n = 868" "w3 = w'"
    by (auto simp: verimark_pairing_save_file_def split: if_splits)
  with mk op wr have
    "fs_mkdir P w (pairing_base_dir P) 0x1c0 = (Inr (), w1)"
    "fs_open_trunc P w1 (verimark_pairing_path P sid) 0x180 = (Inr (), w2)"
    "fs_write P w2 (verimark_pairing_path P sid) (verimark_pairing_save pd) = ((868, errno), w')"
    by simp_all
  then show ?thesis
    using files_docD(1) [OF assms(1), of w "pairing_base_dir P" "0x1c0"] files_docD(2) [OF assms(1), of w1]
      files_docD(4) [OF assms(1), of w2] assms(2) by simp
qed

lemma load_file_of:
  assumes "fs_doc P F"
  shows "fst (verimark_pairing_load_file P sid w) =
    (case F w (verimark_pairing_path P sid) of
       None \<Rightarrow> Inl (File_Error FILE_NOENT)
     | Some data \<Rightarrow> if length data \<noteq> 868 then Inl (Crypto_Error INVALID_DATA ''pdata file is not 868 bytes'' [])
                    else verimark_pairing_load data)"
proof (cases "fs_read P w (verimark_pairing_path P sid)")
  case (Pair r w')
  then show ?thesis
    using fs_docD(6,7) [OF assms, of w "verimark_pairing_path P sid"]
    by (cases "F w (verimark_pairing_path P sid)") (auto simp: verimark_pairing_load_file_def)
qed

lemma load_saved_file:
  assumes "fs_doc P F" "pairing_wf pd" "verimark_pairing_save_file P pd sid w = (Inr (), w')"
    and "F w'' (verimark_pairing_path P sid) = F w' (verimark_pairing_path P sid)"
  shows "fst (verimark_pairing_load_file P sid w'') = Inr pd"
  using save_file_Inr [OF fs_doc_files [OF assms(1)] assms(2,3)] assms(2,4) pairing_load_save [OF assms(2)]
  by (simp add: load_file_of [OF assms(1)])

text \<open>A write that comes up short has already truncated the file: what it leaves behind is
  refused as invalid, not reported as missing.\<close>

lemma short_write_leaves_invalid:
  assumes "fs_doc P F" "pairing_wf pd" "verimark_pairing_save_file P pd sid w = (Inl e, w')"
    and "fs_mkdir P w (pairing_base_dir P) 0x1c0 = (Inr (), w1)"
    and "fs_open_trunc P w1 (verimark_pairing_path P sid) 0x180 = (Inr (), w2)"
  shows "fst (verimark_pairing_load_file P sid w') = Inl (Crypto_Error INVALID_DATA ''pdata file is not 868 bytes'' [])"
proof -
  obtain n errno w3 where wr: "fs_write P w2 (verimark_pairing_path P sid) (verimark_pairing_save pd) = ((n, errno), w3)"
    by (metis surj_pair)
  then have "w3 = w'" "n \<noteq> 868"
    using assms(3-5) by (auto simp: verimark_pairing_save_file_def split: if_splits)
  moreover have "n \<le> 868"
    using fs_docD(4) [OF assms(1) wr] assms(2) by simp
  ultimately show ?thesis
    using fs_docD(4) [OF assms(1) wr] assms(2) by (simp add: load_file_of [OF assms(1)] min_def)
qed

subsection \<open>Properties\<close>

text \<open>C32: A pairing that succeeds stores a credential that fits the file format: our own generated
  scalar with the two certificates of the sensor's 802-byte reply, obtained by sending the 0x93
  command with a well-formed 400-byte certificate of the public key of that very scalar.\<close>

theorem verimark_pairing_do_sound:
  assumes "curve_doc (lib P)" "keygen_doc P"
    and "verimark_pairing_do P io w = (Inr pd, w')"
  shows "pairing_wf pd \<and> (\<exists>c w2 resp. cert_wf c
    \<and> verimark_pub_from_priv (lib P) (priv_scalar pd) = Inr (pub_x c, pub_y c)
    \<and> io w2 (0x93 # verimark_cert_serialize c) = (Inr resp, w') \<and> length resp = 802 \<and> take 2 resp = [0, 0]
    \<and> verimark_cert_parse (take 400 (drop 2 resp)) = Inr (host_cert pd)
    \<and> verimark_cert_parse (drop 402 resp) = Inr (sensor_cert pd))"
proof -
  from pairing_do_Inr [OF assms(3)] obtain w1 c buf w2 resp where
    cert: "build_host_cert P (priv_scalar pd) w1 = (Inr (c, buf), w2)"
    and io: "io w2 (0x93 # buf) = (Inr resp, w')" "length resp = 802" "take 2 resp = [0, 0]"
    "verimark_cert_parse (take 400 (drop 2 resp)) = Inr (host_cert pd)"
    "verimark_cert_parse (drop 402 resp) = Inr (sensor_cert pd)" by blast
  have "pairing_wf pd" by (rule pairing_do_wf [OF assms(3,2)])
  then show ?thesis using build_host_cert_Inr [OF assms(1) cert] io by blast
qed

definition sample_pair_io :: "world \<Rightarrow> bytes \<Rightarrow> bytes res \<times> world" where
  "sample_pair_io w out = (Inr ([0, 0] @ tl out @ tl out), w)"

lemma sample_host_cert:
  "\<exists>c. build_host_cert (sample :: world platform) priv w = (Inr (c, verimark_cert_serialize c), w) \<and> cert_wf c"
proof -
  have "hmac sample_crypto m k x = Some (replicate (md_size m) 0)" for m k x by (simp add: sample_crypto_def)
  then obtain hs where "hs_key_scalar sample_crypto = Inr hs"
    using length_prf [OF sample_crypto_docs(1), of MD_SHA256 hs_secret "''HS_KEY_PAIR_GEN''" hs_seed 32]
    by (auto simp: hs_key_scalar_def)
  moreover have "verimark_pub_from_priv sample_crypto k = Inr (replicate 32 1, replicate 32 2)" for k
    by (simp add: verimark_pub_from_priv_def sample_crypto_def)
  moreover have "verimark_ecdsa_sign (sample :: world platform) k m v = (Inr [1, 2, 3], v)" for k m v
    by (simp add: verimark_ecdsa_sign_def sample_def sample_crypto_def)
  ultimately have "\<exists>c. build_host_cert (sample :: world platform) priv w = (Inr (c, verimark_cert_serialize c), w)"
    by (auto simp: build_host_cert_def Let_def)
  then obtain c where c: "build_host_cert (sample :: world platform) priv w = (Inr (c, verimark_cert_serialize c), w)" ..
  have "curve_doc (lib (sample :: world platform))" by (simp add: sample_crypto_docs(3))
  from build_host_cert_Inr [OF this c] c show ?thesis by blast
qed

lemma sample_pairing_do:
  assumes "build_host_cert P k w1 = (Inr (c, verimark_cert_serialize c), w2)" "cert_wf c"
    and "ec_keygen P w = (Inr (k, x, y), w1)"
  shows "verimark_pairing_do P sample_pair_io w = (Inr \<lparr>priv_scalar = k, host_cert = c, sensor_cert = c\<rparr>, w2)"
proof -
  let ?s = "verimark_cert_serialize c"
  have l: "length ?s = 400" using assms(2) by simp
  have "rd_slice ([0, 0] @ ?s @ ?s) 2 400 = Inr ?s" "rd_slice ([0, 0] @ ?s @ ?s) 402 400 = Inr ?s"
    using l by (simp_all add: rd_slice_def)
  moreover have "sample_pair_io w2 (0x93 # ?s) = (Inr ([0, 0] @ ?s @ ?s), w2)"
    by (simp add: sample_pair_io_def)
  ultimately show ?thesis
    using assms l cert_parse_serialize [OF assms(2)] by (simp add: verimark_pairing_do_def)
qed

lemma verimark_pairing_do_sound_witness:
  "\<exists>pd w'. verimark_pairing_do sample sample_pair_io world0 = (Inr pd, w') \<and> pairing_wf pd"
proof -
  obtain k where k: "ec_keygen sample world0 = (Inr (k, replicate 32 1, replicate 32 2), world0)"
    using that [of "replicate 32 9"] by (simp add: ec_keygen_def sample_def)
  obtain c where c: "build_host_cert sample k world0 = (Inr (c, verimark_cert_serialize c), world0)"
    "cert_wf c" using sample_host_cert by blast
  have "curve_doc (lib (sample :: world platform))" by (simp add: sample_crypto_docs(3))
  from verimark_pairing_do_sound [OF this sample_keygen sample_pairing_do [OF c k]] sample_pairing_do [OF c k]
  show ?thesis by blast
qed

text \<open>C35: A pairing saved to its file is loaded back unchanged, by any later load that finds the
  file as it was left.\<close>

theorem verimark_pairing_file_roundtrip:
  assumes "fs_doc P F" "pairing_wf pd" "verimark_pairing_save_file P pd sid w = (Inr (), w')"
    and "F w'' (verimark_pairing_path P sid) = F w' (verimark_pairing_path P sid)"
  shows "fst (verimark_pairing_load_file P sid w'') = Inr pd"
  by (rule load_saved_file [OF assms])

lemma sample_save_file: "\<exists>w'. verimark_pairing_save_file sample sample_pairing ''ab'' world0 = (Inr (), w')"
  using sample_pairing_wf by (simp add: verimark_pairing_save_file_def Let_def sample_def)

lemma verimark_pairing_file_roundtrip_witness:
  "\<exists>w'. verimark_pairing_save_file sample sample_pairing ''ab'' world0 = (Inr (), w')
    \<and> fst (verimark_pairing_load_file sample ''ab'' w') = Inr sample_pairing"
  using verimark_pairing_file_roundtrip [OF sample_fs sample_pairing_wf] sample_save_file by blast

text \<open>A save whose write comes up short (a full disk) has already truncated the old file. What
  it leaves is refused by every later load as invalid data; it is not reported as a missing
  file, which is the only case in which the driver pairs again.\<close>

lemma verimark_pairing_short_write:
  assumes "fs_doc P F" "pairing_wf pd" "verimark_pairing_save_file P pd sid w = (Inl e, w')"
    and "fs_mkdir P w (pairing_base_dir P) 0x1c0 = (Inr (), w1)"
    and "fs_open_trunc P w1 (verimark_pairing_path P sid) 0x180 = (Inr (), w2)"
  shows "fst (verimark_pairing_load_file P sid w') = Inl (Crypto_Error INVALID_DATA ''pdata file is not 868 bytes'' [])"
  by (rule short_write_leaves_invalid [OF assms])

definition full_disk :: "world platform" where
  "full_disk = sample\<lparr>fs_write := \<lambda>w p d. ((min 100 (length d), FILE_OTHER 28), w\<lparr>w_files := (w_files w)(p \<mapsto> take 100 d)\<rparr>)\<rparr>"

lemma full_disk_fs: "fs_doc full_disk w_files"
  by (auto simp: fs_doc_def files_doc_def full_disk_def sample_def min_def split: option.splits)

lemma verimark_pairing_short_write_witness:
  "\<exists>w'. verimark_pairing_save_file full_disk sample_pairing ''ab'' world0 = (Inl (File_Error (FILE_OTHER 28)), w')
    \<and> fst (verimark_pairing_load_file full_disk ''ab'' w')
        = Inl (Crypto_Error INVALID_DATA ''pdata file is not 868 bytes'' [])"
proof -
  obtain w' where save: "verimark_pairing_save_file full_disk sample_pairing ''ab'' world0 = (Inl (File_Error (FILE_OTHER 28)), w')"
    using sample_pairing_wf by (simp add: verimark_pairing_save_file_def Let_def full_disk_def sample_def)
  from verimark_pairing_short_write [OF full_disk_fs sample_pairing_wf save] save show ?thesis
    by (simp add: full_disk_def sample_def)
qed

end
