(* ===== verification/Device.thy ===== *)
theory Device
  imports Transport Interrupt Tls_Auth Pairing
begin

text \<open>
  \<open>verimark.c\<close> and the device object of \<open>verimark.h\<close>: opening (endpoint discovery, claim,
  drain, sensor id, load-or-pair, TLS handshake) and closing. The calls a driver makes to hand a
  result to libfprint (\<open>fpi_device_*_complete\<close>, \<open>_report\<close>, \<open>_progress\<close>) are appended to the log
  \<open>reports\<close>.
\<close>

subsection \<open>The device object\<close>

text \<open>The parts of an \<open>FpPrint\<close> the driver reads and writes. \<open>Other_Variant\<close> is a variant that
  is not of \<open>VERIMARK_PRINT_DATA_FORMAT\<close>; the fields of the other are the finger, the minted
  template id, the listed id and the user id.\<close>

datatype gvariant = Print_Data byte bytes bytes bytes | Other_Variant

datatype print_type = FPI_PRINT_UNDEFINED | FPI_PRINT_RAW

record fp_print =
  fpi_type :: print_type
  fpi_data :: "gvariant option"
  description :: string
  device_stored :: bool

datatype match_result = MATCH_SUCCESS | MATCH_FAIL | MATCH_ERROR

datatype report =
    Open_Complete "gerror option"
  | Close_Complete "gerror option"
  | Enroll_Progress nat "gerror option"
  | Enroll_Complete "fp_print option" "gerror option"
  | Verify_Report match_result "fp_print option" "gerror option"
  | Identify_Report "fp_print option" "fp_print option" "gerror option"
  | Verify_Complete "gerror option"
  | Identify_Complete "gerror option"
  | List_Complete "fp_print list option" "gerror option"
  | Delete_Complete "gerror option"
  | Clear_Storage_Complete "gerror option"

text \<open>\<open>task_ssm\<close> points to the machine of the running operation, here named by its handler; \<open>None\<close> is
  \<open>NULL\<close>.\<close>

datatype task = Enroll_Task | Verify_Task | List_Task | Delete_Task | Clear_Task

record verimark =
  d_iface :: nat
  d_ep_intr_in :: byte
  d_tls :: "tls option"
  d_sid :: "string option"
  d_pairing :: "pairing option"
  enroll_stage :: nat
  enroll_coverage :: byte
  enroll_template_id :: bytes
  event_seq_num :: u16
  task_ssm :: "task option"
  reports :: "report list"

definition report :: "report \<Rightarrow> verimark \<Rightarrow> verimark" where
  "report r dev = dev\<lparr>reports := reports dev @ [r]\<rparr>"

definition VERIMARK_IFACE :: nat where "VERIMARK_IFACE = 1"
definition VERIMARK_CMD_TLS_DATA :: byte where "VERIMARK_CMD_TLS_DATA = 0x44"
definition VERIMARK_CMD_GET_VERSION :: byte where "VERIMARK_CMD_GET_VERSION = 0x01"
definition VERIMARK_TLS_HANDSHAKE_RESP_MAX :: u64 where "VERIMARK_TLS_HANDSHAKE_RESP_MAX = 0x100"

subsection \<open>The I/O callbacks\<close>

definition verimark_tls_io_sync :: "'w platform \<Rightarrow> 'w tls_io" where
  "verimark_tls_io_sync P w out =
     verimark_ctrl_cmd_sync P ([VERIMARK_CMD_TLS_DATA, 0x00, 0x00, 0x00] @ out) VERIMARK_TLS_HANDSHAKE_RESP_MAX w"

definition verimark_pair_io_sync :: "'w platform \<Rightarrow> 'w \<Rightarrow> bytes \<Rightarrow> bytes res \<times> 'w" where
  "verimark_pair_io_sync P w out = verimark_ctrl_cmd_sync P out 802 w"

subsection \<open>The sensor id\<close>

definition hex_digit :: "nat \<Rightarrow> char" where
  "hex_digit n = ''0123456789abcdef'' ! n"

text \<open>\<open>"%02x"\<close>\<close>

definition hex_byte :: "byte \<Rightarrow> string" where
  "hex_byte b = [hex_digit (unat b div 16), hex_digit (unat b mod 16)]"

definition VERIMARK_GET_VERSION_RESP_LEN :: nat where "VERIMARK_GET_VERSION_RESP_LEN = 38"
definition VERIMARK_GET_VERSION_SID_OFFSET :: nat where "VERIMARK_GET_VERSION_SID_OFFSET = 18"
definition VERIMARK_GET_VERSION_SID_LEN :: nat where "VERIMARK_GET_VERSION_SID_LEN = 6"

definition verimark_resolve_sid_sync :: "'w platform \<Rightarrow> 'w \<Rightarrow> string res \<times> 'w" where
  "verimark_resolve_sid_sync P w =
     bind_st (verimark_ctrl_cmd_sync P [VERIMARK_CMD_GET_VERSION] 256 w) (\<lambda>resp w.
       if length resp < VERIMARK_GET_VERSION_RESP_LEN
       then (Inl (Device_Error DEVICE_PROTO ''GET_VERSION: short reply (%lu bytes, wanted >= %d)''
                    [length resp, VERIMARK_GET_VERSION_RESP_LEN]), w)
       else if resp ! 0 \<noteq> 0 \<or> resp ! 1 \<noteq> 0
       then (Inl (Device_Error DEVICE_PROTO ''GET_VERSION: status 0x%02x%02x''
                    [unat (resp ! 1), unat (resp ! 0)]), w)
       else
         (bind_res (rd_slice resp VERIMARK_GET_VERSION_SID_OFFSET VERIMARK_GET_VERSION_SID_LEN)
            (\<lambda>sid. Inr (concat (map hex_byte sid))), w))"

subsection \<open>Open\<close>

definition verimark_open_fail :: "'w platform \<Rightarrow> verimark \<Rightarrow> gerror \<Rightarrow> 'w \<Rightarrow> verimark \<times> 'w" where
  "verimark_open_fail P dev e w =
     (let (_, w) = usb_release P w (d_iface dev)
      in (report (Open_Complete (Some e)) (dev\<lparr>d_tls := None, d_iface := 0, d_ep_intr_in := 0\<rparr>), w))"

text \<open>Load the pairing of a sensor, or pair with it and store the result when there is none.\<close>

definition open_pairing :: "'w platform \<Rightarrow> string \<Rightarrow> 'w \<Rightarrow> pairing res \<times> 'w" where
  "open_pairing P sid w =
     (case verimark_pairing_load_file P sid w of
        (Inr pd, w) \<Rightarrow> (Inr pd, w)
      | (Inl e, w) \<Rightarrow>
          if e \<noteq> File_Error FILE_NOENT then (Inl e, w)
          else
            bind_st (verimark_pairing_do P (verimark_pair_io_sync P) w) (\<lambda>pd w.
            bind_st (verimark_pairing_save_file P pd sid w) (\<lambda>_ w. (Inr pd, w))))"

text \<open>What follows the claim: \<open>Inr\<close> is the session, the sensor id and the pairing the device
  object takes over.\<close>

definition open_bring_up :: "'w platform \<Rightarrow> 'w \<Rightarrow> (tls \<times> string \<times> pairing) res \<times> 'w" where
  "open_bring_up P w =
     bind_st (verimark_resolve_sid_sync P w) (\<lambda>sid w.
     bind_st (open_pairing P sid w) (\<lambda>pd w.
       case verimark_tls_handshake P (verimark_tls_io_sync P) (verimark_tls_set_pairing verimark_tls_new pd, w) of
         (Inl e, _, w) \<Rightarrow> (Inl e, w)
       | (Inr _, t, w) \<Rightarrow> (Inr (t, sid, pd), w)))"

definition dev_open :: "'w platform \<Rightarrow> verimark \<times> 'w \<Rightarrow> verimark \<times> 'w" where
  "dev_open P = (\<lambda>(dev, w).
     case usb_interfaces P w of
       (Inl e, w) \<Rightarrow> (report (Open_Complete (Some e)) dev, w)
     | (Inr interfaces, w) \<Rightarrow>
         (case find (\<lambda>(n, eps). n = VERIMARK_IFACE) interfaces of
            None \<Rightarrow>
              (report (Open_Complete (Some (Device_Error DEVICE_GENERAL ''could not find vendor interface %d''
                 [VERIMARK_IFACE]))) dev, w)
          | Some (_, endpoints) \<Rightarrow>
              if VERIMARK_EP_INTR_IN \<notin> set endpoints then
                (report (Open_Complete (Some (Device_Error DEVICE_GENERAL
                   ''could not find interrupt-IN endpoint 0x%02x on interface %d''
                   [unat VERIMARK_EP_INTR_IN, VERIMARK_IFACE]))) dev, w)
              else
                (case usb_claim P w VERIMARK_IFACE of
                   (Inl e, w) \<Rightarrow> (report (Open_Complete (Some e)) dev, w)
                 | (Inr _, w) \<Rightarrow>
                     let dev = dev\<lparr>d_iface := VERIMARK_IFACE, d_ep_intr_in := VERIMARK_EP_INTR_IN, d_tls := None,
                                  d_pairing := None, d_sid := None\<rparr>;
                         w = verimark_intr_drain_sync P (d_ep_intr_in dev) w
                     in (case open_bring_up P w of
                           (Inl e, w) \<Rightarrow> verimark_open_fail P dev e w
                         | (Inr (t, sid, pd), w) \<Rightarrow>
                             (report (Open_Complete None)
                                (dev\<lparr>d_tls := Some t, d_sid := Some sid, d_pairing := Some pd\<rparr>), w)))))"

subsection \<open>Close\<close>

definition dev_close :: "'w platform \<Rightarrow> verimark \<times> 'w \<Rightarrow> verimark \<times> 'w" where
  "dev_close P = (\<lambda>(dev, w).
     let w = (case d_tls dev of None \<Rightarrow> w | Some t \<Rightarrow> snd (verimark_tls_close P (verimark_tls_io_sync P) (t, w)));
         (r, w) = usb_release P w (d_iface dev)
     in (report (Close_Complete (case r of Inl e \<Rightarrow> Some e | Inr _ \<Rightarrow> None))
           (dev\<lparr>d_tls := None, d_pairing := None, d_sid := None, d_iface := 0, d_ep_intr_in := 0\<rparr>), w))"

subsection \<open>Class data\<close>

datatype feature = FEATURE_IDENTIFY | FEATURE_VERIFY | FEATURE_STORAGE | FEATURE_STORAGE_LIST
  | FEATURE_STORAGE_DELETE | FEATURE_STORAGE_CLEAR

definition class_features :: "feature list" where
  "class_features =
     [FEATURE_IDENTIFY, FEATURE_VERIFY, FEATURE_STORAGE, FEATURE_STORAGE_DELETE, FEATURE_STORAGE_CLEAR]"

definition VERIMARK_ENROLL_STAGES :: nat where "VERIMARK_ENROLL_STAGES = 8"

subsection \<open>States of the device object\<close>

text \<open>What the operations may rely on while the device is open, and what is left when it is
  not.\<close>

definition dev_opened :: "crypto \<Rightarrow> verimark \<Rightarrow> bool" where
  "dev_opened C dev \<longleftrightarrow> d_iface dev = VERIMARK_IFACE \<and> d_ep_intr_in dev = VERIMARK_EP_INTR_IN
     \<and> (\<exists>t pd sid. d_tls dev = Some t \<and> d_pairing dev = Some pd \<and> d_sid dev = Some sid
          \<and> t_established t \<and> t_pd t = pd \<and> authenticated C (verimark_tls_set_pairing verimark_tls_new pd) t)"

definition dev_closed :: "verimark \<Rightarrow> bool" where
  "dev_closed dev \<longleftrightarrow> d_iface dev = 0 \<and> d_ep_intr_in dev = 0 \<and> d_tls dev = None
     \<and> d_sid dev = None \<and> d_pairing dev = None"

text \<open>The object as \<open>fpi_device_verimark_init\<close> leaves it: GObject has zeroed all fields.\<close>

definition dev_init :: verimark where
  "dev_init = \<lparr>d_iface = 0, d_ep_intr_in = 0, d_tls = None, d_sid = None, d_pairing = None, enroll_stage = 0,
     enroll_coverage = 0, enroll_template_id = replicate 16 0, event_seq_num = 0, task_ssm = None, reports = []\<rparr>"

lemma open_bring_up_Inr:
  assumes "open_bring_up P w = (Inr (t, sid, pd), w')"
  shows "t_established t \<and> t_pd t = pd \<and> authenticated (lib P) (verimark_tls_set_pairing verimark_tls_new pd) t"
proof -
  from assms obtain b w1 where
    "verimark_tls_handshake P (verimark_tls_io_sync P) (verimark_tls_set_pairing verimark_tls_new pd, w1) = (Inr b, t, w')"
    by (auto simp: open_bring_up_def bind_st_def split: prod.split_asm sum.split_asm)
  from handshake_authenticated [OF this] show ?thesis
    by (auto simp: authenticated_def verimark_tls_set_pairing_def)
qed

lemma dev_open_outcome:
  assumes "dev_open P (dev, w) = (dev', w')" "dev_closed dev"
  shows "(reports dev' = reports dev @ [Open_Complete None] \<and> dev_opened (lib P) dev')
    \<or> (\<exists>e. reports dev' = reports dev @ [Open_Complete (Some e)] \<and> dev_closed dev')"
proof -
  have "dev_opened (lib P) (report r (dev\<lparr>d_iface := VERIMARK_IFACE, d_ep_intr_in := VERIMARK_EP_INTR_IN,
      d_tls := Some t, d_sid := Some sid, d_pairing := Some pd\<rparr>))"
    if "open_bring_up P w1 = (Inr (t, sid, pd), w2)" for t sid pd w1 w2 r
    using open_bring_up_Inr [OF that] by (auto simp: dev_opened_def report_def)
  with assms show ?thesis
    by (auto simp: dev_open_def Let_def verimark_open_fail_def dev_closed_def report_def dev_opened_def
        split: prod.split_asm sum.split_asm option.split_asm if_split_asm)
qed

lemma dev_close_closed:
  "dev_closed (fst (dev_close P (dev, w)))
    \<and> (\<exists>e. reports (fst (dev_close P (dev, w))) = reports dev @ [Close_Complete e])"
  by (auto simp: dev_close_def dev_closed_def report_def Let_def split: prod.splits)

subsection \<open>Pairing happens once\<close>

lemma open_pairing_keeps:
  assumes "fs_doc P F" "F w (verimark_pairing_path P sid) = Some data" "open_pairing P sid w = (r, w')"
  shows "F w' = F w \<and> r = (if length data \<noteq> 868 then Inl (Crypto_Error INVALID_DATA ''pdata file is not 868 bytes'' [])
    else verimark_pairing_load data)"
proof -
  obtain q w1 where rd: "fs_read P w (verimark_pairing_path P sid) = (q, w1)" by fastforce
  have q: "q = Inr data" using fs_docD(6) [OF assms(1,2)] rd by simp
  have ne: "verimark_pairing_load data \<noteq> Inl (File_Error c)" for c
    using pairing_load_error [of data "File_Error c"] by auto
  have "F w1 = F w" using fs_docD(5) [OF assms(1) rd] .
  then show ?thesis
    using assms(3) rd q ne
    by (auto simp: open_pairing_def verimark_pairing_load_file_def split: sum.split_asm if_split_asm)
qed

text \<open>What an open does with what a read of the file returns: only a missing file leads to a pairing.\<close>

lemma open_pairing_reads:
  assumes "fs_read P w (verimark_pairing_path P sid) = (q, w1)" "q \<noteq> Inl (File_Error FILE_NOENT)"
  shows "open_pairing P sid w = (bind_res q (\<lambda>data.
    if length data \<noteq> 868 then Inl (Crypto_Error INVALID_DATA ''pdata file is not 868 bytes'' [])
    else verimark_pairing_load data), w1)"
proof -
  have "verimark_pairing_load data \<noteq> Inl (File_Error FILE_NOENT)" for data
    using pairing_load_error [of data "File_Error FILE_NOENT"] by auto
  then show ?thesis
    using assms by (cases q) (auto simp: open_pairing_def verimark_pairing_load_file_def split: sum.split)
qed

lemma open_pairing_once:
  assumes "files_doc P F" "keygen_doc P"
    and "open_pairing P sid w = (Inr pd, w')"
  shows "\<exists>data. F w' (verimark_pairing_path P sid) = Some data \<and> length data = 868 \<and> verimark_pairing_load data = Inr pd
    \<and> pairing_wf pd"
proof -
  obtain q w1 where rd: "fs_read P w (verimark_pairing_path P sid) = (q, w1)" by fastforce
  show ?thesis
  proof (cases "q = Inl (File_Error FILE_NOENT)")
    case False
    from open_pairing_reads [OF rd False] assms(3) obtain data where
      "q = Inr data" "length data = 868" "verimark_pairing_load data = Inr pd" "w' = w1"
      by (cases q) (auto split: if_split_asm)
    with rd files_docD(5,6) [OF assms(1)] pairing_load_wf [of data pd] show ?thesis by metis
  next
    case True
    with assms(3) rd obtain w2 where pair: "verimark_pairing_do P (verimark_pair_io_sync P) w1 = (Inr pd, w2)"
      and save: "verimark_pairing_save_file P pd sid w2 = (Inr (), w')"
      by (auto simp: open_pairing_def verimark_pairing_load_file_def bind_st_Inr)
    have wf: "pairing_wf pd" by (rule pairing_do_wf [OF pair assms(2)])
    show ?thesis
      using save_file_Inr [OF assms(1) wf save] wf pairing_load_save [OF wf] by simp
  qed
qed

subsection \<open>Properties\<close>

text \<open>C20: Opening a closed device reports exactly one completion. Without an error, the device is
  open: interface and endpoint set, pairing and sensor id stored, and a TLS session established
  by an authenticated handshake with that pairing. With an error it is as closed as before: no
  session, no interface, no endpoint.\<close>

theorem dev_open_sound:
  assumes "dev_open P (dev, w) = (dev', w')" "dev_closed dev"
  shows "(reports dev' = reports dev @ [Open_Complete None] \<and> dev_opened (lib P) dev')
    \<or> (\<exists>e. reports dev' = reports dev @ [Open_Complete (Some e)] \<and> dev_closed dev')"
  by (rule dev_open_outcome [OF assms])

lemma dev_init_closed: "dev_closed dev_init"
  by (simp add: dev_closed_def dev_init_def)

lemma dev_open_sound_witness:
  "\<exists>dev' w'. dev_open sample (dev_init, world0) = (dev', w')
    \<and> (dev_opened sample_crypto dev' \<or> dev_closed dev')"
proof -
  obtain dev' w' where run: "dev_open sample (dev_init, world0) = (dev', w')" by fastforce
  from dev_open_sound [OF run dev_init_closed] run show ?thesis by auto
qed

text \<open>C21: Pairing is trust on first use. Once an open has obtained a pairing, which is well-formed, every
  later open that finds the pairing file as it was left reads that file and does nothing else: it
  gets the same pairing, or, where the file is refused to it, the error of the read. And whatever
  is in the way of loading a file that is there is the error of the open, again after the read and
  nothing else, and never a reason to pair: a refused read, a file that is not 868 bytes long, and
  a file of 868 bytes whose scalar or certificates do not parse.\<close>

theorem open_pairing_first_use:
  assumes "files_doc P F" "keygen_doc P" "open_pairing P sid w = (Inr pd, w')"
    and "F w2 (verimark_pairing_path P sid) = F w' (verimark_pairing_path P sid)"
  shows "pairing_wf pd
    \<and> (case fs_read P w2 (verimark_pairing_path P sid) of
          (Inr _, w3) \<Rightarrow> open_pairing P sid w2 = (Inr pd, w3)
        | (Inl e, w3) \<Rightarrow> e \<noteq> File_Error FILE_NOENT \<and> open_pairing P sid w2 = (Inl e, w3))
    \<and> (\<forall>w4 w5 e. fs_read P w4 (verimark_pairing_path P sid) = (Inl e, w5) \<longrightarrow> e \<noteq> File_Error FILE_NOENT
         \<longrightarrow> open_pairing P sid w4 = (Inl e, w5))
    \<and> (\<forall>w4 w5 bad. fs_read P w4 (verimark_pairing_path P sid) = (Inr bad, w5) \<longrightarrow> length bad \<noteq> 868
         \<longrightarrow> open_pairing P sid w4 = (Inl (Crypto_Error INVALID_DATA ''pdata file is not 868 bytes'' []), w5))
    \<and> (\<forall>w4 w5 bad e. fs_read P w4 (verimark_pairing_path P sid) = (Inr bad, w5) \<longrightarrow> length bad = 868
         \<longrightarrow> verimark_pairing_load bad = Inl e \<longrightarrow> open_pairing P sid w4 = (Inl e, w5))"
proof -
  let ?p = "verimark_pairing_path P sid"
  obtain q w3 where rd: "fs_read P w2 ?p = (q, w3)" by fastforce
  from open_pairing_once [OF assms(1-3)] obtain data where
    data: "F w' ?p = Some data" "length data = 868" "verimark_pairing_load data = Inr pd" "pairing_wf pd" by blast
  then have ne: "q \<noteq> Inl (File_Error FILE_NOENT)" using files_docD(7) [OF assms(1) rd] assms(4) by simp
  moreover have "bad = data" if "q = Inr bad" for bad using files_docD(6) [OF assms(1)] rd that data(1) assms(4) by simp
  ultimately show ?thesis
    using open_pairing_reads [OF rd ne] rd data(2-4) by (auto simp: open_pairing_reads split: sum.split)
qed

text \<open>A file of zeros: its host certificate has no magic.\<close>

lemma zero_file_refused: "\<exists>e. verimark_pairing_load (replicate 868 0) = Inl e"
proof -
  have fails: "\<exists>e. bind_res m f = Inl e" if "\<And>a. \<exists>e. f a = Inl e" for m :: "'a res" and f :: "'a \<Rightarrow> 'b res"
    using that by (cases m) auto
  have "take 400 (drop 0x44 (replicate 868 0)) = replicate 400 (0 :: byte)"
    by (simp only: take_replicate drop_replicate) simp
  moreover have "\<exists>e. verimark_cert_parse (replicate 400 0) = Inl e"
    by (simp add: verimark_cert_parse_def u16_of_le_def)
  ultimately have "\<exists>e. bind_res (verimark_cert_parse (take 400 (drop 0x44 (replicate 868 0)))) f = Inl e" for f :: "cert \<Rightarrow> 'b res"
    by (metis bind_res_simps(1))
  then show ?thesis unfolding verimark_pairing_load_def by (rule fails)
qed

text \<open>Files that are refused while \<open>w_busy\<close> is not 0.\<close>

definition locked_files :: "world platform" where
  "locked_files = sample\<lparr>fs_read := \<lambda>w p. (case w_files w p of None \<Rightarrow> Inl (File_Error FILE_NOENT)
     | Some d \<Rightarrow> if w_busy w = 0 then Inr d else Inl (File_Error (FILE_OTHER 13)), w)\<rparr>"

lemma locked_files_doc: "files_doc locked_files w_files" "keygen_doc locked_files"
  by (auto simp: files_doc_def keygen_doc_def locked_files_def sample_def split: option.splits)

definition paired_world :: world where
  "paired_world = world0\<lparr>w_files := [verimark_pairing_path locked_files ''ab'' \<mapsto> verimark_pairing_save sample_pairing]\<rparr>"

lemma open_pairing_first_use_witness:
  "open_pairing locked_files ''ab'' paired_world = (Inr sample_pairing, paired_world)
    \<and> open_pairing locked_files ''ab'' (paired_world\<lparr>w_busy := 1\<rparr>) = (Inl (File_Error (FILE_OTHER 13)), paired_world\<lparr>w_busy := 1\<rparr>)
    \<and> (\<exists>e bad. length bad = 868 \<and> open_pairing locked_files ''ab''
           (world0\<lparr>w_files := [verimark_pairing_path locked_files ''ab'' \<mapsto> bad]\<rparr>) =
         (Inl e, world0\<lparr>w_files := [verimark_pairing_path locked_files ''ab'' \<mapsto> bad]\<rparr>))"
proof -
  let ?p = "verimark_pairing_path locked_files ''ab''"
  let ?zero = "world0\<lparr>w_files := [?p \<mapsto> replicate 868 0]\<rparr>"
  have rd: "fs_read locked_files paired_world ?p = (Inr (verimark_pairing_save sample_pairing), paired_world)"
    "fs_read locked_files (paired_world\<lparr>w_busy := 1\<rparr>) ?p = (Inl (File_Error (FILE_OTHER 13)), paired_world\<lparr>w_busy := 1\<rparr>)"
    "fs_read locked_files ?zero ?p = (Inr (replicate 868 0), ?zero)"
    by (simp_all add: locked_files_def paired_world_def world0_def)
  have opened: "open_pairing locked_files ''ab'' paired_world = (Inr sample_pairing, paired_world)"
    using open_pairing_reads [OF rd(1)] sample_pairing_wf by (simp add: pairing_load_save)
  obtain e where e: "verimark_pairing_load (replicate 868 0) = Inl e" using zero_file_refused by blast
  note first = open_pairing_first_use [OF locked_files_doc opened, of paired_world, OF refl]
  have "open_pairing locked_files ''ab'' (paired_world\<lparr>w_busy := 1\<rparr>) = (Inl (File_Error (FILE_OTHER 13)), paired_world\<lparr>w_busy := 1\<rparr>)"
    using first [THEN conjunct2, THEN conjunct2, THEN conjunct1, rule_format, OF rd(2)] by simp
  moreover have "open_pairing locked_files ''ab'' ?zero = (Inl e, ?zero)"
    using first [THEN conjunct2, THEN conjunct2, THEN conjunct2, THEN conjunct2, rule_format, OF rd(3) _ e] by simp
  ultimately show ?thesis using opened length_replicate [of 868 "0 :: byte"] by blast
qed

text \<open>Closing leaves the device closed with exactly one completion, whatever state it was in and
  whatever the farewell to the sensor and the release of the interface return.\<close>

lemma dev_close_resets:
  "dev_closed (fst (dev_close P (dev, w)))
    \<and> (\<exists>e. reports (fst (dev_close P (dev, w))) = reports dev @ [Close_Complete e])"
  by (rule dev_close_closed)

end
