(* ===== verification/Moc_Wire.thy ===== *)
theory Moc_Wire
  imports Codec
begin

text \<open>
  The match-on-chip command builders and reply parsers: the pure half of \<open>verimark-moc.c\<close> and
  the two event commands of its other half. A pointer that may be \<open>NULL\<close> is an option.
\<close>

subsection \<open>Fixed commands\<close>

definition verimark_moc_build_begin_id :: bytes where
  "verimark_moc_build_begin_id = [0x99, 0x01, 0, 0, 0, 0, 0, 0, 0, 0, 0, 0, 0]"

definition verimark_moc_build_enroll_create :: bytes where
  "verimark_moc_build_enroll_create = [0x96, 0x01, 0, 0, 0, 0, 0, 0, 0, 0, 0, 0, 0]"

definition verimark_moc_build_enroll_sample :: bytes where
  "verimark_moc_build_enroll_sample = [0x96, 0x02, 0, 0, 0]"

definition verimark_moc_build_enroll_commit :: bytes where
  "verimark_moc_build_enroll_commit = [0x96, 0x04, 0, 0, 0]"

definition verimark_moc_build_frame_acq :: "byte \<Rightarrow> bytes" where
  "verimark_moc_build_frame_acq acq_kind =
     [0x80, 0x00, 0x00, 0x00, 0x00, 0x01, 0x00, 0x00, 0x00,
      0x01, 0x00, 0x00, 0x08, 0x01, 0x01, 0x01, 0x00] [1 := acq_kind]"

definition verimark_moc_build_frame_finish :: bytes where
  "verimark_moc_build_frame_finish = [0x81]"

definition VERIMARK_CMD_EVENT_CONFIG :: byte where "VERIMARK_CMD_EVENT_CONFIG = 0x86"
definition VERIMARK_CMD_EVENT_READ :: byte where "VERIMARK_CMD_EVENT_READ = 0x87"

definition build_event_config :: "u32 \<Rightarrow> bytes" where
  "build_event_config m =
     VERIMARK_CMD_EVENT_CONFIG # concat (replicate 8 (wr_u32le m)) @ wr_u32le (if m \<noteq> 0 then 0 else 4)"

definition build_event_read :: "u16 \<Rightarrow> bytes" where
  "build_event_read s = VERIMARK_CMD_EVENT_READ # wr_u16le s @ wr_u16le 32 @ wr_u32le 1"

subsection \<open>Finalize\<close>

definition WIN_FINALIZE :: bytes where
  "WIN_FINALIZE =
  [0x96, 0x03, 0x00, 0x00, 0x00, 0x00, 0x00, 0x00, 0x00, 0x6f, 0x00, 0x00,
   0x00, 0x00, 0x00, 0x10, 0x00, 0x00, 0x00, 0x45, 0x2d, 0xec, 0x91, 0x88,
   0x13, 0x90, 0xe4, 0x14, 0xeb, 0x6a, 0x58, 0x12, 0x8e, 0x41, 0x21, 0x01,
   0x00, 0x4c, 0x00, 0x00, 0x00, 0x03, 0x00, 0x00, 0x00, 0x1c, 0x00, 0x00,
   0x00, 0x01, 0x05, 0x00, 0x00, 0x00, 0x00, 0x00, 0x05, 0x15, 0x00, 0x00,
   0x00, 0x00, 0x00, 0x00, 0x00, 0x00, 0x00, 0x00, 0x00, 0x00, 0x00, 0x00,
   0x00, 0xe9, 0x03, 0x00, 0x00, 0x00, 0x00, 0x00, 0x00, 0x00, 0x00, 0x00,
   0x00, 0x00, 0x00, 0x00, 0x00, 0x00, 0x00, 0x00, 0x00, 0x00, 0x00, 0x00,
   0x00, 0x00, 0x00, 0x00, 0x00, 0x00, 0x00, 0x00, 0x00, 0x00, 0x00, 0x00,
   0x00, 0x00, 0x00, 0x00, 0x00, 0x00, 0x00, 0x00, 0x00, 0x02, 0x00, 0x01,
   0x00, 0x00, 0x00, 0xf5]"

definition moc_null :: "string \<Rightarrow> gerror" where
  "moc_null who = Moc_Error MOC_INVALID_ARGUMENT (who @ '': NULL argument'')"

definition verimark_moc_build_finalize :: "bytes option \<Rightarrow> bytes option \<Rightarrow> bytes res" where
  "verimark_moc_build_finalize template_id sid =
     (case (template_id, sid) of
        (Some tid, Some s) \<Rightarrow> Inr (splice (splice WIN_FINALIZE 19 tid) 49 s)
      | _ \<Rightarrow> Inl (moc_null ''verimark_moc_build_finalize''))"

definition verimark_moc_synth_sid :: "u32 \<Rightarrow> bytes option \<Rightarrow> bytes res" where
  "verimark_moc_synth_sid uid machine_seed =
     (case machine_seed of
        None \<Rightarrow> Inl (moc_null ''verimark_moc_synth_sid'')
      | Some m \<Rightarrow>
          let sub = [21, u32_of_le (m ! 0) (m ! 1) (m ! 2) (m ! 3), u32_of_le (m ! 4) (m ! 5) (m ! 6) (m ! 7),
                     u32_of_le (m ! 8) (m ! 9) (m ! 10) (m ! 11), uid]
          in Inr ([0x01, 0x05, 0, 0, 0, 0, 0, 0x05] @ concat (map wr_u32le sub)))"

subsection \<open>Parsers\<close>

record moc_sample =
  sample_status :: u16
  sample_template_id :: bytes
  sample_coverage :: byte
  sample_counter :: byte
  sample_quality :: byte

definition verimark_moc_parse_sample :: "bytes option \<Rightarrow> moc_sample res" where
  "verimark_moc_parse_sample resp =
     (case resp of
        None \<Rightarrow> Inl (moc_null ''verimark_moc_parse_sample'')
      | Some r \<Rightarrow>
          if length r < 43 then Inl (Moc_Error MOC_INVALID_DATA ''sample response too short'')
          else
            bind_res (rd_u16le r) (\<lambda>st. bind_res (rd_slice r 2 16) (\<lambda>tid.
            bind_res (rd8 r 22) (\<lambda>cov. bind_res (rd8 r 24) (\<lambda>cnt. bind_res (rd8 r 42) (\<lambda>q.
            Inr \<lparr>sample_status = st, sample_template_id = tid, sample_coverage = cov, sample_counter = cnt,
                 sample_quality = q\<rparr>))))))"

record moc_match =
  match_status :: u16
  matched :: bool
  match_template_id :: bytes

definition verimark_moc_parse_verify :: "bytes option \<Rightarrow> moc_match res" where
  "verimark_moc_parse_verify resp =
     (case resp of
        None \<Rightarrow> Inl (moc_null ''verimark_moc_parse_verify'')
      | Some r \<Rightarrow>
          if length r < 2 then Inl (Moc_Error MOC_INVALID_DATA ''verify response too short'')
          else
            bind_res (rd_u16le r) (\<lambda>st.
            if st = 0x0000 then
              (if length r < 18 then Inl (Moc_Error MOC_INVALID_DATA ''match record missing id'')
               else bind_res (rd_slice r 2 16) (\<lambda>tid.
                    Inr \<lparr>match_status = st, matched = True, match_template_id = tid\<rparr>))
            else Inr \<lparr>match_status = st, matched = False, match_template_id = replicate 16 0\<rparr>))"

fun obj_list_ids :: "bytes \<Rightarrow> nat \<Rightarrow> nat \<Rightarrow> bytes list res" where
  "obj_list_ids r i 0 = Inr []"
| "obj_list_ids r i (Suc n) =
     bind_res (rd_slice r (4 + i * 16) 16) (\<lambda>v. bind_res (obj_list_ids r (Suc i) n) (\<lambda>vs. Inr (v # vs)))"

definition verimark_moc_parse_obj_list :: "bytes option \<Rightarrow> (u16 \<times> bytes list) res" where
  "verimark_moc_parse_obj_list resp =
     (case resp of
        None \<Rightarrow> Inl (moc_null ''verimark_moc_parse_obj_list'')
      | Some r \<Rightarrow>
          if length r < 4 then Inl (Moc_Error MOC_INVALID_DATA ''obj-list response too short'')
          else
            bind_res (rd_u16le r) (\<lambda>st. bind_res (rd_u16le (drop 2 r)) (\<lambda>count.
            if length r < 4 + unat count * 16
            then Inl (Moc_Error MOC_INVALID_DATA ''obj-list response truncated for count'')
            else bind_res (obj_list_ids r 0 (unat count)) (\<lambda>ids. Inr (st, ids)))))"

definition verimark_moc_parse_obj_info :: "bytes option \<Rightarrow> bytes res" where
  "verimark_moc_parse_obj_info resp =
     (case resp of
        None \<Rightarrow> Inl (moc_null ''verimark_moc_parse_obj_info'')
      | Some r \<Rightarrow>
          if length r < 36 then Inl (Moc_Error MOC_INVALID_DATA ''obj-info response too short'')
          else rd_slice r 20 16)"

subsection \<open>Layout\<close>

lemma length_moc_commands [simp, wire_len]:
  "length verimark_moc_build_begin_id = 13" "length verimark_moc_build_enroll_create = 13"
  "length verimark_moc_build_enroll_sample = 5" "length verimark_moc_build_enroll_commit = 5"
  "length (verimark_moc_build_frame_acq k) = 17" "length verimark_moc_build_frame_finish = 1"
  "length (build_event_config m) = 37" "length (build_event_read s) = 9" "length WIN_FINALIZE = 124"
  by (simp_all add: verimark_moc_build_begin_id_def verimark_moc_build_enroll_create_def
      verimark_moc_build_enroll_sample_def verimark_moc_build_enroll_commit_def
      verimark_moc_build_frame_acq_def verimark_moc_build_frame_finish_def build_event_config_def
      build_event_read_def WIN_FINALIZE_def length_concat sum_list_replicate)

lemma build_finalize_Inr:
  assumes "length tid = 16" "length s = 28"
  shows "\<exists>out. verimark_moc_build_finalize (Some tid) (Some s) = Inr out \<and> length out = 124
    \<and> take 16 (drop 19 out) = tid \<and> take 28 (drop 49 out) = s
    \<and> (\<forall>i. i < 19 \<or> 35 \<le> i \<and> i < 49 \<or> 77 \<le> i \<and> i < 124 \<longrightarrow> out ! i = WIN_FINALIZE ! i)"
proof (intro exI conjI)
  let ?a = "splice WIN_FINALIZE 19 tid"
  let ?out = "splice ?a 49 s"
  have la: "length ?a = 124" using assms by simp
  show "verimark_moc_build_finalize (Some tid) (Some s) = Inr ?out"
    by (simp add: verimark_moc_build_finalize_def)
  show "length ?out = 124" using assms la by simp
  have "take 49 ?out = take 49 ?a" using la by (intro take_splice) simp
  moreover have "take 16 (drop 19 xs) = drop 19 (take 35 (take 49 xs))" for xs :: bytes by (simp add: drop_take)
  ultimately have "take 16 (drop 19 ?out) = take 16 (drop 19 ?a)" by presburger
  then show "take 16 (drop 19 ?out) = tid"
    using slice_splice_same [of 19 WIN_FINALIZE tid] assms by simp
  show "take 28 (drop 49 ?out) = s"
    using slice_splice_same [of 49 ?a s] assms la by simp
  show "\<forall>i. i < 19 \<or> 35 \<le> i \<and> i < 49 \<or> 77 \<le> i \<and> i < 124 \<longrightarrow> ?out ! i = WIN_FINALIZE ! i"
    using assms la by (auto simp: nth_splice)
qed

lemma synth_sid_Inr:
  assumes "length m = 16"
  shows "verimark_moc_synth_sid uid (Some m) = Inr ([1, 5, 0, 0, 0, 0, 0, 5] @ wr_u32le 21 @ take 12 m @ wr_u32le uid)"
proof -
  have "take 12 m = take 4 m @ take 4 (drop 4 m) @ take 4 (drop 8 m)"
    using take_add [of 4 8 m] take_add [of 4 4 "drop 4 m"] by simp
  then show ?thesis
    using assms take_4 [of m] take_4 [of "drop 4 m"] take_4 [of "drop 8 m"]
    by (simp add: verimark_moc_synth_sid_def Let_def wr_u32le_of_le)
qed

lemma synth_sid_inj:
  assumes "length m = 16" "length m' = 16"
    and "verimark_moc_synth_sid uid (Some m) = verimark_moc_synth_sid uid' (Some m')"
  shows "uid = uid' \<and> take 12 m = take 12 m'"
  using assms by (auto simp: synth_sid_Inr dest: wr_u32le_inj)

lemma synth_sid_length: "length m = 16 \<Longrightarrow> verimark_moc_synth_sid uid (Some m) = Inr s \<Longrightarrow> length s = 28"
  by (auto simp: synth_sid_Inr)

subsection \<open>What the parsers accept\<close>

lemma rd_u16le_take: "2 \<le> length r \<Longrightarrow> rd_u16le r = Inr v \<longleftrightarrow> take 2 r = wr_u16le v"
  by (cases r; cases "tl r") (auto simp: rd_u16le_ok wr_u16le_def)

lemma parse_sample_Inr:
  "verimark_moc_parse_sample (Some r) = Inr m \<longleftrightarrow>
     43 \<le> length r \<and> take 18 r = wr_u16le (sample_status m) @ sample_template_id m
     \<and> r ! 22 = sample_coverage m \<and> r ! 24 = sample_counter m \<and> r ! 42 = sample_quality m"
proof (cases "43 \<le> length r")
  case True
  have "take 18 r = take 2 r @ take 16 (drop 2 r)" using take_add [of 2 16 r] by simp
  moreover have "take 2 r = [r ! 0, r ! 1]"
    using True by (cases r; cases "tl r") auto
  ultimately have "take 18 r = wr_u16le (sample_status m) @ sample_template_id m \<longleftrightarrow>
      u16_of_le (r ! 0) (r ! 1) = sample_status m \<and> take 16 (drop 2 r) = sample_template_id m"
    by (simp only: app_eq_wr_u16le)
  with True show ?thesis
    by (cases m) (auto simp: verimark_moc_parse_sample_def rd_u16le_ok)
next
  case False
  then show ?thesis by (simp add: verimark_moc_parse_sample_def)
qed

lemma parse_verify_cases:
  "verimark_moc_parse_verify (Some r) =
     (if length r < 2 then Inl (Moc_Error MOC_INVALID_DATA ''verify response too short'')
      else let st = u16_of_le (r ! 0) (r ! 1)
        in if st = 0 \<and> length r < 18 then Inl (Moc_Error MOC_INVALID_DATA ''match record missing id'')
           else Inr \<lparr>match_status = st, matched = (st = 0),
             match_template_id = (if st = 0 then take 16 (drop 2 r) else replicate 16 0)\<rparr>)"
  by (simp add: verimark_moc_parse_verify_def rd_u16le_ok Let_def)

lemma obj_list_ids_ok:
  "4 + (i + n) * 16 \<le> length r \<Longrightarrow>
     \<exists>ids. obj_list_ids r i n = Inr ids \<and> length ids = n \<and> (\<forall>v\<in>set ids. length v = 16)
       \<and> concat ids = take (16 * n) (drop (4 + i * 16) r)"
proof (induction n arbitrary: i)
  case 0
  then show ?case by simp
next
  case (Suc n)
  from Suc.IH [of "Suc i"] Suc.prems obtain ids where ids:
    "obj_list_ids r (Suc i) n = Inr ids" "length ids = n" "\<forall>v\<in>set ids. length v = 16"
    "concat ids = take (16 * n) (drop (4 + Suc i * 16) r)" by auto
  let ?v = "take 16 (drop (4 + i * 16) r)"
  have "take (16 * Suc n) (drop (4 + i * 16) r) = ?v @ take (16 * n) (drop (4 + Suc i * 16) r)"
    using take_add [of 16 "16 * n" "drop (4 + i * 16) r"] by (simp add: algebra_simps)
  then show ?case
    using ids Suc.prems by (intro exI [of _ "?v # ids"]) (simp add: algebra_simps)
qed

lemma concat_16_inj:
  "length xs = length ys \<Longrightarrow> \<forall>v\<in>set xs. length v = n \<Longrightarrow> \<forall>v\<in>set ys. length v = n
    \<Longrightarrow> concat xs = concat ys \<Longrightarrow> xs = ys"
  by (induction xs ys rule: list_induct2) auto

lemma length_concat_16: "\<forall>v\<in>set xs. length v = 16 \<Longrightarrow> length (concat xs) = 16 * length xs"
  by (induction xs) auto

text \<open>A reply to \<open>DB2_GET_OBJ_LIST\<close>, with anything after the objects.\<close>

definition obj_list_enc :: "u16 \<Rightarrow> bytes list \<Rightarrow> bytes" where
  "obj_list_enc st ids = wr_u16le st @ wr_u16le (of_nat (length ids)) @ concat ids"

lemma parse_obj_list_accepts:
  "verimark_moc_parse_obj_list (Some r) = Inr (st, ids) \<longleftrightarrow>
     (\<exists>rest. r = obj_list_enc st ids @ rest) \<and> length ids < 65536 \<and> (\<forall>v\<in>set ids. length v = 16)"
  (is "?L \<longleftrightarrow> ?R")
proof
  assume L: ?L
  then have len: "4 \<le> length r" by (simp add: verimark_moc_parse_obj_list_def split: if_splits)
  from L obtain count where st: "rd_u16le r = Inr st" and count: "rd_u16le (drop 2 r) = Inr count"
    and fit: "4 + unat count * 16 \<le> length r" and ids: "obj_list_ids r 0 (unat count) = Inr ids"
    by (auto simp: verimark_moc_parse_obj_list_def bind_res_Inr not_less split: if_splits)
  from obj_list_ids_ok [of 0 "unat count" r] fit ids
  have i: "length ids = unat count" "\<forall>v\<in>set ids. length v = 16" "concat ids = take (16 * unat count) (drop 4 r)"
    by auto
  have "take 2 r = wr_u16le st" "take 2 (drop 2 r) = wr_u16le count"
    using st count len rd_u16le_take by auto
  moreover have "r = take 2 r @ take 2 (drop 2 r) @ take (16 * unat count) (drop 4 r) @ drop (4 + 16 * unat count) r"
    using append_take_drop_id [of 2 r] append_take_drop_id [of 2 "drop 2 r"]
      append_take_drop_id [of "16 * unat count" "drop 4 r"] by (simp add: add.commute)
  ultimately have "r = obj_list_enc st ids @ drop (4 + 16 * unat count) r"
    by (simp add: obj_list_enc_def i)
  moreover have "unat count < 65536" using unsigned_less [of count] by simp
  ultimately show ?R using i by auto
next
  assume R: ?R
  then obtain rest where r: "r = obj_list_enc st ids @ rest" by blast
  have n: "unat (of_nat (length ids) :: u16) = length ids" using R by (simp add: unat_of_nat)
  have len: "length r = 4 + 16 * length ids + length rest"
    using R by (simp add: r obj_list_enc_def length_concat_16)
  have d: "drop 4 r = concat ids @ rest" "take 2 r = wr_u16le st" "take 2 (drop 2 r) = wr_u16le (of_nat (length ids))"
    by (simp_all add: r obj_list_enc_def wr_u16le_def)
  from obj_list_ids_ok [of 0 "length ids" r] len obtain ids' where ids':
    "obj_list_ids r 0 (length ids) = Inr ids'" "length ids' = length ids" "\<forall>v\<in>set ids'. length v = 16"
    "concat ids' = take (16 * length ids) (drop 4 r)" by auto
  have "ids' = ids"
    using R by (intro concat_16_inj [OF ids'(2,3)]) (auto simp: ids'(4) d(1) length_concat_16)
  then show ?L
    using ids'(1) n len d rd_u16le_take [of r st] rd_u16le_take [of "drop 2 r" "of_nat (length ids)"]
    by (simp add: verimark_moc_parse_obj_list_def)
qed

lemma parse_in_bounds [in_bounds]:
  "in_buffer (verimark_moc_parse_sample q)" "in_buffer (verimark_moc_parse_verify q)"
  "in_buffer (verimark_moc_parse_obj_list q)" "in_buffer (verimark_moc_parse_obj_info q)"
proof -
  have "obj_list_ids r 0 n \<noteq> Inl e" if "4 + n * 16 \<le> length r" for r n e
    using obj_list_ids_ok [of 0 n r] that by auto
  then show "in_buffer (verimark_moc_parse_obj_list q)"
    by (cases q) (auto simp: verimark_moc_parse_obj_list_def moc_null_def rd_u16le_ok in_buffer_def bind_res_Inl not_less)
qed (cases q; auto simp: verimark_moc_parse_sample_def verimark_moc_parse_verify_def moc_null_def rd_u16le_ok
      verimark_moc_parse_obj_info_def)+

subsection \<open>Properties\<close>

text \<open>The finalize command is the captured 124-byte blob with the template id and the SID at
  their two places and nothing else changed, and it identifies what it enrolls: two finalize
  commands are equal only for the same template id, the same user id and the same first 12 bytes
  of the machine seed (the seed's last 4 bytes are not used).\<close>

lemma moc_finalize_binds:
  assumes "length tid = 16" "length tid' = 16" "length m = 16" "length m' = 16"
    and "verimark_moc_synth_sid uid (Some m) = Inr sid" "verimark_moc_synth_sid uid' (Some m') = Inr sid'"
  shows "\<exists>out. verimark_moc_build_finalize (Some tid) (Some sid) = Inr out \<and> length out = 124
    \<and> take 16 (drop 19 out) = tid \<and> take 28 (drop 49 out) = sid
    \<and> (\<forall>i. i < 19 \<or> 35 \<le> i \<and> i < 49 \<or> 77 \<le> i \<and> i < 124 \<longrightarrow> out ! i = WIN_FINALIZE ! i)
    \<and> (verimark_moc_build_finalize (Some tid') (Some sid') = Inr out
         \<longleftrightarrow> tid = tid' \<and> uid = uid' \<and> take 12 m = take 12 m')"
proof -
  note len = synth_sid_length [OF assms(3,5)] synth_sid_length [OF assms(4,6)]
  from build_finalize_Inr [OF assms(1) len(1)] obtain out where out:
    "verimark_moc_build_finalize (Some tid) (Some sid) = Inr out" "length out = 124"
    "take 16 (drop 19 out) = tid" "take 28 (drop 49 out) = sid"
    "\<forall>i. i < 19 \<or> 35 \<le> i \<and> i < 49 \<or> 77 \<le> i \<and> i < 124 \<longrightarrow> out ! i = WIN_FINALIZE ! i" by blast
  moreover have "tid = tid' \<and> sid = sid'" if "verimark_moc_build_finalize (Some tid') (Some sid') = Inr out"
    using build_finalize_Inr [OF assms(2) len(2)] that out(3,4) by auto
  moreover have "sid = sid' \<longleftrightarrow> uid = uid' \<and> take 12 m = take 12 m'"
    using synth_sid_inj [OF assms(3,4), of uid uid'] assms(3-6) by (auto simp: synth_sid_Inr)
  ultimately show ?thesis by auto
qed

lemma moc_finalize_binds_witness:
  "verimark_moc_build_finalize (Some (replicate 16 1)) (Some (take 28 (drop 49 WIN_FINALIZE)))
     \<noteq> verimark_moc_build_finalize (Some (replicate 16 2)) (Some (take 28 (drop 49 WIN_FINALIZE)))"
proof -
  have sid: "verimark_moc_synth_sid 1001 (Some (replicate 16 0)) = Inr (take 28 (drop 49 WIN_FINALIZE))"
    by (simp add: verimark_moc_synth_sid_def Let_def WIN_FINALIZE_def wr_u32le_def u32_of_le_def)
  from moc_finalize_binds [OF _ _ _ _ sid sid, of "replicate 16 1" "replicate 16 2"]
  show ?thesis by auto
qed

text \<open>The object-list parser accepts a reply exactly when it is a status, a count and that
  many 16-byte ids, with anything after them, and returns those ids in order; every other reply is
  an error.\<close>

lemma verimark_moc_parse_obj_list_spec:
  "verimark_moc_parse_obj_list (Some r) = Inr (st, ids) \<longleftrightarrow>
     (\<exists>rest. r = obj_list_enc st ids @ rest) \<and> length ids < 65536 \<and> (\<forall>v. v \<in> set ids \<longrightarrow> length v = 16)"
  using parse_obj_list_accepts [of r st ids] by auto

lemma verimark_moc_parse_obj_list_spec_witness:
  "verimark_moc_parse_obj_list (Some ([0, 0, 2, 0] @ replicate 16 5 @ replicate 16 7 @ [9])) =
     Inr (0, [replicate 16 5, replicate 16 7])"
proof -
  have "[0, 0, 2, 0] @ replicate 16 5 @ replicate 16 7 @ [9] = obj_list_enc 0 [replicate 16 5, replicate 16 7] @ [9]"
    by (simp add: obj_list_enc_def wr_u16le_def u16_lo_def u16_hi_def)
  then have "\<exists>rest. [0, 0, 2, 0] @ replicate 16 5 @ replicate 16 7 @ [9] = obj_list_enc 0 [replicate 16 5, replicate 16 7] @ rest" ..
  then show ?thesis
    by (intro verimark_moc_parse_obj_list_spec [THEN iffD2] conjI) auto
qed

end
