(* ===== verification/Tls_Session.thy ===== *)
theory Tls_Session
  imports Tls_Records
begin

text \<open>
  The channel an established session is: what one end wraps the other end unwraps, in order, and an alert
  ends it.
\<close>

subsection \<open>The established channel\<close>

text \<open>\<open>p\<close> is the other end of the sending direction of \<open>t\<close>.\<close>

definition in_sync :: "tls \<Rightarrow> tls \<Rightarrow> bool" where
  "in_sync t p \<longleftrightarrow> t_established t \<and> t_established p \<and> decr_key (t_keys p) = encr_key (t_keys t)
     \<and> decr_iv (t_keys p) = encr_iv (t_keys t) \<and> t_decr_seq p = t_encr_seq t"

fun wrap_all :: "'w platform \<Rightarrow> tls \<times> 'w \<Rightarrow> bytes list \<Rightarrow> bytes list res \<times> tls \<times> 'w" where
  "wrap_all P s [] = (Inr [], s)"
| "wrap_all P s (plain # plains) =
     bind_st (verimark_tls_wrap P s plain) (\<lambda>rec s.
     bind_st (wrap_all P s plains) (\<lambda>recs s. (Inr (rec # recs), s)))"

lemma wrap_established:
  assumes "aead_doc (lib P)" "rand_doc P" "t_established t" "length plain < 65512"
  obtains frag w' where
    "verimark_tls_wrap P (t, w) plain = (Inr (rec_enc (0x17, (3, 3), frag)), t\<lparr>t_encr_seq := t_encr_seq t + 1\<rparr>, w')"
    "rec_fits (0x17, (3, 3), frag)"
    "verimark_tls_gcm_unwrap (lib P) (encr_key (t_keys t)) (encr_iv (t_keys t)) (t_encr_seq t) 0x17 frag = Inr plain"
proof -
  obtain nonce w1 where rnd: "rand_bytes P w 8 = (nonce, w1)" by fastforce
  from gcm_unwrap_wrap [OF assms(1) rand_docD [OF assms(2) rnd]] obtain frag where
    "verimark_tls_gcm_wrap (lib P) (encr_key (t_keys t)) (encr_iv (t_keys t)) (t_encr_seq t) 0x17 nonce plain = Inr frag"
    "length frag = length plain + 24"
    "verimark_tls_gcm_unwrap (lib P) (encr_key (t_keys t)) (encr_iv (t_keys t)) (t_encr_seq t) 0x17 frag = Inr plain"
    by blast
  then show ?thesis
    using assms(3,4) rnd
    by (intro that [of frag w1])
      (simp_all add: verimark_tls_wrap_def VERIMARK_TLS_CT_APPDATA_def rec_write_plain_enc rec_fits_def)
qed

lemma wrap_all_run:
  assumes "aead_doc (lib P)" "rand_doc P" "in_sync t p" "\<forall>plain \<in> set plains. length plain < 65512"
  shows "\<exists>rs t' p' w'. wrap_all P (t, w) plains = (Inr (map rec_enc rs), t', w') \<and> (\<forall>r \<in> set rs. rec_fits r)
    \<and> run_recs (unwrap_record (lib P)) rs (out, p) = (Inr (), out @ concat plains, p') \<and> in_sync t' p'
    \<and> t_encr_seq t' = t_encr_seq t + of_nat (length plains)"
  using assms(3,4)
proof (induction plains arbitrary: t p w out)
  case Nil
  then show ?case by (intro exI [of _ "[]"]) simp
next
  case (Cons plain plains)
  from Cons.prems have est: "t_established t" "length plain < 65512" by (simp_all add: in_sync_def)
  obtain frag w1 where wr:
    "verimark_tls_wrap P (t, w) plain = (Inr (rec_enc (0x17, (3, 3), frag)), t\<lparr>t_encr_seq := t_encr_seq t + 1\<rparr>, w1)"
    "rec_fits (0x17, (3, 3), frag)"
    "verimark_tls_gcm_unwrap (lib P) (encr_key (t_keys t)) (encr_iv (t_keys t)) (t_encr_seq t) 0x17 frag = Inr plain"
    using wrap_established [OF assms(1,2) est] .
  have step: "unwrap_record (lib P) 0x17 frag (out, p) = (Inr (), out @ plain, p\<lparr>t_decr_seq := t_decr_seq p + 1\<rparr>)"
    using Cons.prems(1) wr(3) by (simp add: unwrap_record_def in_sync_def VERIMARK_TLS_CT_APPDATA_def)
  have sync: "in_sync (t\<lparr>t_encr_seq := t_encr_seq t + 1\<rparr>) (p\<lparr>t_decr_seq := t_decr_seq p + 1\<rparr>)"
    using Cons.prems(1) by (simp add: in_sync_def)
  from Cons.IH [OF sync, of w1 "out @ plain"] Cons.prems(2) obtain rs t' p' w' where
    "wrap_all P (t\<lparr>t_encr_seq := t_encr_seq t + 1\<rparr>, w1) plains = (Inr (map rec_enc rs), t', w')"
    "\<forall>r \<in> set rs. rec_fits r"
    "run_recs (unwrap_record (lib P)) rs (out @ plain, p\<lparr>t_decr_seq := t_decr_seq p + 1\<rparr>) = (Inr (), (out @ plain) @ concat plains, p')"
    "in_sync t' p'" "t_encr_seq t' = t_encr_seq t + 1 + of_nat (length plains)"
    by auto
  then show ?case
    using wr step
    by (intro exI [of _ "(0x17, (3, 3), frag) # rs"] exI [of _ t'] exI [of _ p'] exI [of _ w']) (simp add: add.assoc)
qed

lemma channel_run:
  assumes "aead_doc (lib P)" "rand_doc P" "in_sync t p" "\<forall>plain \<in> set plains. length plain < 65512"
  shows "\<exists>recs t' p' w'. wrap_all P (t, w) plains = (Inr recs, t', w')
    \<and> verimark_tls_unwrap (lib P) p (concat recs) = (Inr (concat plains), p') \<and> in_sync t' p'
    \<and> t_encr_seq t' = t_encr_seq t + of_nat (length plains)"
proof -
  from wrap_all_run [OF assms, of w "[]"] obtain rs t' p' w' where
    a: "wrap_all P (t, w) plains = (Inr (map rec_enc rs), t', w')" "\<forall>r \<in> set rs. rec_fits r"
    "run_recs (unwrap_record (lib P)) rs ([], p) = (Inr (), concat plains, p')" "in_sync t' p'"
    "t_encr_seq t' = t_encr_seq t + of_nat (length plains)" by auto
  have "verimark_tls_unwrap (lib P) p (concat (map rec_enc rs)) = (Inr (concat plains), p')"
    using rec_loop_enc [OF a(2), of "''unwrap''" "unwrap_record (lib P)" "[]" "([], p)"] a(3) assms(3)
    by (simp add: verimark_tls_unwrap_def in_sync_def)
  with a show ?thesis by blast
qed

text \<open>An alert stops the unwrapping, with the bytes of the alert in the error.\<close>

lemma unwrap_alert:
  assumes "t_established t" "rec_fits (0x15, v, frag)"
    and "verimark_tls_gcm_unwrap C (decr_key (t_keys t)) (decr_iv (t_keys t)) (t_decr_seq t) 0x15 frag = Inr dec"
  shows "verimark_tls_unwrap C t (rec_enc (0x15, v, frag) @ rest) =
    (Inl (Crypto_Error FAILED ''TLS alert received (level=%u descr=%u)''
            [if 0 < length dec then unat (dec ! 0) else 0, if 1 < length dec then unat (dec ! 1) else 0]),
     t\<lparr>t_decr_seq := t_decr_seq t + 1\<rparr>)"
proof -
  have "rec_header ''unwrap'' (rec_enc (0x15, v, frag) @ rest) 0 = Inr (0x15, frag)"
    using rec_header_enc [OF assms(2), of "''unwrap''" "[]" rest] by simp
  then show ?thesis
    using assms(1,3)
    by (simp add: verimark_tls_unwrap_def rec_loop.simps [of _ _ _ 0] unwrap_record_def Let_def VERIMARK_TLS_CT_APPDATA_def)
qed

lemma tls_close_closed: "\<not> t_established (fst (verimark_tls_close P io s))"
  by (auto simp: verimark_tls_close_def Let_def split: prod.splits sum.splits)

subsection \<open>Properties\<close>

text \<open>C22: The established channel delivers any sequence of messages: the records wrapped one after
  the other, unwrapped together at the other end, give the concatenation of the plaintexts, both
  ends agree on the next sequence number, and every record used a sequence number of its own.\<close>

theorem tls_channel_delivers:
  assumes "aead_doc (lib P)" "rand_doc P" "in_sync t p" "\<forall>plain \<in> set plains. length plain < 65512"
  shows "\<exists>recs t' p' w'. wrap_all P (t, w) plains = (Inr recs, t', w')
    \<and> verimark_tls_unwrap (lib P) p (concat recs) = (Inr (concat plains), p') \<and> in_sync t' p'
    \<and> t_encr_seq t' = t_encr_seq t + of_nat (length plains)"
  by (rule channel_run [OF assms])

definition sample_session :: tls where
  "sample_session = verimark_tls_new\<lparr>t_established := True\<rparr>"

lemma tls_channel_delivers_witness:
  "\<exists>recs t' p' w'. wrap_all sample (sample_session, world0) [[0x99, 0x01], [0x81]] = (Inr recs, t', w')
    \<and> verimark_tls_unwrap sample_crypto sample_session (concat recs) = (Inr [0x99, 0x01, 0x81], p')
    \<and> in_sync t' p' \<and> t_encr_seq t' = 2"
proof -
  have "in_sync sample_session sample_session"
    by (simp add: in_sync_def sample_session_def verimark_tls_new_def)
  from tls_channel_delivers [OF _ sample_rand this, of "[[0x99, 0x01], [0x81]]" world0] show ?thesis
    by (simp add: sample_crypto_docs sample_session_def verimark_tls_new_def)
qed

text \<open>An alert from the sensor on an established session is an error carrying its level and
  description, whatever follows it in the same reply; nothing of that reply is delivered.\<close>

lemma verimark_tls_unwrap_alert:
  assumes "t_established t" "rec_fits (0x15, v, frag)"
    and "verimark_tls_gcm_unwrap C (decr_key (t_keys t)) (decr_iv (t_keys t)) (t_decr_seq t) 0x15 frag = Inr dec"
  shows "verimark_tls_unwrap C t (rec_enc (0x15, v, frag) @ rest) =
    (Inl (Crypto_Error FAILED ''TLS alert received (level=%u descr=%u)''
            [if 0 < length dec then unat (dec ! 0) else 0, if 1 < length dec then unat (dec ! 1) else 0]),
     t\<lparr>t_decr_seq := t_decr_seq t + 1\<rparr>)"
  by (rule unwrap_alert [OF assms])

lemma verimark_tls_unwrap_alert_witness:
  "fst (verimark_tls_unwrap sample_crypto sample_session (rec_enc (0x15, (3, 3), replicate 8 0 @ [2, 40] @ replicate 16 0)))
    = Inl (Crypto_Error FAILED ''TLS alert received (level=%u descr=%u)'' [2, 40])"
  using verimark_tls_unwrap_alert [of sample_session "(3, 3)" "replicate 8 0 @ [2, 40] @ replicate 16 0" sample_crypto "[2, 40]" "[]"]
  by (simp add: sample_session_def rec_fits_def verimark_tls_gcm_unwrap_def sample_crypto_def)

end
