(* ===== verification/Moc_Send.thy ===== *)
theory Moc_Send
  imports Device Moc_Wire Tls_Session
begin

text \<open>
  \<open>verimark_moc_send\<close>: one match-on-chip command through the secure channel (wrap, control
  transfers, unwrap), which every operation of \<open>verimark-moc.c\<close> uses. The state is the device
  object and the world. \<open>None\<close> is ``no reply within the fuel''; \<open>moc_send_exchange\<close> shows that the
  fuel is enough.
\<close>

subsection \<open>Sequencing of asynchronous calls\<close>

definition bind_so :: "('a res \<times> 's) option \<Rightarrow> ('a \<Rightarrow> 's \<Rightarrow> ('b res \<times> 's) option) \<Rightarrow> ('b res \<times> 's) option" where
  "bind_so m f = (case m of None \<Rightarrow> None | Some (Inl e, s) \<Rightarrow> Some (Inl e, s) | Some (Inr a, s) \<Rightarrow> f a s)"

lemma bind_so_simps [simp]:
  "bind_so None f = None"
  "bind_so (Some (Inl e, s)) f = Some (Inl e, s)"
  "bind_so (Some (Inr a, s)) f = f a s"
  by (simp_all add: bind_so_def)

lemma bind_so_Some:
  "bind_so m f = Some (r, s') \<longleftrightarrow>
     (\<exists>e. m = Some (Inl e, s') \<and> r = Inl e) \<or> (\<exists>a s. m = Some (Inr a, s) \<and> f a s = Some (r, s'))"
  by (auto simp: bind_so_def split: option.splits sum.splits prod.splits)

lemma bind_so_total:
  "m \<noteq> None \<Longrightarrow> (\<And>a s. m = Some (Inr a, s) \<Longrightarrow> f a s \<noteq> None) \<Longrightarrow> bind_so m f \<noteq> None"
  by (auto simp: bind_so_def split: option.splits sum.splits)

subsection \<open>The combinator\<close>

definition VERIMARK_MOC_MIN_READ_BUDGET :: u64 where "VERIMARK_MOC_MIN_READ_BUDGET = 512"

definition moc_rd_u16le :: "bytes \<Rightarrow> nat \<Rightarrow> u16 res" where
  "moc_rd_u16le p off = bind_res (rd8 p off) (\<lambda>lo. bind_res (rd8 p (off + 1)) (\<lambda>hi. Inr (u16_of_le lo hi)))"

lemma moc_rd_u16le_ok [simp]: "off + 1 < length p \<Longrightarrow> moc_rd_u16le p off = Inr (u16_of_le (p ! off) (p ! (off + 1)))"
  by (simp add: moc_rd_u16le_def)

text \<open>What a callback receives: status and plaintext, or an error. When a guard of the TLS layer
  (\<open>g_return_val_if_fail (t != NULL, FALSE)\<close>) trips, the error is \<open>NULL\<close> and the callback
  sees status 0 and no bytes. An empty plaintext is a \<open>NULL\<close> pointer (\<open>moc_ptr\<close>).\<close>

type_synonym moc_reply = "(u16 \<times> bytes) res"

definition moc_ptr :: "bytes \<Rightarrow> bytes option" where
  "moc_ptr resp = (if resp = [] then None else Some resp)"

definition on_moc_raw_resp :: "crypto \<Rightarrow> bytes res \<Rightarrow> verimark \<times> 'w \<Rightarrow> moc_reply \<times> verimark \<times> 'w" where
  "on_moc_raw_resp C r = (\<lambda>(dev, w).
     (case r of
        Inl e \<Rightarrow> (Inl e, dev, w)
      | Inr response \<Rightarrow>
          (case d_tls dev of
             None \<Rightarrow> (Inr (0, []), dev, w)
           | Some t \<Rightarrow>
               (case verimark_tls_unwrap C t response of
                  (Inl e, t) \<Rightarrow> (Inl e, dev\<lparr>d_tls := Some t\<rparr>, w)
                | (Inr plain, t) \<Rightarrow>
                    (if 2 \<le> length plain then bind_res (moc_rd_u16le plain 0) (\<lambda>status. Inr (status, plain))
                     else Inr (0, plain), dev\<lparr>d_tls := Some t\<rparr>, w)))))"

definition moc_budget :: "u64 \<Rightarrow> u64" where
  "moc_budget resp_hint = max (resp_hint + 64) VERIMARK_MOC_MIN_READ_BUDGET"

definition verimark_moc_send :: "'w platform \<Rightarrow> bytes \<Rightarrow> u64 \<Rightarrow> verimark \<times> 'w \<Rightarrow> (moc_reply \<times> verimark \<times> 'w) option" where
  "verimark_moc_send P plain_cmd resp_hint = (\<lambda>(dev, w).
     (case d_tls dev of
        None \<Rightarrow> Some (Inr (0, []), dev, w)
      | Some t \<Rightarrow>
          (case verimark_tls_wrap P (t, w) plain_cmd of
             (Inl e, t, w) \<Rightarrow> Some (Inl e, dev\<lparr>d_tls := Some t\<rparr>, w)
           | (Inr record, t, w) \<Rightarrow>
               map_option (\<lambda>(r, w). on_moc_raw_resp (lib P) r (dev\<lparr>d_tls := Some t\<rparr>, w))
                 (verimark_cmd P (cmd_fuel (moc_budget resp_hint)) record (moc_budget resp_hint) w))))"

subsection \<open>What a send does\<close>

text \<open>The same without the command machine.\<close>

definition moc_exchange :: "'w platform \<Rightarrow> bytes \<Rightarrow> u64 \<Rightarrow> verimark \<times> 'w \<Rightarrow> moc_reply \<times> verimark \<times> 'w" where
  "moc_exchange P plain_cmd resp_hint = (\<lambda>(dev, w).
     (case d_tls dev of
        None \<Rightarrow> (Inr (0, []), dev, w)
      | Some t \<Rightarrow>
          (case verimark_tls_wrap P (t, w) plain_cmd of
             (Inl e, t, w) \<Rightarrow> (Inl e, dev\<lparr>d_tls := Some t\<rparr>, w)
           | (Inr record, t, w) \<Rightarrow>
               (case verimark_ctrl_cmd_sync P record (moc_budget resp_hint) w of
                  (r, w) \<Rightarrow> on_moc_raw_resp (lib P) r (dev\<lparr>d_tls := Some t\<rparr>, w)))))"

lemma tls_wrap_length:
  assumes "aead_doc (lib P)" "rand_doc P" "verimark_tls_wrap P (t, w) plain = (Inr record, t', w')"
  shows "length record \<le> length plain + 29"
proof (cases "t_established t")
  case True
  obtain nonce w1 where rnd: "rand_bytes P w 8 = (nonce, w1)" by fastforce
  from gcm_unwrap_wrap [OF assms(1) rand_docD [OF assms(2) rnd]] obtain frag where
    "verimark_tls_gcm_wrap (lib P) (encr_key (t_keys t)) (encr_iv (t_keys t)) (t_encr_seq t)
       VERIMARK_TLS_CT_APPDATA nonce plain = Inr frag" "length frag = length plain + 24" by blast
  then show ?thesis
    using assms(3) True rnd by (auto simp: verimark_tls_wrap_def rec_write_plain_def)
next
  case False
  then show ?thesis using assms(3) by (simp add: verimark_tls_wrap_def)
qed

lemma moc_send_exchange:
  assumes "fpi_ssm_doc (fpi P)" "aead_doc (lib P)" "rand_doc P" "length plain_cmd \<le> 65536"
  shows "verimark_moc_send P plain_cmd resp_hint s = Some (moc_exchange P plain_cmd resp_hint s)"
proof -
  have cmd: "verimark_cmd P (cmd_fuel m) rcd m w = Some (verimark_ctrl_cmd_sync P rcd m w)"
    if "verimark_tls_wrap P (t, v) plain_cmd = (Inr rcd, t', w')" for t v rcd t' w' m w
  proof (rule verimark_cmd_sync [OF assms(1) _ order_refl])
    show "length rcd + 8 \<le> 2 ^ 63"
      using tls_wrap_length [OF assms(2,3) that] assms(4) by simp
  qed
  show ?thesis
    by (cases s)
      (auto simp: verimark_moc_send_def moc_exchange_def cmd split: option.split prod.split sum.split)
qed

lemma raw_resp_dev: "on_moc_raw_resp C r (dev, w) = (q, dev', w') \<Longrightarrow> w' = w \<and> (\<exists>t. dev' = dev\<lparr>d_tls := t\<rparr>)"
  by (cases dev) (auto simp: on_moc_raw_resp_def split: sum.split_asm option.split_asm prod.split_asm)

lemma moc_send_dev:
  assumes "verimark_moc_send P plain_cmd resp_hint (dev, w) = Some (q, dev', w')"
  shows "\<exists>t. dev' = dev\<lparr>d_tls := t\<rparr>"
proof -
  have "\<exists>t. dev = dev\<lparr>d_tls := t\<rparr>" by (cases dev) auto
  with assms show ?thesis
    by (auto simp: verimark_moc_send_def split: option.split_asm prod.split_asm sum.split_asm dest!: raw_resp_dev)
qed

text \<open>A command neither reads nor changes the pointer to the running machine.\<close>

lemma task_commute: "dev\<lparr>task_ssm := m, d_tls := t\<rparr> = dev\<lparr>d_tls := t, task_ssm := m\<rparr>"
  by simp

lemma raw_resp_task:
  "on_moc_raw_resp C r (dev\<lparr>task_ssm := m\<rparr>, w) = (\<lambda>(q, dev', w'). (q, dev'\<lparr>task_ssm := m\<rparr>, w')) (on_moc_raw_resp C r (dev, w))"
  by (auto simp: on_moc_raw_resp_def Let_def task_commute split: option.split prod.split sum.split)

lemma moc_send_task:
  "verimark_moc_send P cmd hint (dev\<lparr>task_ssm := m\<rparr>, w) =
     map_option (\<lambda>(r, dev', w'). (r, dev'\<lparr>task_ssm := m\<rparr>, w')) (verimark_moc_send P cmd hint (dev, w))"
  by (auto simp: verimark_moc_send_def Let_def task_commute raw_resp_task option.map_comp comp_def split_beta
      intro!: map_option_cong split: option.split sum.split)

lemma raw_resp_in_bounds [in_bounds]:
  assumes "in_buffer r"
  shows "in_buffer (fst (on_moc_raw_resp C r s))"
proof -
  have "\<not> defect e" if "verimark_tls_unwrap C t response = (Inl e, t')" for e t response t'
    using unwrap_in_bounds [of C t response] that by simp
  moreover have "in_buffer (bind_res (moc_rd_u16le plain 0) (\<lambda>status. Inr (status, plain)))"
    if "2 \<le> length plain" for plain
    using that by simp
  ultimately show ?thesis
    using assms by (auto simp: on_moc_raw_resp_def split: option.split prod.split sum.split)
qed

subsection \<open>Through the secure channel\<close>

text \<open>The status word a callback sees for a reply.\<close>

definition reply_status :: "bytes \<Rightarrow> u16" where
  "reply_status resp = (if 2 \<le> length resp then u16_of_le (resp ! 0) (resp ! 1) else 0)"

text \<open>The other end of the channel: what it answers to a record, when \<open>app\<close> is what its application,
  in state \<open>a\<close>, does with the command, and \<open>p\<close> is its session.\<close>

definition peer_step :: "crypto \<Rightarrow> bytes \<Rightarrow> ('a \<Rightarrow> bytes \<Rightarrow> bytes \<times> 'a) \<Rightarrow> 'a \<times> tls \<Rightarrow> bytes \<Rightarrow> bytes \<times> 'a \<times> tls" where
  "peer_step C nonce app = (\<lambda>(a, p) rcd.
     case verimark_tls_unwrap C p rcd of
       (Inl e, p) \<Rightarrow> ([], a, p)
     | (Inr cmd, p) \<Rightarrow>
         let (resp, a) = app a cmd
         in (case verimark_tls_gcm_wrap C (encr_key (t_keys p)) (encr_iv (t_keys p)) (t_encr_seq p)
                    VERIMARK_TLS_CT_APPDATA nonce resp of
               Inl e \<Rightarrow> ([], a, p)
             | Inr frag \<Rightarrow> (rec_write_plain [] VERIMARK_TLS_CT_APPDATA frag, a, p\<lparr>t_encr_seq := t_encr_seq p + 1\<rparr>)))"

text \<open>One command, for an application without a state.\<close>

definition peer_reply :: "crypto \<Rightarrow> (bytes \<Rightarrow> bytes) \<Rightarrow> bytes \<Rightarrow> tls \<Rightarrow> bytes \<Rightarrow> bytes" where
  "peer_reply C app nonce p rcd = fst (peer_step C nonce (\<lambda>a cmd. (app cmd, a)) ((), p) rcd)"

lemma unwrap_wrapped:
  assumes "t_established t" "length plain < 65512" "length frag = length plain + 24"
    and "verimark_tls_gcm_unwrap C (decr_key (t_keys t)) (decr_iv (t_keys t)) (t_decr_seq t) 0x17 frag = Inr plain"
  shows "verimark_tls_unwrap C t (rec_write_plain [] VERIMARK_TLS_CT_APPDATA frag) =
    (Inr plain, t\<lparr>t_decr_seq := t_decr_seq t + 1\<rparr>)"
proof -
  have fits: "rec_fits (0x17, (3, 3), frag)" using assms(2,3) by (simp add: rec_fits_def)
  have "rec_loop ''unwrap'' (unwrap_record C) (concat (map rec_enc [(0x17, (3, 3), frag)])) 0 ([], t)
      = (Inr (), plain, t\<lparr>t_decr_seq := t_decr_seq t + 1\<rparr>)"
    using rec_loop_enc [of "[(0x17, (3, 3), frag)]" "''unwrap''" "unwrap_record C" "[]" "([], t)"] fits assms(4)
    by (simp add: unwrap_record_def VERIMARK_TLS_CT_APPDATA_def)
  then show ?thesis
    using assms(1,3) by (simp add: verimark_tls_unwrap_def rec_write_plain_enc VERIMARK_TLS_CT_APPDATA_def)
qed

lemma moc_budget_bounds:
  assumes "unat hint + 64 < 2 ^ 64"
  shows "unat hint + 64 \<le> unat (moc_budget hint)" "512 \<le> unat (moc_budget hint)" "max (moc_budget hint) 1 = moc_budget hint"
proof -
  have h: "unat (hint + 64) = unat hint + 64" using assms by (simp add: unat_add_u64)
  show "unat hint + 64 \<le> unat (moc_budget hint)" "512 \<le> unat (moc_budget hint)"
    using h by (simp_all add: moc_budget_def VERIMARK_MOC_MIN_READ_BUDGET_def max_def word_le_nat_alt)
  then show "max (moc_budget hint) 1 = moc_budget hint"
    by (simp add: max_def word_le_nat_alt)
qed

lemma moc_exchange_peer:
  assumes "aead_doc (lib P)" "rand_doc P" "length nonce = 8"
    and "d_tls dev = Some t" "in_sync t p" "in_sync p t"
    and "length cmd \<le> 32739" "unat hint + 64 < 2 ^ 64"
    and "app a cmd = (resp, a')" "length resp + 29 \<le> max (unat hint + 64) 512" "length resp < 65512"
    and io: "\<And>rcd t1 w1 out ap'. verimark_tls_wrap P (t, w) cmd = (Inr rcd, t1, w1) \<Longrightarrow> length rcd = length cmd + 29
      \<Longrightarrow> peer_step (lib P) nonce app (a, p) rcd = (out, ap')
      \<Longrightarrow> \<exists>w2. verimark_ctrl_cmd_sync P rcd (moc_budget hint) w1 = (Inr (take (unat (moc_budget hint)) out), w2) \<and> Q ap' w2"
  shows "\<exists>w'. moc_exchange P cmd hint (dev, w) =
      (Inr (reply_status resp, resp),
       dev\<lparr>d_tls := Some (t\<lparr>t_encr_seq := t_encr_seq t + 1, t_decr_seq := t_decr_seq t + 1\<rparr>)\<rparr>, w')
    \<and> Q (a', p\<lparr>t_decr_seq := t_decr_seq p + 1, t_encr_seq := t_encr_seq p + 1\<rparr>) w'"
proof -
  let ?t = "t\<lparr>t_encr_seq := t_encr_seq t + 1\<rparr>" and ?p = "p\<lparr>t_decr_seq := t_decr_seq p + 1\<rparr>"
  have sync: "t_established t" "t_established p" "decr_key (t_keys p) = encr_key (t_keys t)"
    "decr_iv (t_keys p) = encr_iv (t_keys t)" "t_decr_seq p = t_encr_seq t"
    "decr_key (t_keys t) = encr_key (t_keys p)" "decr_iv (t_keys t) = encr_iv (t_keys p)" "t_decr_seq t = t_encr_seq p"
    using assms(5,6) by (simp_all add: in_sync_def)
  have "length cmd < 65512" using assms(7) by simp
  from wrap_established [OF assms(1,2) sync(1) this, of w] obtain frag w1 where
    wr: "verimark_tls_wrap P (t, w) cmd = (Inr (rec_enc (0x17, (3, 3), frag)), ?t, w1)" "rec_fits (0x17, (3, 3), frag)"
    "verimark_tls_gcm_unwrap (lib P) (encr_key (t_keys t)) (encr_iv (t_keys t)) (t_encr_seq t) 0x17 frag = Inr cmd" .
  have frag: "length frag = length cmd + 24" by (rule gcm_unwrap_length [OF assms(1) wr(3)])
  have enc: "rec_enc (0x17, (3, 3), frag) = rec_write_plain [] VERIMARK_TLS_CT_APPDATA frag"
    by (simp add: rec_write_plain_enc VERIMARK_TLS_CT_APPDATA_def)
  from gcm_unwrap_wrap [OF assms(1,3)] obtain frag2 where rep:
    "verimark_tls_gcm_wrap (lib P) (encr_key (t_keys p)) (encr_iv (t_keys p)) (t_encr_seq p) 0x17 nonce resp = Inr frag2"
    "length frag2 = length resp + 24"
    "verimark_tls_gcm_unwrap (lib P) (encr_key (t_keys p)) (encr_iv (t_keys p)) (t_encr_seq p) 0x17 frag2 = Inr resp"
    by blast
  have "verimark_tls_unwrap (lib P) p (rec_enc (0x17, (3, 3), frag)) = (Inr cmd, ?p)"
    unfolding enc by (rule unwrap_wrapped) (use sync wr(3) frag assms(7) in simp_all)
  then have reply: "peer_step (lib P) nonce app (a, p) (rec_enc (0x17, (3, 3), frag)) =
      (rec_write_plain [] VERIMARK_TLS_CT_APPDATA frag2, a', ?p\<lparr>t_encr_seq := t_encr_seq p + 1\<rparr>)"
    using rep(1) assms(9) by (simp add: peer_step_def VERIMARK_TLS_CT_APPDATA_def)
  have "length (rec_enc (0x17, (3, 3), frag)) = length cmd + 29" using frag by (simp add: rec_enc_def)
  from io [OF wr(1) this reply] obtain w2 where io: "verimark_ctrl_cmd_sync P (rec_enc (0x17, (3, 3), frag)) (moc_budget hint) w1 =
      (Inr (take (unat (moc_budget hint)) (rec_write_plain [] VERIMARK_TLS_CT_APPDATA frag2)), w2)"
    "Q (a', ?p\<lparr>t_encr_seq := t_encr_seq p + 1\<rparr>) w2" by blast
  have "length (rec_write_plain [] VERIMARK_TLS_CT_APPDATA frag2) \<le> unat (moc_budget hint)"
    using moc_budget_bounds(1,2) [OF assms(8)] assms(10) rep(2) by (simp add: rec_write_plain_def)
  then have "take (unat (moc_budget hint)) (rec_write_plain [] VERIMARK_TLS_CT_APPDATA frag2) =
      rec_write_plain [] VERIMARK_TLS_CT_APPDATA frag2" by simp
  moreover have "verimark_tls_unwrap (lib P) ?t (rec_write_plain [] VERIMARK_TLS_CT_APPDATA frag2) =
      (Inr resp, ?t\<lparr>t_decr_seq := t_decr_seq ?t + 1\<rparr>)"
    by (rule unwrap_wrapped) (use sync rep assms(11) in simp_all)
  ultimately show ?thesis
    using assms(4) wr(1) io by (simp add: moc_exchange_def on_moc_raw_resp_def reply_status_def)
qed

lemma wrap_keeps:
  assumes "\<And>v n. g (snd (rand_bytes P v n)) = g v" "verimark_tls_wrap P (t, w) cmd = (r, t', w')"
  shows "g w' = g w"
proof -
  obtain nonce w1 where "rand_bytes P w 8 = (nonce, w1)" by fastforce
  with assms(1) [of w 8] assms(2) show ?thesis
    by (auto simp: verimark_tls_wrap_def bind_st_def split: if_split_asm sum.split_asm)
qed

lemma moc_exchange_channel:
  assumes "aead_doc (lib P)" "rand_doc P" "length nonce = 8"
    and "d_tls dev = Some t" "in_sync t p" "in_sync p t"
    and "command_device P rx pend busy (peer_reply (lib P) app nonce p)" "rx w = []"
    and "\<And>v n. rx (snd (rand_bytes P v n)) = rx v"
    and "length cmd \<le> 32739" "unat hint + 64 < 2 ^ 64"
    and "length (app cmd) + 29 \<le> max (unat hint + 64) 512" "length (app cmd) < 65512"
  shows "\<exists>w'. moc_exchange P cmd hint (dev, w) =
      (Inr (reply_status (app cmd), app cmd),
       dev\<lparr>d_tls := Some (t\<lparr>t_encr_seq := t_encr_seq t + 1, t_decr_seq := t_decr_seq t + 1\<rparr>)\<rparr>, w')"
proof -
  have "\<exists>w2. verimark_ctrl_cmd_sync P rcd (moc_budget hint) w1 = (Inr (take (unat (moc_budget hint)) out), w2) \<and> True"
    if "verimark_tls_wrap P (t, w) cmd = (Inr rcd, t1, w1)" "length rcd = length cmd + 29"
      "peer_step (lib P) nonce (\<lambda>a cmd. (app cmd, a)) ((), p) rcd = (out, ap')" for rcd t1 w1 out ap'
    using ctrl_cmd_sync_device [OF assms(7), of w1 rcd "moc_budget hint"] wrap_keeps [of rx, OF assms(9) that(1)] assms(8,10) that(2,3)
    by (simp add: peer_reply_def moc_budget_bounds(3) [OF assms(11)])
  from moc_exchange_peer [where app = "\<lambda>a cmd. (app cmd, a)" and a = "()" and Q = "\<lambda>_ _. True",
      OF assms(1-6,10,11) refl assms(12,13) this]
  show ?thesis by simp
qed

subsection \<open>Properties\<close>

text \<open>A match-on-chip command is a procedure call over the secure channel: on an established
  session in step with the sensor's, through chunked control transfers and not-ready answers, the
  caller gets exactly the bytes the sensor's application computes from exactly the command sent,
  with their first two as the status, and the two sessions stay in step.\<close>

lemma verimark_moc_send_call:
  assumes "fpi_ssm_doc (fpi P)" "aead_doc (lib P)" "rand_doc P" "length nonce = 8"
    and "d_tls dev = Some t" "in_sync t p" "in_sync p t"
    and "command_device P rx pend busy (peer_reply (lib P) app nonce p)" "rx w = []"
    and "\<And>v n. rx (snd (rand_bytes P v n)) = rx v"
    and "length cmd \<le> 32739" "unat hint + 64 < 2 ^ 64"
    and "length (app cmd) + 29 \<le> max (unat hint + 64) 512" "length (app cmd) < 65512"
  shows "\<exists>w' t' p'. verimark_moc_send P cmd hint (dev, w) =
      Some (Inr (if 2 \<le> length (app cmd) then u16_of_le (app cmd ! 0) (app cmd ! 1) else 0, app cmd),
        dev\<lparr>d_tls := Some t'\<rparr>, w')
    \<and> p' = p\<lparr>t_decr_seq := t_decr_seq p + 1, t_encr_seq := t_encr_seq p + 1\<rparr> \<and> in_sync t' p' \<and> in_sync p' t'"
proof -
  let ?t = "t\<lparr>t_encr_seq := t_encr_seq t + 1, t_decr_seq := t_decr_seq t + 1\<rparr>"
  let ?p = "p\<lparr>t_decr_seq := t_decr_seq p + 1, t_encr_seq := t_encr_seq p + 1\<rparr>"
  have "in_sync ?t ?p" "in_sync ?p ?t" using assms(6,7) by (simp_all add: in_sync_def)
  moreover have "length cmd \<le> 65536" using assms(11) by simp
  ultimately show ?thesis
    using moc_exchange_channel [OF assms(2-14)] moc_send_exchange [OF assms(1-3), of cmd hint "(dev, w)"]
    unfolding reply_status_def by metis
qed

definition sample_open :: verimark where
  "sample_open = dev_init\<lparr>d_iface := VERIMARK_IFACE, d_ep_intr_in := VERIMARK_EP_INTR_IN, d_tls := Some sample_session\<rparr>"

text \<open>A sensor that answers a command with its reverse.\<close>

definition secure_device :: "world platform" where
  "secure_device = sample\<lparr>ctrl_out := \<lambda>w req v data.
     (Inr (), w\<lparr>w_sent := w_sent w @ [(v, data)], w_busy := 3,
        w_pend := peer_reply sample_crypto rev (replicate 8 3) sample_session (reassemble (w_sent w @ [(v, data)]))\<rparr>)\<rparr>"

lemma secure_command_device:
  "command_device secure_device w_sent w_pend w_busy
     (peer_reply (lib secure_device) rev (replicate 8 3) sample_session)"
  by (auto simp: command_device_def responder_def secure_device_def sample_def)

lemma verimark_moc_send_call_witness:
  "\<exists>s'. verimark_moc_send secure_device [0x99, 0x01, 0] 2 (sample_open, world0) = Some (Inr (0x0100, [0, 0x01, 0x99]), s')"
proof -
  have docs: "fpi_ssm_doc (fpi secure_device)" "aead_doc (lib secure_device)" "rand_doc secure_device"
    using sample_crypto_docs(2) sample_ssm_doc by (simp_all add: secure_device_def rand_doc_def sample_def)
  have sync: "in_sync sample_session sample_session"
    by (simp add: in_sync_def sample_session_def verimark_tls_new_def)
  have dev: "d_tls sample_open = Some sample_session" by (simp add: sample_open_def)
  have "w_sent world0 = []" "\<And>v n. w_sent (snd (rand_bytes secure_device v n)) = w_sent v"
    by (simp_all add: world0_def secure_device_def sample_def)
  from verimark_moc_send_call [OF docs _ dev sync sync secure_command_device this, of "[0x99, 0x01, 0]" 2]
  show ?thesis by (auto simp: u16_of_le_def)
qed

end
