(* ===== verification/Capture.thy ===== *)
theory Capture
  imports Moc_Send
begin

text \<open>
  The capture machine of \<open>verimark-moc.c\<close>: arm the press events, wait for a press, arm the
  frame-ready event, trigger the acquisition, poll \<open>EVENT_READ\<close> until the frame is ready or its
  deadline has passed, clear the events, finish the frame. It is shown to be the straight-line
  procedure \<open>capture_spec\<close>, and to end.
\<close>

subsection \<open>The machine\<close>

definition VERIMARK_CAPTURE_PRESS_TIMEOUT_MS :: nat where "VERIMARK_CAPTURE_PRESS_TIMEOUT_MS = 30000"
definition VERIMARK_CAPTURE_FRAME_TIMEOUT_MS :: nat where "VERIMARK_CAPTURE_FRAME_TIMEOUT_MS = 4000"
definition VERIMARK_CAPTURE_FRAME_POLL_DELAY_MS :: nat where "VERIMARK_CAPTURE_FRAME_POLL_DELAY_MS = 15"
definition VERIMARK_EVT_FINGER_PRESS :: byte where "VERIMARK_EVT_FINGER_PRESS = 0x01"
definition VERIMARK_EVT_FRAME_READY :: byte where "VERIMARK_EVT_FRAME_READY = 0x18"
definition VERIMARK_EVTREAD_NOTREADY_LO :: u16 where "VERIMARK_EVTREAD_NOTREADY_LO = 0x0405"
definition VERIMARK_EVTREAD_NOTREADY_HI :: u16 where "VERIMARK_EVTREAD_NOTREADY_HI = 0x0407"
definition VERIMARK_EVTMASK_FINGER :: u32 where "VERIMARK_EVTMASK_FINGER = 0x6"
definition VERIMARK_EVTMASK_FRAME :: u32 where "VERIMARK_EVTMASK_FRAME = 0x01000000"
definition VERIMARK_EVTMASK_NONE :: u32 where "VERIMARK_EVTMASK_NONE = 0"
definition VERIMARK_EVENT_CONFIG_RESP_LEN :: nat where "VERIMARK_EVENT_CONFIG_RESP_LEN = 0x42"
definition VERIMARK_EVENT_READ_RESP_LEN :: nat where "VERIMARK_EVENT_READ_RESP_LEN = 390"
definition VERIMARK_ACQ_ENROLL :: byte where "VERIMARK_ACQ_ENROLL = 0x0c"
definition VERIMARK_ACQ_VERIFY :: byte where "VERIMARK_ACQ_VERIFY = 0x14"

abbreviation (input) CAP_ARM_PRESS :: nat where "CAP_ARM_PRESS \<equiv> 0"
abbreviation (input) CAP_WAIT_PRESS :: nat where "CAP_WAIT_PRESS \<equiv> 1"
abbreviation (input) CAP_ARM_FRAME :: nat where "CAP_ARM_FRAME \<equiv> 2"
abbreviation (input) CAP_FRAME_ACQ :: nat where "CAP_FRAME_ACQ \<equiv> 3"
abbreviation (input) CAP_WAIT_FRAME :: nat where "CAP_WAIT_FRAME \<equiv> 4"
abbreviation (input) CAP_EVENT_CLEAR :: nat where "CAP_EVENT_CLEAR \<equiv> 5"
abbreviation (input) CAP_FRAME_FINISH :: nat where "CAP_FRAME_FINISH \<equiv> 6"
abbreviation (input) CAP_N_STATES :: nat where "CAP_N_STATES \<equiv> 7"

text \<open>\<open>VerimarkCaptureCtx\<close>\<close>

record cap_ctx =
  acq_kind :: byte
  frame_deadline_us :: int
  frame_got :: bool

type_synonym 'w cap_state = "cap_ctx \<times> verimark \<times> 'w"

definition on_cap_event_config_done :: "cap_ctx \<Rightarrow> moc_reply \<Rightarrow> verimark \<times> 'w \<Rightarrow> ssm_call \<times> 'w cap_state" where
  "on_cap_event_config_done ctx r = (\<lambda>(dev, w).
     case r of
       Inl e \<Rightarrow> (Mark_Failed e, ctx, dev, w)
     | Inr (status, resp) \<Rightarrow>
         if VERIMARK_EVENT_CONFIG_RESP_LEN \<le> length resp then
           (case moc_rd_u16le resp 64 of
              Inl e \<Rightarrow> (Mark_Failed e, ctx, dev, w)
            | Inr s \<Rightarrow> (Next_State, ctx, dev\<lparr>event_seq_num := s\<rparr>, w))
         else (Next_State, ctx, dev, w))"

definition on_cap_wait_press_done :: "cap_ctx \<Rightarrow> (bool \<times> byte) res \<Rightarrow> verimark \<times> 'w \<Rightarrow> ssm_call \<times> 'w cap_state" where
  "on_cap_wait_press_done ctx r = (\<lambda>(dev, w).
     case r of
       Inl e \<Rightarrow> (Mark_Failed e, ctx, dev, w)
     | Inr (press, s) \<Rightarrow>
         if \<not> press then (Mark_Failed (Device_Retry ''no finger detected''), ctx, dev, w)
         else (Next_State, ctx, dev, w))"

definition on_cap_frame_acq_done :: "'w platform \<Rightarrow> cap_ctx \<Rightarrow> moc_reply \<Rightarrow> verimark \<times> 'w \<Rightarrow> ssm_call \<times> 'w cap_state" where
  "on_cap_frame_acq_done P ctx r = (\<lambda>(dev, w).
     case r of
       Inl e \<Rightarrow> (Mark_Failed e, ctx, dev, w)
     | Inr _ \<Rightarrow>
         let (now, w) = mono_time P w
         in (Next_State, ctx\<lparr>frame_deadline_us := now + int VERIMARK_CAPTURE_FRAME_TIMEOUT_MS * 1000\<rparr>, dev, w))"

text \<open>The \<open>for\<close> loop over the event records of an \<open>EVENT_READ\<close> reply.\<close>

function scan_events :: "bytes \<Rightarrow> nat \<Rightarrow> nat \<Rightarrow> bool \<Rightarrow> bool res" where
  "scan_events resp num_evts i saw =
     (if i < num_evts \<and> 6 + (i + 1) * 12 \<le> length resp
      then bind_res (rd8 resp (6 + i * 12)) (\<lambda>b. scan_events resp num_evts (i + 1) (saw \<or> b = VERIMARK_EVT_FRAME_READY))
      else Inr saw)"
  by pat_completeness auto
termination by (relation "measure (\<lambda>(resp, num_evts, i, saw). num_evts - i)") auto

declare scan_events.simps [simp del]

definition cap_keep_polling :: "cap_ctx \<Rightarrow> bool \<Rightarrow> verimark \<times> 'w \<Rightarrow> ssm_call \<times> 'w cap_state" where
  "cap_keep_polling ctx past_deadline s =
     (if past_deadline then (Next_State, ctx\<lparr>frame_got := False\<rparr>, s)
      else (Jump_To_State_Delayed CAP_WAIT_FRAME VERIMARK_CAPTURE_FRAME_POLL_DELAY_MS, ctx, s))"

definition on_cap_wait_frame_done :: "'w platform \<Rightarrow> cap_ctx \<Rightarrow> moc_reply \<Rightarrow> verimark \<times> 'w \<Rightarrow> ssm_call \<times> 'w cap_state" where
  "on_cap_wait_frame_done P ctx r = (\<lambda>(dev, w).
     case r of
       Inl e \<Rightarrow> (Mark_Failed e, ctx, dev, w)
     | Inr (status, resp) \<Rightarrow>
         let (now, w) = mono_time P w; past_deadline = frame_deadline_us ctx \<le> now
         in if VERIMARK_EVTREAD_NOTREADY_LO \<le> status \<and> status \<le> VERIMARK_EVTREAD_NOTREADY_HI
            then cap_keep_polling ctx past_deadline (dev, w)
            else if status \<noteq> 0x0000
            then (Mark_Failed (Device_Error DEVICE_PROTO ''EVENT_READ status 0x%04x'' [unat status]), ctx, dev, w)
            else if 6 \<le> length resp then
              (case bind_res (moc_rd_u16le resp 2) (\<lambda>num_evts.
                    bind_res (scan_events resp (unat num_evts) 0 False) (\<lambda>saw. Inr (num_evts, saw))) of
                 Inl e \<Rightarrow> (Mark_Failed e, ctx, dev, w)
               | Inr (num_evts, saw_frame_ready) \<Rightarrow>
                   let dev = dev\<lparr>event_seq_num := event_seq_num dev + num_evts\<rparr>
                   in if saw_frame_ready then (Next_State, ctx\<lparr>frame_got := True\<rparr>, dev, w)
                      else cap_keep_polling ctx past_deadline (dev, w))
            else cap_keep_polling ctx past_deadline (dev, w))"

definition on_cap_frame_finish_done :: "cap_ctx \<Rightarrow> moc_reply \<Rightarrow> verimark \<times> 'w \<Rightarrow> ssm_call \<times> 'w cap_state" where
  "on_cap_frame_finish_done ctx r = (\<lambda>(dev, w).
     case r of
       Inl e \<Rightarrow> (Mark_Failed e, ctx, dev, w)
     | Inr _ \<Rightarrow>
         if frame_got ctx then (Mark_Completed, ctx, dev, w)
         else (Mark_Failed (Device_Retry ''no usable frame (0x18 not observed)''), ctx, dev, w))"

text \<open>The wait for a press gets enough fuel for its 30 s: one read per microsecond.\<close>

definition press_fuel :: nat where
  "press_fuel = VERIMARK_CAPTURE_PRESS_TIMEOUT_MS * 1000 + 1"

definition cap_wait_press :: "'w platform \<Rightarrow> verimark \<times> 'w \<Rightarrow> ((bool \<times> byte) res \<times> verimark \<times> 'w) option" where
  "cap_wait_press P = (\<lambda>(dev, w).
     map_option (\<lambda>(r, w). (r, dev, w))
       (verimark_intr_wait_async P press_fuel (d_ep_intr_in dev) VERIMARK_EVT_FINGER_PRESS
          VERIMARK_CAPTURE_PRESS_TIMEOUT_MS w))"

definition cap_send_config :: "'w platform \<Rightarrow> u32 \<Rightarrow> verimark \<times> 'w \<Rightarrow> (moc_reply \<times> verimark \<times> 'w) option" where
  "cap_send_config P m = verimark_moc_send P (build_event_config m) (of_nat VERIMARK_EVENT_CONFIG_RESP_LEN)"

definition cap_step :: "'w platform \<Rightarrow> nat \<Rightarrow> 'w cap_state \<Rightarrow> (ssm_call \<times> 'w cap_state) option" where
  "cap_step P st = (\<lambda>(ctx, dev, w).
     if st = CAP_ARM_PRESS then
       map_option (\<lambda>(r, s). on_cap_event_config_done ctx r s) (cap_send_config P VERIMARK_EVTMASK_FINGER (dev, w))
     else if st = CAP_WAIT_PRESS then
       map_option (\<lambda>(r, s). on_cap_wait_press_done ctx r s) (cap_wait_press P (dev, w))
     else if st = CAP_ARM_FRAME then
       map_option (\<lambda>(r, s). on_cap_event_config_done ctx r s) (cap_send_config P VERIMARK_EVTMASK_FRAME (dev, w))
     else if st = CAP_FRAME_ACQ then
       map_option (\<lambda>(r, s). on_cap_frame_acq_done P ctx r s)
         (verimark_moc_send P (verimark_moc_build_frame_acq (acq_kind ctx)) 2 (dev, w))
     else if st = CAP_WAIT_FRAME then
       map_option (\<lambda>(r, s). on_cap_wait_frame_done P ctx r s)
         (verimark_moc_send P (build_event_read (event_seq_num dev)) (of_nat VERIMARK_EVENT_READ_RESP_LEN) (dev, w))
     else if st = CAP_EVENT_CLEAR then
       map_option (\<lambda>(r, s). on_cap_event_config_done ctx r s) (cap_send_config P VERIMARK_EVTMASK_NONE (dev, w))
     else if st = CAP_FRAME_FINISH then
       map_option (\<lambda>(r, s). on_cap_frame_finish_done ctx r s)
         (verimark_moc_send P verimark_moc_build_frame_finish 2 (dev, w))
     else Some (Mark_Failed Assert_Not_Reached, ctx, dev, w))"

definition dev_delay :: "'w platform \<Rightarrow> nat \<Rightarrow> 'c \<times> verimark \<times> 'w \<Rightarrow> 'c \<times> verimark \<times> 'w" where
  "dev_delay P ms = (\<lambda>(c, dev, w). (c, dev, pause_us P (1000 * ms) w))"

text \<open>268 polls are enough for the frame window, and the other states are entered once.\<close>

definition cap_polls :: nat where "cap_polls = 268"

abbreviation cap_run :: "'w platform \<Rightarrow> nat \<Rightarrow> nat \<Rightarrow> 'w cap_state \<Rightarrow> (unit res \<times> verimark \<times> 'w) option" where
  "cap_run P fuel st s \<equiv> map_option (\<lambda>(r, ctx, s). (r, s))
     (ssm_run (fpi P) (dev_delay P) CAP_N_STATES (cap_step P) fuel st s)"

definition verimark_moc_capture :: "'w platform \<Rightarrow> byte \<Rightarrow> verimark \<times> 'w \<Rightarrow> (unit res \<times> verimark \<times> 'w) option" where
  "verimark_moc_capture P kind s =
     cap_run P (6 + cap_polls) CAP_ARM_PRESS (\<lparr>acq_kind = kind, frame_deadline_us = 0, frame_got = False\<rparr>, s)"

subsection \<open>The procedure the machine implements\<close>

text \<open>One call after the other, the first error ending it.\<close>

definition cap_arm :: "'w platform \<Rightarrow> u32 \<Rightarrow> verimark \<times> 'w \<Rightarrow> (unit res \<times> verimark \<times> 'w) option" where
  "cap_arm P m s =
     bind_so (cap_send_config P m s) (\<lambda>(status, resp) (dev, w).
       Some (Inr (), if 66 \<le> length resp then dev\<lparr>event_seq_num := u16_of_le (resp ! 64) (resp ! 65)\<rparr> else dev, w))"

definition cap_press :: "'w platform \<Rightarrow> verimark \<times> 'w \<Rightarrow> (unit res \<times> verimark \<times> 'w) option" where
  "cap_press P s =
     bind_so (cap_wait_press P s) (\<lambda>(press, _) s.
       Some (if press then Inr () else Inl (Device_Retry ''no finger detected''), s))"

definition cap_acquire :: "'w platform \<Rightarrow> byte \<Rightarrow> verimark \<times> 'w \<Rightarrow> (int res \<times> verimark \<times> 'w) option" where
  "cap_acquire P kind s =
     bind_so (verimark_moc_send P (verimark_moc_build_frame_acq kind) 2 s) (\<lambda>_ (dev, w).
       let (now, w) = mono_time P w in Some (Inr (now + 4000000), dev, w))"

text \<open>What an \<open>EVENT_READ\<close> reply says: how many events, and whether one of those it carries is
  the frame-ready event.\<close>

definition frame_events :: "bytes \<Rightarrow> u16" where
  "frame_events resp = (if 6 \<le> length resp then u16_of_le (resp ! 2) (resp ! 3) else 0)"

definition frame_ready :: "bytes \<Rightarrow> bool" where
  "frame_ready resp \<longleftrightarrow>
     list_ex (\<lambda>i. 6 + (i + 1) * 12 \<le> length resp \<and> resp ! (6 + i * 12) = VERIMARK_EVT_FRAME_READY)
       [0..<unat (frame_events resp)]"

fun cap_poll :: "'w platform \<Rightarrow> nat \<Rightarrow> int \<Rightarrow> verimark \<times> 'w \<Rightarrow> (bool res \<times> verimark \<times> 'w) option" where
  "cap_poll P 0 deadline s = None"
| "cap_poll P (Suc n) deadline s =
     bind_so (verimark_moc_send P (build_event_read (event_seq_num (fst s))) 390 s) (\<lambda>(status, resp) (dev, w).
       let (now, w) = mono_time P w
       in if status \<noteq> 0 \<and> \<not> (0x0405 \<le> status \<and> status \<le> 0x0407)
          then Some (Inl (Device_Error DEVICE_PROTO ''EVENT_READ status 0x%04x'' [unat status]), dev, w)
          else
            let dev = (if status = 0 then dev\<lparr>event_seq_num := event_seq_num dev + frame_events resp\<rparr> else dev)
            in if status = 0 \<and> frame_ready resp then Some (Inr True, dev, w)
               else if deadline \<le> now then Some (Inr False, dev, w)
               else cap_poll P n deadline (dev, pause_us P 15000 w))"

definition cap_end :: "'w platform \<Rightarrow> bool \<Rightarrow> verimark \<times> 'w \<Rightarrow> (unit res \<times> verimark \<times> 'w) option" where
  "cap_end P ready s =
     bind_so (cap_arm P VERIMARK_EVTMASK_NONE s) (\<lambda>_ s.
     bind_so (verimark_moc_send P verimark_moc_build_frame_finish 2 s) (\<lambda>_ s.
       Some (if ready then Inr () else Inl (Device_Retry ''no usable frame (0x18 not observed)''), s)))"

definition capture_spec :: "'w platform \<Rightarrow> byte \<Rightarrow> verimark \<times> 'w \<Rightarrow> (unit res \<times> verimark \<times> 'w) option" where
  "capture_spec P kind s =
     bind_so (cap_arm P VERIMARK_EVTMASK_FINGER s) (\<lambda>_ s.
     bind_so (cap_press P s) (\<lambda>_ s.
     bind_so (cap_arm P VERIMARK_EVTMASK_FRAME s) (\<lambda>_ s.
     bind_so (cap_acquire P kind s) (\<lambda>deadline s.
     bind_so (cap_poll P cap_polls deadline s) (\<lambda>ready s.
     cap_end P ready s)))))"

subsection \<open>The machine implements the procedure\<close>

lemma ex_from_split: "(\<exists>j\<ge>i. Q j) \<longleftrightarrow> Q i \<or> (\<exists>j\<ge>i + 1. Q (j :: nat))"
proof -
  have "i \<le> j \<longleftrightarrow> j = i \<or> i + 1 \<le> j" for j by auto
  then show ?thesis by metis
qed

lemma scan_events_ready:
  "scan_events resp n i saw =
     Inr (saw \<or> (\<exists>j\<ge>i. j < n \<and> 6 + (j + 1) * 12 \<le> length resp \<and> resp ! (6 + j * 12) = VERIMARK_EVT_FRAME_READY))"
proof (induction resp n i saw rule: scan_events.induct)
  case (1 resp n i saw)
  let ?Q = "\<lambda>j. j < n \<and> 6 + (j + 1) * 12 \<le> length resp \<and> resp ! (6 + j * 12) = VERIMARK_EVT_FRAME_READY"
  show ?case
  proof (cases "i < n \<and> 6 + (i + 1) * 12 \<le> length resp")
    case True
    then have "rd8 resp (6 + i * 12) = Inr (resp ! (6 + i * 12))" by simp
    with True "1.IH" [OF True] show ?thesis
      unfolding ex_from_split [of i ?Q] by (subst scan_events.simps) simp
  next
    case False
    then have "\<not> (\<exists>j\<ge>i. ?Q j)" by auto
    with False show ?thesis by (subst scan_events.simps) (simp only: if_False simp_thms)
  qed
qed

lemma scan_events_frame:
  "6 \<le> length resp \<Longrightarrow> scan_events resp (unat (u16_of_le (resp ! 2) (resp ! 3))) 0 False = Inr (frame_ready resp)"
  by (auto simp: scan_events_ready frame_ready_def frame_events_def list_ex_iff)

lemma cap_run_arm:
  assumes "fpi_ssm_doc (fpi P)" "(st, m) \<in> {(CAP_ARM_PRESS, VERIMARK_EVTMASK_FINGER),
      (CAP_ARM_FRAME, VERIMARK_EVTMASK_FRAME), (CAP_EVENT_CLEAR, VERIMARK_EVTMASK_NONE)}"
  shows "cap_run P (Suc fuel) st (ctx, s) = bind_so (cap_arm P m s) (\<lambda>_ s. cap_run P fuel (Suc st) (ctx, s))"
proof -
  obtain dev w where s: "s = (dev, w)" by fastforce
  have "cap_step P st (ctx, s) = map_option (\<lambda>(r, s). on_cap_event_config_done ctx r s) (cap_send_config P m s)"
    using assms(2) by (auto simp: cap_step_def s)
  moreover have "Suc st < CAP_N_STATES" using assms(2) by auto
  ultimately show ?thesis
    by (cases "cap_send_config P m s")
      (auto simp: ssm_run_steps [OF assms(1)] cap_arm_def bind_so_def on_cap_event_config_done_def
        VERIMARK_EVENT_CONFIG_RESP_LEN_def simp del: ssm_run.simps split: sum.split)
qed

lemma cap_run_press:
  assumes "fpi_ssm_doc (fpi P)"
  shows "cap_run P (Suc fuel) CAP_WAIT_PRESS (ctx, s) = bind_so (cap_press P s) (\<lambda>_ s. cap_run P fuel CAP_ARM_FRAME (ctx, s))"
proof -
  have "cap_step P CAP_WAIT_PRESS (ctx, s) = map_option (\<lambda>(r, s). on_cap_wait_press_done ctx r s) (cap_wait_press P s)"
    by (cases s) (simp add: cap_step_def)
  then show ?thesis
    by (cases "cap_wait_press P s")
      (auto simp: ssm_run_steps [OF assms] cap_press_def bind_so_def on_cap_wait_press_done_def numeral_2_eq_2
        simp del: ssm_run.simps split: sum.split)
qed

lemma cap_run_acquire:
  assumes "fpi_ssm_doc (fpi P)"
  shows "cap_run P (Suc fuel) CAP_FRAME_ACQ (ctx, s) =
    bind_so (cap_acquire P (acq_kind ctx) s) (\<lambda>d s. cap_run P fuel CAP_WAIT_FRAME (ctx\<lparr>frame_deadline_us := d\<rparr>, s))"
proof -
  have "cap_step P CAP_FRAME_ACQ (ctx, s) = map_option (\<lambda>(r, s). on_cap_frame_acq_done P ctx r s)
      (verimark_moc_send P (verimark_moc_build_frame_acq (acq_kind ctx)) 2 s)"
    by (cases s) (simp add: cap_step_def)
  then show ?thesis
    by (cases "verimark_moc_send P (verimark_moc_build_frame_acq (acq_kind ctx)) 2 s")
      (auto simp: ssm_run_steps [OF assms] cap_acquire_def bind_so_def on_cap_frame_acq_done_def
        VERIMARK_CAPTURE_FRAME_TIMEOUT_MS_def simp del: ssm_run.simps split: sum.split prod.split)
qed

lemma cap_run_end:
  assumes "fpi_ssm_doc (fpi P)" "2 \<le> fuel"
  shows "cap_run P fuel CAP_EVENT_CLEAR (ctx, s) = cap_end P (frame_got ctx) s"
proof -
  obtain f where f: "fuel = Suc (Suc f)" using assms(2) by (metis add_2_eq_Suc le_Suc_ex)
  have "cap_step P CAP_FRAME_FINISH (ctx, s) = map_option (\<lambda>(r, s). on_cap_frame_finish_done ctx r s)
      (verimark_moc_send P verimark_moc_build_frame_finish 2 s)" for s
    by (cases s) (simp add: cap_step_def)
  then have fin: "cap_run P (Suc f) CAP_FRAME_FINISH (ctx, s) =
      bind_so (verimark_moc_send P verimark_moc_build_frame_finish 2 s) (\<lambda>_ s.
       Some (if frame_got ctx then Inr () else Inl (Device_Retry ''no usable frame (0x18 not observed)''), s))" for s
    by (cases "verimark_moc_send P verimark_moc_build_frame_finish 2 s")
      (auto simp: ssm_run_steps [OF assms(1)] bind_so_def on_cap_frame_finish_done_def
        simp del: ssm_run.simps split: sum.split prod.split)
  show ?thesis
    using cap_run_arm [OF assms(1), of CAP_EVENT_CLEAR VERIMARK_EVTMASK_NONE "Suc f" ctx s]
    by (simp add: f cap_end_def fin del: ssm_run.simps)
qed

text \<open>One poll.\<close>

lemma on_cap_wait_frame_done_eq:
  assumes "mono_time P w = (now, w')"
  shows "on_cap_wait_frame_done P ctx (Inr (status, resp)) (dev, w) =
    (if status \<noteq> 0 \<and> \<not> (0x0405 \<le> status \<and> status \<le> 0x0407)
     then (Mark_Failed (Device_Error DEVICE_PROTO ''EVENT_READ status 0x%04x'' [unat status]), ctx, dev, w')
     else
       let dev = (if status = 0 then dev\<lparr>event_seq_num := event_seq_num dev + frame_events resp\<rparr> else dev)
       in if status = 0 \<and> frame_ready resp then (Next_State, ctx\<lparr>frame_got := True\<rparr>, dev, w')
          else if frame_deadline_us ctx \<le> now then (Next_State, ctx\<lparr>frame_got := False\<rparr>, dev, w')
          else (Jump_To_State_Delayed CAP_WAIT_FRAME 15, ctx, dev, w'))"
proof -
  have "frame_events resp = 0 \<and> \<not> frame_ready resp" if "\<not> 6 \<le> length resp"
    using that by (simp add: frame_events_def frame_ready_def)
  moreover have "moc_rd_u16le resp 2 = Inr (frame_events resp)"
      "scan_events resp (unat (frame_events resp)) 0 False = Inr (frame_ready resp)" if "6 \<le> length resp"
    using scan_events_frame [of resp] that by (simp_all add: frame_events_def)
  moreover have "dev\<lparr>event_seq_num := event_seq_num dev\<rparr> = dev" for dev :: verimark by simp
  ultimately show ?thesis
    using assms
    by (auto simp: on_cap_wait_frame_done_def cap_keep_polling_def Let_def
        VERIMARK_EVTREAD_NOTREADY_LO_def VERIMARK_EVTREAD_NOTREADY_HI_def VERIMARK_CAPTURE_FRAME_POLL_DELAY_MS_def)
qed

lemma cap_run_poll:
  assumes "fpi_ssm_doc (fpi P)"
  shows "cap_run P (Suc fuel) CAP_WAIT_FRAME (ctx, s) =
    bind_so (verimark_moc_send P (build_event_read (event_seq_num (fst s))) 390 s) (\<lambda>(status, resp) (dev, w).
       let (now, w) = mono_time P w
       in if status \<noteq> 0 \<and> \<not> (0x0405 \<le> status \<and> status \<le> 0x0407)
          then Some (Inl (Device_Error DEVICE_PROTO ''EVENT_READ status 0x%04x'' [unat status]), dev, w)
          else
            let dev = (if status = 0 then dev\<lparr>event_seq_num := event_seq_num dev + frame_events resp\<rparr> else dev)
            in if status = 0 \<and> frame_ready resp then cap_run P fuel CAP_EVENT_CLEAR (ctx\<lparr>frame_got := True\<rparr>, dev, w)
               else if frame_deadline_us ctx \<le> now then cap_run P fuel CAP_EVENT_CLEAR (ctx\<lparr>frame_got := False\<rparr>, dev, w)
               else cap_run P fuel CAP_WAIT_FRAME (ctx, dev, pause_us P 15000 w))"
proof -
  let ?send = "verimark_moc_send P (build_event_read (event_seq_num (fst s))) 390 s"
  have step: "cap_step P CAP_WAIT_FRAME (ctx, s) = map_option (\<lambda>(r, s). on_cap_wait_frame_done P ctx r s) ?send"
    by (cases s) (simp add: cap_step_def VERIMARK_EVENT_READ_RESP_LEN_def)
  show ?thesis
  proof (cases ?send)
    case None
    then show ?thesis using step by (simp add: ssm_run_steps [OF assms] del: ssm_run.simps)
  next
    case (Some q)
    obtain r dev w where q: "q = (r, dev, w)" by (metis surj_pair)
    obtain now w2 where clk: "mono_time P w = (now, w2)" by fastforce
    show ?thesis
    proof (cases r)
      case (Inl e)
      then show ?thesis
        using step Some by (simp add: q on_cap_wait_frame_done_def ssm_run_steps [OF assms] del: ssm_run.simps)
    next
      case (Inr sr)
      obtain status resp where sr: "sr = (status, resp)" by fastforce
      show ?thesis
        using step Some clk
        by (auto simp: q Inr sr Let_def dev_delay_def on_cap_wait_frame_done_eq [OF clk] ssm_run_steps [OF assms]
            simp del: ssm_run.simps)
    qed
  qed
qed

lemma cap_run_polls:
  assumes "fpi_ssm_doc (fpi P)" "cap_poll P n (frame_deadline_us ctx) s = Some q" "n + 2 \<le> fuel"
  shows "cap_run P fuel CAP_WAIT_FRAME (ctx, s) = bind_so (Some q) (cap_end P)"
  using assms(2,3)
proof (induction n arbitrary: fuel s)
  case 0
  then show ?case by simp
next
  case (Suc n)
  obtain f where f: "fuel = Suc f" "n + 2 \<le> f" using Suc.prems(2) by (cases fuel) auto
  have fin: "cap_run P f CAP_EVENT_CLEAR (c, v) = cap_end P (frame_got c) v" for c v
    using cap_run_end [OF assms(1), of f] f(2) by simp
  note IH = Suc.IH [OF _ f(2)]
  show ?case
  proof (cases "verimark_moc_send P (build_event_read (event_seq_num (fst s))) 390 s")
    case None
    then show ?thesis using Suc.prems(1) by simp
  next
    case (Some p)
    obtain r dev w where p: "p = (r, dev, w)" by (metis surj_pair)
    obtain now w2 where clk: "mono_time P w = (now, w2)" by fastforce
    show ?thesis
      using Suc.prems(1) Some clk IH
      by (cases r) (auto simp: f(1) p cap_run_poll [OF assms(1)] fin Let_def simp del: ssm_run.simps
          split: prod.splits if_splits)
  qed
qed

subsection \<open>Time\<close>

text \<open>The clock of \<open>clock_doc\<close> does not go back during any call, a delay takes its time, and the
  clock never shows the one instant whose press deadline would be the ``no deadline'' value.\<close>

definition time_doc :: "'w platform \<Rightarrow> ('w \<Rightarrow> int) \<Rightarrow> bool" where
  "time_doc P T \<longleftrightarrow> clock_doc P T
     \<and> (\<forall>us w. T w + int us \<le> T (pause_us P us w))
     \<and> (\<forall>w req v d. T w \<le> T (snd (ctrl_out P w req v d)))
     \<and> (\<forall>w req v n. T w \<le> T (snd (ctrl_in P w req v n)))
     \<and> (\<forall>w n. T w \<le> T (snd (rand_bytes P w n)))
     \<and> (\<forall>w. T w + 30000000 \<noteq> G_MAXINT64)"

lemma time_docD:
  assumes "time_doc P T"
  shows "clock_doc P T" "T w + int us \<le> T (pause_us P us w)" "T w + 30000000 \<noteq> G_MAXINT64"
    and "ctrl_out P w req v d = (r, w') \<Longrightarrow> T w \<le> T w'"
    and "ctrl_in P w req v n = (q, w') \<Longrightarrow> T w \<le> T w'"
    and "rand_bytes P w n = (b, w') \<Longrightarrow> T w \<le> T w'"
  using assms unfolding time_doc_def by (metis snd_conv)+

lemma ctrl_write_chunks_time: "time_doc P T \<Longrightarrow> ctrl_write_chunks P buf cs w = (r, w') \<Longrightarrow> T w \<le> T w'"
proof (induction P buf cs w rule: ctrl_write_chunks.induct)
  case (2 P buf chunk chunks w)
  then show ?case
    using order_trans [OF time_docD(4) [OF "2.prems"(1)]]
    by (auto split: sum.split_asm prod.split_asm dest: time_docD(4) [OF "2.prems"(1)])
qed simp

lemma ctrl_read_loop_time:
  assumes "time_doc P T"
  shows "ctrl_read_loop P rmx acc first retries w = (r, w') \<Longrightarrow> T w \<le> T w'"
proof (induction rule: ctrl_read_loop_rule)
  case (retried acc first retries w want wvalue w1 r w')
  then show ?case
    using time_docD(5) [OF assms read_stepD(4) [OF retried(1)]] time_docD(2) [OF assms, of w1 VERIMARK_SYNC_READ_RETRY_DELAY_US]
    by simp
qed (auto dest!: read_stepD(4) time_docD(5) [OF assms])

lemma moc_exchange_time:
  assumes "time_doc P T" "moc_exchange P cmd hint (dev, w) = (r, dev', w')"
  shows "T w \<le> T w'"
proof -
  have sync: "T v \<le> T v'" if "verimark_ctrl_cmd_sync P rcd m v = (q, v')" for rcd m v q v'
    using that ctrl_write_chunks_time [OF assms(1)] ctrl_read_loop_time [OF assms(1)]
    by (fastforce simp: verimark_ctrl_cmd_sync_def verimark_ctrl_write_sync_def verimark_ctrl_read_sync_def
        split: sum.split_asm prod.split_asm)
  have wrap: "T v \<le> T v'" if "verimark_tls_wrap P (t, v) plain = (q, t', v')" for t v plain q t' v'
    using that time_docD(6) [OF assms(1)]
    by (fastforce simp: verimark_tls_wrap_def bind_st_def split: prod.split_asm sum.split_asm if_split_asm)
  show ?thesis
    using assms(2) by (fastforce simp: moc_exchange_def split: option.split_asm prod.split_asm sum.split_asm
        dest!: raw_resp_dev sync wrap)
qed

subsection \<open>The capture ends\<close>

definition platform_doc :: "'w platform \<Rightarrow> ('w \<Rightarrow> int) \<Rightarrow> bool" where
  "platform_doc P T \<longleftrightarrow> fpi_ssm_doc (fpi P) \<and> aead_doc (lib P) \<and> rand_doc P \<and> time_doc P T"

lemma platform_docD:
  assumes "platform_doc P T"
  shows "fpi_ssm_doc (fpi P)" "aead_doc (lib P)" "rand_doc P" "time_doc P T"
    and "mono_time P w = (now, w') \<Longrightarrow> now = T w \<and> T w \<le> T w'"
    and "T w + int us \<le> T (pause_us P us w)"
  using assms clock_docD(1) [OF time_docD(1), of P T w now w'] time_docD(2) [of P T w us]
  by (simp_all add: platform_doc_def)

lemma moc_send_total:
  assumes "platform_doc P T" "length cmd \<le> 65536"
  shows "\<exists>r dev' w'. verimark_moc_send P cmd hint (dev, w) = Some (r, dev', w') \<and> T w \<le> T w'"
proof -
  obtain r dev' w' where ex: "moc_exchange P cmd hint (dev, w) = (r, dev', w')" by (metis surj_pair)
  then show ?thesis
    using assms moc_send_exchange [of P cmd hint "(dev, w)"] moc_exchange_time [OF _ ex, of T]
    by (simp add: platform_doc_def)
qed

lemma cap_arm_total: "platform_doc P T \<Longrightarrow> cap_arm P m s \<noteq> None"
  using moc_send_total [of P T "build_event_config m" "of_nat VERIMARK_EVENT_CONFIG_RESP_LEN" "fst s" "snd s"]
  by (cases s) (force simp: cap_arm_def cap_send_config_def bind_so_def split: option.split sum.split)

lemma cap_press_total:
  assumes "platform_doc P T"
  shows "cap_press P s \<noteq> None"
proof -
  obtain dev w where s: "s = (dev, w)" by fastforce
  note t = assms [unfolded platform_doc_def]
  have "\<exists>r w'. verimark_intr_wait_async P press_fuel (d_ep_intr_in dev) VERIMARK_EVT_FINGER_PRESS 30000 w = Some (r, w')"
    using intr_wait_total [of P T 30000 w press_fuel "d_ep_intr_in dev" VERIMARK_EVT_FINGER_PRESS] t
      time_docD(1,3) [of P T]
    by (auto simp: press_fuel_def VERIMARK_CAPTURE_PRESS_TIMEOUT_MS_def)
  then show ?thesis
    by (auto simp: s cap_press_def cap_wait_press_def VERIMARK_CAPTURE_PRESS_TIMEOUT_MS_def bind_so_def
        split: sum.split)
qed

lemma cap_acquire_total:
  assumes "platform_doc P T"
  shows "\<exists>r dev' w'. cap_acquire P kind (dev, w) = Some (r, dev', w') \<and> (\<forall>d. r = Inr d \<longrightarrow> d \<le> T w' + 4000000)"
proof -
  obtain r dev1 w1 where send: "verimark_moc_send P (verimark_moc_build_frame_acq kind) 2 (dev, w) = Some (r, dev1, w1)"
    using moc_send_total [OF assms, of "verimark_moc_build_frame_acq kind" 2 dev w] by auto
  obtain now w2 where clk: "mono_time P w1 = (now, w2)" by fastforce
  have "now = T w1 \<and> T w1 \<le> T w2" by (rule platform_docD(5) [OF assms clk])
  with send clk show ?thesis by (cases r) (auto simp: cap_acquire_def)
qed

lemma cap_poll_total:
  assumes "platform_doc P T" "deadline \<le> T w + 15000 * int n"
  shows "cap_poll P (Suc n) deadline (dev, w) \<noteq> None"
  using assms(2)
proof (induction n arbitrary: dev w)
  have step: "\<exists>r dev1 w1. verimark_moc_send P (build_event_read s) 390 (dev, w) = Some (r, dev1, w1) \<and> T w \<le> T w1" for s dev w
    using moc_send_total [OF assms(1), of "build_event_read s" 390 dev w] by simp
  have clk: "mono_time P w = (now, w') \<Longrightarrow> now = T w \<and> T w \<le> T w'" for w now w'
    by (rule platform_docD(5) [OF assms(1)])
  {
    case 0
    obtain r dev1 w1 where "verimark_moc_send P (build_event_read (event_seq_num dev)) 390 (dev, w) = Some (r, dev1, w1)"
      "T w \<le> T w1" using step by blast
    with 0 show ?case
      by (cases r) (auto simp: Let_def dest!: clk split: prod.split)
  next
    case (Suc n)
    obtain r dev1 w1 where send: "verimark_moc_send P (build_event_read (event_seq_num dev)) 390 (dev, w) = Some (r, dev1, w1)"
      "T w \<le> T w1" using step by blast
    obtain now w2 where now: "mono_time P w1 = (now, w2)" by fastforce
    have "T w2 + int 15000 \<le> T (pause_us P 15000 w2)"
      by (rule platform_docD(6) [OF assms(1)])
    then have "deadline \<le> T (pause_us P 15000 w2) + 15000 * int n"
      using Suc.prems clk [OF now] send(2) by simp
    from Suc.IH [OF this] show ?case
      using send(1) now by (cases r) (auto simp: Let_def simp del: cap_poll.simps simp: cap_poll.simps(2) [of P "Suc n"])
  }
qed

lemma cap_end_total:
  assumes "platform_doc P T"
  shows "cap_end P ready s \<noteq> None"
  unfolding cap_end_def
proof (intro bind_so_total cap_arm_total [OF assms])
  fix s :: "verimark \<times> 'a"
  show "verimark_moc_send P verimark_moc_build_frame_finish 2 s \<noteq> None"
    using moc_send_total [OF assms, of verimark_moc_build_frame_finish 2 "fst s" "snd s"] by auto
qed simp

lemma capture_poll_total:
  assumes "platform_doc P T" "cap_acquire P kind s = Some (Inr deadline, s')"
  shows "cap_poll P cap_polls deadline s' \<noteq> None"
proof -
  have "deadline \<le> T (snd s') + 15000 * int 267"
    using cap_acquire_total [OF assms(1), of kind "fst s" "snd s"] assms(2) by auto
  from cap_poll_total [OF assms(1) this, of "fst s'"] show ?thesis by (simp add: cap_polls_def)
qed

lemma capture_spec_total:
  assumes "platform_doc P T"
  shows "capture_spec P kind s \<noteq> None"
  unfolding capture_spec_def
  using cap_acquire_total [OF assms]
  by (intro bind_so_total cap_arm_total [OF assms] cap_press_total [OF assms] cap_end_total [OF assms]
      capture_poll_total [OF assms]) (auto, metis option.distinct(1) surj_pair)

lemma capture_eq_spec:
  assumes "platform_doc P T"
  shows "verimark_moc_capture P kind s = capture_spec P kind s"
proof -
  note doc = platform_docD(1) [OF assms]
  let ?ctx = "\<lparr>acq_kind = kind, frame_deadline_us = 0, frame_got = False\<rparr>"
  have poll: "cap_run P (2 + cap_polls) CAP_WAIT_FRAME (?ctx\<lparr>frame_deadline_us := d\<rparr>, s2) =
      bind_so (cap_poll P cap_polls d s2) (cap_end P)" if acq: "cap_acquire P kind s1 = Some (Inr d, s2)" for s1 d s2
  proof -
    obtain q where "cap_poll P cap_polls d s2 = Some q" using capture_poll_total [OF assms acq] by auto
    then show ?thesis
      using cap_run_polls [OF doc, of cap_polls "?ctx\<lparr>frame_deadline_us := d\<rparr>" s2 q] by (simp del: ssm_run.simps)
  qed
  have acq: "cap_run P (3 + cap_polls) CAP_FRAME_ACQ (?ctx, s1) =
      bind_so (cap_acquire P kind s1) (\<lambda>d s. bind_so (cap_poll P cap_polls d s) (cap_end P))" for s1
    using cap_run_acquire [OF doc, of "2 + cap_polls" ?ctx s1] poll [of s1]
    by (cases "cap_acquire P kind s1") (auto simp: bind_so_def numeral_3_eq_3 simp del: ssm_run.simps split: sum.split)
  show ?thesis
    using cap_run_arm [OF doc, of CAP_ARM_PRESS VERIMARK_EVTMASK_FINGER "5 + cap_polls" ?ctx s]
      cap_run_press [OF doc, of "4 + cap_polls" ?ctx]
      cap_run_arm [OF doc, of CAP_ARM_FRAME VERIMARK_EVTMASK_FRAME "3 + cap_polls" ?ctx] acq
    by (simp add: verimark_moc_capture_def capture_spec_def del: ssm_run.simps)
qed

end
