(* ===== verification/Moc_Path.thy ===== *)
theory Moc_Path
  imports Capture
begin

text \<open>
  What an operation of \<open>verimark-moc.c\<close> leaves on the device object and puts on the wire: \<open>same_op\<close> for
  what a command or a capture may touch, \<open>moc_path\<close> for the presses and replies on the way, in order.
  The properties of captures and of every operation above them are stated over paths.
\<close>

subsection \<open>What a capture leaves and what success means\<close>

text \<open>A capture touches the session and the event sequence number of the device object, and
  nothing else.\<close>

definition same_op :: "verimark \<Rightarrow> verimark \<Rightarrow> bool" where
  "same_op dev dev' \<longleftrightarrow> dev' = dev\<lparr>d_tls := d_tls dev', event_seq_num := event_seq_num dev'\<rparr>"

lemma same_op_refl [simp]: "same_op dev dev"
  by (simp add: same_op_def)

lemma same_op_trans: "same_op a b \<Longrightarrow> same_op b c \<Longrightarrow> same_op a c"
  by (cases a; cases b; cases c) (simp add: same_op_def)

lemma same_op_update [simp]: "same_op dev (dev'\<lparr>event_seq_num := n\<rparr>) \<longleftrightarrow> same_op dev dev'"
  by (cases dev; cases dev') (simp add: same_op_def)

lemma same_op_fields:
  "same_op dev dev' \<Longrightarrow> enroll_stage dev' = enroll_stage dev \<and> enroll_coverage dev' = enroll_coverage dev
    \<and> enroll_template_id dev' = enroll_template_id dev \<and> reports dev' = reports dev
    \<and> d_iface dev' = d_iface dev \<and> d_ep_intr_in dev' = d_ep_intr_in dev \<and> d_sid dev' = d_sid dev
    \<and> d_pairing dev' = d_pairing dev \<and> task_ssm dev' = task_ssm dev"
  by (cases dev; cases dev') (simp add: same_op_def)

lemma moc_send_same: "verimark_moc_send P cmd hint (dev, w) = Some (r, dev', w') \<Longrightarrow> same_op dev dev'"
  using moc_send_dev [of P cmd hint dev w r dev' w'] by (cases dev) (auto simp: same_op_def)

lemma cap_arm_same: "cap_arm P m (dev, w) = Some (r, dev', w') \<Longrightarrow> same_op dev dev'"
  by (auto simp: cap_arm_def cap_send_config_def bind_so_Some dest!: moc_send_same split: if_splits)

lemma cap_poll_same: "cap_poll P n d (dev, w) = Some (r, dev', w') \<Longrightarrow> same_op dev dev'"
proof (induction n arbitrary: dev w)
  case (Suc n)
  from Suc.prems show ?case
    by (auto simp: bind_so_Some Let_def split_beta split: if_split_asm dest!: Suc.IH moc_send_same)
      (metis same_op_trans same_op_update)+
qed simp

lemma cap_poll_ready:
  "cap_poll P n d s = Some (Inr True, s') \<Longrightarrow>
     \<exists>seq s1 resp s2. verimark_moc_send P (build_event_read seq) 390 s1 = Some (Inr (0, resp), s2) \<and> frame_ready resp"
proof (induction n arbitrary: s)
  case (Suc n)
  from Suc.prems Suc.IH show ?case
    by (cases s) (auto simp: bind_so_Some Let_def split_beta split: if_split_asm, blast+)
qed simp

lemma capture_spec_same:
  assumes "capture_spec P kind (dev, w) = Some (r, dev', w')"
  shows "same_op dev dev'"
proof -
  have press: "cap_press P (a, v) = Some (q, b, v') \<Longrightarrow> a = b" for a b v v' q
    by (auto simp: cap_press_def cap_wait_press_def bind_so_Some)
  have acq: "cap_acquire P kind (a, v) = Some (q, b, v') \<Longrightarrow> same_op a b" for a b v v' q
    by (auto simp: cap_acquire_def bind_so_Some Let_def split_beta dest!: moc_send_same)
  have fin: "cap_end P g (a, v) = Some (q, b, v') \<Longrightarrow> same_op a b" for g a b v v' q
    by (auto simp: cap_end_def bind_so_Some dest!: cap_arm_same moc_send_same elim: same_op_trans)
  show ?thesis
    using assms
    by (auto simp: capture_spec_def bind_so_Some dest!: cap_arm_same press acq cap_poll_same fin)
      (metis same_op_trans)+
qed

subsection \<open>What an operation puts on the wire\<close>

text \<open>The path of an operation from state to state, with the presses it saw and the replies it
  got to the commands it sent, in order. Failed calls, the clock, delays, file reads and updates of
  the device object that leave the connection as it is are silent.\<close>

definition same_device :: "verimark \<Rightarrow> verimark \<Rightarrow> bool" where
  [simp]: "same_device dev dev' \<longleftrightarrow> d_tls dev' = d_tls dev \<and> d_iface dev' = d_iface dev
     \<and> d_ep_intr_in dev' = d_ep_intr_in dev \<and> d_sid dev' = d_sid dev \<and> d_pairing dev' = d_pairing dev"

datatype moc_event = Pressed | Replied bytes u16 bytes

inductive moc_path :: "'w platform \<Rightarrow> verimark \<times> 'w \<Rightarrow> moc_event list \<Rightarrow> verimark \<times> 'w \<Rightarrow> bool" for P s where
  start: "moc_path P s [] s"
| reply: "moc_path P s tr s1 \<Longrightarrow> verimark_moc_send P cmd hint s1 = Some (Inr (st, resp), s2)
    \<Longrightarrow> moc_path P s (tr @ [Replied cmd st resp]) s2"
| no_reply: "moc_path P s tr s1 \<Longrightarrow> verimark_moc_send P cmd hint s1 = Some (Inl e, s2) \<Longrightarrow> moc_path P s tr s2"
| press: "moc_path P s tr s1 \<Longrightarrow> cap_wait_press P s1 = Some (Inr (True, q), s2) \<Longrightarrow> moc_path P s (tr @ [Pressed]) s2"
| no_press: "moc_path P s tr s1 \<Longrightarrow> cap_wait_press P s1 = Some (r, s2) \<Longrightarrow> r \<notin> Inr ` ({True} \<times> UNIV) \<Longrightarrow> moc_path P s tr s2"
| clock: "moc_path P s tr (dev, w) \<Longrightarrow> mono_time P w = (now, w') \<Longrightarrow> moc_path P s tr (dev, w')"
| pause: "moc_path P s tr (dev, w) \<Longrightarrow> moc_path P s tr (dev, pause_us P us w)"
| read_file: "moc_path P s tr (dev, w) \<Longrightarrow> fs_read P w path = (c, w') \<Longrightarrow> moc_path P s tr (dev, w')"
| local: "moc_path P s tr (dev, w) \<Longrightarrow> same_device dev dev' \<Longrightarrow> moc_path P s tr (dev', w)"

lemma moc_path_trans:
  "moc_path P s1 tr1 s2 \<Longrightarrow> moc_path P s0 tr0 s1 \<Longrightarrow> moc_path P s0 (tr0 @ tr1) s2"
proof (induction rule: moc_path.induct)
  case start
  then show ?case by simp
qed (auto intro: moc_path.intros simp flip: append_assoc)

lemma path_reply: "verimark_moc_send P cmd hint s = Some (Inr (st, resp), s') \<Longrightarrow> moc_path P s [Replied cmd st resp] s'"
  using moc_path.reply [OF moc_path.start] by fastforce

lemma path_send:
  "verimark_moc_send P cmd hint s = Some (r, s') \<Longrightarrow>
     moc_path P s (case r of Inl e \<Rightarrow> [] | Inr (st, resp) \<Rightarrow> [Replied cmd st resp]) s'"
  by (cases r) (auto intro: moc_path.intros dest: path_reply)

lemma path_seq: "moc_path P s tr (dev, w) \<Longrightarrow> moc_path P s tr (dev\<lparr>event_seq_num := n\<rparr>, w)"
  by (rule moc_path.local) auto

text \<open>The commands of captures, and the commands of a path that are not among them.\<close>

definition capture_cmd :: "bytes \<Rightarrow> bool" where
  "capture_cmd cmd \<longleftrightarrow> hd cmd \<in> {0x80, 0x81, 0x86, 0x87}"

definition moc_op :: "moc_event \<Rightarrow> (bytes \<times> u16 \<times> bytes) list" where
  "moc_op e = (case e of Pressed \<Rightarrow> [] | Replied cmd st resp \<Rightarrow> if capture_cmd cmd then [] else [(cmd, st, resp)])"

definition moc_ops :: "moc_event list \<Rightarrow> (bytes \<times> u16 \<times> bytes) list" where
  "moc_ops tr = concat (map moc_op tr)"

lemma moc_ops_simps [simp]:
  "moc_ops [] = []" "moc_ops (e # tr) = moc_op e @ moc_ops tr" "moc_ops (tr @ tr') = moc_ops tr @ moc_ops tr'"
  by (simp_all add: moc_ops_def)

lemma capture_cmds [simp]:
  "capture_cmd (build_event_config m)" "capture_cmd (build_event_read q)"
  "capture_cmd (verimark_moc_build_frame_acq kind)" "capture_cmd verimark_moc_build_frame_finish"
  by (simp_all add: capture_cmd_def build_event_config_def build_event_read_def verimark_moc_build_frame_acq_def
      verimark_moc_build_frame_finish_def VERIMARK_CMD_EVENT_CONFIG_def VERIMARK_CMD_EVENT_READ_def)

lemma path_arm:
  assumes "cap_arm P m s = Some (r, s')"
  shows "\<exists>tr. moc_path P s tr s' \<and> moc_ops tr = [] \<and> (r = Inr () \<longrightarrow> (\<exists>st resp. tr = [Replied (build_event_config m) st resp]))"
proof -
  from assms consider e where "cap_send_config P m s = Some (Inl e, s')" "r = Inl e"
    | st resp dev w where "cap_send_config P m s = Some (Inr (st, resp), dev, w)"
      "s' = (if 66 \<le> length resp then dev\<lparr>event_seq_num := u16_of_le (resp ! 64) (resp ! 65)\<rparr> else dev, w)"
    by (auto simp: cap_arm_def bind_so_Some)
  then show ?thesis
  proof cases
    case 1
    then show ?thesis
      by (intro exI [of _ "[]"]) (auto simp: cap_send_config_def dest: path_send)
  next
    case 2
    have "moc_path P s [Replied (build_event_config m) st resp] (dev, w)"
      using 2(1) unfolding cap_send_config_def by (rule path_reply)
    then show ?thesis
      using 2(2) path_seq [of P s _ dev w] by (intro exI [of _ "[Replied (build_event_config m) st resp]"]) (auto simp: moc_op_def)
  qed
qed

lemma path_press:
  assumes "cap_press P s = Some (r, s')"
  shows "\<exists>tr. moc_path P s tr s' \<and> moc_ops tr = [] \<and> (r = Inr () \<longrightarrow> tr = [Pressed])"
proof -
  from assms obtain q where q: "cap_wait_press P s = Some (q, s')" "r = Inr () \<longleftrightarrow> q \<in> Inr ` ({True} \<times> UNIV)"
    by (auto simp: cap_press_def bind_so_Some split: if_splits)
  show ?thesis
  proof (cases "q \<in> Inr ` ({True} \<times> UNIV)")
    case True
    then show ?thesis
      using q moc_path.press [OF moc_path.start, of P s] by (intro exI [of _ "[Pressed]"]) (auto simp: moc_op_def)
  next
    case False
    with q show ?thesis
      using moc_path.no_press [OF moc_path.start, of P s] by (intro exI [of _ "[]"]) auto
  qed
qed

lemma path_acquire:
  assumes "cap_acquire P kind s = Some (r, s')"
  shows "\<exists>tr. moc_path P s tr s' \<and> moc_ops tr = []
    \<and> ((\<exists>d. r = Inr d) \<longrightarrow> (\<exists>st resp. tr = [Replied (verimark_moc_build_frame_acq kind) st resp]))"
proof -
  from assms obtain q dev w where q: "verimark_moc_send P (verimark_moc_build_frame_acq kind) 2 s = Some (q, dev, w)"
    "case q of Inl e \<Rightarrow> s' = (dev, w) \<and> r = Inl e | Inr _ \<Rightarrow> s' = (dev, snd (mono_time P w))"
    by (cases s') (auto simp: cap_acquire_def bind_so_Some Let_def split_beta)
  from path_send [OF q(1)] show ?thesis
    using q(2) moc_path.clock [of P s _ dev w "fst (mono_time P w)" "snd (mono_time P w)"]
    by (intro exI [of _ "case q of Inl e \<Rightarrow> [] | Inr (st, resp) \<Rightarrow> [Replied (verimark_moc_build_frame_acq kind) st resp]"])
      (auto simp: moc_op_def split: sum.split_asm)
qed

text \<open>Polling sends \<open>EVENT_READ\<close> commands only; when it saw the frame, the last reply is the one.\<close>

definition polls_ready :: "moc_event list \<Rightarrow> bool" where
  "polls_ready tr \<longleftrightarrow> (\<exists>tr' q resp. tr = tr' @ [Replied (build_event_read q) 0 resp] \<and> frame_ready resp
     \<and> (\<forall>e \<in> set tr'. \<exists>q st resp. e = Replied (build_event_read q) st resp))"

lemma path_event_read:
  assumes "verimark_moc_send P cmd h s = Some (Inr (st, resp), dev, w)" "mono_time P w = (now, w')"
    and "same_device dev dev'"
  shows "moc_path P s [Replied cmd st resp] (dev', w')"
  using path_send [OF assms(1)] assms(2,3) by (auto intro: moc_path.local moc_path.clock)

lemma path_poll:
  assumes "cap_poll P n d s = Some (r, s')"
  shows "\<exists>tr. moc_path P s tr s' \<and> (\<forall>e \<in> set tr. \<exists>q st resp. e = Replied (build_event_read q) st resp)
    \<and> (r = Inr True \<longrightarrow> polls_ready tr)"
  using assms
proof (induction n arbitrary: s)
  case 0
  then show ?case by simp
next
  case (Suc n)
  obtain q dev w where send: "verimark_moc_send P (build_event_read (event_seq_num (fst s))) 390 s = Some (q, dev, w)"
    using Suc.prems by (cases "verimark_moc_send P (build_event_read (event_seq_num (fst s))) 390 s") auto
  show ?case
  proof (cases q)
    case (Inl e)
    then have "r = Inl e" "s' = (dev, w)" using Suc.prems send by auto
    then show ?thesis using path_send [OF send] Inl by (intro exI [of _ "[]"]) auto
  next
    case (Inr sr)
    obtain st resp where sr: "sr = (st, resp)" by fastforce
    let ?e = "Replied (build_event_read (event_seq_num (fst s))) st resp"
    obtain now w2 where clk: "mono_time P w = (now, w2)" by fastforce
    note p = path_event_read [OF send [unfolded Inr sr] clk]
    let ?dev = "if st = 0 then dev\<lparr>event_seq_num := event_seq_num dev + frame_events resp\<rparr> else dev"
    have dev: "same_device dev ?dev" by simp
    consider "s' = (dev, w2)" "r \<noteq> Inr True" | "s' = (?dev, w2)" "r = Inr True \<longrightarrow> st = 0 \<and> frame_ready resp"
      | "cap_poll P n d (?dev, pause_us P 15000 w2) = Some (r, s')"
      using Suc.prems send clk by (auto simp: Inr sr Let_def split: if_split_asm)
    then show ?thesis
    proof cases
      case 1
      then show ?thesis using p [of dev] by (intro exI [of _ "[?e]"]) auto
    next
      case 2
      have "r = Inr True \<longrightarrow> polls_ready [?e]" using 2(2) unfolding polls_ready_def by auto
      then show ?thesis using p [OF dev] 2(1) by (intro exI [of _ "[?e]"]) auto
    next
      case 3
      from Suc.IH [OF this] obtain tr where tr: "moc_path P (?dev, pause_us P 15000 w2) tr s'"
        "\<forall>e \<in> set tr. \<exists>q st resp. e = Replied (build_event_read q) st resp" "r = Inr True \<longrightarrow> polls_ready tr" by blast
      have "moc_path P s [?e] (?dev, pause_us P 15000 w2)" by (rule moc_path.pause [OF p [OF dev]])
      from moc_path_trans [OF tr(1) this] have "moc_path P s (?e # tr) s'" by simp
      moreover have "r = Inr True \<longrightarrow> polls_ready (?e # tr)"
        using tr(3) unfolding polls_ready_def by (metis append_Cons set_ConsD)
      ultimately show ?thesis using tr(2) by (intro exI [of _ "?e # tr"]) auto
    qed
  qed
qed

lemma polls_ops: "\<forall>e \<in> set tr. \<exists>q st resp. e = Replied (build_event_read q) st resp \<Longrightarrow> moc_ops tr = []"
  by (induction tr) (auto simp: moc_op_def)

lemma path_end:
  assumes "cap_end P ready s = Some (r, s')"
  shows "\<exists>tr. moc_path P s tr s' \<and> moc_ops tr = [] \<and> (r = Inr () \<longrightarrow> ready
    \<and> (\<exists>st1 r1 st2 r2. tr = [Replied (build_event_config 0) st1 r1, Replied verimark_moc_build_frame_finish st2 r2]))"
proof -
  from assms consider e where "cap_arm P VERIMARK_EVTMASK_NONE s = Some (Inl e, s')" "r = Inl e"
    | s1 q where "cap_arm P VERIMARK_EVTMASK_NONE s = Some (Inr (), s1)"
      "verimark_moc_send P verimark_moc_build_frame_finish 2 s1 = Some (q, s')" "r = Inr () \<longrightarrow> ready \<and> (\<exists>x. q = Inr x)"
    by (auto simp: cap_end_def bind_so_Some split: if_split_asm)
  then show ?thesis
  proof cases
    case 1
    then show ?thesis using path_arm [OF 1(1)] by auto
  next
    case 2
    from path_arm [OF 2(1)] obtain st resp where
      "moc_path P s [Replied (build_event_config VERIMARK_EVTMASK_NONE) st resp] s1" by auto
    from moc_path_trans [OF path_send [OF 2(2)] this] show ?thesis
      using 2(3) by (cases q) (auto simp: moc_op_def VERIMARK_EVTMASK_NONE_def)
  qed
qed

text \<open>The trace of a capture that succeeded.\<close>

definition captured :: "byte \<Rightarrow> moc_event list \<Rightarrow> bool" where
  "captured kind tr \<longleftrightarrow> (\<exists>st1 r1 st2 r2 st3 r3 polls st4 r4 st5 r5. polls_ready polls \<and>
     tr = Replied (build_event_config 6) st1 r1 # Pressed # Replied (build_event_config 0x01000000) st2 r2 #
          Replied (verimark_moc_build_frame_acq kind) st3 r3 # polls @
          [Replied (build_event_config 0) st4 r4, Replied verimark_moc_build_frame_finish st5 r5])"

text \<open>\<open>does P m s Q\<close>: a call at \<open>s\<close> follows a path of capture commands only, and \<open>Q\<close> relates its
  result to the path when it succeeds. Calls compose.\<close>

definition does :: "'w platform \<Rightarrow> ('a res \<times> verimark \<times> 'w) option \<Rightarrow> verimark \<times> 'w \<Rightarrow> ('a \<Rightarrow> moc_event list \<Rightarrow> bool) \<Rightarrow> bool" where
  "does P m s Q \<longleftrightarrow> (\<forall>r s'. m = Some (r, s') \<longrightarrow>
     (\<exists>tr. moc_path P s tr s' \<and> moc_ops tr = [] \<and> (\<forall>a. r = Inr a \<longrightarrow> Q a tr)))"

lemma doesD:
  "does P m s Q \<Longrightarrow> m = Some (r, s') \<Longrightarrow> \<exists>tr. moc_path P s tr s' \<and> moc_ops tr = [] \<and> (\<forall>a. r = Inr a \<longrightarrow> Q a tr)"
  unfolding does_def by blast

lemma doesI:
  "(\<And>r s'. m = Some (r, s') \<Longrightarrow> \<exists>tr. moc_path P s tr s' \<and> moc_ops tr = [] \<and> (\<forall>a. r = Inr a \<longrightarrow> Q a tr)) \<Longrightarrow> does P m s Q"
  unfolding does_def by blast

lemma does_bind:
  assumes "does P m s Q" "\<And>a s1. m = Some (Inr a, s1) \<Longrightarrow> does P (f a s1) s1 (R a)"
  shows "does P (bind_so m f) s (\<lambda>b tr. \<exists>a tr1 tr2. tr = tr1 @ tr2 \<and> Q a tr1 \<and> R a b tr2)"
  unfolding does_def
proof (intro allI impI)
  fix r s'
  assume "bind_so m f = Some (r, s')"
  then consider e where "m = Some (Inl e, s')" "r = Inl e" | a s1 where "m = Some (Inr a, s1)" "f a s1 = Some (r, s')"
    by (auto simp: bind_so_Some)
  then show "\<exists>tr. moc_path P s tr s' \<and> moc_ops tr = [] \<and>
      (\<forall>b. r = Inr b \<longrightarrow> (\<exists>a tr1 tr2. tr = tr1 @ tr2 \<and> Q a tr1 \<and> R a b tr2))"
  proof cases
    case 1
    then show ?thesis using doesD [OF assms(1)] by fastforce
  next
    case 2
    obtain tr1 where tr1: "moc_path P s tr1 s1" "moc_ops tr1 = []" "Q a tr1"
      using doesD [OF assms(1) 2(1)] by auto
    obtain tr2 where tr2: "moc_path P s1 tr2 s'" "moc_ops tr2 = []" "\<forall>b. r = Inr b \<longrightarrow> R a b tr2"
      using doesD [OF assms(2) [OF 2(1)] 2(2)] by auto
    show ?thesis
      using moc_path_trans [OF tr2(1) tr1(1)] tr1(2,3) tr2(2,3) by (intro exI [of _ "tr1 @ tr2"]) auto
  qed
qed

lemma capture_calls:
  "does P (cap_arm P m s) s (\<lambda>_ tr. \<exists>st resp. tr = [Replied (build_event_config m) st resp])"
  "does P (cap_press P s) s (\<lambda>_ tr. tr = [Pressed])"
  "does P (cap_acquire P kind s) s (\<lambda>_ tr. \<exists>st resp. tr = [Replied (verimark_moc_build_frame_acq kind) st resp])"
  "does P (cap_poll P n d s) s (\<lambda>ready tr. ready \<longrightarrow> polls_ready tr)"
  "does P (cap_end P ready s) s (\<lambda>_ tr. ready \<and> (\<exists>st1 r1 st2 r2.
     tr = [Replied (build_event_config 0) st1 r1, Replied verimark_moc_build_frame_finish st2 r2]))"
proof -
  show "does P (cap_arm P m s) s (\<lambda>_ tr. \<exists>st resp. tr = [Replied (build_event_config m) st resp])"
    using path_arm by (intro doesI) fastforce
  show "does P (cap_press P s) s (\<lambda>_ tr. tr = [Pressed])"
    using path_press by (intro doesI) fastforce
  show "does P (cap_acquire P kind s) s (\<lambda>_ tr. \<exists>st resp. tr = [Replied (verimark_moc_build_frame_acq kind) st resp])"
  proof (rule doesI)
    fix r s' assume "cap_acquire P kind s = Some (r, s')"
    from path_acquire [OF this] obtain tr where "moc_path P s tr s'" "moc_ops tr = []"
      "(\<exists>d. r = Inr d) \<longrightarrow> (\<exists>st resp. tr = [Replied (verimark_moc_build_frame_acq kind) st resp])" by metis
    then show "\<exists>tr. moc_path P s tr s' \<and> moc_ops tr = [] \<and>
        (\<forall>a. r = Inr a \<longrightarrow> (\<exists>st resp. tr = [Replied (verimark_moc_build_frame_acq kind) st resp]))" by auto
  qed
  show "does P (cap_poll P n d s) s (\<lambda>ready tr. ready \<longrightarrow> polls_ready tr)"
  proof (rule doesI)
    fix r s' assume "cap_poll P n d s = Some (r, s')"
    from path_poll [OF this] obtain tr where "moc_path P s tr s'" "moc_ops tr = []" "r = Inr True \<longrightarrow> polls_ready tr"
      using polls_ops by blast
    then show "\<exists>tr. moc_path P s tr s' \<and> moc_ops tr = [] \<and> (\<forall>a. r = Inr a \<longrightarrow> a \<longrightarrow> polls_ready tr)" by auto
  qed
  show "does P (cap_end P ready s) s (\<lambda>_ tr. ready \<and> (\<exists>st1 r1 st2 r2.
     tr = [Replied (build_event_config 0) st1 r1, Replied verimark_moc_build_frame_finish st2 r2]))"
    using path_end by (intro doesI) fastforce
qed

lemma does_mono:
  assumes "does P m s Q" "\<And>a tr. Q a tr \<Longrightarrow> Q' a tr"
  shows "does P m s Q'"
proof (rule doesI)
  fix r s' assume "m = Some (r, s')"
  from doesD [OF assms(1) this] obtain tr where "moc_path P s tr s'" "moc_ops tr = []" "\<forall>a. r = Inr a \<longrightarrow> Q a tr" by blast
  then show "\<exists>tr. moc_path P s tr s' \<and> moc_ops tr = [] \<and> (\<forall>a. r = Inr a \<longrightarrow> Q' a tr)" using assms(2) by auto
qed

lemma capturedI:
  "polls_ready polls \<Longrightarrow> captured kind (Replied (build_event_config VERIMARK_EVTMASK_FINGER) st1 r1 # Pressed #
     Replied (build_event_config VERIMARK_EVTMASK_FRAME) st2 r2 # Replied (verimark_moc_build_frame_acq kind) st3 r3 #
     polls @ [Replied (build_event_config 0) st4 r4, Replied verimark_moc_build_frame_finish st5 r5])"
  unfolding captured_def VERIMARK_EVTMASK_FINGER_def VERIMARK_EVTMASK_FRAME_def
  by (intro exI conjI, assumption, rule refl)

lemma capture_spec_path: "does P (capture_spec P kind s) s (\<lambda>_. captured kind)"
  unfolding capture_spec_def
  by (rule does_mono, (rule does_bind capture_calls)+, elim exE conjE, hypsubst)
    (simp only: append.simps, rule capturedI, simp)

lemma capture_path:
  assumes "platform_doc P T" "verimark_moc_capture P kind s = Some (r, s')"
  shows "\<exists>tr. moc_path P s tr s' \<and> moc_ops tr = [] \<and> (r = Inr () \<longrightarrow> captured kind tr)"
  using doesD [OF capture_spec_path assms(2) [unfolded capture_eq_spec [OF assms(1)]]] by auto

lemma capture_same:
  "platform_doc P T \<Longrightarrow> verimark_moc_capture P kind (dev, w) = Some (r, dev', w') \<Longrightarrow> same_op dev dev'"
  by (simp add: capture_eq_spec capture_spec_same)

lemma capture_total:
  "platform_doc P T \<Longrightarrow> \<exists>r s'. verimark_moc_capture P kind s = Some (r, s')"
  using capture_spec_total [of P T kind s] by (auto simp: capture_eq_spec)

end
