(* ===== verification/Usb_Sensor.thy ===== *)
theory Usb_Sensor
  imports Sensor Usb_Device Moc_Path
begin

text \<open>
  The whole sensor, as the driver meets it over USB: it answers the version command, pairs, takes
  part in the handshake inside 0x44 commands, and then runs an application behind its end of the
  session. \<open>honest\<close> collects what is documented of a platform with such a sensor plugged in.
\<close>

subsection \<open>The sensor\<close>

record 'a usb_sensor =
  u_hs :: sensor
  u_cert :: cert
  u_peer :: tls
  u_app :: 'a

text \<open>The sensor's end of a session is a \<open>tls\<close> whose two directions are exchanged.\<close>

definition peer_session :: "tls_keys \<Rightarrow> tls" where
  "peer_session ks = verimark_tls_new\<lparr>t_established := True, t_encr_seq := 1, t_decr_seq := 1,
     t_keys := \<lparr>encr_key = decr_key ks, decr_key = encr_key ks, encr_iv = decr_iv ks, decr_iv = encr_iv ks\<rparr>\<rparr>"

text \<open>What does not depend on the sensor that is plugged in: its version reply, and the explicit
  nonces of its records by their sequence number.\<close>

definition usb_step ::
  "crypto \<Rightarrow> bytes \<Rightarrow> (u64 \<Rightarrow> bytes) \<Rightarrow> ('a \<Rightarrow> bytes \<Rightarrow> bytes \<times> 'a) \<Rightarrow> 'a usb_sensor \<Rightarrow> bytes \<Rightarrow> bytes \<times> 'a usb_sensor" where
  "usb_step C version nonce app s cmd =
     (if cmd = [VERIMARK_CMD_GET_VERSION] then (version, s)
      else if take 1 cmd = [0x93] then ([0, 0] @ tl cmd @ verimark_cert_serialize (u_cert s), s)
      else if take 4 cmd = [VERIMARK_CMD_TLS_DATA, 0, 0, 0] then
        let (reply, h) = sensor_step C (u_hs s) (drop 4 cmd)
        in (reply, s\<lparr>u_hs := h, u_peer := if s_phase h = 2 then peer_session (s_keys h) else u_peer s\<rparr>)
      else if s_phase (u_hs s) = 2 then
        let (reply, a, p) = peer_step C (nonce (t_encr_seq (u_peer s))) app (u_app s, u_peer s) cmd
        in (reply, s\<lparr>u_app := a, u_peer := p\<rparr>)
      else ([], s))"

text \<open>A sensor whose certificate is of its own key.\<close>

definition usb_wf :: "crypto \<Rightarrow> 'a usb_sensor \<Rightarrow> bool" where
  "usb_wf C s \<longleftrightarrow> length (s_random (u_hs s)) = 32 \<and> length (s_nonce (u_hs s)) = 8 \<and> cert_wf (u_cert s)
     \<and> ec_point_mul C (s_priv (u_hs s)) = Some (pub_x (u_cert s), pub_y (u_cert s))"

lemma usb_step_cases:
  "usb_step C version nonce app s [VERIMARK_CMD_GET_VERSION] = (version, s)"
  "usb_step C version nonce app s (0x93 # c) = ([0, 0] @ c @ verimark_cert_serialize (u_cert s), s)"
  "usb_step C version nonce app s ([VERIMARK_CMD_TLS_DATA, 0, 0, 0] @ out) =
     (case sensor_step C (u_hs s) out of (reply, h) \<Rightarrow>
        (reply, s\<lparr>u_hs := h, u_peer := if s_phase h = 2 then peer_session (s_keys h) else u_peer s\<rparr>))"
  by (simp_all add: usb_step_def VERIMARK_CMD_GET_VERSION_def VERIMARK_CMD_TLS_DATA_def split: prod.split)

lemma usb_step_app:
  assumes "s_phase (u_hs s) = 2" "take 1 rcd = [0x17]"
  shows "usb_step C version nonce app s rcd =
    (case peer_step C (nonce (t_encr_seq (u_peer s))) app (u_app s, u_peer s) rcd of (reply, a, p) \<Rightarrow>
       (reply, s\<lparr>u_app := a, u_peer := p\<rparr>))"
proof -
  obtain rest where "rcd = 0x17 # rest" using assms(2) by (cases rcd) auto
  then show ?thesis
    using assms(1) by (simp add: usb_step_def VERIMARK_CMD_GET_VERSION_def VERIMARK_CMD_TLS_DATA_def)
qed

lemma usb_step_wf: "usb_wf C (snd (usb_step C version nonce app s cmd)) \<longleftrightarrow> usb_wf C s"
  by (simp add: usb_step_def usb_wf_def sensor_step_identity Let_def split_beta)

subsection \<open>A platform it is plugged into\<close>

text \<open>Which operations leave an observation alone, by what they act on.\<close>

definition leaves_rest :: "'w platform \<Rightarrow> ('w \<Rightarrow> 'v) \<Rightarrow> bool" where
  "leaves_rest P v \<longleftrightarrow> (\<forall>w. v (snd (mono_time P w)) = v w) \<and> (\<forall>us w. v (pause_us P us w) = v w)
     \<and> (\<forall>w. v (snd (unix_time P w)) = v w) \<and> (\<forall>w n. v (snd (rand_bytes P w n)) = v w)
     \<and> (\<forall>w k m. v (snd (evp_digest_sign P w k m)) = v w) \<and> (\<forall>w k m. v (snd (ecdsa_sign P w k m)) = v w)
     \<and> (\<forall>w. v (snd (ec_generate P w)) = v w) \<and> (\<forall>w. v (snd (usb_interfaces P w)) = v w)
     \<and> (\<forall>w n. v (snd (usb_claim P w n)) = v w) \<and> (\<forall>w n. v (snd (usb_release P w n)) = v w)"

definition leaves_usb :: "'w platform \<Rightarrow> ('w \<Rightarrow> 'v) \<Rightarrow> bool" where
  "leaves_usb P v \<longleftrightarrow> (\<forall>w r x d. v (snd (ctrl_out P w r x d)) = v w) \<and> (\<forall>w r x n. v (snd (ctrl_in P w r x n)) = v w)"

definition leaves_intr :: "'w platform \<Rightarrow> ('w \<Rightarrow> 'v) \<Rightarrow> bool" where
  "leaves_intr P v \<longleftrightarrow> (\<forall>w ep n t. v (snd (intr_in P w ep n t)) = v w)"

definition leaves_files :: "'w platform \<Rightarrow> ('w \<Rightarrow> 'v) \<Rightarrow> bool" where
  "leaves_files P v \<longleftrightarrow> (\<forall>w p m. v (snd (fs_mkdir P w p m)) = v w) \<and> (\<forall>w p m. v (snd (fs_open_trunc P w p m)) = v w)
     \<and> (\<forall>w p d. v (snd (fs_write P w p d)) = v w) \<and> (\<forall>w p. v (snd (fs_read P w p)) = v w)"

text \<open>Keys that come up in a pairing or a handshake work, and signatures with them fit.\<close>

definition usable :: "crypto \<Rightarrow> bytes \<Rightarrow> bool" where
  "usable C k \<longleftrightarrow> ec_set_private_key C k \<and> ec_point_mul C k \<noteq> None"

definition keys_ok :: "'w platform \<Rightarrow> bool" where
  "keys_ok P \<longleftrightarrow> (\<forall>w. usable (lib P) (fst (rand_bytes P w 32)))
     \<and> (\<forall>w. \<exists>k x y. fst (ec_generate P w) = Some (k, x, y) \<and> length k = 32 \<and> usable (lib P) k)
     \<and> (\<forall>hs. hs_key_scalar (lib P) = Inr hs \<longrightarrow> usable (lib P) hs)
     \<and> (\<forall>w k d. usable (lib P) k \<longrightarrow> (\<exists>sig. fst (ecdsa_sign P w k d) = Some sig \<and> length sig \<le> 80))
     \<and> (\<forall>w k m. usable (lib P) k \<longrightarrow> (\<exists>sig. fst (evp_digest_sign P w k m) = Some sig \<and> length sig \<le> 80))"

definition disk_ok :: "'w platform \<Rightarrow> bool" where
  "disk_ok P \<longleftrightarrow> (\<forall>w p m. fst (fs_mkdir P w p m) = Inr ()) \<and> (\<forall>w p m. fst (fs_open_trunc P w p m) = Inr ())
     \<and> (\<forall>w p d. fst (fst (fs_write P w p d)) = length d)"

definition topology_ok :: "'w platform \<Rightarrow> bool" where
  "topology_ok P \<longleftrightarrow> (\<forall>w. \<exists>ifs n eps. fst (usb_interfaces P w) = Inr ifs
       \<and> find (\<lambda>(n, eps). n = VERIMARK_IFACE) ifs = Some (n, eps) \<and> VERIMARK_EP_INTR_IN \<in> set eps)
     \<and> (\<forall>w n. fst (usb_claim P w n) = Inr ()) \<and> (\<forall>w n. fst (usb_release P w n) = Inr ())"

text \<open>What is observed of a world, and the fixed data of the sensor.\<close>

record ('w, 'a) bench =
  o_rx :: "'w \<Rightarrow> (u16 \<times> bytes) list"
  o_pend :: "'w \<Rightarrow> bytes"
  o_busy :: "'w \<Rightarrow> nat"
  o_sensor :: "'w \<Rightarrow> 'a usb_sensor"
  o_events :: "'w \<Rightarrow> bytes list"
  o_files :: "'w \<Rightarrow> string \<Rightarrow> bytes option"
  o_time :: "'w \<Rightarrow> int"
  b_app :: "'a \<Rightarrow> bytes \<Rightarrow> bytes \<times> 'a"
  b_version :: bytes
  b_nonce :: "u64 \<Rightarrow> bytes"

abbreviation bench_step :: "'w platform \<Rightarrow> ('w, 'a) bench \<Rightarrow> 'a usb_sensor \<Rightarrow> bytes \<Rightarrow> bytes \<times> 'a usb_sensor" where
  "bench_step P E \<equiv> usb_step (lib P) (b_version E) (b_nonce E) (b_app E)"

definition version_ok :: "bytes \<Rightarrow> bool" where
  "version_ok v \<longleftrightarrow> VERIMARK_GET_VERSION_RESP_LEN \<le> length v \<and> length v \<le> 256 \<and> v ! 0 = 0 \<and> v ! 1 = 0"

definition honest :: "'w platform \<Rightarrow> ('w, 'a) bench \<Rightarrow> bool" where
  "honest P E \<longleftrightarrow> platform_doc P (o_time E) \<and> mac_doc (lib P) \<and> dh_doc (lib P) \<and> curve_doc (lib P) \<and> keys_ok P
     \<and> frame_device P (o_rx E) (o_pend E) (o_busy E) (o_sensor E) (bench_step P E)
     \<and> event_queue P VERIMARK_EP_INTR_IN (o_events E) \<and> fs_doc P (o_files E) \<and> disk_ok P \<and> topology_ok P
     \<and> leaves_rest P (\<lambda>w. (o_rx E w, o_sensor E w, o_events E w, o_files E w))
     \<and> leaves_usb P (\<lambda>w. (o_events E w, o_files E w)) \<and> leaves_intr P (\<lambda>w. (o_rx E w, o_sensor E w, o_files E w))
     \<and> leaves_files P (\<lambda>w. (o_rx E w, o_sensor E w, o_events E w))
     \<and> (\<forall>w. o_time E (snd (mono_time P w)) < o_time E w + 30000000)
     \<and> version_ok (b_version E) \<and> (\<forall>n. length (b_nonce E n) = 8)"

end
