(* ===== verification/App_Link.thy ===== *)
theory App_Link
  imports Moc_Path
begin

text \<open>
  What the operations of \<open>verimark-moc.c\<close> rely on from the layers below when the sensor is there
  and cooperates: an interface (\<open>app_link\<close>) by which every command reaches an application and its
  reply comes back, and finger presses are delivered. Captures, enrollments and verifications are
  shown to succeed over it; it is provided by a sensor at the far end of the USB transfers and the
  TLS session, and by one that talks in the clear.
\<close>

text \<open>\<open>idle evs a s\<close>: between two commands, with the events \<open>evs\<close> queued and the application in state
  \<open>a\<close>.\<close>

locale app_link =
  fixes P :: "'w platform" and T :: "'w \<Rightarrow> int" and app :: "'a \<Rightarrow> bytes \<Rightarrow> bytes \<times> 'a"
    and idle :: "bytes list \<Rightarrow> 'a \<Rightarrow> verimark \<times> 'w \<Rightarrow> bool"
  assumes docs: "platform_doc P T"
    and prompt: "T (snd (mono_time P w)) < T w + 30000000"
    and send: "idle evs a s \<Longrightarrow> app a cmd = (resp, a') \<Longrightarrow> length cmd \<le> 32739 \<Longrightarrow> length resp \<le> 483
      \<Longrightarrow> unat hint + 64 < 2 ^ 64
      \<Longrightarrow> \<exists>s'. verimark_moc_send P cmd hint s = Some (Inr (reply_status resp, resp), s') \<and> idle evs a' s'"
    and local: "idle evs a (dev, w) \<Longrightarrow> same_device dev dev' \<Longrightarrow> idle evs a (dev', w)"
    and clock: "idle evs a (dev, w) \<Longrightarrow> idle evs a (dev, snd (mono_time P w))"
    and files: "idle evs a (dev, w) \<Longrightarrow> idle evs a (dev, snd (fs_read P w path))"
    and press: "idle ([0x01] # evs) a (dev, w)
      \<Longrightarrow> \<exists>w'. intr_in P w (intr_ep (d_ep_intr_in dev)) n t = (Inr [0x01], w') \<and> idle evs a (dev, w')"

text \<open>An application that answers the capture commands, with a frame each time, and does nothing else
  on them.\<close>

definition captures :: "('a \<Rightarrow> bytes \<Rightarrow> bytes \<times> 'a) \<Rightarrow> bool" where
  "captures app \<longleftrightarrow> (\<forall>a cmd. cmd \<noteq> [] \<and> capture_cmd cmd \<longrightarrow> length (fst (app a cmd)) \<le> 483 \<and> snd (app a cmd) = a
     \<and> (hd cmd = VERIMARK_CMD_EVENT_READ \<longrightarrow> reply_status (fst (app a cmd)) = 0 \<and> frame_ready (fst (app a cmd))))"

lemma capture_cmd_cases [simp]:
  "capture_cmd (build_event_config m)" "capture_cmd (build_event_read n)"
  "capture_cmd (verimark_moc_build_frame_acq k)" "capture_cmd verimark_moc_build_frame_finish"
  "build_event_config m \<noteq> []" "build_event_read n \<noteq> []" "hd (build_event_read n) = VERIMARK_CMD_EVENT_READ"
  "verimark_moc_build_frame_acq k \<noteq> []" "verimark_moc_build_frame_finish \<noteq> []"
  by (simp_all add: capture_cmd_def build_event_config_def build_event_read_def verimark_moc_build_frame_acq_def
      verimark_moc_build_frame_finish_def VERIMARK_CMD_EVENT_CONFIG_def VERIMARK_CMD_EVENT_READ_def)

lemma capture_cmd_lengths:
  "length (build_event_config m) \<le> 32739" "length (build_event_read n) \<le> 32739"
  "length (verimark_moc_build_frame_acq k) \<le> 32739" "length verimark_moc_build_frame_finish \<le> 32739"
  by (simp_all add: build_event_config_def build_event_read_def verimark_moc_build_frame_acq_def
      verimark_moc_build_frame_finish_def length_concat sum_list_replicate)

context app_link begin

lemma idle_seq: "idle evs a (dev, w) \<Longrightarrow> idle evs a (dev\<lparr>event_seq_num := n\<rparr>, w)"
  by (erule local) simp

text \<open>A capture command.\<close>

lemma send_capture:
  assumes "captures app" "idle evs a s" "cmd \<noteq> []" "capture_cmd cmd" "length cmd \<le> 32739" "unat hint + 64 < 2 ^ 64"
  shows "\<exists>resp s'. verimark_moc_send P cmd hint s = Some (Inr (reply_status resp, resp), s') \<and> idle evs a s'
    \<and> (hd cmd = VERIMARK_CMD_EVENT_READ \<longrightarrow> reply_status resp = 0 \<and> frame_ready resp)"
proof -
  obtain resp a' where app: "app a cmd = (resp, a')" by fastforce
  with assms(1,3,4) have r: "length resp \<le> 483" "a' = a"
    "hd cmd = VERIMARK_CMD_EVENT_READ \<longrightarrow> reply_status resp = 0 \<and> frame_ready resp"
    unfolding captures_def by (metis fst_conv snd_conv)+
  from send [OF assms(2) app assms(5) r(1) assms(6)] r(2,3) show ?thesis by blast
qed

lemma arm:
  assumes "captures app" "idle evs a s"
  shows "\<exists>s'. cap_arm P m s = Some (Inr (), s') \<and> idle evs a s'"
proof -
  obtain resp s' where "cap_send_config P m s = Some (Inr (reply_status resp, resp), s')" "idle evs a s'"
    using send_capture [OF assms, of "build_event_config m" "of_nat VERIMARK_EVENT_CONFIG_RESP_LEN"] capture_cmd_lengths
    by (auto simp: cap_send_config_def VERIMARK_EVENT_CONFIG_RESP_LEN_def)
  then show ?thesis by (cases s') (auto simp: cap_arm_def idle_seq)
qed

lemma pressed:
  assumes "idle ([0x01] # evs) a s"
  shows "\<exists>s'. cap_press P s = Some (Inr (), s') \<and> idle evs a s'"
proof -
  obtain dev w where s: "s = (dev, w)" by fastforce
  obtain w1 where clk1: "mono_time P w = (T w, w1)" and le: "T w \<le> T w1"
    using platform_docD(5) [OF docs, of w] by (metis surj_pair)
  obtain w2 where clk2: "mono_time P w1 = (T w1, w2)"
    using platform_docD(5) [OF docs, of w1] by (metis surj_pair)
  have soon: "T w1 < T w + 30000000" using prompt [of w] clk1 by simp
  have idle2: "idle ([0x01] # evs) a (dev, w2)"
    using clock [OF clock [OF assms [unfolded s]]] clk1 clk2 by simp
  let ?ep = "intr_ep (d_ep_intr_in dev)"
  have end_: "T w + 30000000 \<noteq> G_MAXINT64" using docs by (simp add: platform_doc_def time_doc_def)
  let ?ctx = "\<lparr>ic_ep = ?ep, want_type = 1, deadline_us = T w + 30000000, got = False, seq = 0\<rparr>"
  let ?t = "nat (min VERIMARK_INTR_ATTEMPT_MS ((T w + 30000000 - T w1 + 999) div 1000))"
  from press [OF idle2, of VERIMARK_INTR_MAXPKT ?t] obtain w3 where
    intr: "intr_in P w2 ?ep VERIMARK_INTR_MAXPKT ?t = (Inr [0x01], w3)" and idle3: "idle evs a (dev, w3)" by blast
  have step: "intr_step P 0 (?ctx, w1) = Some (Mark_Completed, ?ctx\<lparr>got := True, seq := 0\<rparr>, w3)"
    using end_ clk2 soon intr
    by (simp add: intr_step_def intr_submit_def on_intr_read_done_def intr_event_seq_def)
  have fuel: "press_fuel = Suc 30000000" by (simp add: press_fuel_def VERIMARK_CAPTURE_PRESS_TIMEOUT_MS_def)
  have "ssm_run (fpi P) (world_delay P) 1 (intr_step P) press_fuel 0 (?ctx, w1) = Some (Inr (), ?ctx\<lparr>got := True, seq := 0\<rparr>, w3)"
    unfolding fuel by (rule ssm_run_steps(6) [OF platform_docD(1) [OF docs]]) (rule step)
  then have "cap_wait_press P s = Some (Inr (True, 0), dev, w3)"
    using clk1 by (simp add: s cap_wait_press_def verimark_intr_wait_async_def intr_ssm_completed_def
        VERIMARK_CAPTURE_PRESS_TIMEOUT_MS_def VERIMARK_EVT_FINGER_PRESS_def del: ssm_run.simps)
  then show ?thesis using idle3 by (simp add: cap_press_def)
qed

lemma capture:
  assumes "captures app" "idle ([0x01] # evs) a s"
  shows "\<exists>s'. verimark_moc_capture P kind s = Some (Inr (), s') \<and> idle evs a s' \<and> same_op (fst s) (fst s')"
proof -
  obtain s1 where 1: "cap_arm P VERIMARK_EVTMASK_FINGER s = Some (Inr (), s1)" "idle ([0x01] # evs) a s1"
    using arm [OF assms] by blast
  obtain s2 where 2: "cap_press P s1 = Some (Inr (), s2)" "idle evs a s2" using pressed [OF 1(2)] by blast
  obtain s3 where 3: "cap_arm P VERIMARK_EVTMASK_FRAME s2 = Some (Inr (), s3)" "idle evs a s3"
    using arm [OF assms(1) 2(2)] by blast
  obtain resp4 dev4 w4 where 4: "verimark_moc_send P (verimark_moc_build_frame_acq kind) 2 s3 =
      Some (Inr (reply_status resp4, resp4), dev4, w4)" "idle evs a (dev4, w4)"
    using send_capture [OF assms(1) 3(2), of "verimark_moc_build_frame_acq kind" 2] capture_cmd_lengths by auto
  obtain now w5 where clk: "mono_time P w4 = (now, w5)" by fastforce
  have acq: "cap_acquire P kind s3 = Some (Inr (now + 4000000), dev4, w5)" "idle evs a (dev4, w5)"
    using 4 clock [OF 4(2)] clk by (simp_all add: cap_acquire_def)
  obtain resp dev6 w6 where 6: "verimark_moc_send P (build_event_read (event_seq_num dev4)) 390 (dev4, w5) =
      Some (Inr (0, resp), dev6, w6)" "idle evs a (dev6, w6)" "frame_ready resp"
  proof -
    from send_capture [OF assms(1) acq(2), of "build_event_read (event_seq_num dev4)" 390] capture_cmd_lengths
    obtain resp s' where "verimark_moc_send P (build_event_read (event_seq_num dev4)) 390 (dev4, w5) =
        Some (Inr (reply_status resp, resp), s')" "idle evs a s'" "reply_status resp = 0" "frame_ready resp" by auto
    then show thesis using that by (cases s') simp
  qed
  obtain now2 w7 where clk2: "mono_time P w6 = (now2, w7)" by fastforce
  let ?d7 = "dev6\<lparr>event_seq_num := event_seq_num dev6 + frame_events resp\<rparr>"
  have poll: "cap_poll P cap_polls d (dev4, w5) = Some (Inr True, ?d7, w7)" for d
    using 6 clk2 by (simp add: cap_polls_def cap_poll.simps(2) [of _ 267, simplified] Let_def)
  have idle7: "idle evs a (?d7, w7)" using idle_seq [OF clock [OF 6(2)]] clk2 by simp
  obtain s8 where 8: "cap_arm P VERIMARK_EVTMASK_NONE (?d7, w7) = Some (Inr (), s8)" "idle evs a s8"
    using arm [OF assms(1) idle7] by blast
  obtain resp9 s9 where 9: "verimark_moc_send P verimark_moc_build_frame_finish 2 s8 = Some (Inr (reply_status resp9, resp9), s9)"
    "idle evs a s9"
    using send_capture [OF assms(1) 8(2), of verimark_moc_build_frame_finish 2] capture_cmd_lengths by auto
  have "capture_spec P kind s = Some (Inr (), s9)"
    using 1(1) 2(1) 3(1) acq(1) poll 8(1) 9(1) by (simp add: capture_spec_def cap_end_def)
  then have run: "verimark_moc_capture P kind s = Some (Inr (), s9)" by (simp add: capture_eq_spec [OF docs])
  then show ?thesis using 9(2) capture_same [OF docs, of kind "fst s" "snd s" "Inr ()" "fst s9" "snd s9"] by simp
qed

end

end
