(* ===== verification/Link.thy ===== *)
theory Link
  imports Usb_Sensor App_Link
begin

text \<open>
  A device that is opened with a sensor plugged in: the whole way from the USB topology over the
  version, the pairing and the handshake to a session in which every command reaches the sensor's
  application. An open device provides the interface \<open>app_link\<close>, over which captures, enrollments
  and verifications were shown to succeed.
\<close>

subsection \<open>Between two commands\<close>

definition at_rest :: "('w, 'a) bench \<Rightarrow> 'a usb_sensor \<Rightarrow> bytes list \<Rightarrow> (string \<Rightarrow> bytes option) \<Rightarrow> 'w \<Rightarrow> bool" where
  "at_rest E s evs F w \<longleftrightarrow> o_rx E w = [] \<and> o_sensor E w = s \<and> o_events E w = evs \<and> o_files E w = F"

lemma honestD:
  assumes "honest P E"
  shows "platform_doc P (o_time E)" "mac_doc (lib P)" "aead_doc (lib P)" "rand_doc P" "dh_doc (lib P)"
    "curve_doc (lib P)" "fpi_ssm_doc (fpi P)" "keys_ok P" "fs_doc P (o_files E)" "disk_ok P" "topology_ok P"
    "event_queue P VERIMARK_EP_INTR_IN (o_events E)" "version_ok (b_version E)" "length (b_nonce E n) = 8"
    "frame_device P (o_rx E) (o_pend E) (o_busy E) (o_sensor E) (bench_step P E)"
    "o_time E (snd (mono_time P w)) < o_time E w + 30000000"
  using assms by (simp_all add: honest_def platform_doc_def)

lemma honest_rest:
  assumes "honest P E"
  shows "at_rest E s evs F (snd (mono_time P w)) = at_rest E s evs F w"
    "at_rest E s evs F (pause_us P us w) = at_rest E s evs F w"
    "at_rest E s evs F (snd (unix_time P w)) = at_rest E s evs F w"
    "at_rest E s evs F (snd (rand_bytes P w n)) = at_rest E s evs F w"
    "at_rest E s evs F (snd (evp_digest_sign P w k m)) = at_rest E s evs F w"
    "at_rest E s evs F (snd (ecdsa_sign P w k m)) = at_rest E s evs F w"
    "at_rest E s evs F (snd (ec_generate P w)) = at_rest E s evs F w"
    "at_rest E s evs F (snd (usb_interfaces P w)) = at_rest E s evs F w"
    "at_rest E s evs F (snd (usb_claim P w i)) = at_rest E s evs F w"
    "at_rest E s evs F (snd (usb_release P w i)) = at_rest E s evs F w"
  using assms by (simp_all add: honest_def leaves_rest_def at_rest_def)

lemma honest_read:
  assumes "honest P E"
  shows "at_rest E s evs F (snd (fs_read P w path)) = at_rest E s evs F w"
proof -
  have "o_files E (snd (fs_read P w path)) = o_files E w"
    using fs_docD(5) [OF honestD(9) [OF assms], of w path] by (metis prod.collapse)
  then show ?thesis using assms by (simp add: honest_def leaves_files_def at_rest_def)
qed

lemma honest_files:
  assumes "honest P E"
  shows "o_rx E (snd (fs_mkdir P w p m)) = o_rx E w" "o_sensor E (snd (fs_mkdir P w p m)) = o_sensor E w"
    "o_events E (snd (fs_mkdir P w p m)) = o_events E w"
    "o_rx E (snd (fs_open_trunc P w p m)) = o_rx E w" "o_sensor E (snd (fs_open_trunc P w p m)) = o_sensor E w"
    "o_events E (snd (fs_open_trunc P w p m)) = o_events E w"
    "o_rx E (snd (fs_write P w p d)) = o_rx E w" "o_sensor E (snd (fs_write P w p d)) = o_sensor E w"
    "o_events E (snd (fs_write P w p d)) = o_events E w"
  using assms by (simp_all add: honest_def leaves_files_def)

text \<open>One command.\<close>

lemma honest_call:
  assumes "honest P E" "at_rest E s evs F w" "length cmd \<le> 32768" "bench_step P E s cmd = (reply, s')"
  shows "\<exists>w'. verimark_ctrl_cmd_sync P cmd m w = (Inr (take (unat (max m 1)) reply), w') \<and> at_rest E s' evs F w'"
proof -
  have rest: "o_rx E w = []" "o_sensor E w = s" "o_events E w = evs" "o_files E w = F"
    using assms(2) by (simp_all add: at_rest_def)
  from frame_device_call [OF honestD(15) [OF assms(1)] rest(1) assms(3), of m] obtain w' where
    run: "verimark_ctrl_cmd_sync P cmd m w = (Inr (take (unat (max m 1)) reply), w')" "o_rx E w' = []" "o_sensor E w' = s'"
    using assms(4) rest(2) by auto
  have "o_events E w' = o_events E w"
    by (rule ctrl_cmd_sync_keeps [OF _ _ _ run(1)]) (use assms(1) in \<open>simp_all add: honest_def leaves_usb_def leaves_rest_def\<close>)
  moreover have "o_files E w' = o_files E w"
    by (rule ctrl_cmd_sync_keeps [OF _ _ _ run(1)]) (use assms(1) in \<open>simp_all add: honest_def leaves_usb_def leaves_rest_def\<close>)
  ultimately show ?thesis using run rest by (auto simp: at_rest_def)
qed

lemma honest_press:
  assumes "honest P E" "at_rest E s (ev # evs) F w"
  shows "\<exists>w'. intr_in P w VERIMARK_EP_INTR_IN n t = (Inr ev, w') \<and> at_rest E s evs F w'"
proof -
  from event_queue_next [OF honestD(12) [OF assms(1)], of w ev evs n t] assms(2) obtain w' where
    "intr_in P w VERIMARK_EP_INTR_IN n t = (Inr ev, w')" "o_events E w' = evs" by (auto simp: at_rest_def)
  moreover have "o_rx E w' = o_rx E w" "o_sensor E w' = o_sensor E w" "o_files E w' = o_files E w"
    using assms(1) calculation(1) by (auto simp: honest_def leaves_intr_def) (metis snd_conv)+
  ultimately show ?thesis using assms(2) by (auto simp: at_rest_def)
qed

lemma drain_rest:
  assumes "honest P E" "at_rest E s evs F w" "[] \<notin> set (take 16 evs)"
  shows "at_rest E s (drop 16 evs) F (verimark_intr_drain_sync P VERIMARK_EP_INTR_IN w)"
proof -
  have keeps: "g (intr_drain_loop P ep k w) = g w" if "leaves_intr P g" for g :: "_ \<Rightarrow> 'z" and ep k
    using that
  proof (induction k arbitrary: w)
    case (Suc k)
    obtain r w' where "intr_in P w ep VERIMARK_INTR_MAXPKT VERIMARK_INTR_DRAIN_TIMEOUT_MS = (r, w')" by fastforce
    moreover from this have "g w' = g w" using Suc.prems unfolding leaves_intr_def by (metis snd_conv)
    ultimately show ?case using Suc.IH [OF Suc.prems, of w'] by (cases r) auto
  qed simp
  have ep: "intr_ep VERIMARK_EP_INTR_IN = VERIMARK_EP_INTR_IN" by (simp add: intr_ep_def)
  let ?w = "verimark_intr_drain_sync P VERIMARK_EP_INTR_IN w"
  have "o_events E ?w = drop 16 evs"
    using intr_drain_queue [OF honestD(12) [OF assms(1)], of 16 w] assms(2,3)
    by (simp add: verimark_intr_drain_sync_def ep VERIMARK_INTR_DRAIN_MAX_READS_def at_rest_def)
  moreover have "(\<lambda>w. (o_rx E w, o_sensor E w, o_files E w)) ?w = (o_rx E w, o_sensor E w, o_files E w)"
    using assms(1) unfolding verimark_intr_drain_sync_def honest_def by (intro keeps) blast
  ultimately show ?thesis using assms(2) by (simp add: at_rest_def)
qed

subsection \<open>The sensor id and the pairing\<close>

definition version_sid :: "bytes \<Rightarrow> string" where
  "version_sid v = concat (map hex_byte (take 6 (drop 18 v)))"

lemma sid_resolved:
  assumes "honest P E" "at_rest E s evs F w"
  shows "\<exists>w'. verimark_resolve_sid_sync P w = (Inr (version_sid (b_version E)), w') \<and> at_rest E s evs F w'"
proof -
  have v: "38 \<le> length (b_version E)" "length (b_version E) \<le> 256" "b_version E ! 0 = 0" "b_version E ! Suc 0 = 0"
    using honestD(13) [OF assms(1)] by (simp_all add: version_ok_def VERIMARK_GET_VERSION_RESP_LEN_def)
  have "bench_step P E s [VERIMARK_CMD_GET_VERSION] = (b_version E, s)" by (rule usb_step_cases(1))
  from honest_call [OF assms _ this, of 256] obtain w' where
    "verimark_ctrl_cmd_sync P [VERIMARK_CMD_GET_VERSION] 256 w = (Inr (b_version E), w')" "at_rest E s evs F w'"
    using v(2) by auto
  then show ?thesis
    using v by (auto simp: verimark_resolve_sid_sync_def VERIMARK_GET_VERSION_RESP_LEN_def rd_slice_def
        VERIMARK_GET_VERSION_SID_OFFSET_def VERIMARK_GET_VERSION_SID_LEN_def version_sid_def)
qed

text \<open>A pairing the sensor can take part in a handshake with.\<close>

definition paired_with :: "crypto \<Rightarrow> 'a usb_sensor \<Rightarrow> pairing \<Rightarrow> bool" where
  "paired_with C s pd \<longleftrightarrow> pairing_wf pd \<and> usable C (priv_scalar pd)
     \<and> ec_point_mul C (s_priv (u_hs s)) = Some (pub_x (sensor_cert pd), pub_y (sensor_cert pd))"

lemma host_cert_made:
  assumes "honest P E" "usable (lib P) k" "at_rest E s evs F w"
  shows "\<exists>c w'. build_host_cert P k w = (Inr (c, verimark_cert_serialize c), w') \<and> cert_wf c \<and> at_rest E s evs F w'"
proof -
  note keys = honestD(8) [OF assms(1)]
  obtain hs where hs: "hs_key_scalar (lib P) = Inr hs"
    using length_prf [OF honestD(2) [OF assms(1)], of MD_SHA256 hs_secret "''HS_KEY_PAIR_GEN''" hs_seed 32]
    by (auto simp: hs_key_scalar_def)
  have use: "usable (lib P) hs" using keys hs by (simp add: keys_ok_def)
  obtain x y where pub: "verimark_pub_from_priv (lib P) k = Inr (x, y)"
    using assms(2) by (auto simp: usable_def verimark_pub_from_priv_def)
  let ?c = "\<lparr>pub_x = x, pub_y = y, cert_type = 0, sign_size = 0, signature = replicate 256 0\<rparr>"
  obtain q w1 where sign: "evp_digest_sign P w hs (verimark_cert_signbytes ?c) = (q, w1)" by fastforce
  moreover from this obtain sig where sig: "q = Some sig" "length sig \<le> 80"
    using keys use unfolding keys_ok_def by (metis fst_conv)
  ultimately have "verimark_ecdsa_sign P hs (verimark_cert_signbytes ?c) w = (Inr sig, w1)"
    using use by (simp add: verimark_ecdsa_sign_def usable_def)
  then obtain c buf where run: "build_host_cert P k w = (Inr (c, buf), w1)"
    using hs pub sig(2) by (simp add: build_host_cert_def Let_def)
  moreover have "at_rest E s evs F w1" using honest_rest(5) [OF assms(1)] sign assms(3) by (metis snd_conv)
  ultimately show ?thesis using build_host_cert_Inr [OF honestD(6) [OF assms(1)] run] by blast
qed

lemma pairing_made:
  assumes "honest P E" "usb_wf (lib P) s" "at_rest E s evs F w"
  shows "\<exists>pd w'. verimark_pairing_do P (verimark_pair_io_sync P) w = (Inr pd, w') \<and> paired_with (lib P) s pd \<and> at_rest E s evs F w'"
proof -
  obtain q w1 where gen: "ec_generate P w = (q, w1)" by fastforce
  moreover from this obtain k x y where k: "q = Some (k, x, y)" "length k = 32" "usable (lib P) k"
    using honestD(8) [OF assms(1)] unfolding keys_ok_def by (metis fst_conv)
  ultimately have gen: "ec_keygen P w = (Inr (k, x, y), w1)" and rest1: "at_rest E s evs F w1"
    using honest_rest(7) [OF assms(1), of s evs F w] assms(3) by (simp_all add: ec_keygen_def)
  from host_cert_made [OF assms(1) k(3) rest1] obtain c w2 where
    c: "build_host_cert P k w1 = (Inr (c, verimark_cert_serialize c), w2)" "cert_wf c" "at_rest E s evs F w2" by blast
  have wf: "cert_wf (u_cert s)" using assms(2) by (simp add: usb_wf_def)
  let ?reply = "[0, 0] @ verimark_cert_serialize c @ verimark_cert_serialize (u_cert s)"
  have "bench_step P E s (0x93 # verimark_cert_serialize c) = (?reply, s)" by (rule usb_step_cases(2))
  from honest_call [OF assms(1) c(3) _ this, of 802] obtain w3 where
    io: "verimark_pair_io_sync P w2 (0x93 # verimark_cert_serialize c) = (Inr ?reply, w3)" "at_rest E s evs F w3"
    using c(2) wf by (auto simp: verimark_pair_io_sync_def)
  have len: "length (verimark_cert_serialize c) = 400" "length (verimark_cert_serialize (u_cert s)) = 400"
    using c(2) wf by simp_all
  then have "rd_slice ?reply 2 400 = Inr (verimark_cert_serialize c)"
    "rd_slice ?reply 402 400 = Inr (verimark_cert_serialize (u_cert s))" by simp_all
  then have "verimark_pairing_do P (verimark_pair_io_sync P) w =
      (Inr \<lparr>priv_scalar = k, host_cert = c, sensor_cert = u_cert s\<rparr>, w3)"
    using gen c(1) io(1) len cert_parse_serialize [OF c(2)] cert_parse_serialize [OF wf]
    by (simp add: verimark_pairing_do_def)
  moreover have "paired_with (lib P) s \<lparr>priv_scalar = k, host_cert = c, sensor_cert = u_cert s\<rparr>"
    using k c(2) assms(2) by (simp add: paired_with_def pairing_wf_def usb_wf_def)
  ultimately show ?thesis using io(2) by blast
qed

lemma pairing_saved:
  assumes "honest P E" "pairing_wf pd" "at_rest E s evs F w"
  shows "\<exists>w'. verimark_pairing_save_file P pd sid w = (Inr (), w')
    \<and> at_rest E s evs (F(verimark_pairing_path P sid \<mapsto> verimark_pairing_save pd)) w'"
proof -
  note disk = honestD(10) [OF assms(1), unfolded disk_ok_def]
  let ?path = "verimark_pairing_path P sid"
  obtain w1 where mk: "fs_mkdir P w (pairing_base_dir P) 0x1c0 = (Inr (), w1)" using disk by (metis prod.collapse)
  obtain w2 where tr: "fs_open_trunc P w1 ?path 0x180 = (Inr (), w2)" using disk by (metis prod.collapse)
  obtain c w3 where wr: "fs_write P w2 ?path (verimark_pairing_save pd) = ((868, c), w3)"
    using disk assms(2) by (metis prod.collapse length_pairing_save)
  have save: "verimark_pairing_save_file P pd sid w = (Inr (), w3)"
    using mk tr wr by (simp add: verimark_pairing_save_file_def Let_def)
  have w: "w3 = snd (fs_write P w2 ?path (verimark_pairing_save pd))" "w2 = snd (fs_open_trunc P w1 ?path 0x180)"
    "w1 = snd (fs_mkdir P w (pairing_base_dir P) 0x1c0)" using mk tr wr by simp_all
  have keep: "o_rx E w3 = o_rx E w" "o_sensor E w3 = o_sensor E w" "o_events E w3 = o_events E w"
    unfolding w by (simp_all add: honest_files [OF assms(1)])
  have "o_files E w3 = (o_files E w)(?path \<mapsto> verimark_pairing_save pd)"
    by (rule save_file_Inr [OF fs_doc_files [OF honestD(9) [OF assms(1)]] assms(2) save])
  with save keep assms(3) show ?thesis by (auto simp: at_rest_def)
qed

text \<open>The files do not hold a pairing with another sensor under this sensor's id.\<close>

definition known_to :: "'w platform \<Rightarrow> 'a usb_sensor \<Rightarrow> string \<Rightarrow> (string \<Rightarrow> bytes option) \<Rightarrow> bool" where
  "known_to P s sid F \<longleftrightarrow> F (verimark_pairing_path P sid) = None
     \<or> (\<exists>pd. F (verimark_pairing_path P sid) = Some (verimark_pairing_save pd) \<and> paired_with (lib P) s pd)"

lemma pairing_opened:
  assumes "honest P E" "usb_wf (lib P) s" "at_rest E s evs F w" "known_to P s sid F"
  shows "\<exists>pd w'. open_pairing P sid w = (Inr pd, w') \<and> paired_with (lib P) s pd
    \<and> F (verimark_pairing_path P sid) \<in> {None, Some (verimark_pairing_save pd)}
    \<and> at_rest E s evs (F(verimark_pairing_path P sid \<mapsto> verimark_pairing_save pd)) w'"
proof -
  let ?path = "verimark_pairing_path P sid"
  obtain q w1 where rd: "fs_read P w ?path = (q, w1)" by fastforce
  have rest1: "at_rest E s evs F w1" using honest_read [OF assms(1)] rd assms(3) by (metis snd_conv)
  have files: "o_files E w = F" using assms(3) by (simp add: at_rest_def)
  note fs = fs_docD(6,7) [OF honestD(9) [OF assms(1)], of w ?path, unfolded files]
  show ?thesis
  proof (cases "F ?path")
    case None
    then have "q = Inl (File_Error FILE_NOENT)" using fs(2) rd by simp
    moreover obtain pd w2 where 2: "verimark_pairing_do P (verimark_pair_io_sync P) w1 = (Inr pd, w2)"
      "paired_with (lib P) s pd" "at_rest E s evs F w2" using pairing_made [OF assms(1,2) rest1] by blast
    moreover have "pairing_wf pd" using 2(2) by (simp add: paired_with_def)
    from pairing_saved [OF assms(1) this 2(3)] obtain w3 where
      "verimark_pairing_save_file P pd sid w2 = (Inr (), w3)" "at_rest E s evs (F(?path \<mapsto> verimark_pairing_save pd)) w3" by blast
    ultimately show ?thesis using rd None by (auto simp: open_pairing_def verimark_pairing_load_file_def)
  next
    case (Some data)
    then obtain pd where pd: "data = verimark_pairing_save pd" "paired_with (lib P) s pd"
      using assms(4) by (auto simp: known_to_def)
    then have wf: "pairing_wf pd" by (simp add: paired_with_def)
    have "q = Inr data" using fs(1) [OF Some] rd by simp
    then have "open_pairing P sid w = (Inr pd, w1)"
      using rd pairing_load_save [OF wf] wf by (simp add: open_pairing_def verimark_pairing_load_file_def pd(1))
    moreover have "F(?path \<mapsto> verimark_pairing_save pd) = F" using Some pd(1) by auto
    ultimately show ?thesis using rest1 pd Some by auto
  qed
qed

subsection \<open>The handshake\<close>

text \<open>What the sensor keeps while it takes part in handshakes.\<close>

definition same_sensor :: "'a usb_sensor \<Rightarrow> 'a usb_sensor \<Rightarrow> bool" where
  "same_sensor s s' \<longleftrightarrow> u_app s' = u_app s \<and> u_cert s' = u_cert s \<and> s_priv (u_hs s') = s_priv (u_hs s)
     \<and> s_random (u_hs s') = s_random (u_hs s) \<and> s_nonce (u_hs s') = s_nonce (u_hs s)"

lemma same_sensor_refl [simp]: "same_sensor s s"
  by (simp add: same_sensor_def)

lemma same_sensor_wf: "same_sensor s s' \<Longrightarrow> usb_wf C s' = usb_wf C s"
  by (simp add: same_sensor_def usb_wf_def)

definition shaking :: "('w, 'a) bench \<Rightarrow> 'a usb_sensor \<Rightarrow> bytes list \<Rightarrow> (string \<Rightarrow> bytes option) \<Rightarrow> 'w \<Rightarrow> bool" where
  "shaking E s evs F w \<longleftrightarrow> at_rest E (o_sensor E w) evs F w \<and> same_sensor s (o_sensor E w)
     \<and> (s_phase (u_hs (o_sensor E w)) = 2 \<longrightarrow> u_peer (o_sensor E w) = peer_session (s_keys (u_hs (o_sensor E w))))"

lemma shaking_rest:
  assumes "shaking E s evs F w" "at_rest E (o_sensor E w) evs F w'"
  shows "o_sensor E w' = o_sensor E w \<and> shaking E s evs F w'"
  using assms by (simp add: shaking_def at_rest_def)

lemma tls_io_runs:
  assumes "honest P E" "usb_wf (lib P) s" "shaking E s evs F w" "length out \<le> 2000"
    and "sensor_step (lib P) (u_hs (o_sensor E w)) out = (reply, h)"
  shows "\<exists>w'. verimark_tls_io_sync P w out = (Inr reply, w') \<and> u_hs (o_sensor E w') = h \<and> shaking E s evs F w'"
proof -
  let ?s = "o_sensor E w"
  have rest: "at_rest E ?s evs F w" and same: "same_sensor s ?s" using assms(3) by (simp_all add: shaking_def)
  have wf: "usb_wf (lib P) ?s" using assms(2) same_sensor_wf [OF same] by simp
  let ?s' = "?s\<lparr>u_hs := h, u_peer := if s_phase h = 2 then peer_session (s_keys h) else u_peer ?s\<rparr>"
  have step: "bench_step P E ?s ([VERIMARK_CMD_TLS_DATA, 0x00, 0x00, 0x00] @ out) = (reply, ?s')"
    using assms(5) by (simp only: usb_step_cases(3) split)
  have "length reply \<le> 256"
    using sensor_step_reply [OF honestD(2,3) [OF assms(1)], of "u_hs ?s" out] wf assms(5) by (simp add: usb_wf_def)
  moreover from honest_call [OF assms(1) rest _ step, of VERIMARK_TLS_HANDSHAKE_RESP_MAX] assms(4) obtain w' where
    "verimark_tls_io_sync P w out = (Inr (take 256 reply), w')" "at_rest E ?s' evs F w'"
    by (auto simp: verimark_tls_io_sync_def VERIMARK_TLS_HANDSHAKE_RESP_MAX_def)
  moreover have "same_sensor s ?s'"
    using same assms(5) sensor_step_identity [of "lib P" "u_hs ?s" out] by (simp add: same_sensor_def)
  ultimately show ?thesis by (auto simp: shaking_def at_rest_def)
qed

lemma usb_sensor_link:
  assumes "honest P E" "usb_wf (lib P) s"
  shows "sensor_link P (verimark_tls_io_sync P) (shaking E s evs F) (\<lambda>w. u_hs (o_sensor E w))"
  unfolding sensor_link_def
proof (intro conjI allI impI)
  fix w and out :: bytes
  assume a: "shaking E s evs F w \<and> length out \<le> 2000"
  obtain reply h where step: "sensor_step (lib P) (u_hs (o_sensor E w)) out = (reply, h)" by fastforce
  from tls_io_runs [OF assms conjunct1 [OF a] conjunct2 [OF a] step] step
  show "fst (verimark_tls_io_sync P w out) = Inr (fst (sensor_step (lib P) (u_hs (o_sensor E w)) out))"
    "u_hs (o_sensor E (snd (verimark_tls_io_sync P w out))) = snd (sensor_step (lib P) (u_hs (o_sensor E w)) out)"
    "shaking E s evs F (snd (verimark_tls_io_sync P w out))" by auto
next
  fix w n d m
  assume a: "shaking E s evs F w"
  then have "at_rest E (o_sensor E w) evs F w" by (simp add: shaking_def)
  then have r: "at_rest E (o_sensor E w) evs F (snd (unix_time P w))" "at_rest E (o_sensor E w) evs F (snd (rand_bytes P w n))"
    "at_rest E (o_sensor E w) evs F (snd (ecdsa_sign P w d m))" by (simp_all add: honest_rest [OF assms(1)])
  show "u_hs (o_sensor E (snd (unix_time P w))) = u_hs (o_sensor E w)" "shaking E s evs F (snd (unix_time P w))"
    "u_hs (o_sensor E (snd (rand_bytes P w n))) = u_hs (o_sensor E w)" "shaking E s evs F (snd (rand_bytes P w n))"
    "u_hs (o_sensor E (snd (ecdsa_sign P w d m))) = u_hs (o_sensor E w)" "shaking E s evs F (snd (ecdsa_sign P w d m))"
    using shaking_rest [OF a r(1)] shaking_rest [OF a r(2)] shaking_rest [OF a r(3)] by simp_all
qed

text \<open>The two ends of the session.\<close>

definition linked :: "'a usb_sensor \<Rightarrow> tls \<Rightarrow> bool" where
  "linked s t \<longleftrightarrow> s_phase (u_hs s) = 2 \<and> in_sync t (u_peer s) \<and> in_sync (u_peer s) t"

lemma handshake_runs:
  assumes "honest P E" "usb_wf (lib P) s" "at_rest E s evs F w" "s_phase (u_hs s) = 0" "paired_with (lib P) s pd"
  shows "\<exists>t s' w'. verimark_tls_handshake P (verimark_tls_io_sync P) (verimark_tls_set_pairing verimark_tls_new pd, w) =
      (Inr True, t, w') \<and> at_rest E s' evs F w' \<and> same_sensor s s' \<and> linked s' t"
proof -
  let ?t = "verimark_tls_set_pairing verimark_tls_new pd"
  have s: "o_sensor E w = s" using assms(3) by (simp add: at_rest_def)
  then have sh: "shaking E s evs F w" using assms(3,4) by (simp add: shaking_def)
  have pd: "t_pd ?t = pd" "t_have_pairing ?t" "t_transcript ?t = []"
    by (simp_all add: verimark_tls_set_pairing_def verimark_tls_new_def)
  have use: "usable (lib P) (priv_scalar pd)" "cert_wf (host_cert pd)"
    using assms(5) by (simp_all add: paired_with_def pairing_wf_def)
  have "keys_doc P (priv_scalar pd)"
    using honestD(8) [OF assms(1)] use(1) unfolding keys_ok_def keys_doc_def usable_def by blast
  with use(2) have keys: "keys_doc P (priv_scalar (t_pd ?t))" "cert_wf (host_cert (t_pd ?t))"
    unfolding pd(1) by simp_all
  have point: "ec_point_mul (lib P) (s_priv (u_hs (o_sensor E w))) =
      Some (pub_x (sensor_cert (t_pd ?t)), pub_y (sensor_cert (t_pd ?t)))"
    using assms(5) by (simp add: paired_with_def s pd(1))
  have start: "s_phase (u_hs (o_sensor E w)) = 0" "length (s_random (u_hs (o_sensor E w))) = 32"
    "length (s_nonce (u_hs (o_sensor E w))) = 8"
    using assms(2,4) by (simp_all add: s usb_wf_def)
  from handshake_with_sensor [where S = "\<lambda>w. u_hs (o_sensor E w)", OF honestD(2-6) [OF assms(1)] keys point
      usb_sensor_link [OF assms(1,2)] sh pd(2,3) start]
  obtain t w' where run: "verimark_tls_handshake P (verimark_tls_io_sync P) (?t, w) = (Inr True, t, w')"
    "s_phase (u_hs (o_sensor E w')) = 2" "s_keys (u_hs (o_sensor E w')) = t_keys t" "t_encr_seq t = 1" "t_decr_seq t = 1"
    "shaking E s evs F w'" by blast
  have "t_established t" using handshake_authenticated [OF run(1)] by blast
  moreover have "u_peer (o_sensor E w') = peer_session (t_keys t)" using run(2,3,6) by (simp add: shaking_def)
  ultimately have "linked (o_sensor E w') t"
    using run(2,4,5) by (simp add: linked_def in_sync_def peer_session_def)
  with run(1,6) show ?thesis by (auto simp: shaking_def)
qed

subsection \<open>Open\<close>

text \<open>\<open>usb_idle E s0 F evs a\<close>: open and between two commands, with the sensor \<open>s0\<close>, whose application is
  in state \<open>a\<close>, the files \<open>F\<close> and the events \<open>evs\<close> queued.\<close>

definition usb_idle ::
  "('w, 'a) bench \<Rightarrow> 'a usb_sensor \<Rightarrow> (string \<Rightarrow> bytes option) \<Rightarrow> bytes list \<Rightarrow> 'a \<Rightarrow> verimark \<times> 'w \<Rightarrow> bool" where
  "usb_idle E s0 F evs a = (\<lambda>(dev, w). d_ep_intr_in dev = VERIMARK_EP_INTR_IN
     \<and> (\<exists>t s. d_tls dev = Some t \<and> at_rest E s evs F w \<and> linked s t \<and> same_sensor (s0\<lparr>u_app := a\<rparr>) s))"

lemma open_runs:
  assumes "honest P E" "usb_wf (lib P) s" "at_rest E s evs F w" "s_phase (u_hs s) = 0" "[] \<notin> set (take 16 evs)"
    and "known_to P s (version_sid (b_version E)) F"
  shows "\<exists>dev' w' F' pd. dev_open P (dev, w) = (dev', w') \<and> reports dev' = reports dev @ [Open_Complete None]
    \<and> dev_opened (lib P) dev' \<and> d_pairing dev' = Some pd \<and> paired_with (lib P) s pd
    \<and> F (verimark_pairing_path P (version_sid (b_version E))) \<in> {None, Some (verimark_pairing_save pd)}
    \<and> F' = F(verimark_pairing_path P (version_sid (b_version E)) \<mapsto> verimark_pairing_save pd)
    \<and> usb_idle E s F' (drop 16 evs) (u_app s) (dev', w')"
proof -
  note top = honestD(11) [OF assms(1), unfolded topology_ok_def]
  obtain ifs n eps w1 where ifs: "usb_interfaces P w = (Inr ifs, w1)" "find (\<lambda>(n, eps). n = VERIMARK_IFACE) ifs = Some (n, eps)"
    "VERIMARK_EP_INTR_IN \<in> set eps" using top by (metis prod.collapse)
  have rest1: "at_rest E s evs F w1" using honest_rest(8) [OF assms(1)] ifs(1) assms(3) by (metis snd_conv)
  obtain w2 where claim: "usb_claim P w1 VERIMARK_IFACE = (Inr (), w2)" using top by (metis prod.collapse)
  have rest2: "at_rest E s evs F w2" using honest_rest(9) [OF assms(1)] claim rest1 by (metis snd_conv)
  let ?w3 = "verimark_intr_drain_sync P VERIMARK_EP_INTR_IN w2" and ?sid = "version_sid (b_version E)"
  note rest3 = drain_rest [OF assms(1) rest2 assms(5)]
  obtain w4 where sid: "verimark_resolve_sid_sync P ?w3 = (Inr ?sid, w4)" "at_rest E s (drop 16 evs) F w4"
    using sid_resolved [OF assms(1) rest3] by blast
  let ?F = "\<lambda>pd. F(verimark_pairing_path P ?sid \<mapsto> verimark_pairing_save pd)"
  obtain pd w5 where pair: "open_pairing P ?sid w4 = (Inr pd, w5)" "paired_with (lib P) s pd" "at_rest E s (drop 16 evs) (?F pd) w5"
    "F (verimark_pairing_path P ?sid) \<in> {None, Some (verimark_pairing_save pd)}"
    using pairing_opened [OF assms(1,2) sid(2) assms(6)] by blast
  obtain t s' w6 where hs: "verimark_tls_handshake P (verimark_tls_io_sync P) (verimark_tls_set_pairing verimark_tls_new pd, w5) =
      (Inr True, t, w6)" "at_rest E s' (drop 16 evs) (?F pd) w6" "same_sensor s s'" "linked s' t"
    using handshake_runs [OF assms(1,2) pair(3) assms(4) pair(2)] by blast
  have up: "open_bring_up P ?w3 = (Inr (t, ?sid, pd), w6)"
    using sid(1) pair(1) hs(1) by (simp add: open_bring_up_def)
  let ?dev = "report (Open_Complete None) (dev\<lparr>d_iface := VERIMARK_IFACE, d_ep_intr_in := VERIMARK_EP_INTR_IN,
      d_tls := Some t, d_sid := Some ?sid, d_pairing := Some pd\<rparr>)"
  have "dev_open P (dev, w) = (?dev, w6)"
    using ifs claim up by (simp add: dev_open_def report_def)
  moreover have "dev_opened (lib P) ?dev"
    using open_bring_up_Inr [OF up] by (auto simp: dev_opened_def report_def)
  moreover have "usb_idle E s (?F pd) (drop 16 evs) (u_app s) (?dev, w6)"
    using hs(2-4) by (auto simp: usb_idle_def report_def same_sensor_def)
  ultimately show ?thesis using pair(2,4) by (simp add: report_def)
qed

subsection \<open>Commands\<close>

lemma wrap_head:
  "verimark_tls_wrap P (t, w) cmd = (Inr rcd, t', w') \<Longrightarrow> t_established t \<Longrightarrow> take 1 rcd = [0x17]"
  by (auto simp: verimark_tls_wrap_def bind_st_Inr rec_write_plain_def VERIMARK_TLS_CT_APPDATA_def split: prod.split_asm)

lemma usb_idle_send:
  assumes "honest P E" "usb_idle E s0 F evs a s" "b_app E a cmd = (resp, a')" "length cmd \<le> 32739" "length resp \<le> 483"
    "unat hint + 64 < 2 ^ 64"
  shows "\<exists>s'. verimark_moc_send P cmd hint s = Some (Inr (reply_status resp, resp), s') \<and> usb_idle E s0 F evs a' s'"
proof -
  obtain dev w where s: "s = (dev, w)" by fastforce
  from assms(2) obtain t u where u: "d_ep_intr_in dev = VERIMARK_EP_INTR_IN" "d_tls dev = Some t" "at_rest E u evs F w"
    "s_phase (u_hs u) = 2" "in_sync t (u_peer u)" "in_sync (u_peer u) t" "same_sensor (s0\<lparr>u_app := a\<rparr>) u"
    by (auto simp: usb_idle_def linked_def s)
  let ?Q = "\<lambda>(a, p) w. at_rest E (u\<lparr>u_app := a, u_peer := p\<rparr>) evs F w"
  have app: "u_app u = a" using u(7) by (simp add: same_sensor_def)
  have io: "\<exists>w2. verimark_ctrl_cmd_sync P rcd (moc_budget hint) w1 = (Inr (take (unat (moc_budget hint)) out), w2) \<and> ?Q ap' w2"
    if "verimark_tls_wrap P (t, w) cmd = (Inr rcd, t1, w1)" "length rcd = length cmd + 29"
      "peer_step (lib P) (b_nonce E (t_encr_seq (u_peer u))) (b_app E) (a, u_peer u) rcd = (out, ap')" for rcd t1 w1 out ap'
  proof -
    have rest: "at_rest E u evs F w1"
      using wrap_keeps [of "at_rest E u evs F", OF honest_rest(4) [OF assms(1)] that(1)] u(3) by simp
    have "take 1 rcd = [0x17]" using wrap_head [OF that(1)] u(5) by (simp add: in_sync_def)
    from usb_step_app [OF u(4) this] that(3) app have
      "bench_step P E u rcd = (out, u\<lparr>u_app := fst ap', u_peer := snd ap'\<rparr>)" by (simp add: split_beta)
    from honest_call [OF assms(1) rest _ this, of "moc_budget hint"] that(2) assms(4) show ?thesis
      using moc_budget_bounds(3) [OF assms(6)] by (auto simp: split_beta)
  qed
  have len: "length resp + 29 \<le> max (unat hint + 64) 512" "length resp < 65512" "length cmd \<le> 65536" using assms(4,5) by simp_all
  let ?t = "t\<lparr>t_encr_seq := t_encr_seq t + 1, t_decr_seq := t_decr_seq t + 1\<rparr>"
    and ?p = "(u_peer u)\<lparr>t_decr_seq := t_decr_seq (u_peer u) + 1, t_encr_seq := t_encr_seq (u_peer u) + 1\<rparr>"
  have "\<exists>w'. moc_exchange P cmd hint (dev, w) = (Inr (reply_status resp, resp), dev\<lparr>d_tls := Some ?t\<rparr>, w') \<and> ?Q (a', ?p) w'"
    by (rule moc_exchange_peer [where Q = ?Q and P = P and app = "b_app E" and a = a and a' = a' and w = w
          and nonce = "b_nonce E (t_encr_seq (u_peer u))", OF honestD(3,4,14) [OF assms(1)] u(2,5,6) assms(4,6,3) len(1,2)])
      (rule io)
  then obtain w' where run: "moc_exchange P cmd hint (dev, w) = (Inr (reply_status resp, resp), dev\<lparr>d_tls := Some ?t\<rparr>, w')"
    "at_rest E (u\<lparr>u_app := a', u_peer := ?p\<rparr>) evs F w'" by auto
  have "usb_idle E s0 F evs a' (dev\<lparr>d_tls := Some ?t\<rparr>, w')"
    using run(2) u(1,4-7) by (auto simp: usb_idle_def linked_def in_sync_def same_sensor_def)
  then show ?thesis
    using moc_send_exchange [OF honestD(7,3,4) [OF assms(1)] len(3), of hint s] run(1) s by auto
qed

locale usb_link =
  fixes P :: "'w platform" and E :: "('w, 'a) bench" and s0 :: "'a usb_sensor" and F :: "string \<Rightarrow> bytes option"
  assumes honest: "honest P E"

sublocale usb_link < app_link P "o_time E" "b_app E" "usb_idle E s0 F"
proof
  show "platform_doc P (o_time E)" "o_time E (snd (mono_time P w)) < o_time E w + 30000000" for w
    using honestD(1,16) [OF honest] by simp_all
  show "\<exists>s'. verimark_moc_send P cmd hint s = Some (Inr (reply_status resp, resp), s') \<and> usb_idle E s0 F evs a' s'"
    if "usb_idle E s0 F evs a s" "b_app E a cmd = (resp, a')" "length cmd \<le> 32739" "length resp \<le> 483" "unat hint + 64 < 2 ^ 64"
    for evs a s cmd resp a' hint
    by (rule usb_idle_send [OF honest that])
  show "usb_idle E s0 F evs a (dev', w)" if "usb_idle E s0 F evs a (dev, w)" "same_device dev dev'" for evs a dev w dev'
    using that by (auto simp: usb_idle_def)
  show "usb_idle E s0 F evs a (dev, snd (mono_time P w))" "usb_idle E s0 F evs a (dev, snd (fs_read P w path))"
    if "usb_idle E s0 F evs a (dev, w)" for evs a dev w path
    using that by (simp_all add: usb_idle_def honest_rest [OF honest] honest_read [OF honest])
  show "\<exists>w'. intr_in P w (intr_ep (d_ep_intr_in dev)) n t = (Inr [0x01], w') \<and> usb_idle E s0 F evs a (dev, w')"
    if idle: "usb_idle E s0 F ([0x01] # evs) a (dev, w)" for evs a dev w n t
  proof -
    from idle obtain tl s where u: "d_ep_intr_in dev = VERIMARK_EP_INTR_IN" "d_tls dev = Some tl" "at_rest E s ([0x01] # evs) F w"
      "linked s tl" "same_sensor (s0\<lparr>u_app := a\<rparr>) s" by (auto simp: usb_idle_def)
    have "intr_ep (d_ep_intr_in dev) = VERIMARK_EP_INTR_IN" using u(1) by (simp add: intr_ep_def)
    with honest_press [OF honest u(3), of n t] u show ?thesis by (auto simp: usb_idle_def)
  qed
qed

subsection \<open>Close\<close>

lemma close_runs:
  assumes "honest P E" "usb_wf (lib P) s0" "usb_idle E s0 F evs a (dev, w)"
  shows "\<exists>dev' w' s. dev_close P (dev, w) = (dev', w') \<and> dev_closed dev' \<and> reports dev' = reports dev @ [Close_Complete None]
    \<and> at_rest E s evs F w' \<and> s_phase (u_hs s) = 0 \<and> same_sensor (s0\<lparr>u_app := a\<rparr>) s"
proof -
  from assms(3) obtain t s where u: "d_tls dev = Some t" "at_rest E s evs F w" "linked s t" "same_sensor (s0\<lparr>u_app := a\<rparr>) s"
    by (auto simp: usb_idle_def)
  have est: "t_established t" using u(3) by (simp add: linked_def in_sync_def)
  obtain nonce w1 where rnd: "rand_bytes P w 8 = (nonce, w1)" by fastforce
  have rest1: "at_rest E s evs F w1" using honest_rest(4) [OF assms(1)] rnd u(2) by (metis snd_conv)
  obtain frag where frag: "verimark_tls_gcm_wrap (lib P) (encr_key (t_keys t)) (encr_iv (t_keys t)) (t_encr_seq t) 0x15 nonce [0x01, 0x00] = Inr frag"
    "length frag = 26"
    using gcm_unwrap_wrap [OF honestD(3) [OF assms(1)] rand_docD [OF honestD(4) [OF assms(1)] rnd], of _ _ _ "0x15" "[0x01, 0x00]"] by fastforce
  let ?s = "s\<lparr>u_hs := (u_hs s)\<lparr>s_phase := 0\<rparr>\<rparr>" and ?out = "rec_write_plain [] 0x15 frag"
  have "sensor_step (lib P) (u_hs s) ?out = ([], (u_hs s)\<lparr>s_phase := 0\<rparr>)"
    by (simp add: sensor_step_def rec_write_plain_def)
  then have "bench_step P E s ([VERIMARK_CMD_TLS_DATA, 0x00, 0x00, 0x00] @ ?out) = ([], ?s)"
    by (simp only: usb_step_cases(3) split) simp
  from honest_call [OF assms(1) rest1 _ this, of VERIMARK_TLS_HANDSHAKE_RESP_MAX] frag(2) obtain w2 where
    io: "verimark_tls_io_sync P w1 ?out = (Inr [], w2)" "at_rest E ?s evs F w2"
    by (auto simp: verimark_tls_io_sync_def rec_write_plain_def)
  have "snd (verimark_tls_close P (verimark_tls_io_sync P) (t, w)) = w2"
    using est rnd frag(1) io(1) by (simp add: verimark_tls_close_def)
  moreover obtain w3 where rel: "usb_release P w2 (d_iface dev) = (Inr (), w3)"
    using honestD(11) [OF assms(1)] unfolding topology_ok_def by (metis prod.collapse)
  moreover have "at_rest E ?s evs F w3" using honest_rest(10) [OF assms(1)] rel io(2) by (metis snd_conv)
  moreover have "same_sensor (s0\<lparr>u_app := a\<rparr>) ?s" using u(4) by (simp add: same_sensor_def)
  ultimately show ?thesis
    using u(1) by (auto simp: dev_close_def Let_def report_def dev_closed_def)
qed

subsection \<open>What a session computes\<close>

text \<open>A sequence of commands with their size hints, and what the application makes of it.\<close>

fun moc_calls :: "'w platform \<Rightarrow> (bytes \<times> u64) list \<Rightarrow> verimark \<times> 'w \<Rightarrow> (moc_reply list \<times> verimark \<times> 'w) option" where
  "moc_calls P [] s = Some ([], s)"
| "moc_calls P ((cmd, hint) # calls) s =
     (case verimark_moc_send P cmd hint s of
        None \<Rightarrow> None
      | Some (r, s) \<Rightarrow> map_option (\<lambda>(rs, s). (r # rs, s)) (moc_calls P calls s))"

fun app_calls :: "('a \<Rightarrow> bytes \<Rightarrow> bytes \<times> 'a) \<Rightarrow> bytes list \<Rightarrow> 'a \<Rightarrow> bytes list \<times> 'a" where
  "app_calls app [] a = ([], a)"
| "app_calls app (cmd # cmds) a =
     (let (resp, a) = app a cmd; (resps, a) = app_calls app cmds a in (resp # resps, a))"

context app_link begin

lemma calls_run:
  assumes "idle evs a s" "\<forall>(cmd, hint) \<in> set calls. length cmd \<le> 32739 \<and> unat hint + 64 < 2 ^ 64"
    and "app_calls app (map fst calls) a = (resps, a')" "\<forall>resp \<in> set resps. length resp \<le> 483"
  shows "\<exists>s'. moc_calls P calls s = Some (map (\<lambda>resp. Inr (reply_status resp, resp)) resps, s') \<and> idle evs a' s'"
  using assms
proof (induction calls arbitrary: a s resps)
  case Nil
  then show ?case by simp
next
  case (Cons c calls)
  obtain cmd hint where c: "c = (cmd, hint)" by fastforce
  obtain resp a1 where app: "app a cmd = (resp, a1)" by fastforce
  obtain resps' where rest: "app_calls app (map fst calls) a1 = (resps', a')" "resps = resp # resps'"
    using Cons.prems(3) app by (auto simp: c split: prod.splits)
  obtain s1 where 1: "verimark_moc_send P cmd hint s = Some (Inr (reply_status resp, resp), s1)" "idle evs a1 s1"
    using send [OF Cons.prems(1) app, of hint] Cons.prems(2,4) rest(2) by (auto simp: c)
  from Cons.IH [OF 1(2) _ rest(1)] Cons.prems(2,4) 1(1) rest(2) show ?case by (auto simp: c)
qed

end

end
