(* ===== verification/Answering.thy ===== *)
theory Answering
  imports App_Link
begin

text \<open>
  A sample sensor the operations of \<open>verimark-moc.c\<close> can be run against: it answers every command
  \<open>cmd\<close> with \<open>f cmd\<close>, over a session that has not been established (so that records are the
  plain commands).
\<close>

definition answering :: "(bytes \<Rightarrow> bytes) \<Rightarrow> world platform" where
  "answering f = sample\<lparr>
     ctrl_out := \<lambda>w req v data. (Inr (), w\<lparr>w_sent := w_sent w @ [(v, data)], w_busy := 0,
       w_pend := f (reassemble (w_sent w @ [(v, data)]))\<rparr>),
     ctrl_in := \<lambda>w req v n. (Inr (take n (w_pend w)), w\<lparr>w_pend := drop n (w_pend w), w_busy := 0, w_sent := []\<rparr>)\<rparr>"

lemma answering_device: "command_device (answering f) w_sent w_pend w_busy f"
  by (auto simp: command_device_def responder_def answering_def sample_def)

lemma answering_sel [simp]:
  "fpi (answering f) = sample_ssm" "lib (answering f) = sample_crypto"
  "mono_time (answering f) w = (2 * w_now w, w)" "user_id (answering f) = 1000"
  by (simp_all add: answering_def sample_def)

lemma answering_doc: "platform_doc (answering f) sample_time"
proof -
  have "2 * n + 30000000 \<noteq> G_MAXINT64" for n :: int by (simp add: G_MAXINT64_def) presburger
  then show ?thesis
    by (auto simp: platform_doc_def sample_ssm_doc sample_crypto_docs rand_doc_def time_doc_def clock_doc_def
        sample_time_def answering_def sample_def split: list.splits)
qed

lemma answering_cmd:
  assumes "w_sent w = []" "length cmd \<le> 32768" "verimark_ctrl_cmd_sync (answering f) cmd m w = (r, w')"
  shows "r = Inr (take (unat (max m 1)) (f cmd)) \<and> w_sent w' = [] \<and> w_events w' = w_events w \<and> w_files w' = w_files w"
proof -
  have r: "r = Inr (take (unat (max m 1)) (f cmd))"
    using ctrl_cmd_sync_device [OF answering_device assms(1,2), of f m] assms(3) by auto
  then obtain w1 where read: "ctrl_read_loop (answering f) (max m 1) [] True 0 w1 = (r, w')"
    using assms(3) by (auto simp: verimark_ctrl_cmd_sync_def verimark_ctrl_read_sync_def
        split: prod.split_asm sum.split_asm)
  have "0 < unat (max m 1)" by (simp add: max_def word_le_nat_alt)
  then have "w_sent w' = []"
    using ctrl_read_loop_last [of "answering f" "\<lambda>w. w_sent w = []", OF _ read [unfolded r]]
    by (auto simp: answering_def)
  moreover have "w_events w' = w_events w"
    by (rule ctrl_cmd_sync_keeps [OF _ _ _ assms(3)]) (simp_all add: answering_def sample_def)
  moreover have "w_files w' = w_files w"
    by (rule ctrl_cmd_sync_keeps [OF _ _ _ assms(3)]) (simp_all add: answering_def sample_def)
  ultimately show ?thesis using r by blast
qed

lemma answering_send:
  assumes "d_tls dev = Some t" "\<not> t_established t" "w_sent w = []"
    and "length cmd \<le> 32768" "length (f cmd) \<le> 512" "unat hint + 64 < 2 ^ 64"
  shows "\<exists>w'. verimark_moc_send (answering f) cmd hint (dev, w) = Some (Inr (reply_status (f cmd), f cmd), dev, w')
    \<and> w_sent w' = [] \<and> w_events w' = w_events w \<and> w_files w' = w_files w"
proof -
  obtain r w' where run: "verimark_ctrl_cmd_sync (answering f) cmd (moc_budget hint) w = (r, w')" by fastforce
  have "length (f cmd) \<le> unat (max (moc_budget hint) 1)"
    using moc_budget_bounds [OF assms(6)] assms(5) by simp
  with answering_cmd [OF assms(3,4) run] have r: "r = Inr (f cmd)" "w_sent w' = []"
    "w_events w' = w_events w" "w_files w' = w_files w" by simp_all
  have dev: "dev\<lparr>d_tls := Some t\<rparr> = dev" using assms(1) by (cases dev) simp
  have "moc_exchange (answering f) cmd hint (dev, w) = (Inr (reply_status (f cmd), f cmd), dev, w')"
    using assms(1,2) run r(1) dev
    by (simp add: moc_exchange_def verimark_tls_wrap_def on_moc_raw_resp_def verimark_tls_unwrap_def reply_status_def)
  moreover have "length cmd \<le> 65536" using assms(4) by simp
  ultimately show ?thesis
    using moc_send_exchange [of "answering f" cmd hint "(dev, w)"] answering_doc [of f] r(2-4)
    by (simp add: platform_doc_def)
qed

definition plain_device :: verimark where
  "plain_device = dev_init\<lparr>d_iface := VERIMARK_IFACE, d_ep_intr_in := VERIMARK_EP_INTR_IN, d_tls := Some verimark_tls_new\<rparr>"

subsection \<open>A capture against it\<close>

definition frame_reply :: bytes where
  "frame_reply = [0, 0, 1, 0, 0, 0, 0x18] @ replicate 11 0"

text \<open>What holds between two commands.\<close>

definition idle :: "bytes list \<Rightarrow> verimark \<times> world \<Rightarrow> bool" where
  "idle evs s \<longleftrightarrow> (\<exists>t. d_tls (fst s) = Some t \<and> \<not> t_established t) \<and> d_ep_intr_in (fst s) = VERIMARK_EP_INTR_IN
     \<and> w_sent (snd s) = [] \<and> w_events (snd s) = evs"

lemma idle_send:
  assumes "idle evs s" "length cmd \<le> 32768" "length (f cmd) \<le> 512" "unat hint + 64 < 2 ^ 64"
  shows "\<exists>s'. verimark_moc_send (answering f) cmd hint s = Some (Inr (reply_status (f cmd), f cmd), s')
    \<and> idle evs s' \<and> fst s' = fst s \<and> w_files (snd s') = w_files (snd s)"
  using answering_send [of "fst s" _ "snd s" cmd f hint] assms by (auto simp: idle_def)

lemma frame_reply_ready: "frame_ready frame_reply" "reply_status frame_reply = 0" "length frame_reply = 18"
  by (simp_all add: frame_ready_def frame_reply_def frame_events_def reply_status_def u16_of_le_def
      VERIMARK_EVT_FRAME_READY_def)

text \<open>The application has no state.\<close>

definition answer :: "(bytes \<Rightarrow> bytes) \<Rightarrow> unit \<Rightarrow> bytes \<Rightarrow> bytes \<times> unit" where
  [simp]: "answer f a cmd = (f cmd, a)"

interpretation ans: app_link "answering f" sample_time "answer f" "\<lambda>evs _. idle evs" for f
proof
  show "platform_doc (answering f) sample_time" by (rule answering_doc)
  show "sample_time (snd (mono_time (answering f) w)) < sample_time w + 30000000" for w
    by simp
  show "\<exists>s'. verimark_moc_send (answering f) cmd hint s = Some (Inr (reply_status resp, resp), s') \<and> idle evs s'"
    if "idle evs s" "answer f a cmd = (resp, a')" "length cmd \<le> 32739" "length resp \<le> 483" "unat hint + 64 < 2 ^ 64"
    for evs s a cmd resp a' hint
    using idle_send [OF that(1), of cmd f hint] that(2-5) by auto
  show "\<exists>w'. intr_in (answering f) w (intr_ep (d_ep_intr_in dev)) n t = (Inr [0x01], w') \<and> idle evs (dev, w')"
    if "idle ([0x01] # evs) (dev, w)" for evs dev w n t
    using that by (simp add: idle_def answering_def sample_def)
  show "idle evs (dev', w)" if "idle evs (dev, w)" "same_device dev dev'" for evs dev dev' w
    using that by (simp add: idle_def)
  show "idle evs (dev, snd (mono_time (answering f) w))" if "idle evs (dev, w)" for evs dev w
    using that by simp
  show "idle evs (dev, snd (fs_read (answering f) w path))" if "idle evs (dev, w)" for evs dev w path
    using that by (simp add: idle_def answering_def sample_def)
qed

definition frame_sensor :: "bytes \<Rightarrow> bytes" where
  "frame_sensor cmd = (if cmd \<noteq> [] \<and> hd cmd = VERIMARK_CMD_EVENT_READ then frame_reply else [0, 0])"

lemma frame_sensor_captures: "captures (answer frame_sensor)"
  by (simp add: captures_def frame_sensor_def frame_reply_ready)

subsection \<open>Properties of the capture\<close>

text \<open>C17: The capture state machine is the straight-line procedure \<open>capture_spec\<close> (arm, wait for a
  press, arm, acquire, poll at most 268 times, clear, finish, each step only after the previous
  one succeeded), and it always ends: the frame window bounds the polls.\<close>

theorem verimark_moc_capture_refines:
  assumes "platform_doc P T"
  shows "verimark_moc_capture P kind s = capture_spec P kind s \<and> (\<exists>r s'. verimark_moc_capture P kind s = Some (r, s'))"
  using capture_eq_spec [OF assms] capture_total [OF assms] by blast

lemma verimark_moc_capture_refines_witness:
  "\<exists>r s'. verimark_moc_capture (answering (\<lambda>_. [0, 0])) VERIMARK_ACQ_VERIFY (plain_device, world0) = Some (r, s')"
  using verimark_moc_capture_refines [OF answering_doc] by blast

text \<open>C19: A capture changes nothing of the device object but its session and event sequence number,
  and sends capture commands only. One that succeeds has sent exactly: the press mask, then (after
  a finger press) the frame mask, the acquisition of the kind asked for, event reads of which the
  last was answered with status 0 and a frame-ready event inside the reply, the empty mask and the
  frame finish, each answered.\<close>

theorem verimark_moc_capture_sound:
  assumes "platform_doc P T" "verimark_moc_capture P kind (dev, w) = Some (r, dev', w')"
  shows "same_op dev dev' \<and> (\<exists>tr. moc_path P (dev, w) tr (dev', w') \<and> moc_ops tr = []
    \<and> (r = Inr () \<longrightarrow> captured kind tr))"
  using capture_same [OF assms] capture_path [OF assms] by blast

lemma idle_start: "idle evs (plain_device, world0\<lparr>w_events := evs\<rparr>)"
  by (simp add: idle_def plain_device_def verimark_tls_new_def world0_def)

lemma verimark_moc_capture_sound_witness:
  "\<exists>s' tr. verimark_moc_capture (answering frame_sensor) VERIMARK_ACQ_VERIFY
      (plain_device, world0\<lparr>w_events := [[0x01]]\<rparr>) = Some (Inr (), s') \<and> captured VERIMARK_ACQ_VERIFY tr
    \<and> moc_path (answering frame_sensor) (plain_device, world0\<lparr>w_events := [[0x01]]\<rparr>) tr s'"
proof -
  have "idle ([0x01] # []) (plain_device, world0\<lparr>w_events := [[0x01]]\<rparr>)" by (rule idle_start)
  from ans.capture [OF frame_sensor_captures this] obtain dev' w' where run:
    "verimark_moc_capture (answering frame_sensor) VERIMARK_ACQ_VERIFY
       (plain_device, world0\<lparr>w_events := [[0x01]]\<rparr>) = Some (Inr (), dev', w')" by (metis surj_pair)
  from verimark_moc_capture_sound [OF answering_doc run] run show ?thesis by blast
qed

end
