(* ===== verification/Prints.thy ===== *)
theory Prints
  imports Device
begin

text \<open>
  What \<open>verimark-moc.c\<close> keeps on the host side of a template: the mapping between an \<open>FpPrint\<close>
  and the ids of the sensor, the match of an id against a print, and the machine seed of the
  synthesized SID.
\<close>

subsection \<open>Print data\<close>

definition zero16 :: bytes where
  "zero16 = replicate 16 0"

definition verimark_build_print_data :: "byte \<Rightarrow> bytes \<Rightarrow> bytes \<Rightarrow> bytes \<Rightarrow> gvariant" where
  "verimark_build_print_data finger minted_tid list_gid uid_bytes = Print_Data finger minted_tid list_gid uid_bytes"

text \<open>\<open>None\<close> is \<open>FALSE\<close>; otherwise the minted id and the listed id.\<close>

definition verimark_parse_print_data :: "gvariant \<Rightarrow> (byte \<times> bytes \<times> bytes \<times> bytes) option" where
  "verimark_parse_print_data data =
     (case data of
        Other_Variant \<Rightarrow> None
      | Print_Data finger minted_tid list_gid uid_bytes \<Rightarrow>
          if length minted_tid = 16 \<and> length list_gid = 16 then Some (finger, minted_tid, list_gid, uid_bytes) else None)"

definition print_matches_tid :: "fp_print \<Rightarrow> bytes \<Rightarrow> bool" where
  "print_matches_tid print tid =
     (case fpi_data print of
        None \<Rightarrow> False
      | Some data \<Rightarrow>
          (case verimark_parse_print_data data of
             None \<Rightarrow> False
           | Some (finger, minted_tid, list_gid, uid_bytes) \<Rightarrow> length minted_tid = 16 \<and> minted_tid = tid))"

lemma print_matches_tid_iff:
  "print_matches_tid print tid \<longleftrightarrow>
     (\<exists>finger gid uid. fpi_data print = Some (Print_Data finger tid gid uid) \<and> length tid = 16 \<and> length gid = 16)"
  by (auto simp: print_matches_tid_def verimark_parse_print_data_def split: option.splits gvariant.splits if_splits)

subsection \<open>The machine seed\<close>

text \<open>\<open>sscanf (p, "%1x", ..) == 1\<close> on the text from \<open>p\<close>: white space is skipped, then one
  hexadecimal digit is needed.\<close>

definition c_isspace :: "byte \<Rightarrow> bool" where
  "c_isspace b \<longleftrightarrow> b \<in> {0x20, 0x09, 0x0a, 0x0b, 0x0c, 0x0d}"

definition hex_value :: "byte \<Rightarrow> nat option" where
  "hex_value b =
     (let n = unat b in
      if 48 \<le> n \<and> n \<le> 57 then Some (n - 48)
      else if 97 \<le> n \<and> n \<le> 102 then Some (n - 87)
      else if 65 \<le> n \<and> n \<le> 70 then Some (n - 55)
      else None)"

definition sscanf_1x :: "bytes \<Rightarrow> nat option" where
  "sscanf_1x text = (case dropWhile c_isspace text of [] \<Rightarrow> None | b # _ \<Rightarrow> hex_value b)"

function machine_seed_loop :: "bytes \<Rightarrow> nat \<Rightarrow> bytes \<Rightarrow> bytes" where
  "machine_seed_loop contents i seed =
     (if i < 16 \<and> 2 * i + 1 < length contents then
        (case sscanf_1x (drop (2 * i) contents) of
           None \<Rightarrow> seed
         | Some hi \<Rightarrow>
             (case sscanf_1x (drop (2 * i + 1) contents) of
                None \<Rightarrow> seed
              | Some lo \<Rightarrow> machine_seed_loop contents (i + 1) (seed[i := push_bit 4 (of_nat hi) OR of_nat lo])))
      else seed)"
  by pat_completeness auto
termination by (relation "measure (\<lambda>(contents, i, seed). 16 - i)") auto

declare machine_seed_loop.simps [simp del]

definition verimark_read_machine_seed :: "'w platform \<Rightarrow> 'w \<Rightarrow> bytes \<times> 'w" where
  "verimark_read_machine_seed P w =
     (case fs_read P w ''/etc/machine-id'' of
        (Inl e, w) \<Rightarrow> (replicate 16 0, w)
      | (Inr contents, w) \<Rightarrow> (machine_seed_loop contents 0 (replicate 16 0), w))"

lemma length_machine_seed_loop: "length (machine_seed_loop contents i seed) = length seed"
proof (induction contents i seed rule: machine_seed_loop.induct)
  case (1 contents i seed)
  then show ?case
    by (subst machine_seed_loop.simps) (auto split: option.split)
qed

lemma length_machine_seed: "verimark_read_machine_seed P w = (seed, w') \<Longrightarrow> length seed = 16"
  by (auto simp: verimark_read_machine_seed_def length_machine_seed_loop split: prod.split_asm sum.split_asm)

text \<open>On a machine id of 32 hexadecimal digits, every byte of the seed is its pair of digits.\<close>

lemma sscanf_1x_digit: "i < length c \<Longrightarrow> hex_value (c ! i) = Some v \<Longrightarrow> sscanf_1x (drop i c) = Some v"
  by (auto simp: sscanf_1x_def hex_value_def c_isspace_def Let_def Cons_nth_drop_Suc [symmetric] split: if_splits)

lemma machine_seed_loop_digits:
  assumes "32 \<le> length c" "\<And>j. j < 32 \<Longrightarrow> hex_value (c ! j) = Some (v j)" "length seed = 16" "i \<le> 16"
  shows "machine_seed_loop c i seed = take i seed @ map (\<lambda>j. push_bit 4 (of_nat (v (2 * j))) OR of_nat (v (2 * j + 1))) [i..<16]"
  using assms(3,4)
proof (induction "16 - i" arbitrary: i seed)
  case 0
  then show ?case by (subst machine_seed_loop.simps) simp
next
  case (Suc n)
  then have i: "i < 16" by simp
  let ?b = "push_bit 4 (of_nat (v (2 * i))) OR of_nat (v (2 * i + 1)) :: byte"
  have "machine_seed_loop c i seed = machine_seed_loop c (i + 1) (seed[i := ?b])"
    using i assms(1) sscanf_1x_digit [of "2 * i" c] sscanf_1x_digit [of "2 * i + 1" c] assms(2) [of "2 * i"]
      assms(2) [of "2 * i + 1"] by (subst machine_seed_loop.simps) simp
  moreover have "take (i + 1) (seed[i := ?b]) = take i seed @ [?b]"
    using i Suc.prems by (simp add: take_Suc_conv_app_nth)
  moreover have "[i..<16] = i # [i + 1..<16]" using i by (simp add: upt_conv_Cons)
  ultimately show ?case
    using Suc.hyps(1) [of "i + 1" "seed[i := ?b]"] Suc.hyps(2) Suc.prems i by simp
qed

end
