(* ===== verification/Enroll.thy ===== *)
theory Enroll
  imports Answering Prints
begin

text \<open>
  Enrollment (\<open>verimark-moc.c\<close>): the machine, what its success means on the wire and in the print
  it hands back, and what it reports on the way. Captures and commands are the calls of
  \<open>Capture\<close> and \<open>Moc_Send\<close>; a capture that fails is retried here, so it is called from the step and
  not run as a sub-machine.
\<close>

subsection \<open>The machine\<close>

definition VERIMARK_ENROLL_OVERALL_TIMEOUT_MS :: nat where "VERIMARK_ENROLL_OVERALL_TIMEOUT_MS = 150000"

abbreviation (input) ENR_DEDUP_CAPTURE :: nat where "ENR_DEDUP_CAPTURE \<equiv> 0"
abbreviation (input) ENR_DEDUP :: nat where "ENR_DEDUP \<equiv> 1"
abbreviation (input) ENR_CREATE :: nat where "ENR_CREATE \<equiv> 2"
abbreviation (input) ENR_SAMPLE_CAPTURE :: nat where "ENR_SAMPLE_CAPTURE \<equiv> 3"
abbreviation (input) ENR_SAMPLE :: nat where "ENR_SAMPLE \<equiv> 4"
abbreviation (input) ENR_FINALIZE :: nat where "ENR_FINALIZE \<equiv> 5"
abbreviation (input) ENR_COMMIT :: nat where "ENR_COMMIT \<equiv> 6"
abbreviation (input) ENR_N_STATES :: nat where "ENR_N_STATES \<equiv> 7"

text \<open>\<open>VerimarkEnrollCtx\<close>\<close>

record enr_ctx =
  overall_deadline_us :: int

type_synonym 'w enr_state = "enr_ctx \<times> verimark \<times> 'w"

text \<open>The capture is a machine of its own, whose completion finds its parent in \<open>task_ssm\<close>; \<open>c\<close> is the
  state the parent is parked in.\<close>

definition on_enr_capture_done :: "'w platform \<Rightarrow> nat \<Rightarrow> enr_ctx \<Rightarrow> unit res \<Rightarrow> verimark \<times> 'w \<Rightarrow> ssm_call \<times> 'w enr_state" where
  "on_enr_capture_done P c ctx r = (\<lambda>(dev, w).
     if task_ssm dev \<noteq> Some Enroll_Task then (Mark_Failed No_Machine, ctx, dev, w)
     else case r of
       Inl e \<Rightarrow>
         let (now, w) = mono_time P w
         in if overall_deadline_us ctx \<le> now then (Mark_Failed e, ctx, dev, w)
            else (Jump_To_State c, ctx, report (Enroll_Progress (enroll_stage dev) (Some e)) dev, w)
     | Inr _ \<Rightarrow> (Next_State, ctx, dev, w))"

definition on_enr_dedup_done :: "enr_ctx \<Rightarrow> moc_reply \<Rightarrow> verimark \<times> 'w \<Rightarrow> ssm_call \<times> 'w enr_state" where
  "on_enr_dedup_done ctx r s = (case r of Inl e \<Rightarrow> (Mark_Failed e, ctx, s) | Inr _ \<Rightarrow> (Next_State, ctx, s))"

definition on_enr_create_done :: "enr_ctx \<Rightarrow> moc_reply \<Rightarrow> verimark \<times> 'w \<Rightarrow> ssm_call \<times> 'w enr_state" where
  "on_enr_create_done ctx r s =
     (case r of
        Inl e \<Rightarrow> (Mark_Failed e, ctx, s)
      | Inr (status, resp) \<Rightarrow>
          if status \<noteq> 0x0000
          then (Mark_Failed (Device_Error DEVICE_PROTO ''create-enroll failed: 0x%04x'' [unat status]), ctx, s)
          else (Next_State, ctx, s))"

definition on_enr_sample_done :: "'w platform \<Rightarrow> enr_ctx \<Rightarrow> moc_reply \<Rightarrow> verimark \<times> 'w \<Rightarrow> ssm_call \<times> 'w enr_state" where
  "on_enr_sample_done P ctx r = (\<lambda>(dev, w).
     case r of
       Inl e \<Rightarrow> (Mark_Failed e, ctx, dev, w)
     | Inr (status, resp) \<Rightarrow>
         let not_moved =
               (let (now, w) = mono_time P w
                in if overall_deadline_us ctx \<le> now
                   then (Mark_Failed (Device_Error DEVICE_PROTO ''enroll: add-sample not progressing (last status 0x%04x)''
                           [unat status]), ctx, dev, w)
                   else (Jump_To_State ENR_SAMPLE_CAPTURE, ctx, dev, w))
         in case verimark_moc_parse_sample (moc_ptr resp) of
              Inl _ \<Rightarrow> not_moved
            | Inr smp \<Rightarrow>
                if status \<noteq> 0x0000 \<or> sample_coverage smp = enroll_coverage dev then not_moved
                else
                  let dev = dev\<lparr>enroll_coverage := sample_coverage smp\<rparr>;
                      dev = (if enroll_stage dev < VERIMARK_ENROLL_STAGES
                             then dev\<lparr>enroll_stage := enroll_stage dev + 1\<rparr> else dev);
                      dev = report (Enroll_Progress (enroll_stage dev) None) dev
                  in if sample_coverage smp = 0x7f
                     then (Next_State, ctx, dev\<lparr>enroll_template_id := sample_template_id smp\<rparr>, w)
                     else (Jump_To_State ENR_SAMPLE_CAPTURE, ctx, dev, w))"

definition on_enr_finalize_done :: "enr_ctx \<Rightarrow> moc_reply \<Rightarrow> verimark \<times> 'w \<Rightarrow> ssm_call \<times> 'w enr_state" where
  "on_enr_finalize_done ctx r s =
     (case r of
        Inl e \<Rightarrow> (Mark_Failed e, ctx, s)
      | Inr (status, resp) \<Rightarrow>
          if status \<noteq> 0x0000
          then (Mark_Failed (Device_Error DEVICE_PROTO ''finalize (0x96 03) failed: 0x%04x'' [unat status]), ctx, s)
          else (Next_State, ctx, s))"

definition on_enr_commit_done :: "enr_ctx \<Rightarrow> moc_reply \<Rightarrow> verimark \<times> 'w \<Rightarrow> ssm_call \<times> 'w enr_state" where
  "on_enr_commit_done ctx r s =
     (case r of
        Inl e \<Rightarrow> (Mark_Failed e, ctx, s)
      | Inr (status, resp) \<Rightarrow>
          if status \<noteq> 0x0000
          then (Mark_Failed (Device_Error DEVICE_PROTO ''commit (0x96 04) failed: 0x%04x'' [unat status]), ctx, s)
          else (Mark_Completed, ctx, s))"

definition enr_send_finalize :: "'w platform \<Rightarrow> enr_ctx \<Rightarrow> verimark \<times> 'w \<Rightarrow> (ssm_call \<times> 'w enr_state) option" where
  "enr_send_finalize P ctx = (\<lambda>(dev, w).
     let (seed, w) = verimark_read_machine_seed P w
     in case bind_res (verimark_moc_synth_sid (user_id P) (Some seed)) (\<lambda>sid.
               verimark_moc_build_finalize (Some (enroll_template_id dev)) (Some sid)) of
          Inl e \<Rightarrow> Some (Mark_Failed e, ctx, dev, w)
        | Inr cmd \<Rightarrow> map_option (\<lambda>(r, s). on_enr_finalize_done ctx r s) (verimark_moc_send P cmd 2 (dev, w)))"

definition enr_step :: "'w platform \<Rightarrow> nat \<Rightarrow> 'w enr_state \<Rightarrow> (ssm_call \<times> 'w enr_state) option" where
  "enr_step P c = (\<lambda>(ctx, s).
     if c = ENR_DEDUP_CAPTURE then
       map_option (\<lambda>(r, s). on_enr_capture_done P c ctx r s) (verimark_moc_capture P VERIMARK_ACQ_VERIFY s)
     else if c = ENR_DEDUP then
       map_option (\<lambda>(r, s). on_enr_dedup_done ctx r s) (verimark_moc_send P verimark_moc_build_begin_id 177 s)
     else if c = ENR_CREATE then
       map_option (\<lambda>(r, s). on_enr_create_done ctx r s) (verimark_moc_send P verimark_moc_build_enroll_create 177 s)
     else if c = ENR_SAMPLE_CAPTURE then
       map_option (\<lambda>(r, s). on_enr_capture_done P c ctx r s) (verimark_moc_capture P VERIMARK_ACQ_ENROLL s)
     else if c = ENR_SAMPLE then
       map_option (\<lambda>(r, s). on_enr_sample_done P ctx r s) (verimark_moc_send P verimark_moc_build_enroll_sample 82 s)
     else if c = ENR_FINALIZE then enr_send_finalize P ctx s
     else if c = ENR_COMMIT then
       map_option (\<lambda>(r, s). on_enr_commit_done ctx r s) (verimark_moc_send P verimark_moc_build_enroll_commit 2 s)
     else Some (Mark_Failed Assert_Not_Reached, ctx, s))"

text \<open>\<open>print\<close> is the print of \<open>fpi_device_get_enroll_data\<close>, \<open>gen\<close> is \<open>fpi_print_generate_user_id\<close>.\<close>

definition verimark_enroll_ssm_done :: "(fp_print \<Rightarrow> string) \<Rightarrow> fp_print \<Rightarrow> unit res \<Rightarrow> verimark \<Rightarrow> verimark" where
  "verimark_enroll_ssm_done gen print r dev =
     (let dev = dev\<lparr>task_ssm := None\<rparr>
      in case r of
        Inl e \<Rightarrow> report (Enroll_Complete None (Some e)) dev
      | Inr _ \<Rightarrow>
          let uid = gen print;
              data = verimark_build_print_data 1 (enroll_template_id dev) zero16 (label_bytes uid);
              print = print\<lparr>fpi_type := FPI_PRINT_RAW, device_stored := True\<rparr>;
              print = print\<lparr>fpi_data := Some data, description := uid\<rparr>
          in report (Enroll_Complete (Some print) None) dev)"

definition enr_start :: "'w platform \<Rightarrow> verimark \<times> 'w \<Rightarrow> 'w enr_state" where
  "enr_start P = (\<lambda>(dev, w).
     let dev = dev\<lparr>enroll_stage := 0, enroll_coverage := 0, enroll_template_id := replicate 16 0\<rparr>;
         (now, w) = mono_time P w
     in (\<lparr>overall_deadline_us = now + int VERIMARK_ENROLL_OVERALL_TIMEOUT_MS * 1000\<rparr>,
         dev\<lparr>task_ssm := Some Enroll_Task\<rparr>, w))"

text \<open>\<open>None\<close>: not finished after entering \<open>fuel\<close> states.\<close>

definition verimark_moc_enroll :: "'w platform \<Rightarrow> (fp_print \<Rightarrow> string) \<Rightarrow> nat \<Rightarrow> fp_print \<Rightarrow> verimark \<times> 'w \<Rightarrow> (verimark \<times> 'w) option" where
  "verimark_moc_enroll P gen fuel print s =
     map_option (\<lambda>(r, ctx, dev, w). (verimark_enroll_ssm_done gen print r dev, w))
       (ssm_run (fpi P) (dev_delay P) ENR_N_STATES (enr_step P) fuel ENR_DEDUP_CAPTURE (enr_start P s))"

lemma enroll_fuel_mono:
  assumes "verimark_moc_enroll P gen m print s = None" "n \<le> m"
  shows "verimark_moc_enroll P gen n print s = None"
proof (cases "ssm_run (fpi P) (dev_delay P) ENR_N_STATES (enr_step P) n ENR_DEDUP_CAPTURE (enr_start P s)")
  case (Some q)
  from ssm_run_mono [OF this assms(2)] assms(1) show ?thesis by (simp add: verimark_moc_enroll_def del: ssm_run.simps)
qed (simp add: verimark_moc_enroll_def del: ssm_run.simps)

subsection \<open>What has happened in each state\<close>

text \<open>The operations other than captures, up to each stage of an enrollment.\<close>

definition enr_opened :: "(bytes \<times> u16 \<times> bytes) list \<Rightarrow> bool" where
  "enr_opened ops \<longleftrightarrow> (\<exists>st r0 r1 samples.
     ops = (verimark_moc_build_begin_id, st, r0) # (verimark_moc_build_enroll_create, 0, r1) # samples
     \<and> (\<forall>q \<in> set samples. fst q = verimark_moc_build_enroll_sample))"

text \<open>The last sample completed the coverage and named the template.\<close>

definition enr_minted :: "bytes \<Rightarrow> (bytes \<times> u16 \<times> bytes) list \<Rightarrow> bool" where
  "enr_minted tid ops \<longleftrightarrow> (\<exists>ops0 resp smp. enr_opened ops0 \<and> ops = ops0 @ [(verimark_moc_build_enroll_sample, 0, resp)]
     \<and> verimark_moc_parse_sample (Some resp) = Inr smp \<and> sample_coverage smp = 0x7f \<and> sample_template_id smp = tid)"

text \<open>The sensor accepted a finalize command for this template and this user and machine.\<close>

definition enr_finalized :: "'w platform \<Rightarrow> bytes \<Rightarrow> (bytes \<times> u16 \<times> bytes) list \<Rightarrow> bool" where
  "enr_finalized P tid ops \<longleftrightarrow> (\<exists>ops0 v sid cmd resp. enr_minted tid ops0 \<and> ops = ops0 @ [(cmd, 0, resp)]
     \<and> verimark_moc_synth_sid (user_id P) (Some (fst (verimark_read_machine_seed P v))) = Inr sid
     \<and> verimark_moc_build_finalize (Some tid) (Some sid) = Inr cmd)"

definition enrolled :: "'w platform \<Rightarrow> bytes \<Rightarrow> (bytes \<times> u16 \<times> bytes) list \<Rightarrow> bool" where
  "enrolled P tid ops \<longleftrightarrow> (\<exists>ops0 resp. enr_finalized P tid ops0 \<and> ops = ops0 @ [(verimark_moc_build_enroll_commit, 0, resp)])"

definition enr_phase :: "'w platform \<Rightarrow> nat \<Rightarrow> bytes \<Rightarrow> (bytes \<times> u16 \<times> bytes) list \<Rightarrow> bool" where
  "enr_phase P c tid ops \<longleftrightarrow>
     (if c \<le> ENR_DEDUP then ops = []
      else if c = ENR_CREATE then \<exists>st r. ops = [(verimark_moc_build_begin_id, st, r)]
      else if c \<le> ENR_SAMPLE then enr_opened ops
      else if c = ENR_FINALIZE then enr_minted tid ops
      else enr_finalized P tid ops)"

text \<open>The progress reports of an enrollment, and the stage they lead to: a failed capture repeats
  the stage with its error, an accepted sample goes to the next one, up to the eighth.\<close>

inductive progress_log :: "report list \<Rightarrow> nat \<Rightarrow> bool" where
  progress_none: "progress_log [] 0"
| progress_retry: "progress_log log n \<Longrightarrow> progress_log (log @ [Enroll_Progress n (Some e)]) n"
| progress_sample: "progress_log log n \<Longrightarrow> progress_log (log @ [Enroll_Progress (min 8 (n + 1)) None]) (min 8 (n + 1))"

lemma progress_log_le: "progress_log log n \<Longrightarrow> n \<le> 8"
  by (induction rule: progress_log.induct) auto

definition enr_reach :: "'w platform \<Rightarrow> ('w \<Rightarrow> int) \<Rightarrow> verimark \<times> 'w \<Rightarrow> ((bytes \<times> u16 \<times> bytes) list \<Rightarrow> bool) \<Rightarrow> verimark \<times> 'w \<Rightarrow> bool" where
  "enr_reach P T s0 Q s \<longleftrightarrow> platform_doc P T \<and> (\<exists>tr log. moc_path P s0 tr s \<and> Q (moc_ops tr)
     \<and> reports (fst s) = reports (fst s0) @ log \<and> progress_log log (enroll_stage (fst s)))
     \<and> length (enroll_template_id (fst s)) = 16 \<and> task_ssm (fst s) = Some Enroll_Task"

definition enr_inv :: "'w platform \<Rightarrow> ('w \<Rightarrow> int) \<Rightarrow> verimark \<times> 'w \<Rightarrow> nat \<Rightarrow> 'w enr_state \<Rightarrow> bool" where
  "enr_inv P T s0 c = (\<lambda>(ctx, s). enr_reach P T s0 (enr_phase P c (enroll_template_id (fst s))) s)"

definition enr_post :: "'w platform \<Rightarrow> ('w \<Rightarrow> int) \<Rightarrow> verimark \<times> 'w \<Rightarrow> unit res \<Rightarrow> 'w enr_state \<Rightarrow> bool" where
  "enr_post P T s0 r = (\<lambda>(ctx, s).
     enr_reach P T s0 (\<lambda>ops. r = Inr () \<longrightarrow> enrolled P (enroll_template_id (fst s)) ops) s)"

subsection \<open>Every state keeps to it\<close>

lemma enr_reach_mono: "enr_reach P T s0 Q s \<Longrightarrow> (\<And>ops. Q ops \<Longrightarrow> Q' ops) \<Longrightarrow> enr_reach P T s0 Q' s"
  unfolding enr_reach_def by blast

lemma enr_reach_capture:
  assumes "enr_reach P T s0 Q (dev, w)" "verimark_moc_capture P kind (dev, w) = Some (r, dev', w')"
  shows "enr_reach P T s0 Q (dev', w') \<and> enroll_template_id dev' = enroll_template_id dev"
proof -
  from assms(1) obtain tr log where h: "platform_doc P T" "moc_path P s0 tr (dev, w)" "Q (moc_ops tr)"
    "reports dev = reports (fst s0) @ log" "progress_log log (enroll_stage dev)" "length (enroll_template_id dev) = 16" "task_ssm dev = Some Enroll_Task"
    by (auto simp: enr_reach_def)
  from capture_path [OF h(1) assms(2)] obtain tr2 where tr2: "moc_path P (dev, w) tr2 (dev', w')" "moc_ops tr2 = []" by blast
  note same = same_op_fields [OF capture_same [OF h(1) assms(2)]]
  show ?thesis
    using moc_path_trans [OF tr2(1) h(2)] tr2(2) h same unfolding enr_reach_def by (metis fst_conv moc_ops_simps(3) append_Nil2)
qed

lemma enr_reach_send:
  assumes "enr_reach P T s0 Q (dev, w)" "verimark_moc_send P cmd hint (dev, w) = Some (r, dev', w')" "\<not> capture_cmd cmd"
  shows "enr_reach P T s0 (\<lambda>ops. case r of Inl e \<Rightarrow> Q ops | Inr (st, resp) \<Rightarrow> \<exists>ops0. Q ops0 \<and> ops = ops0 @ [(cmd, st, resp)]) (dev', w')
    \<and> enroll_template_id dev' = enroll_template_id dev"
proof -
  from assms(1) obtain tr log where h: "platform_doc P T" "moc_path P s0 tr (dev, w)" "Q (moc_ops tr)"
    "reports dev = reports (fst s0) @ log" "progress_log log (enroll_stage dev)" "length (enroll_template_id dev) = 16" "task_ssm dev = Some Enroll_Task"
    by (auto simp: enr_reach_def)
  let ?tr = "case r of Inl e \<Rightarrow> [] | Inr (st, resp) \<Rightarrow> [Replied cmd st resp]"
  have "moc_path P s0 (tr @ ?tr) (dev', w')" by (rule moc_path_trans [OF path_send [OF assms(2)] h(2)])
  moreover have "case r of Inl e \<Rightarrow> Q (moc_ops (tr @ ?tr)) | Inr (st, resp) \<Rightarrow> \<exists>ops0. Q ops0 \<and> moc_ops (tr @ ?tr) = ops0 @ [(cmd, st, resp)]"
    using h(3) assms(3) by (auto simp: moc_op_def split: sum.split)
  moreover note same_op_fields [OF moc_send_same [OF assms(2)]]
  ultimately show ?thesis
    using h(1,4,5,6,7) unfolding enr_reach_def by (auto split: sum.splits intro!: exI [of _ "tr @ ?tr"])
qed

lemma enr_reach_clock:
  assumes "enr_reach P T s0 Q (dev, w)"
  shows "mono_time P w = (now, w') \<Longrightarrow> enr_reach P T s0 Q (dev, w')"
    and "fs_read P w path = (c, w') \<Longrightarrow> enr_reach P T s0 Q (dev, w')"
  using assms unfolding enr_reach_def by (metis fst_conv moc_path.clock moc_path.read_file)+

text \<open>Updates of the device object that do not touch the session.\<close>

lemma enr_reach_local:
  assumes "enr_reach P T s0 Q (dev, w)" "same_device dev dev'"
    and "reports dev' = reports dev @ log" "\<And>l. progress_log l (enroll_stage dev) \<Longrightarrow> progress_log (l @ log) (enroll_stage dev')"
    and "length (enroll_template_id dev') = 16" "task_ssm dev' = task_ssm dev"
  shows "enr_reach P T s0 Q (dev', w)"
proof -
  from assms(1) obtain tr l where "platform_doc P T" "moc_path P s0 tr (dev, w)" "Q (moc_ops tr)"
    "reports dev = reports (fst s0) @ l" "progress_log l (enroll_stage dev)" "task_ssm dev = Some Enroll_Task"
    by (auto simp: enr_reach_def)
  then show ?thesis
    using assms(2-6) moc_path.local [of P s0 tr dev w dev'] unfolding enr_reach_def
    by (intro conjI exI [of _ tr] exI [of _ "l @ log"]) auto
qed

lemma enroll_cmds [simp]:
  "\<not> capture_cmd verimark_moc_build_begin_id" "\<not> capture_cmd verimark_moc_build_enroll_create"
  "\<not> capture_cmd verimark_moc_build_enroll_sample" "\<not> capture_cmd verimark_moc_build_enroll_commit"
  by (simp_all add: capture_cmd_def verimark_moc_build_begin_id_def verimark_moc_build_enroll_create_def
      verimark_moc_build_enroll_sample_def verimark_moc_build_enroll_commit_def)

lemma finalize_not_capture:
  assumes "verimark_moc_build_finalize (Some tid) (Some sid) = Inr cmd" "length tid = 16" "length sid = 28"
  shows "\<not> capture_cmd cmd"
proof -
  have "length cmd = 124" "cmd ! 0 = 0x96"
    using build_finalize_Inr [OF assms(2,3)] assms(1) by (auto simp: WIN_FINALIZE_def)
  then have "hd cmd = 0x96" by (metis hd_conv_nth list.size(3) zero_neq_numeral)
  then show ?thesis by (simp add: capture_cmd_def)
qed

lemma enr_phase_id: "c \<le> 4 \<Longrightarrow> enr_phase P c tid = enr_phase P c tid'"
  by (auto simp: enr_phase_def fun_eq_iff)

abbreviation enr_allows :: "'w platform \<Rightarrow> ('w \<Rightarrow> int) \<Rightarrow> verimark \<times> 'w \<Rightarrow> nat \<Rightarrow> ssm_call \<times> 'w enr_state \<Rightarrow> bool" where
  "enr_allows P T s0 \<equiv> ssm_allows ENR_N_STATES (dev_delay P) (enr_inv P T s0) (enr_post P T s0)"

lemma enr_fail:
  "enr_reach P T s0 Q s \<Longrightarrow> enr_allows P T s0 c (Mark_Failed e, ctx, s)"
  by (auto simp: ssm_allows_def enr_post_def intro: enr_reach_mono)

text \<open>Captures.\<close>

lemma enr_capture_ok:
  assumes "enr_inv P T s0 c (ctx, s)" "c = ENR_DEDUP_CAPTURE \<or> c = ENR_SAMPLE_CAPTURE"
    and "verimark_moc_capture P kind s = Some (r, s1)"
  shows "enr_allows P T s0 c (on_enr_capture_done P c ctx r s1)"
proof -
  obtain dev w dev1 w1 where s: "s = (dev, w)" "s1 = (dev1, w1)" by fastforce
  have "enr_reach P T s0 (enr_phase P c (enroll_template_id dev)) (dev, w)" using assms(1) by (simp add: enr_inv_def s)
  from enr_reach_capture [OF this assms(3) [unfolded s]]
  have 1: "enr_reach P T s0 (enr_phase P c (enroll_template_id dev1)) (dev1, w1)" by simp
  then have task: "task_ssm dev1 = Some Enroll_Task" by (simp add: enr_reach_def)
  have nxt: "enr_phase P c tid ops \<Longrightarrow> enr_phase P (Suc c) tid ops" for tid ops
    using assms(2) by (auto simp: enr_phase_def)
  show ?thesis
  proof (cases r)
    case (Inl e)
    obtain now w2 where clk: "mono_time P w1 = (now, w2)" by fastforce
    note 2 = enr_reach_clock(1) [OF 1 clk]
    have "length (enroll_template_id dev1) = 16" using 2 by (simp add: enr_reach_def)
    then have "enr_reach P T s0 (enr_phase P c (enroll_template_id dev1))
        (report (Enroll_Progress (enroll_stage dev1) (Some e)) dev1, w2)"
      by (intro enr_reach_local [OF 2, where log = "[Enroll_Progress (enroll_stage dev1) (Some e)]"])
        (auto simp: report_def intro: progress_retry)
    then show ?thesis
      using Inl clk assms(2) enr_fail [OF 2] task
      by (auto simp: on_enr_capture_done_def s(2) ssm_allows_def enr_inv_def report_def)
  next
    case (Inr u)
    then show ?thesis
      using assms(2) enr_reach_mono [OF 1 nxt] task by (auto simp: on_enr_capture_done_def s(2) ssm_allows_def enr_inv_def)
  qed
qed

text \<open>Commands: what holds after one that was answered.\<close>

lemma enr_send_ok:
  assumes "enr_inv P T s0 c (ctx, s)" "\<not> capture_cmd cmd" "verimark_moc_send P cmd hint s = Some (r, dev1, w1)"
  shows "r = Inl e \<Longrightarrow> enr_allows P T s0 c (Mark_Failed e, ctx, dev1, w1)"
    and "r = Inr (st, resp) \<Longrightarrow> enr_reach P T s0 (\<lambda>ops. \<exists>ops0. enr_phase P c (enroll_template_id dev1) ops0
        \<and> ops = ops0 @ [(cmd, st, resp)]) (dev1, w1)"
proof -
  obtain dev w where s: "s = (dev, w)" by fastforce
  have "enr_reach P T s0 (enr_phase P c (enroll_template_id dev)) (dev, w)" using assms(1) by (simp add: enr_inv_def s)
  note r = enr_reach_send [OF this assms(3) [unfolded s] assms(2)]
  show "r = Inl e \<Longrightarrow> enr_allows P T s0 c (Mark_Failed e, ctx, dev1, w1)"
    using r by (auto intro: enr_fail)
  show "r = Inr (st, resp) \<Longrightarrow> enr_reach P T s0 (\<lambda>ops. \<exists>ops0. enr_phase P c (enroll_template_id dev1) ops0
        \<and> ops = ops0 @ [(cmd, st, resp)]) (dev1, w1)"
    using r by simp
qed

lemma enr_dedup_ok:
  assumes "enr_inv P T s0 ENR_DEDUP (ctx, s)" "verimark_moc_send P verimark_moc_build_begin_id 177 s = Some (r, s1)"
  shows "enr_allows P T s0 ENR_DEDUP (on_enr_dedup_done ctx r s1)"
proof -
  obtain dev1 w1 where s1: "s1 = (dev1, w1)" by fastforce
  note ok = enr_send_ok [OF assms(1) enroll_cmds(1) assms(2) [unfolded s1]]
  show ?thesis
  proof (cases r)
    case (Inr q)
    then obtain st resp where q: "r = Inr (st, resp)" by (cases q) simp
    have "enr_reach P T s0 (enr_phase P ENR_CREATE (enroll_template_id dev1)) (dev1, w1)"
      by (rule enr_reach_mono [OF ok(2) [OF q]]) (auto simp: enr_phase_def)
    then show ?thesis by (simp add: on_enr_dedup_done_def q s1 ssm_allows_def enr_inv_def flip: numeral_2_eq_2)
  qed (simp add: on_enr_dedup_done_def ok(1) s1 del: One_nat_def)
qed

lemma enr_create_ok:
  assumes "enr_inv P T s0 ENR_CREATE (ctx, s)" "verimark_moc_send P verimark_moc_build_enroll_create 177 s = Some (r, s1)"
  shows "enr_allows P T s0 ENR_CREATE (on_enr_create_done ctx r s1)"
proof -
  obtain dev1 w1 where s1: "s1 = (dev1, w1)" by fastforce
  note ok = enr_send_ok [OF assms(1) enroll_cmds(2) assms(2) [unfolded s1]]
  show ?thesis
  proof (cases r)
    case (Inr q)
    then obtain st resp where q: "r = Inr (st, resp)" by (cases q) simp
    have "enr_reach P T s0 (enr_phase P ENR_SAMPLE_CAPTURE (enroll_template_id dev1)) (dev1, w1)" if "st = 0"
      by (rule enr_reach_mono [OF ok(2) [OF q]]) (use that in \<open>auto simp: enr_phase_def enr_opened_def\<close>)
    then show ?thesis
      using enr_fail [OF ok(2) [OF q]] by (auto simp: on_enr_create_done_def q s1 ssm_allows_def enr_inv_def)
  qed (simp add: on_enr_create_done_def ok(1) s1)
qed

lemma enr_sample_opened: "enr_opened ops \<Longrightarrow> enr_opened (ops @ [(verimark_moc_build_enroll_sample, st, resp)])"
  unfolding enr_opened_def by fastforce

lemma parse_sample_id_length: "verimark_moc_parse_sample (Some r) = Inr smp \<Longrightarrow> length (sample_template_id smp) = 16"
proof -
  assume "verimark_moc_parse_sample (Some r) = Inr smp"
  then have r: "43 \<le> length r" "take 18 r = wr_u16le (sample_status smp) @ sample_template_id smp"
    by (simp_all add: parse_sample_Inr)
  have "length (take 18 r) = 18" using r(1) by simp
  with r(2) show ?thesis by (simp add: wr_u16le_def)
qed

text \<open>An accepted sample.\<close>

definition sample_accepted :: "moc_sample \<Rightarrow> verimark \<Rightarrow> verimark" where
  "sample_accepted smp dev =
     dev\<lparr>enroll_coverage := sample_coverage smp, enroll_stage := min 8 (enroll_stage dev + 1),
         reports := reports dev @ [Enroll_Progress (min 8 (enroll_stage dev + 1)) None]\<rparr>"

lemma on_enr_sample_done_cases:
  assumes "enroll_stage dev \<le> 8" "on_enr_sample_done P ctx (Inr (st, resp)) (dev, w) = q"
  obtains (not_moved) now w' call where "mono_time P w = (now, w')" "q = (call, ctx, dev, w')"
      "call = Jump_To_State ENR_SAMPLE_CAPTURE \<or> overall_deadline_us ctx \<le> now \<and> (\<exists>e. call = Mark_Failed e)"
    | (more) smp where "st = 0" "verimark_moc_parse_sample (moc_ptr resp) = Inr smp" "sample_coverage smp \<noteq> 0x7f"
      "sample_coverage smp \<noteq> enroll_coverage dev"
      "q = (Jump_To_State ENR_SAMPLE_CAPTURE, ctx, sample_accepted smp dev, w)"
    | (minted) smp where "st = 0" "verimark_moc_parse_sample (moc_ptr resp) = Inr smp" "sample_coverage smp = 0x7f"
      "q = (Next_State, ctx, (sample_accepted smp dev)\<lparr>enroll_template_id := sample_template_id smp\<rparr>, w)"
proof -
  obtain now w' where clk: "mono_time P w = (now, w')" by fastforce
  show ?thesis
  proof (cases "verimark_moc_parse_sample (moc_ptr resp)")
    case (Inl e)
    then show ?thesis using assms(2) clk not_moved [OF clk] by (auto simp: on_enr_sample_done_def split: if_split_asm)
  next
    case (Inr smp)
    show ?thesis
    proof (cases "st \<noteq> 0 \<or> sample_coverage smp = enroll_coverage dev")
      case True
      then show ?thesis
        using Inr assms(2) clk not_moved [OF clk] by (auto simp: on_enr_sample_done_def split: if_split_asm)
    next
      case False
      then have "q = (if sample_coverage smp = 0x7f
          then (Next_State, ctx, (sample_accepted smp dev)\<lparr>enroll_template_id := sample_template_id smp\<rparr>, w)
          else (Jump_To_State ENR_SAMPLE_CAPTURE, ctx, sample_accepted smp dev, w))"
        using Inr assms by (cases "enroll_stage dev < 8")
          (auto simp: on_enr_sample_done_def Let_def sample_accepted_def report_def VERIMARK_ENROLL_STAGES_def)
      then show ?thesis using False Inr more minted by (cases "sample_coverage smp = 0x7f") auto
    qed
  qed
qed

lemma enr_reach_stage: "enr_reach P T s0 Q (dev, w) \<Longrightarrow> enroll_stage dev \<le> 8"
  by (auto simp: enr_reach_def dest: progress_log_le)

lemma enr_reach_accepted:
  "enr_reach P T s0 Q (dev, w) \<Longrightarrow> length tid = 16 \<Longrightarrow> enr_reach P T s0 Q ((sample_accepted smp dev)\<lparr>enroll_template_id := tid\<rparr>, w)"
  by (erule enr_reach_local [where log = "[Enroll_Progress (min 8 (enroll_stage dev + 1)) None]"])
    (use progress_sample in \<open>fastforce simp: sample_accepted_def\<close>)+

lemma enr_sample_ok:
  assumes "enr_inv P T s0 ENR_SAMPLE (ctx, s)" "verimark_moc_send P verimark_moc_build_enroll_sample 82 s = Some (r, s1)"
  shows "enr_allows P T s0 ENR_SAMPLE (on_enr_sample_done P ctx r s1)"
proof -
  obtain dev1 w1 where s1: "s1 = (dev1, w1)" by fastforce
  note ok = enr_send_ok [OF assms(1) enroll_cmds(3) assms(2) [unfolded s1]]
  show ?thesis
  proof (cases r)
    case (Inr q)
    then obtain st resp where q: "r = Inr (st, resp)" by (cases q) simp
    have phase: "enr_phase P ENR_SAMPLE tid = enr_opened" "enr_phase P ENR_SAMPLE_CAPTURE tid = enr_opened" for tid
      by (simp_all add: enr_phase_def fun_eq_iff)
    note r = ok(2) [OF q, unfolded phase]
    have again: "enr_reach P T s0 enr_opened (dev1, w1)"
      by (rule enr_reach_mono [OF r]) (auto intro: enr_sample_opened)
    show ?thesis
    proof (cases rule: on_enr_sample_done_cases [where P = P and ctx = ctx and st = st and resp = resp and w = w1,
          OF enr_reach_stage [OF again] refl])
      case (1 now w' call)
      have "enr_reach P T s0 enr_opened (dev1, w')" by (rule enr_reach_clock(1) [OF again 1(1)])
      with 1(2,3) enr_fail [OF this] show ?thesis by (auto simp: q s1 ssm_allows_def enr_inv_def phase)
    next
      case (2 smp)
      have "sample_accepted smp dev1 = (sample_accepted smp dev1)\<lparr>enroll_template_id := enroll_template_id dev1\<rparr>"
        by (simp add: sample_accepted_def)
      then have "enr_reach P T s0 enr_opened (sample_accepted smp dev1, w1)" using enr_reach_accepted [OF again] again unfolding enr_reach_def [of P T s0 enr_opened "(dev1, w1)"] by (metis fst_conv)
      then show ?thesis by (simp add: q s1 2(5) ssm_allows_def enr_inv_def phase)
    next
      case (3 smp)
      have raw: "verimark_moc_parse_sample (Some resp) = Inr smp"
        using 3(2) by (auto simp: moc_ptr_def verimark_moc_parse_sample_def split: if_splits)
      then have "enr_reach P T s0 (enr_minted (sample_template_id smp)) (dev1, w1)"
        using 3(1,3) by (intro enr_reach_mono [OF r]) (auto simp: enr_minted_def)
      moreover have "enr_phase P 5 tid = enr_minted tid" for tid by (simp add: enr_phase_def fun_eq_iff)
      ultimately show ?thesis
        using enr_reach_accepted [where smp = smp and tid = "sample_template_id smp"] parse_sample_id_length [OF raw]
        by (simp add: q s1 3(4) ssm_allows_def enr_inv_def)
    qed
  qed (simp add: on_enr_sample_done_def ok(1) s1)
qed

lemma enr_finalize_ok:
  assumes "enr_inv P T s0 ENR_FINALIZE (ctx, s)" "enr_send_finalize P ctx s = Some q"
  shows "enr_allows P T s0 ENR_FINALIZE q"
proof -
  obtain dev w where s: "s = (dev, w)" by fastforce
  obtain seed w1 where seed: "verimark_read_machine_seed P w = (seed, w1)" by fastforce
  obtain c where "fs_read P w ''/etc/machine-id'' = (c, w1)"
    using seed by (auto simp: verimark_read_machine_seed_def split: prod.split_asm sum.split_asm)
  from enr_reach_clock(2) [OF _ this] assms(1)
  have 1: "enr_inv P T s0 ENR_FINALIZE (ctx, dev, w1)" by (auto simp: enr_inv_def s)
  obtain sid where sid: "verimark_moc_synth_sid (user_id P) (Some seed) = Inr sid"
    using synth_sid_Inr [OF length_machine_seed [OF seed]] by blast
  have len: "length sid = 28" by (rule synth_sid_length [OF length_machine_seed [OF seed] sid])
  obtain cmd where cmd: "verimark_moc_build_finalize (Some (enroll_template_id dev)) (Some sid) = Inr cmd"
    by (simp add: verimark_moc_build_finalize_def)
  have "length (enroll_template_id dev) = 16" using assms(1) by (simp add: enr_inv_def s enr_reach_def)
  note ncap = finalize_not_capture [OF cmd this len]
  obtain r dev1 w2 where send: "verimark_moc_send P cmd 2 (dev, w1) = Some (r, dev1, w2)" "q = on_enr_finalize_done ctx r (dev1, w2)"
    using assms(2) by (auto simp: enr_send_finalize_def s seed sid cmd)
  have same: "enroll_template_id dev1 = enroll_template_id dev" using same_op_fields [OF moc_send_same [OF send(1)]] by simp
  note ok = enr_send_ok [OF 1 ncap send(1)]
  show ?thesis
  proof (cases r)
    case (Inr a)
    then obtain st resp where a: "r = Inr (st, resp)" by (cases a) simp
    have "enr_reach P T s0 (enr_phase P ENR_COMMIT (enroll_template_id dev1)) (dev1, w2)" if "st = 0"
    proof (rule enr_reach_mono [OF ok(2) [OF a]])
      fix ops assume "\<exists>ops0. enr_phase P ENR_FINALIZE (enroll_template_id dev1) ops0 \<and> ops = ops0 @ [(cmd, st, resp)]"
      then show "enr_phase P ENR_COMMIT (enroll_template_id dev1) ops"
        using that sid cmd seed same by (auto simp: enr_phase_def enr_finalized_def intro!: exI [of _ w])
    qed
    then show ?thesis
      using enr_fail [OF ok(2) [OF a]] by (auto simp: on_enr_finalize_done_def a send(2) ssm_allows_def enr_inv_def)
  qed (simp add: on_enr_finalize_done_def ok(1) send(2))
qed

lemma enr_commit_ok:
  assumes "enr_inv P T s0 ENR_COMMIT (ctx, s)" "verimark_moc_send P verimark_moc_build_enroll_commit 2 s = Some (r, s1)"
  shows "enr_allows P T s0 ENR_COMMIT (on_enr_commit_done ctx r s1)"
proof -
  obtain dev1 w1 where s1: "s1 = (dev1, w1)" by fastforce
  note ok = enr_send_ok [OF assms(1) enroll_cmds(4) assms(2) [unfolded s1]]
  show ?thesis
  proof (cases r)
    case (Inr q)
    then obtain st resp where q: "r = Inr (st, resp)" by (cases q) simp
    have "enr_reach P T s0 (enrolled P (enroll_template_id dev1)) (dev1, w1)" if "st = 0"
      by (rule enr_reach_mono [OF ok(2) [OF q]]) (use that in \<open>auto simp: enr_phase_def enrolled_def\<close>)
    then show ?thesis
      using enr_fail [OF ok(2) [OF q]] by (auto simp: on_enr_commit_done_def q s1 ssm_allows_def enr_post_def)
  qed (simp add: on_enr_commit_done_def ok(1) s1)
qed

interpretation enroll: ssm_contract ENR_N_STATES "enr_step P" "dev_delay P" "enr_inv P T s0" "enr_post P T s0"
  for P :: "'w platform" and T s0
proof (rule ssm_contractI)
  fix c s q
  assume a: "c < ENR_N_STATES" "enr_inv P T s0 c s" "enr_step P c s = Some q"
  obtain ctx s1 where s: "s = (ctx, s1)" by (cases s)
  note 1 = a(2) [unfolded s] and st = a(3) [unfolded s]
  from a(1) consider "c = ENR_DEDUP_CAPTURE" | "c = ENR_DEDUP" | "c = ENR_CREATE" | "c = ENR_SAMPLE_CAPTURE"
    | "c = ENR_SAMPLE" | "c = ENR_FINALIZE" | "c = ENR_COMMIT" by linarith
  then show "enr_allows P T s0 c q"
  proof cases
    case 1
    then show ?thesis using st enr_capture_ok [OF \<open>enr_inv P T s0 c (ctx, s1)\<close>] by (auto simp: enr_step_def)
  next
    case 2
    then show ?thesis using st enr_dedup_ok [of P T s0 ctx s1] a(2) by (auto simp: enr_step_def s simp del: One_nat_def)
  next
    case 3
    then show ?thesis using st enr_create_ok [of P T s0 ctx s1] a(2) by (auto simp: enr_step_def s)
  next
    case 4
    then show ?thesis using st enr_capture_ok [OF \<open>enr_inv P T s0 c (ctx, s1)\<close>] by (auto simp: enr_step_def)
  next
    case 5
    then show ?thesis using st enr_sample_ok [of P T s0 ctx s1] a(2) by (auto simp: enr_step_def s)
  next
    case 6
    then show ?thesis using st enr_finalize_ok [of P T s0 ctx s1] a(2) by (auto simp: enr_step_def s)
  next
    case 7
    then show ?thesis using st enr_commit_ok [of P T s0 ctx s1] a(2) by (auto simp: enr_step_def s)
  qed
qed

lemma enr_start_inv:
  assumes "platform_doc P T"
  shows "enr_inv P T s ENR_DEDUP_CAPTURE (enr_start P s)"
proof -
  obtain dev w where s: "s = (dev, w)" by fastforce
  let ?dev = "dev\<lparr>enroll_stage := 0, enroll_coverage := 0, enroll_template_id := replicate 16 0,
    task_ssm := Some Enroll_Task\<rparr>"
  obtain now w1 where clk: "mono_time P w = (now, w1)" by fastforce
  have "moc_path P s [] (?dev, w1)"
    unfolding s by (rule moc_path.clock [OF moc_path.local [OF moc_path.start]]) (auto simp: clk)
  then show ?thesis
    using assms by (force simp: enr_inv_def enr_reach_def enr_start_def s clk enr_phase_def intro: progress_none)
qed

lemma enroll_outcome:
  assumes "platform_doc P T" "verimark_moc_enroll P gen fuel print (dev, w) = Some (dev', w')"
  shows "\<exists>r dev1 log tr. dev' = verimark_enroll_ssm_done gen print r dev1 \<and> moc_path P (dev, w) tr (dev1, w')
    \<and> (r = Inr () \<longrightarrow> enrolled P (enroll_template_id dev1) (moc_ops tr))
    \<and> reports dev1 = reports dev @ log \<and> progress_log log (enroll_stage dev1) \<and> length (enroll_template_id dev1) = 16"
proof -
  obtain r ctx dev1 where run: "ssm_run (fpi P) (dev_delay P) ENR_N_STATES (enr_step P) fuel ENR_DEDUP_CAPTURE (enr_start P (dev, w)) =
      Some (r, ctx, dev1, w')" "dev' = verimark_enroll_ssm_done gen print r dev1"
    using assms(2) by (auto simp: verimark_moc_enroll_def)
  have "enr_post P T (dev, w) r (ctx, dev1, w')"
    by (rule enroll.run_post [OF platform_docD(1) [OF assms(1)] _ enr_start_inv [OF assms(1)] run(1)]) simp
  then show ?thesis using run(2) by (auto simp: enr_post_def enr_reach_def)
qed

subsection \<open>The deadline\<close>

text \<open>A sample that changes the coverage is never held against the deadline, in whichever direction it
  changes it.\<close>

lemma accepted_sample_ignores_deadline:
  assumes "verimark_moc_parse_sample (moc_ptr resp) = Inr smp" "enroll_stage dev \<le> 8"
    and "sample_coverage smp \<noteq> enroll_coverage dev" "sample_coverage smp \<noteq> 0x7f"
  shows "on_enr_sample_done P ctx (Inr (0, resp)) (dev, w) = (Jump_To_State ENR_SAMPLE_CAPTURE, ctx, sample_accepted smp dev, w)"
  using assms by (cases "enroll_stage dev < 8")
    (simp_all add: on_enr_sample_done_def Let_def sample_accepted_def report_def VERIMARK_ENROLL_STAGES_def)

end
