(* ===== verification/Enroll_Runs.thy ===== *)
theory Enroll_Runs
  imports Enroll
begin

text \<open>
  Enrollments that succeed: with an application that accepts the samples (locale \<open>app_link\<close>), and against
  the sample sensor; and the properties of enrollment, which are applied there.
\<close>

subsection \<open>With a sensor that cooperates\<close>

text \<open>\<open>sampled app a0 n cov a\<close>: from \<open>a0\<close>, the application has accepted \<open>n\<close> samples, each of them with a
  coverage other than the one before and short of complete; the last one is \<open>cov\<close>.\<close>

inductive sampled :: "('a \<Rightarrow> bytes \<Rightarrow> bytes \<times> 'a) \<Rightarrow> 'a \<Rightarrow> nat \<Rightarrow> byte \<Rightarrow> 'a \<Rightarrow> bool"
  for app :: "'a \<Rightarrow> bytes \<Rightarrow> bytes \<times> 'a" and a0 :: 'a where
  sampled_none: "sampled app a0 0 0 a0"
| sampled_more: "sampled app a0 n cov a \<Longrightarrow> app a verimark_moc_build_enroll_sample = (resp, a') \<Longrightarrow> length resp \<le> 483
    \<Longrightarrow> reply_status resp = 0 \<Longrightarrow> verimark_moc_parse_sample (moc_ptr resp) = Inr smp
    \<Longrightarrow> sample_coverage smp \<noteq> cov \<Longrightarrow> sample_coverage smp \<noteq> 0x7f
    \<Longrightarrow> sampled app a0 (Suc n) (sample_coverage smp) a'"

text \<open>\<open>enrolls app a n tid a'\<close>: the application enrolls a finger as \<open>tid\<close> after \<open>n\<close> incomplete samples and
  a complete one; its answer to the duplicate check does not matter.\<close>

definition finishes :: "('a \<Rightarrow> bytes \<Rightarrow> bytes \<times> 'a) \<Rightarrow> 'a \<Rightarrow> bytes \<Rightarrow> 'a \<Rightarrow> bool" where
  "finishes app a tid a' \<longleftrightarrow> (\<forall>sid cmd. length sid = 28 \<and> verimark_moc_build_finalize (Some tid) (Some sid) = Inr cmd
     \<longrightarrow> (\<exists>r a1 r'. app a cmd = (r, a1) \<and> length r \<le> 483 \<and> reply_status r = 0
        \<and> app a1 verimark_moc_build_enroll_commit = (r', a') \<and> length r' \<le> 483 \<and> reply_status r' = 0))"

definition enrolls :: "('a \<Rightarrow> bytes \<Rightarrow> bytes \<times> 'a) \<Rightarrow> 'a \<Rightarrow> nat \<Rightarrow> bytes \<Rightarrow> 'a \<Rightarrow> bool" where
  "enrolls app a n tid a' \<longleftrightarrow> (\<exists>r0 a0 r1 a1 cov a2 r3 a3 smp.
     app a verimark_moc_build_begin_id = (r0, a0) \<and> length r0 \<le> 483
     \<and> app a0 verimark_moc_build_enroll_create = (r1, a1) \<and> length r1 \<le> 483 \<and> reply_status r1 = 0
     \<and> sampled app a1 n cov a2
     \<and> app a2 verimark_moc_build_enroll_sample = (r3, a3) \<and> length r3 \<le> 483 \<and> reply_status r3 = 0
     \<and> verimark_moc_parse_sample (moc_ptr r3) = Inr smp \<and> sample_coverage smp = 0x7f \<and> sample_template_id smp = tid
     \<and> finishes app a3 tid a')"

lemma sampled_cov: "sampled app a0 n cov a \<Longrightarrow> cov \<noteq> 0x7f"
  by (cases rule: sampled.cases) auto

lemma enroll_cmd_lengths:
  "length verimark_moc_build_begin_id \<le> 32739" "length verimark_moc_build_enroll_create \<le> 32739"
  "length verimark_moc_build_enroll_sample \<le> 32739" "length verimark_moc_build_enroll_commit \<le> 32739"
  by (simp_all add: verimark_moc_build_begin_id_def verimark_moc_build_enroll_create_def
      verimark_moc_build_enroll_sample_def verimark_moc_build_enroll_commit_def)

text \<open>The progress reports of \<open>n\<close> accepted samples.\<close>

definition progressed :: "nat \<Rightarrow> report list" where
  "progressed n = map (\<lambda>i. Enroll_Progress (min 8 i) None) [1..<Suc n]"

lemma progressed_simps [simp]:
  "progressed 0 = []" "progressed (Suc n) = progressed n @ [Enroll_Progress (min 8 (Suc n)) None]"
  by (simp_all add: progressed_def)

definition at_sample :: "byte \<Rightarrow> nat \<Rightarrow> report list \<Rightarrow> verimark \<Rightarrow> bool" where
  "at_sample cov n rs dev \<longleftrightarrow> enroll_coverage dev = cov \<and> enroll_stage dev = min 8 n \<and> reports dev = rs @ progressed n
     \<and> task_ssm dev = Some Enroll_Task"

lemma at_sample_same: "same_op dev dev' \<Longrightarrow> at_sample cov n rs dev' \<longleftrightarrow> at_sample cov n rs dev"
  by (simp add: at_sample_def same_op_fields)

lemma at_sample_accepted:
  "at_sample cov n rs dev \<Longrightarrow> at_sample (sample_coverage smp) (Suc n) rs (sample_accepted smp dev)"
  by (auto simp: at_sample_def sample_accepted_def)

context app_link begin

lemma enr_next:
  assumes "enr_step P c a = Some (Next_State, a')" "Suc c < 7"
  shows "ssm_run (fpi P) (dev_delay P) 7 (enr_step P) (Suc fuel) c a = ssm_run (fpi P) (dev_delay P) 7 (enr_step P) fuel (Suc c) a'"
  using ssm_run_steps(2) [OF platform_docD(1) [OF docs], where step = "enr_step P" and n = 7, OF assms(1)] assms(2) by simp

text \<open>One press and the sample of it, up to the callback of the sample.\<close>

lemma sample_arrives:
  assumes "captures app" "idle ([0x01] # evs) a (dev, w)" "at_sample cov n rs dev"
    and "app a verimark_moc_build_enroll_sample = (resp, a')" "length resp \<le> 483"
  shows "\<exists>s1 dev2 w2. enr_step P 3 (ctx, dev, w) = Some (Next_State, ctx, s1)
    \<and> enr_step P 4 (ctx, s1) = Some (on_enr_sample_done P ctx (Inr (reply_status resp, resp)) (dev2, w2))
    \<and> idle evs a' (dev2, w2) \<and> at_sample cov n rs dev2"
proof -
  obtain dev1 w1 where 1: "verimark_moc_capture P VERIMARK_ACQ_ENROLL (dev, w) = Some (Inr (), dev1, w1)"
    "idle evs a (dev1, w1)" "same_op dev dev1"
    using capture [OF assms(1,2), of VERIMARK_ACQ_ENROLL] by auto
  obtain dev2 w2 where 2: "verimark_moc_send P verimark_moc_build_enroll_sample 82 (dev1, w1) =
      Some (Inr (reply_status resp, resp), dev2, w2)" "idle evs a' (dev2, w2)"
    using send [OF 1(2) assms(4) enroll_cmd_lengths(3) assms(5), of 82] by auto
  have "at_sample cov n rs dev2"
    using assms(3) at_sample_same [OF 1(3)] at_sample_same [OF moc_send_same [OF 2(1)]] by simp
  moreover have "task_ssm dev1 = Some Enroll_Task"
    using assms(3) same_op_fields [OF 1(3)] by (simp add: at_sample_def)
  ultimately show ?thesis using 1 2 by (auto simp: enr_step_def on_enr_capture_done_def)
qed

lemma sampled_runs:
  assumes "sampled app a0 n cov a" "captures app"
    and "idle (replicate n [0x01] @ evs) a0 (dev, w)" "at_sample 0 0 rs dev"
  shows "\<exists>dev' w'. idle evs a (dev', w') \<and> at_sample cov n rs dev'
    \<and> (\<forall>fuel. ssm_run (fpi P) (dev_delay P) 7 (enr_step P) (fuel + 2 * n) 3 (ctx, dev, w) =
         ssm_run (fpi P) (dev_delay P) 7 (enr_step P) fuel 3 (ctx, dev', w'))"
  using assms(1,3)
proof (induction arbitrary: evs)
  case sampled_none
  then show ?case using assms(4) by auto
next
  case (sampled_more n cov a resp a' smp)
  have "idle (replicate n [0x01] @ [0x01] # evs) a0 (dev, w)"
    using sampled_more.prems by (simp add: replicate_app_Cons_same)
  then obtain dev1 w1 where 1: "idle ([0x01] # evs) a (dev1, w1)" "at_sample cov n rs dev1"
    "\<And>fuel. ssm_run (fpi P) (dev_delay P) 7 (enr_step P) (fuel + 2 * n) 3 (ctx, dev, w) =
       ssm_run (fpi P) (dev_delay P) 7 (enr_step P) fuel 3 (ctx, dev1, w1)"
    using sampled_more.IH by blast
  obtain s2 dev2 w2 where 2: "enr_step P 3 (ctx, dev1, w1) = Some (Next_State, ctx, s2)"
    "enr_step P 4 (ctx, s2) = Some (on_enr_sample_done P ctx (Inr (reply_status resp, resp)) (dev2, w2))"
    "idle evs a' (dev2, w2)" "at_sample cov n rs dev2"
    using sample_arrives [OF assms(2) 1(1,2) sampled_more.hyps(2,3)] by blast
  have 3: "enr_step P 4 (ctx, s2) = Some (Jump_To_State 3, ctx, sample_accepted smp dev2, w2)"
    using 2(2,4) sampled_more.hyps(4-7) accepted_sample_ignores_deadline [OF sampled_more.hyps(5), of dev2]
    by (simp add: at_sample_def)
  have "ssm_run (fpi P) (dev_delay P) 7 (enr_step P) (fuel + 2 * Suc n) 3 (ctx, dev, w) =
      ssm_run (fpi P) (dev_delay P) 7 (enr_step P) fuel 3 (ctx, sample_accepted smp dev2, w2)" for fuel
    using 1(3) [of "Suc (Suc fuel)"] enr_next [OF 2(1), of "Suc fuel"]
      ssm_run_steps(4) [OF platform_docD(1) [OF docs], where step = "enr_step P" and n = 7 and delay = "dev_delay P", OF 3, of fuel]
    by (simp del: ssm_run.simps)
  moreover have "idle evs a' (sample_accepted smp dev2, w2)"
    by (rule local [OF 2(3)]) (simp add: sample_accepted_def)
  ultimately show ?case using at_sample_accepted [OF 2(4)] by blast
qed

text \<open>The whole operation: a press for the duplicate check and one per sample.\<close>

lemma enr_start_idle:
  assumes "idle evs a (dev, w)"
  shows "\<exists>ctx dev' w'. enr_start P (dev, w) = (ctx, dev', w') \<and> idle evs a (dev', w') \<and> at_sample 0 0 (reports dev) dev'"
proof -
  let ?d = "dev\<lparr>enroll_stage := 0, enroll_coverage := 0, enroll_template_id := replicate 16 0,
    task_ssm := Some Enroll_Task\<rparr>"
  have "idle evs a (?d, w)" by (rule local [OF assms]) simp
  from clock [OF this] show ?thesis
    by (auto simp: enr_start_def at_sample_def Let_def split: prod.split)
qed

lemma dedup_runs:
  assumes "captures app" "idle ([0x01] # evs) a (dev, w)" "at_sample 0 0 rs dev"
    and "app a verimark_moc_build_begin_id = (r0, a0)" "length r0 \<le> 483"
    and "app a0 verimark_moc_build_enroll_create = (r1, a1)" "length r1 \<le> 483" "reply_status r1 = 0"
  shows "\<exists>dev' w'. idle evs a1 (dev', w') \<and> at_sample 0 0 rs dev'
    \<and> (\<forall>fuel. ssm_run (fpi P) (dev_delay P) 7 (enr_step P) (Suc (Suc (Suc fuel))) 0 (ctx, dev, w) =
         ssm_run (fpi P) (dev_delay P) 7 (enr_step P) fuel 3 (ctx, dev', w'))"
proof -
  obtain dev1 w1 where cap: "verimark_moc_capture P VERIMARK_ACQ_VERIFY (dev, w) = Some (Inr (), dev1, w1)"
    "idle evs a (dev1, w1)" "same_op dev dev1"
    using capture [OF assms(1,2), of VERIMARK_ACQ_VERIFY] by auto
  then have 1: "enr_step P 0 (ctx, dev, w) = Some (Next_State, ctx, dev1, w1)" "idle evs a (dev1, w1)" "same_op dev dev1"
    using assms(3) same_op_fields [OF cap(3)] by (simp_all add: enr_step_def on_enr_capture_done_def at_sample_def)
  obtain dev2 w2 where 2: "verimark_moc_send P verimark_moc_build_begin_id 177 (dev1, w1) =
      Some (Inr (reply_status r0, r0), dev2, w2)" "idle evs a0 (dev2, w2)"
    using send [OF 1(2) assms(4) enroll_cmd_lengths(1) assms(5), of 177] by auto
  obtain dev3 w3 where 3: "verimark_moc_send P verimark_moc_build_enroll_create 177 (dev2, w2) =
      Some (Inr (0, r1), dev3, w3)" "idle evs a1 (dev3, w3)"
    using send [OF 2(2) assms(6) enroll_cmd_lengths(2) assms(7), of 177] assms(8) by auto
  have step: "enr_step P 1 (ctx, dev1, w1) = Some (Next_State, ctx, dev2, w2)"
    "enr_step P 2 (ctx, dev2, w2) = Some (Next_State, ctx, dev3, w3)"
    using 2(1) 3(1) by (simp_all add: enr_step_def on_enr_dedup_done_def on_enr_create_done_def)
  have "at_sample 0 0 rs dev3"
    using assms(3) at_sample_same [OF 1(3)] at_sample_same [OF moc_send_same [OF 2(1)]]
      at_sample_same [OF moc_send_same [OF 3(1)]] by simp
  moreover have "ssm_run (fpi P) (dev_delay P) 7 (enr_step P) (Suc (Suc (Suc fuel))) 0 (ctx, dev, w) =
      ssm_run (fpi P) (dev_delay P) 7 (enr_step P) fuel 3 (ctx, dev3, w3)" for fuel
    using enr_next [OF 1(1), of "Suc (Suc fuel)"] enr_next [OF step(1), of "Suc fuel"] enr_next [OF step(2), of fuel]
    by (simp add: eval_nat_numeral del: ssm_run.simps)
  ultimately show ?thesis using 3(2) by blast
qed

lemma finish_runs:
  assumes "idle evs a (dev, w)" "finishes app a (enroll_template_id dev) a'" "length (enroll_template_id dev) = 16"
  shows "\<exists>dev' w'. idle evs a' (dev', w') \<and> same_op dev dev'
    \<and> (\<forall>fuel. ssm_run (fpi P) (dev_delay P) 7 (enr_step P) (Suc (Suc fuel)) 5 (ctx, dev, w) = Some (Inr (), ctx, dev', w'))"
proof -
  obtain seed w1 where seed: "verimark_read_machine_seed P w = (seed, w1)" by fastforce
  have idle1: "idle evs a (dev, w1)"
    using files [OF assms(1), of "''/etc/machine-id''"] seed
    by (auto simp: verimark_read_machine_seed_def split: prod.split_asm sum.split_asm)
  obtain sid where sid: "verimark_moc_synth_sid (user_id P) (Some seed) = Inr sid"
    using synth_sid_Inr [OF length_machine_seed [OF seed]] by blast
  have len: "length sid = 28" by (rule synth_sid_length [OF length_machine_seed [OF seed] sid])
  from build_finalize_Inr [OF assms(3) len] obtain cmd where
    cmd: "verimark_moc_build_finalize (Some (enroll_template_id dev)) (Some sid) = Inr cmd" "length cmd = 124" by auto
  from assms(2) len cmd(1) obtain r a1 r' where app: "app a cmd = (r, a1)" "length r \<le> 483" "reply_status r = 0"
    "app a1 verimark_moc_build_enroll_commit = (r', a')" "length r' \<le> 483" "reply_status r' = 0"
    unfolding finishes_def by blast
  obtain dev2 w2 where 2: "verimark_moc_send P cmd 2 (dev, w1) = Some (Inr (0, r), dev2, w2)" "idle evs a1 (dev2, w2)"
    using send [OF idle1 app(1) _ app(2), of 2] cmd(2) app(3) by auto
  obtain dev3 w3 where 3: "verimark_moc_send P verimark_moc_build_enroll_commit 2 (dev2, w2) = Some (Inr (0, r'), dev3, w3)"
    "idle evs a' (dev3, w3)"
    using send [OF 2(2) app(4) enroll_cmd_lengths(4) app(5), of 2] app(6) by auto
  have step: "enr_step P 5 (ctx, dev, w) = Some (Next_State, ctx, dev2, w2)"
    "enr_step P 6 (ctx, dev2, w2) = Some (Mark_Completed, ctx, dev3, w3)"
    using 2(1) 3(1) seed sid cmd(1)
    by (simp_all add: enr_step_def enr_send_finalize_def on_enr_finalize_done_def on_enr_commit_done_def)
  have "ssm_run (fpi P) (dev_delay P) 7 (enr_step P) (Suc (Suc fuel)) 5 (ctx, dev, w) = Some (Inr (), ctx, dev3, w3)" for fuel
    using enr_next [OF step(1), of "Suc fuel"]
      ssm_run_steps(6) [OF platform_docD(1) [OF docs], where step = "enr_step P" and n = 7 and delay = "dev_delay P", OF step(2), of fuel]
    by (simp del: ssm_run.simps)
  moreover have "same_op dev dev3"
    using same_op_trans [OF moc_send_same [OF 2(1)] moc_send_same [OF 3(1)]] by simp
  ultimately show ?thesis using 3(2) by blast
qed

text \<open>The sample that completes the coverage.\<close>

lemma last_sample_runs:
  assumes "captures app" "idle ([0x01] # evs) a (dev, w)" "at_sample cov n rs dev" "cov \<noteq> 0x7f"
    and "app a verimark_moc_build_enroll_sample = (r, a')" "length r \<le> 483" "reply_status r = 0"
    and "verimark_moc_parse_sample (moc_ptr r) = Inr smp" "sample_coverage smp = 0x7f" "sample_template_id smp = tid"
  shows "\<exists>s1 dev' w'. enr_step P 3 (ctx, dev, w) = Some (Next_State, ctx, s1)
    \<and> enr_step P 4 (ctx, s1) = Some (Next_State, ctx, dev', w') \<and> enroll_template_id dev' = tid
    \<and> at_sample 0x7f (Suc n) rs dev' \<and> idle evs a' (dev', w')"
proof -
  obtain s1 dev1 w1 where 1: "enr_step P 3 (ctx, dev, w) = Some (Next_State, ctx, s1)"
    "enr_step P 4 (ctx, s1) = Some (on_enr_sample_done P ctx (Inr (0, r)) (dev1, w1))"
    "idle evs a' (dev1, w1)" "at_sample cov n rs dev1"
    using sample_arrives [OF assms(1-3,5,6), of ctx] assms(7) by auto
  let ?dev = "(sample_accepted smp dev1)\<lparr>enroll_template_id := tid\<rparr>"
  have "on_enr_sample_done P ctx (Inr (0, r)) (dev1, w1) = (Next_State, ctx, ?dev, w1)"
    using assms(4,8-10) 1(4) on_enr_sample_done_cases [of dev1 P ctx 0 r w1, OF _ refl]
    by (auto simp: on_enr_sample_done_def Let_def at_sample_def sample_accepted_def report_def VERIMARK_ENROLL_STAGES_def)
  moreover have "at_sample 0x7f (Suc n) rs ?dev" "idle evs a' (?dev, w1)" "enroll_template_id ?dev = tid"
    using at_sample_accepted [OF 1(4), of smp] local [OF 1(3), of ?dev] assms(9) by (simp_all add: at_sample_def sample_accepted_def)
  ultimately show ?thesis using 1(1,2) by auto
qed

lemma enroll_runs:
  assumes "captures app" "enrolls app a n tid a'" "idle (replicate (n + 2) [0x01] @ evs) a (dev, w)"
  shows "\<exists>dev' w' p. verimark_moc_enroll P gen (2 * n + 8) print (dev, w) = Some (dev', w') \<and> idle evs a' (dev', w')
    \<and> reports dev' = reports dev @ progressed (Suc n) @ [Enroll_Complete (Some p) None]
    \<and> fpi_data p = Some (Print_Data 1 tid zero16 (label_bytes (gen print)))"
proof -
  from assms(2) obtain r0 a0 r1 a1 cov a2 r3 a3 smp where
    dd: "app a verimark_moc_build_begin_id = (r0, a0)" "length r0 \<le> 483"
      "app a0 verimark_moc_build_enroll_create = (r1, a1)" "length r1 \<le> 483" "reply_status r1 = 0"
    and sampled: "sampled app a1 n cov a2"
    and last: "app a2 verimark_moc_build_enroll_sample = (r3, a3)" "length r3 \<le> 483" "reply_status r3 = 0"
      "verimark_moc_parse_sample (moc_ptr r3) = Inr smp" "sample_coverage smp = 0x7f" "sample_template_id smp = tid"
    and fin: "finishes app a3 tid a'" unfolding enrolls_def by blast
  obtain ctx dev0 w0 where 0: "enr_start P (dev, w) = (ctx, dev0, w0)" "idle ([0x01] # replicate n [0x01] @ [0x01] # evs) a (dev0, w0)"
    "at_sample 0 0 (reports dev) dev0"
    using enr_start_idle [OF assms(3)] by (auto simp: replicate_app_Cons_same)
  obtain dev1 w1 where 1: "idle (replicate n [0x01] @ [0x01] # evs) a1 (dev1, w1)" "at_sample 0 0 (reports dev) dev1"
    "\<And>fuel. ssm_run (fpi P) (dev_delay P) 7 (enr_step P) (Suc (Suc (Suc fuel))) 0 (ctx, dev0, w0) =
       ssm_run (fpi P) (dev_delay P) 7 (enr_step P) fuel 3 (ctx, dev1, w1)"
    using dedup_runs [OF assms(1) 0(2,3) dd] by blast
  obtain dev2 w2 where 2: "idle ([0x01] # evs) a2 (dev2, w2)" "at_sample cov n (reports dev) dev2"
    "\<And>fuel. ssm_run (fpi P) (dev_delay P) 7 (enr_step P) (fuel + 2 * n) 3 (ctx, dev1, w1) =
       ssm_run (fpi P) (dev_delay P) 7 (enr_step P) fuel 3 (ctx, dev2, w2)"
    using sampled_runs [OF sampled assms(1) 1(1,2)] by blast
  obtain s3 dev5 w4 where 3: "enr_step P 3 (ctx, dev2, w2) = Some (Next_State, ctx, s3)"
    "enr_step P 4 (ctx, s3) = Some (Next_State, ctx, dev5, w4)" "enroll_template_id dev5 = tid"
    "at_sample 0x7f (Suc n) (reports dev) dev5" "idle evs a3 (dev5, w4)"
    using last_sample_runs [OF assms(1) 2(1,2) sampled_cov [OF sampled] last] by blast
  have "moc_ptr r3 = Some r3" using last(4) by (auto simp: moc_ptr_def verimark_moc_parse_sample_def split: if_splits)
  then have "length tid = 16" using parse_sample_id_length [of r3 smp] last(4,6) by simp
  then obtain dev6 w6 where 6: "idle evs a' (dev6, w6)" "same_op dev5 dev6"
    "ssm_run (fpi P) (dev_delay P) 7 (enr_step P) (Suc (Suc 1)) 5 (ctx, dev5, w4) = Some (Inr (), ctx, dev6, w6)"
    using finish_runs [OF 3(5), of a' ctx] fin 3(3) by auto
  have "ssm_run (fpi P) (dev_delay P) 7 (enr_step P) (2 * n + 8) 0 (ctx, dev0, w0) = Some (Inr (), ctx, dev6, w6)"
    using 1(3) [of "2 * n + 5"] 2(3) [of 5] enr_next [OF 3(1), of 4] enr_next [OF 3(2), of 3] 6(3)
    by (simp add: eval_nat_numeral add.commute del: ssm_run.simps)
  moreover have "enroll_template_id dev6 = tid" "reports dev6 = reports dev @ progressed (Suc n)"
    using same_op_fields [OF 6(2)] 3(3,4) by (simp_all add: at_sample_def del: progressed_simps)
  moreover have "idle evs a' (verimark_enroll_ssm_done gen print (Inr ()) dev6, w6)"
    by (rule local [OF 6(1)]) (simp add: verimark_enroll_ssm_done_def report_def Let_def)
  ultimately show ?thesis
    using 0(1) by (simp add: verimark_moc_enroll_def verimark_enroll_ssm_done_def report_def Let_def
        verimark_build_print_data_def del: ssm_run.simps progressed_simps)
qed

text \<open>While the coverage keeps changing there is no end: no fuel is enough.\<close>

lemma enroll_open_ended:
  assumes "captures app" "app a verimark_moc_build_begin_id = (r0, a0)" "length r0 \<le> 483"
    and "app a0 verimark_moc_build_enroll_create = (r1, a1)" "length r1 \<le> 483" "reply_status r1 = 0"
    and "sampled app a1 n cov a2" "idle (replicate (n + 1) [0x01] @ evs) a (dev, w)"
  shows "verimark_moc_enroll P gen (2 * n) print (dev, w) = None"
proof -
  obtain ctx dev0 w0 where 0: "enr_start P (dev, w) = (ctx, dev0, w0)" "idle ([0x01] # replicate n [0x01] @ evs) a (dev0, w0)"
    "at_sample 0 0 (reports dev) dev0"
    using enr_start_idle [OF assms(8)] by auto
  obtain dev1 w1 where 1: "idle (replicate n [0x01] @ evs) a1 (dev1, w1)" "at_sample 0 0 (reports dev) dev1"
    "\<And>fuel. ssm_run (fpi P) (dev_delay P) 7 (enr_step P) (Suc (Suc (Suc fuel))) 0 (ctx, dev0, w0) =
       ssm_run (fpi P) (dev_delay P) 7 (enr_step P) fuel 3 (ctx, dev1, w1)"
    using dedup_runs [OF assms(1) 0(2,3) assms(2-6)] by blast
  obtain dev2 w2 where
    "ssm_run (fpi P) (dev_delay P) 7 (enr_step P) (2 * n) 3 (ctx, dev1, w1) =
       ssm_run (fpi P) (dev_delay P) 7 (enr_step P) 0 3 (ctx, dev2, w2)"
    using sampled_runs [OF assms(7,1) 1(1,2), of ctx] by (metis add_0)
  then have "ssm_run (fpi P) (dev_delay P) 7 (enr_step P) (2 * n + 3) 0 (ctx, dev0, w0) = None"
    using 1(3) [of "2 * n"] by (simp add: eval_nat_numeral)
  then have "ssm_run (fpi P) (dev_delay P) 7 (enr_step P) (2 * n) 0 (ctx, dev0, w0) = None"
    using ssm_run_mono [of "fpi P" "dev_delay P" 7 "enr_step P" "2 * n" 0 "(ctx, dev0, w0)" _ "2 * n + 3"]
    by (metis le_add1 not_None_eq option.distinct(1))
  then show ?thesis using 0(1) by (simp add: verimark_moc_enroll_def del: ssm_run.simps)
qed

end

subsection \<open>An enrollment against the sample sensor\<close>

definition sample_reply :: "byte \<Rightarrow> bytes" where
  "sample_reply coverage = [0, 0] @ replicate 16 5 @ [0, 0, 0, 0, coverage] @ replicate 20 0"

definition enroll_sensor :: "bytes \<Rightarrow> bytes" where
  "enroll_sensor cmd =
     (if cmd = verimark_moc_build_begin_id then [0x09, 0x05]
      else if cmd = verimark_moc_build_enroll_sample then sample_reply 0x7f
      else frame_sensor cmd)"

lemma length_sample_reply [simp]: "length (sample_reply cov) = 43"
  by (simp add: sample_reply_def)

lemma sample_reply_parse:
  "\<exists>smp. verimark_moc_parse_sample (moc_ptr (sample_reply cov)) = Inr smp \<and> sample_coverage smp = cov
     \<and> sample_template_id smp = replicate 16 5"
  by (simp add: verimark_moc_parse_sample_def moc_ptr_def sample_reply_def rd_u16le_def nth_append)

lemma reply_status_simps [simp]:
  "reply_status (a # b # xs) = u16_of_le a b" "reply_status (sample_reply cov) = 0"
  by (simp_all add: reply_status_def sample_reply_def u16_of_le_def)

text \<open>What an enrollment needs of the answers; the one to the duplicate check does not matter.\<close>

definition enroll_answers :: "(bytes \<Rightarrow> bytes) \<Rightarrow> bool" where
  "enroll_answers f \<longleftrightarrow> captures (answer f) \<and> length (f verimark_moc_build_begin_id) \<le> 483
     \<and> f verimark_moc_build_enroll_sample = sample_reply 0x7f
     \<and> f verimark_moc_build_enroll_create = [0, 0] \<and> f verimark_moc_build_enroll_commit = [0, 0]
     \<and> (\<forall>cmd. length cmd = 124 \<and> hd cmd = 0x96 \<longrightarrow> f cmd = [0, 0])"

lemma enroll_sensor_answers: "enroll_answers enroll_sensor"
  using frame_sensor_captures
  by (auto simp: enroll_answers_def enroll_sensor_def sample_reply_def captures_def frame_sensor_def
      verimark_moc_build_begin_id_def verimark_moc_build_enroll_sample_def verimark_moc_build_enroll_create_def
      verimark_moc_build_enroll_commit_def VERIMARK_CMD_EVENT_READ_def capture_cmd_def)

lemma enroll_answers_enrolls:
  assumes "enroll_answers f"
  shows "enrolls (answer f) () 0 (replicate 16 5) ()"
proof -
  have "length cmd = 124 \<and> hd cmd = 0x96"
    if "length sid = 28" "verimark_moc_build_finalize (Some (replicate 16 5)) (Some sid) = Inr cmd" for sid cmd
  proof -
    from build_finalize_Inr [of "replicate 16 5" sid] that have "length cmd = 124" "cmd ! 0 = WIN_FINALIZE ! 0" by auto
    then show ?thesis by (metis WIN_FINALIZE_def hd_conv_nth list.size(3) nth_Cons_0 zero_neq_numeral)
  qed
  then show ?thesis
    using assms sample_reply_parse [of "0x7f"] sampled_none [of "answer f" "()"]
    by (fastforce simp: enroll_answers_def enrolls_def finishes_def u16_of_le_def)
qed

lemma enroll_run_sample:
  assumes "enroll_answers f" "idle [[0x01], [0x01]] (dev, w)"
  shows "\<exists>dev' w' p. verimark_moc_enroll (answering f) gen 8 print (dev, w) = Some (dev', w')
    \<and> (\<exists>rs. reports dev' = rs @ [Enroll_Complete (Some p) None])
    \<and> fpi_data p = Some (Print_Data 1 (replicate 16 5) zero16 (label_bytes (gen print)))"
proof -
  have "captures (answer f)" "idle (replicate (0 + 2) [0x01] @ []) (dev, w)"
    using assms by (simp_all add: enroll_answers_def numeral_2_eq_2)
  from ans.enroll_runs [OF this(1) enroll_answers_enrolls [OF assms(1)] this(2), of gen print] show ?thesis
    by (fastforce simp del: progressed_simps simp: append_assoc [symmetric] simp del: append_assoc)
qed

subsection \<open>Properties\<close>

lemma enroll_print:
  assumes "platform_doc P T" "verimark_moc_enroll P gen fuel print (dev, w) = Some (dev', w')"
    and "reports dev' = rs @ [Enroll_Complete (Some p) e]"
  shows "e = None \<and> (\<exists>tr tid. moc_path P (dev, w) tr (dev', w') \<and> enrolled P tid (moc_ops tr)
    \<and> p = print\<lparr>fpi_type := FPI_PRINT_RAW, fpi_data := Some (Print_Data 1 tid zero16 (label_bytes (gen print))),
        description := gen print, device_stored := True\<rparr>)"
proof -
  from enroll_outcome [OF assms(1,2)] obtain r dev1 log tr where
    r: "dev' = verimark_enroll_ssm_done gen print r dev1" and tr: "moc_path P (dev, w) tr (dev1, w')"
    "r = Inr () \<longrightarrow> enrolled P (enroll_template_id dev1) (moc_ops tr)" by blast
  have "r = Inr ()"
    using r assms(3) by (cases r) (auto simp: verimark_enroll_ssm_done_def report_def)
  moreover have "moc_path P (dev, w) tr (dev', w')"
    using moc_path.local [OF tr(1), of dev'] r
    by (auto simp: verimark_enroll_ssm_done_def report_def Let_def split: sum.split)
  ultimately show ?thesis
    using r tr(2) assms(3)
    by (intro conjI exI [of _ tr] exI [of _ "enroll_template_id dev1"])
      (auto simp: verimark_enroll_ssm_done_def report_def Let_def verimark_build_print_data_def)
qed

text \<open>C5: An enrollment that completes with a print is committed on the sensor: after the duplicate check
  the sensor accepted the create command, then samples of which the last one completed the
  coverage and named the template, then a finalize command carrying that very id and the SID of
  this user and machine, then the commit, each with status 0 (a reply shorter than two bytes
  counts as status 0). The print is marked as stored on
  the device and carries that id.\<close>

theorem verimark_moc_enroll_sound:
  assumes "platform_doc P T" "verimark_moc_enroll P gen fuel print (dev, w) = Some (dev', w')"
    and "reports dev' = rs @ [Enroll_Complete (Some p) e]"
  shows "e = None \<and> (\<exists>tr tid. moc_path P (dev, w) tr (dev', w') \<and> enrolled P tid (moc_ops tr)
    \<and> p = print\<lparr>fpi_type := FPI_PRINT_RAW, fpi_data := Some (Print_Data 1 tid zero16 (label_bytes (gen print))),
        description := gen print, device_stored := True\<rparr>)"
  by (rule enroll_print [OF assms])

definition blank_print :: fp_print where
  "blank_print = \<lparr>fpi_type = FPI_PRINT_UNDEFINED, fpi_data = None, description = [], device_stored = False\<rparr>"

abbreviation (input) two_presses :: world where
  "two_presses \<equiv> world0\<lparr>w_events := [[0x01], [0x01]]\<rparr>"

lemma verimark_moc_enroll_sound_witness:
  "\<exists>s' tr tid. verimark_moc_enroll (answering enroll_sensor) (\<lambda>_. ''FP1'') 8 blank_print (plain_device, two_presses) = Some s'
    \<and> moc_path (answering enroll_sensor) (plain_device, two_presses) tr s'
    \<and> enrolled (answering enroll_sensor) tid (moc_ops tr)"
proof -
  have "idle [[0x01], [0x01]] (plain_device, two_presses)" by (rule idle_start)
  from enroll_run_sample [OF enroll_sensor_answers this, of "\<lambda>_. ''FP1''" blank_print] obtain dev' w' p rs where run:
    "verimark_moc_enroll (answering enroll_sensor) (\<lambda>_. ''FP1'') 8 blank_print (plain_device, two_presses) = Some (dev', w')"
    "reports dev' = rs @ [Enroll_Complete (Some p) None]" by blast
  from verimark_moc_enroll_sound [OF answering_doc run] run(1) show ?thesis by blast
qed



end
