(* ===== verification/Verify.thy ===== *)
theory Verify
  imports Answering Prints
begin

text \<open>
  Verification and identification (\<open>verimark-moc.c\<close>): at most eight captures, one match command,
  and the verdict, which compares the id the sensor echoes with the ids stored in the prints. Both
  are shown to end, and a positive verdict is traced back to the sensor's reply and to the capture
  before it.
\<close>

subsection \<open>The machine\<close>

definition VERIMARK_VERIFY_MAX_ATTEMPTS :: nat where "VERIMARK_VERIFY_MAX_ATTEMPTS = 8"
definition VERIMARK_VERIFY_OVERALL_TIMEOUT_MS :: nat where "VERIMARK_VERIFY_OVERALL_TIMEOUT_MS = 45000"

abbreviation (input) VFY_CAPTURE :: nat where "VFY_CAPTURE \<equiv> 0"
abbreviation (input) VFY_MATCH :: nat where "VFY_MATCH \<equiv> 1"
abbreviation (input) VFY_N_STATES :: nat where "VFY_N_STATES \<equiv> 2"

text \<open>\<open>VerimarkVerifyCtx\<close>\<close>

record vfy_ctx =
  is_identify :: bool
  attempt :: nat
  vfy_deadline_us :: int

type_synonym 'w vfy_state = "vfy_ctx \<times> verimark \<times> 'w"

text \<open>What \<open>fpi_device_get_verify_data\<close> and \<open>fpi_device_get_identify_data\<close> give; \<open>None\<close> is
  \<open>NULL\<close>.\<close>

record vfy_data =
  verify_data :: "fp_print option"
  identify_data :: "fp_print list option"

definition on_vfy_capture_done :: "'w platform \<Rightarrow> vfy_ctx \<Rightarrow> unit res \<Rightarrow> verimark \<times> 'w \<Rightarrow> ssm_call \<times> 'w vfy_state" where
  "on_vfy_capture_done P ctx r = (\<lambda>(dev, w).
     if task_ssm dev \<noteq> Some Verify_Task then (Mark_Failed No_Machine, ctx, dev, w)
     else case r of
       Inl e \<Rightarrow>
         let ctx = ctx\<lparr>attempt := attempt ctx + 1\<rparr>
         in if VERIMARK_VERIFY_MAX_ATTEMPTS \<le> attempt ctx then (Mark_Failed e, ctx, dev, w)
            else
              let (now, w) = mono_time P w
              in if vfy_deadline_us ctx \<le> now then (Mark_Failed e, ctx, dev, w)
                 else (Jump_To_State VFY_CAPTURE, ctx, dev, w)
     | Inr _ \<Rightarrow> (Next_State, ctx, dev, w))"

definition vfy_found :: "vfy_data \<Rightarrow> bool \<Rightarrow> moc_match \<Rightarrow> fp_print option" where
  "vfy_found D ident m =
     (if \<not> matched m then None
      else if \<not> ident then
        (case verify_data D of
           None \<Rightarrow> None
         | Some print \<Rightarrow> if print_matches_tid print (match_template_id m) then Some print else None)
      else
        (case identify_data D of
           None \<Rightarrow> None
         | Some prints \<Rightarrow> find (\<lambda>print. print_matches_tid print (match_template_id m)) prints))"

definition vfy_verdict :: "bool \<Rightarrow> fp_print option \<Rightarrow> report" where
  "vfy_verdict ident found =
     (if \<not> ident then Verify_Report (if found \<noteq> None then MATCH_SUCCESS else MATCH_FAIL) found None
      else Identify_Report found found None)"

definition on_vfy_match_done :: "vfy_data \<Rightarrow> vfy_ctx \<Rightarrow> moc_reply \<Rightarrow> verimark \<times> 'w \<Rightarrow> ssm_call \<times> 'w vfy_state" where
  "on_vfy_match_done D ctx r = (\<lambda>(dev, w).
     case r of
       Inl e \<Rightarrow> (Mark_Failed e, ctx, dev, w)
     | Inr (status, resp) \<Rightarrow>
         (case verimark_moc_parse_verify (moc_ptr resp) of
            Inl e \<Rightarrow> (Mark_Failed e, ctx, dev, w)
          | Inr m \<Rightarrow>
              (Mark_Completed, ctx, report (vfy_verdict (is_identify ctx) (vfy_found D (is_identify ctx) m)) dev, w)))"

definition vfy_step :: "'w platform \<Rightarrow> vfy_data \<Rightarrow> nat \<Rightarrow> 'w vfy_state \<Rightarrow> (ssm_call \<times> 'w vfy_state) option" where
  "vfy_step P D c = (\<lambda>(ctx, s).
     if c = VFY_CAPTURE then
       map_option (\<lambda>(r, s). on_vfy_capture_done P ctx r s) (verimark_moc_capture P VERIMARK_ACQ_VERIFY s)
     else if c = VFY_MATCH then
       map_option (\<lambda>(r, s). on_vfy_match_done D ctx r s) (verimark_moc_send P verimark_moc_build_begin_id 177 s)
     else Some (Mark_Failed Assert_Not_Reached, ctx, s))"

definition is_retry :: "gerror \<Rightarrow> bool" where
  "is_retry e = (case e of Device_Retry _ \<Rightarrow> True | _ \<Rightarrow> False)"

text \<open>\<open>g_steal_pointer (&error)\<close> leaves \<open>NULL\<close> for the completion.\<close>

definition verimark_verify_ssm_done :: "bool \<Rightarrow> unit res \<Rightarrow> verimark \<Rightarrow> verimark" where
  "verimark_verify_ssm_done ident r dev =
     (let dev = dev\<lparr>task_ssm := None\<rparr>;
          (dev, err) =
        (case r of
           Inr _ \<Rightarrow> (dev, None)
         | Inl e \<Rightarrow>
             if is_retry e
             then (report (if \<not> ident then Verify_Report MATCH_ERROR None (Some e) else Identify_Report None None (Some e)) dev, None)
             else (dev, Some e))
      in report (if \<not> ident then Verify_Complete err else Identify_Complete err) dev)"

text \<open>A state is entered at most nine times: eight captures and the match.\<close>

definition vfy_fuel :: nat where
  "vfy_fuel = VERIMARK_VERIFY_MAX_ATTEMPTS + 1"

definition verimark_moc_verify_identify_start :: "'w platform \<Rightarrow> vfy_data \<Rightarrow> bool \<Rightarrow> verimark \<times> 'w \<Rightarrow> (verimark \<times> 'w) option" where
  "verimark_moc_verify_identify_start P D ident = (\<lambda>(dev, w).
     let (now, w) = mono_time P w;
         ctx = \<lparr>is_identify = ident, attempt = 0,
                vfy_deadline_us = now + int VERIMARK_VERIFY_OVERALL_TIMEOUT_MS * 1000\<rparr>
     in map_option (\<lambda>(r, ctx, dev, w). (verimark_verify_ssm_done (is_identify ctx) r dev, w))
          (ssm_run (fpi P) (dev_delay P) VFY_N_STATES (vfy_step P D) vfy_fuel VFY_CAPTURE
            (ctx, dev\<lparr>task_ssm := Some Verify_Task\<rparr>, w)))"

definition verimark_moc_verify :: "'w platform \<Rightarrow> vfy_data \<Rightarrow> verimark \<times> 'w \<Rightarrow> (verimark \<times> 'w) option" where
  "verimark_moc_verify P D = verimark_moc_verify_identify_start P D False"

definition verimark_moc_identify :: "'w platform \<Rightarrow> vfy_data \<Rightarrow> verimark \<times> 'w \<Rightarrow> (verimark \<times> 'w) option" where
  "verimark_moc_identify P D = verimark_moc_verify_identify_start P D True"

subsection \<open>What has happened in each state\<close>

text \<open>Nothing but captures; before the match, the last one succeeded.\<close>

definition vfy_inv :: "'w platform \<Rightarrow> ('w \<Rightarrow> int) \<Rightarrow> bool \<Rightarrow> verimark \<times> 'w \<Rightarrow> nat \<Rightarrow> 'w vfy_state \<Rightarrow> bool" where
  "vfy_inv P T ident s0 c = (\<lambda>(ctx, s). platform_doc P T \<and> is_identify ctx = ident \<and> attempt ctx < 8
     \<and> task_ssm (fst s0) = Some Verify_Task \<and> same_op (fst s0) (fst s)
     \<and> (\<exists>tr0 tr. moc_path P s0 (tr0 @ tr) s \<and> moc_ops (tr0 @ tr) = [] \<and> (c = VFY_MATCH \<longrightarrow> captured VERIMARK_ACQ_VERIFY tr)))"

definition vfy_answered :: "vfy_data \<Rightarrow> bool \<Rightarrow> moc_event list \<Rightarrow> report \<Rightarrow> bool" where
  "vfy_answered D ident tr rep \<longleftrightarrow> (\<exists>tr0 cap st resp m. tr = tr0 @ cap @ [Replied verimark_moc_build_begin_id st resp]
     \<and> captured VERIMARK_ACQ_VERIFY cap \<and> moc_ops (tr0 @ cap) = []
     \<and> verimark_moc_parse_verify (Some resp) = Inr m \<and> rep = vfy_verdict ident (vfy_found D ident m))"

definition vfy_post :: "'w platform \<Rightarrow> vfy_data \<Rightarrow> bool \<Rightarrow> verimark \<times> 'w \<Rightarrow> unit res \<Rightarrow> 'w vfy_state \<Rightarrow> bool" where
  "vfy_post P D ident s0 r = (\<lambda>(ctx, s). is_identify ctx = ident \<and> (\<exists>tr. moc_path P s0 tr s \<and>
     (case r of
        Inl e \<Rightarrow> same_op (fst s0) (fst s)
      | Inr _ \<Rightarrow> \<exists>rep dev1. fst s = report rep dev1 \<and> same_op (fst s0) dev1 \<and> vfy_answered D ident tr rep)))"

definition vfy_measure :: "nat \<Rightarrow> 'w vfy_state \<Rightarrow> nat" where
  "vfy_measure c = (\<lambda>(ctx, s). if c = VFY_CAPTURE then 8 - attempt ctx else 0)"

abbreviation vfy_allows :: "'w platform \<Rightarrow> ('w \<Rightarrow> int) \<Rightarrow> vfy_data \<Rightarrow> bool \<Rightarrow> verimark \<times> 'w \<Rightarrow> nat \<Rightarrow> ssm_call \<times> 'w vfy_state \<Rightarrow> bool" where
  "vfy_allows P T D ident s0 \<equiv> ssm_allows VFY_N_STATES (dev_delay P) (vfy_inv P T ident s0) (vfy_post P D ident s0)"

lemma vfy_capture_ok:
  assumes "vfy_inv P T ident s0 VFY_CAPTURE (ctx, s)" "verimark_moc_capture P VERIMARK_ACQ_VERIFY s = Some (r, s1)"
  shows "vfy_allows P T D ident s0 VFY_CAPTURE (on_vfy_capture_done P ctx r s1)"
    and "on_vfy_capture_done P ctx r s1 = (Jump_To_State t, ctx', s') \<Longrightarrow> attempt ctx' = attempt ctx + 1"
proof -
  obtain dev w dev1 w1 where s: "s = (dev, w)" "s1 = (dev1, w1)" by fastforce
  from assms(1) obtain tr where h: "platform_doc P T" "is_identify ctx = ident" "attempt ctx < 8"
    "same_op (fst s0) dev" "moc_path P s0 tr (dev, w)" "moc_ops tr = []" "task_ssm (fst s0) = Some Verify_Task"
    by (fastforce simp: vfy_inv_def s)
  from capture_path [OF h(1) assms(2) [unfolded s]] obtain tr2 where
    tr2: "moc_path P (dev, w) tr2 (dev1, w1)" "moc_ops tr2 = []" "r = Inr () \<longrightarrow> captured VERIMARK_ACQ_VERIFY tr2" by blast
  have p: "moc_path P s0 (tr @ tr2) (dev1, w1)" by (rule moc_path_trans [OF tr2(1) h(5)])
  have rep: "same_op (fst s0) dev1" by (rule same_op_trans [OF h(4) capture_same [OF h(1) assms(2) [unfolded s]]])
  have task: "task_ssm dev1 = Some Verify_Task" using same_op_fields [OF rep] h(7) by simp
  obtain now w2 where clk: "mono_time P w1 = (now, w2)" by fastforce
  have p2: "moc_path P s0 ((tr @ tr2) @ []) (dev1, w2)" using moc_path.clock [OF p clk] by simp
  have ops: "moc_ops ((tr @ tr2) @ []) = []" using h(6) tr2(2) by simp
  show "vfy_allows P T D ident s0 VFY_CAPTURE (on_vfy_capture_done P ctx r s1)"
  proof (cases r)
    case (Inl e)
    have "vfy_inv P T ident s0 VFY_CAPTURE (ctx\<lparr>attempt := attempt ctx + 1\<rparr>, dev1, w2)" if "attempt ctx + 1 < 8"
      using h(1,2,7) that rep exI [of "\<lambda>b. moc_path P s0 ((tr @ tr2) @ b) (dev1, w2) \<and> moc_ops ((tr @ tr2) @ b) = []" "[]"] p2 ops
      by (auto simp: vfy_inv_def)
    then show ?thesis
      using Inl h(2) rep p p2 clk task
      by (auto simp: on_vfy_capture_done_def s(2) Let_def VERIMARK_VERIFY_MAX_ATTEMPTS_def ssm_allows_def vfy_post_def)
  next
    case (Inr u)
    have "vfy_inv P T ident s0 VFY_MATCH (ctx, dev1, w1)"
      using h(1-3,7) rep p h(6) tr2(2,3) Inr by (auto simp: vfy_inv_def)
    then show ?thesis using Inr task by (simp add: on_vfy_capture_done_def s(2) ssm_allows_def)
  qed
  show "on_vfy_capture_done P ctx r s1 = (Jump_To_State t, ctx', s') \<Longrightarrow> attempt ctx' = attempt ctx + 1"
    by (auto simp: on_vfy_capture_done_def s(2) Let_def split: sum.split_asm if_split_asm prod.split_asm)
qed

lemma parse_verify_ptr: "verimark_moc_parse_verify (moc_ptr resp) = Inr m \<Longrightarrow> verimark_moc_parse_verify (Some resp) = Inr m"
  by (auto simp: moc_ptr_def verimark_moc_parse_verify_def split: if_split_asm)

lemma vfy_match_ok:
  assumes "vfy_inv P T ident s0 VFY_MATCH (ctx, s)" "verimark_moc_send P verimark_moc_build_begin_id 177 s = Some (r, s1)"
  shows "vfy_allows P T D ident s0 VFY_MATCH (on_vfy_match_done D ctx r s1)"
proof -
  obtain dev w dev1 w1 where s: "s = (dev, w)" "s1 = (dev1, w1)" by fastforce
  from assms(1) obtain tr0 cap where h: "platform_doc P T" "is_identify ctx = ident" "same_op (fst s0) dev"
    "moc_path P s0 (tr0 @ cap) (dev, w)" "moc_ops (tr0 @ cap) = []" "captured VERIMARK_ACQ_VERIFY cap"
    by (auto simp: vfy_inv_def s)
  have rep: "same_op (fst s0) dev1" by (rule same_op_trans [OF h(3) moc_send_same [OF assms(2) [unfolded s]]])
  have p: "moc_path P s0 ((tr0 @ cap) @ (case r of Inl e \<Rightarrow> [] | Inr (st, resp) \<Rightarrow> [Replied verimark_moc_build_begin_id st resp])) (dev1, w1)"
    by (rule moc_path_trans [OF path_send [OF assms(2) [unfolded s]] h(4)])
  have fail: "vfy_allows P T D ident s0 VFY_MATCH (Mark_Failed e, ctx, dev1, w1)" for e
    using p h(2) rep by (auto simp: ssm_allows_def vfy_post_def)
  show ?thesis
  proof (cases r)
    case (Inl e)
    then show ?thesis using fail by (simp add: on_vfy_match_done_def s(2))
  next
    case (Inr q)
    obtain st resp where q: "q = (st, resp)" by fastforce
    show ?thesis
    proof (cases "verimark_moc_parse_verify (moc_ptr resp)")
      case (Inl e)
      then show ?thesis using fail Inr by (simp add: on_vfy_match_done_def s(2) q)
    next
      case m: (Inr m)
      let ?tr = "tr0 @ cap @ [Replied verimark_moc_build_begin_id st resp]"
      let ?rep = "vfy_verdict ident (vfy_found D ident m)"
      have path: "moc_path P s0 ?tr (report ?rep dev1, w1)"
        using moc_path.local [of P s0 ?tr dev1 w1 "report ?rep dev1"] p Inr q by (simp add: report_def)
      have "vfy_answered D ident ?tr ?rep"
        unfolding vfy_answered_def using h(5,6) parse_verify_ptr [OF m]
        by (intro exI [of _ tr0] exI [of _ cap] exI [of _ st] exI [of _ resp] exI [of _ m]) simp
      with path show ?thesis
        using m Inr h(2) rep by (auto simp: on_vfy_match_done_def s(2) q ssm_allows_def vfy_post_def)
    qed
  qed
qed

lemma vfy_step_ok:
  assumes "c < VFY_N_STATES" "vfy_inv P T ident s0 c s" "vfy_step P D c s = Some q"
  shows "vfy_allows P T D ident s0 c q"
    and "q = (Jump_To_State t, s') \<Longrightarrow> vfy_measure t s' < vfy_measure c s"
    and "q \<noteq> (Jump_To_State_Delayed t ms, s')"
proof -
  obtain ctx s1 where s: "s = (ctx, s1)" by (cases s)
  from assms(1) consider (cap) "c = VFY_CAPTURE" | (match) "c = VFY_MATCH" by linarith
  then have all: "vfy_allows P T D ident s0 c q \<and> (\<forall>t s'. q = (Jump_To_State t, s') \<longrightarrow> c = VFY_CAPTURE
      \<and> attempt (fst s') = attempt ctx + 1) \<and> (\<forall>t ms s'. q \<noteq> (Jump_To_State_Delayed t ms, s'))"
  proof cases
    case cap
    then obtain r s2 where r: "verimark_moc_capture P VERIMARK_ACQ_VERIFY s1 = Some (r, s2)" "q = on_vfy_capture_done P ctx r s2"
      using assms(3) by (auto simp: vfy_step_def s)
    have "q \<noteq> (Jump_To_State_Delayed t ms, s')" for t ms s'
      using r(2) by (cases s2) (auto simp: on_vfy_capture_done_def Let_def split: sum.split_asm if_split_asm prod.split_asm)
    then show ?thesis
      using vfy_capture_ok [OF assms(2) [unfolded cap s] r(1)] r(2) cap by auto
  next
    case match
    then obtain r s2 where r: "verimark_moc_send P verimark_moc_build_begin_id 177 s1 = Some (r, s2)" "q = on_vfy_match_done D ctx r s2"
      using assms(3) by (auto simp: vfy_step_def s)
    have "q \<noteq> (Jump_To_State t, s')" "q \<noteq> (Jump_To_State_Delayed t ms, s')" for t ms s'
      using r(2) by (auto simp: on_vfy_match_done_def split: sum.split_asm prod.split_asm)
    then show ?thesis
      using vfy_match_ok [OF assms(2) [unfolded match s] r(1)] r(2) match by auto
  qed
  then show "vfy_allows P T D ident s0 c q" "q \<noteq> (Jump_To_State_Delayed t ms, s')" by (simp, metis)
  have "attempt ctx < 8" using assms(2) by (simp add: vfy_inv_def s)
  then show "q = (Jump_To_State t, s') \<Longrightarrow> vfy_measure t s' < vfy_measure c s"
    using all by (cases s') (auto simp: vfy_measure_def s)
qed

lemma vfy_step_defined:
  assumes "c < VFY_N_STATES" "vfy_inv P T ident s0 c s"
  shows "vfy_step P D c s \<noteq> None"
proof -
  obtain ctx dev w where s: "s = (ctx, dev, w)" by (metis surj_pair)
  have doc: "platform_doc P T" using assms(2) by (simp add: vfy_inv_def s)
  show ?thesis
    using capture_total [OF doc, of VERIMARK_ACQ_VERIFY "(dev, w)"]
      moc_send_total [OF doc, of verimark_moc_build_begin_id 177 dev w]
    by (auto simp: vfy_step_def s) (metis surj_pair)+
qed

interpretation verify: ssm_measured VFY_N_STATES "vfy_step P D" "dev_delay P" "vfy_inv P T ident s0" "vfy_post P D ident s0" vfy_measure
  for P :: "'w platform" and D T ident s0
proof (unfold_locales, goal_cases)
  case (1 c s s')
  then show ?case using vfy_step_ok(1) [OF 1(1,2,3)] by (simp add: ssm_allows_def)
next
  case (2 c s t s')
  then show ?case using vfy_step_ok(1) [OF 2(1,2,3)] by (simp add: ssm_allows_def)
next
  case (3 c s t ms s')
  then show ?case using vfy_step_ok(3) [OF 3(1,2,3)] by blast
next
  case (4 c s s')
  then show ?case using vfy_step_ok(1) [OF 4(1,2,3)] by (simp add: ssm_allows_def)
next
  case (5 c s e s')
  then show ?case using vfy_step_ok(1) [OF 5(1,2,3)] by (simp add: ssm_allows_def)
next
  case (6 c s)
  then show ?case using vfy_step_defined by blast
next
  case (7 c s s')
  then have "attempt (fst s) < 8" "c = 0" by (auto simp: vfy_inv_def)
  then show ?case by (cases s; cases s') (simp add: vfy_measure_def)
next
  case (8 c s t s')
  then show ?case using vfy_step_ok(2) [OF 8(1,2,3)] by blast
next
  case (9 c s t ms s')
  then show ?case using vfy_step_ok(3) [OF 9(1,2,3)] by blast
qed

subsection \<open>Outcome\<close>

lemma verify_outcome:
  assumes "platform_doc P T"
  shows "\<exists>r dev1 w' tr. verimark_moc_verify_identify_start P D ident (dev, w) = Some (verimark_verify_ssm_done ident r dev1, w')
    \<and> moc_path P (dev, w) tr (dev1, w')
    \<and> (case r of
         Inl e \<Rightarrow> same_op (dev\<lparr>task_ssm := Some Verify_Task\<rparr>) dev1
       | Inr _ \<Rightarrow> \<exists>rep dev2. dev1 = report rep dev2 \<and> same_op (dev\<lparr>task_ssm := Some Verify_Task\<rparr>) dev2
           \<and> vfy_answered D ident tr rep)"
proof -
  obtain now w1 where clk: "mono_time P w = (now, w1)" by fastforce
  let ?ctx = "\<lparr>is_identify = ident, attempt = 0, vfy_deadline_us = now + int VERIMARK_VERIFY_OVERALL_TIMEOUT_MS * 1000\<rparr>"
  let ?dev = "dev\<lparr>task_ssm := Some Verify_Task\<rparr>"
  have "moc_path P (?dev, w) [] (?dev, w1)" by (rule moc_path.clock [OF moc_path.start clk])
  then have inv: "vfy_inv P T ident (?dev, w) VFY_CAPTURE (?ctx, ?dev, w1)"
    using assms by (auto simp: vfy_inv_def intro!: exI [of _ "[]"])
  have "vfy_measure VFY_CAPTURE (?ctx, ?dev, w1) < vfy_fuel"
    by (simp add: vfy_measure_def vfy_fuel_def VERIMARK_VERIFY_MAX_ATTEMPTS_def)
  from verify.run_total [OF platform_docD(1) [OF assms] _ inv this, of D] obtain r ctx dev1 w' where
    run: "ssm_run (fpi P) (dev_delay P) VFY_N_STATES (vfy_step P D) vfy_fuel VFY_CAPTURE (?ctx, ?dev, w1) = Some (r, ctx, dev1, w')"
    and post: "vfy_post P D ident (?dev, w) r (ctx, dev1, w')" by auto
  from post obtain tr where tr: "is_identify ctx = ident" "moc_path P (?dev, w) tr (dev1, w')"
    "case r of Inl e \<Rightarrow> same_op ?dev dev1
       | Inr _ \<Rightarrow> \<exists>rep dev2. dev1 = report rep dev2 \<and> same_op ?dev dev2 \<and> vfy_answered D ident tr rep"
    unfolding vfy_post_def prod.case fst_conv by blast
  have "moc_path P (dev, w) [] (?dev, w)" by (rule moc_path.local [OF moc_path.start]) simp_all
  from moc_path_trans [OF tr(2) this] have "moc_path P (dev, w) tr (dev1, w')" by simp
  with run tr(1,3) show ?thesis
    by (intro exI [of _ r] exI [of _ dev1] exI [of _ w'] exI [of _ tr])
      (simp add: verimark_moc_verify_identify_start_def clk del: ssm_run.simps)
qed

text \<open>The id in a reply that says ``match'': status 0, then 16 bytes.\<close>

definition echoed :: "bytes \<Rightarrow> bytes \<Rightarrow> bool" where
  "echoed resp tid \<longleftrightarrow> length tid = 16 \<and> take 18 resp = [0, 0] @ tid"

lemma u16_of_le_zero [simp]: "u16_of_le a b = 0 \<longleftrightarrow> a = 0 \<and> b = 0"
proof
  assume "u16_of_le a b = 0"
  then have "u16_lo 0 = a" "u16_hi 0 = b" by (metis u16_lo_of_le, metis u16_hi_of_le)
  then show "a = 0 \<and> b = 0" by (simp add: u16_lo_def u16_hi_def)
qed (simp add: u16_of_le_def)

lemma parse_verify_match:
  assumes "verimark_moc_parse_verify (Some resp) = Inr m"
  shows "matched m \<and> match_template_id m = tid \<longleftrightarrow> matched m \<and> echoed resp tid"
    and "matched m \<Longrightarrow> \<exists>tid. echoed resp tid"
proof -
  have two: "2 \<le> length resp" using assms by (auto simp: parse_verify_cases split: if_split_asm)
  then obtain a b xs where resp: "resp = a # b # xs" by (cases resp; cases "tl resp") auto
  have st: "matched m \<longleftrightarrow> a = 0 \<and> b = 0" "matched m \<Longrightarrow> 16 \<le> length xs \<and> match_template_id m = take 16 xs"
    using assms by (auto simp: parse_verify_cases resp Let_def split: if_split_asm)
  show "matched m \<and> match_template_id m = tid \<longleftrightarrow> matched m \<and> echoed resp tid"
    using st by (auto simp: echoed_def resp)
  show "matched m \<Longrightarrow> \<exists>tid. echoed resp tid"
    using st by (auto simp: echoed_def resp)
qed

lemma echoed_parse:
  "echoed resp tid \<Longrightarrow> verimark_moc_parse_verify (moc_ptr resp) = Inr \<lparr>match_status = 0, matched = True, match_template_id = tid\<rparr>"
proof -
  assume e: "echoed resp tid"
  then have len: "18 \<le> length resp" by (auto simp: echoed_def dest: arg_cong [of _ _ length])
  have "take 2 (take 18 resp) = [0, 0]" "drop 2 (take 18 resp) = tid" using e by (auto simp: echoed_def)
  then have "take 2 resp = [0, 0]" "take 16 (drop 2 resp) = tid" by (simp_all add: drop_take)
  moreover obtain a b rest where "resp = a # b # rest" using len by (cases resp; cases "tl resp") auto
  ultimately show ?thesis using len by (auto simp: verimark_moc_parse_verify_def moc_ptr_def rd_u16le_def)
qed

lemma matches_length: "print_matches_tid p tid \<Longrightarrow> length tid = 16"
  by (auto simp: print_matches_tid_iff)

lemma vfy_found_verify:
  assumes "verimark_moc_parse_verify (Some resp) = Inr m"
  shows "vfy_found D False m = Some p \<longleftrightarrow> verify_data D = Some p \<and> (\<exists>tid. matched m \<and> echoed resp tid \<and> print_matches_tid p tid)"
proof -
  have "matched m \<and> print_matches_tid q (match_template_id m) \<longleftrightarrow> (\<exists>tid. matched m \<and> echoed resp tid \<and> print_matches_tid q tid)" for q
    using parse_verify_match(1) [OF assms] by metis
  then show ?thesis by (cases "verify_data D") (auto simp: vfy_found_def)
qed

lemma echoed_matched:
  assumes "verimark_moc_parse_verify (Some resp) = Inr m" "echoed resp tid"
  shows "matched m"
proof -
  obtain a b xs where resp: "resp = a # b # xs" "16 \<le> length xs" "a = 0" "b = 0"
    using assms(2) by (cases resp; cases "tl resp") (auto simp: echoed_def split: if_split_asm)
  then show ?thesis using assms(1) by (auto simp: parse_verify_cases Let_def split: if_split_asm)
qed

lemma vfy_found_identify:
  assumes "verimark_moc_parse_verify (Some resp) = Inr m"
  shows "vfy_found D True m = Some p \<Longrightarrow> \<exists>before after tid. identify_data D = Some (before @ p # after) \<and> echoed resp tid
      \<and> print_matches_tid p tid \<and> (\<forall>p' \<in> set before. \<not> print_matches_tid p' tid)"
    and "vfy_found D True m = None \<Longrightarrow> echoed resp tid \<Longrightarrow> identify_data D = Some ps \<Longrightarrow> p \<in> set ps \<Longrightarrow> \<not> print_matches_tid p tid"
proof -
  assume f: "vfy_found D True m = Some p"
  then obtain ps where ps: "matched m" "identify_data D = Some ps" "find (\<lambda>q. print_matches_tid q (match_template_id m)) ps = Some p"
    by (auto simp: vfy_found_def split: if_split_asm option.split_asm)
  have e: "echoed resp (match_template_id m)" using parse_verify_match(1) [OF assms] ps(1) by blast
  from ps(3) obtain i where i: "i < length ps" "print_matches_tid (ps ! i) (match_template_id m)" "p = ps ! i"
    "\<forall>j<i. \<not> print_matches_tid (ps ! j) (match_template_id m)" by (auto simp: find_Some_iff)
  then have "ps = take i ps @ p # drop (Suc i) ps" "\<forall>q \<in> set (take i ps). \<not> print_matches_tid q (match_template_id m)"
    by (auto simp: id_take_nth_drop [symmetric] in_set_conv_nth)
  with i ps(2) e show "\<exists>before after tid. identify_data D = Some (before @ p # after) \<and> echoed resp tid
      \<and> print_matches_tid p tid \<and> (\<forall>p' \<in> set before. \<not> print_matches_tid p' tid)" by metis
next
  assume f: "vfy_found D True m = None" "echoed resp tid" "identify_data D = Some ps" "p \<in> set ps"
  have "matched m" by (rule echoed_matched [OF assms f(2)])
  moreover have "match_template_id m = tid" using parse_verify_match(1) [OF assms] calculation f(2) by blast
  ultimately show "\<not> print_matches_tid p tid" using f by (auto simp: vfy_found_def find_None_iff)
qed

text \<open>The reports of one verification or identification.\<close>

definition verdict_log :: "bool \<Rightarrow> report list \<Rightarrow> bool" where
  "verdict_log ident rs \<longleftrightarrow>
     (\<exists>found. rs = [vfy_verdict ident found, if ident then Identify_Complete None else Verify_Complete None])
   \<or> (\<exists>e. is_retry e \<and> rs = (if ident then [Identify_Report None None (Some e), Identify_Complete None]
                              else [Verify_Report MATCH_ERROR None (Some e), Verify_Complete None]))
   \<or> (\<exists>e. \<not> is_retry e \<and> rs = [if ident then Identify_Complete (Some e) else Verify_Complete (Some e)])"

lemma same_op_local: "same_op dev dev' \<Longrightarrow> same_op (dev\<lparr>task_ssm := m, reports := rs\<rparr>) (dev'\<lparr>task_ssm := m, reports := rs\<rparr>)"
  by (cases dev; cases dev') (simp add: same_op_def)

lemma verify_log:
  assumes "platform_doc P T"
  shows "\<exists>dev' w' rs tr. verimark_moc_verify_identify_start P D ident (dev, w) = Some (dev', w')
    \<and> reports dev' = reports dev @ rs \<and> same_op (dev\<lparr>task_ssm := None, reports := reports dev @ rs\<rparr>) dev'
    \<and> verdict_log ident rs \<and> moc_path P (dev, w) tr (dev', w')
    \<and> (\<forall>rep. rs = [rep, if ident then Identify_Complete None else Verify_Complete None] \<and> \<not> (\<exists>e. rep =
        (if ident then Identify_Report None None (Some e) else Verify_Report MATCH_ERROR None (Some e)))
        \<longrightarrow> vfy_answered D ident tr rep)"
proof -
  from verify_outcome [OF assms, of D ident dev w] obtain r dev1 w' tr where
    run: "verimark_moc_verify_identify_start P D ident (dev, w) = Some (verimark_verify_ssm_done ident r dev1, w')"
    and tr: "moc_path P (dev, w) tr (dev1, w')"
    and r: "case r of Inl e \<Rightarrow> same_op (dev\<lparr>task_ssm := Some Verify_Task\<rparr>) dev1
       | Inr _ \<Rightarrow> \<exists>rep dev2. dev1 = report rep dev2 \<and> same_op (dev\<lparr>task_ssm := Some Verify_Task\<rparr>) dev2 \<and> vfy_answered D ident tr rep" by blast
  have path: "moc_path P (dev, w) tr (verimark_verify_ssm_done ident r dev1, w')"
    by (rule moc_path.local [OF tr]) (auto simp: verimark_verify_ssm_done_def report_def Let_def split: sum.split)
  show ?thesis
  proof (cases r)
    case (Inl e)
    then have same: "same_op (dev\<lparr>task_ssm := Some Verify_Task\<rparr>) dev1" using r by simp
    then show ?thesis
      using run path Inl same_op_local [OF same] same_op_fields [OF same]
      by (auto simp: verimark_verify_ssm_done_def report_def verdict_log_def Let_def split: if_split_asm)
  next
    case (Inr u)
    then obtain rep dev2 where rep: "dev1 = report rep dev2" "same_op (dev\<lparr>task_ssm := Some Verify_Task\<rparr>) dev2" "vfy_answered D ident tr rep" using r by auto
    obtain found where "rep = vfy_verdict ident found" using rep(3) by (auto simp: vfy_answered_def)
    then show ?thesis
      using run path rep Inr same_op_local [OF rep(2)] same_op_fields [OF rep(2)]
      by (intro exI [of _ "verimark_verify_ssm_done ident r dev1"] exI [of _ w']
          exI [of _ "[rep, if ident then Identify_Complete None else Verify_Complete None]"] exI [of _ tr])
        (auto simp: verimark_verify_ssm_done_def report_def verdict_log_def Let_def)
  qed
qed

subsection \<open>With a sensor that cooperates\<close>

lemma begin_id_length: "length verimark_moc_build_begin_id \<le> 32739"
  by (simp add: verimark_moc_build_begin_id_def)

context app_link begin

text \<open>One press, one frame, one verdict.\<close>

lemma verify_runs:
  assumes "captures app" "idle ([0x01] # evs) a (dev, w)"
    and "app a verimark_moc_build_begin_id = (resp, a')" "length resp \<le> 483"
    and "verimark_moc_parse_verify (moc_ptr resp) = Inr m"
  shows "\<exists>dev' w'. verimark_moc_verify_identify_start P D ident (dev, w) = Some (dev', w') \<and> idle evs a' (dev', w')
    \<and> reports dev' = reports dev @ [vfy_verdict ident (vfy_found D ident m), if ident then Identify_Complete None else Verify_Complete None]"
proof -
  obtain now w0 where clk: "mono_time P w = (now, w0)" by fastforce
  let ?dev = "dev\<lparr>task_ssm := Some Verify_Task\<rparr>"
  have idle0: "idle ([0x01] # evs) a (?dev, w0)" by (rule local) (use clock [OF assms(2)] clk in simp_all)
  let ?ctx = "\<lparr>is_identify = ident, attempt = 0, vfy_deadline_us = now + 45000000\<rparr>"
  obtain dev1 w1 where cap: "verimark_moc_capture P VERIMARK_ACQ_VERIFY (?dev, w0) = Some (Inr (), dev1, w1)" "idle evs a (dev1, w1)"
    "same_op ?dev dev1"
    using capture [OF assms(1) idle0, of VERIMARK_ACQ_VERIFY] by auto
  then have 1: "vfy_step P D 0 (?ctx, ?dev, w0) = Some (Next_State, ?ctx, dev1, w1)" "idle evs a (dev1, w1)" "same_op ?dev dev1"
    using same_op_fields [OF cap(3)] by (simp_all add: vfy_step_def on_vfy_capture_done_def)
  let ?rep = "vfy_verdict ident (vfy_found D ident m)"
  obtain dev2 w2 where 2: "verimark_moc_send P verimark_moc_build_begin_id 177 (dev1, w1) = Some (Inr (reply_status resp, resp), dev2, w2)"
    "idle evs a' (dev2, w2)"
    using send [OF 1(2) assms(3) begin_id_length assms(4), of 177] by auto
  have 3: "vfy_step P D (Suc 0) (?ctx, dev1, w1) = Some (Mark_Completed, ?ctx, report ?rep dev2, w2)"
    using 2(1) assms(5) by (simp add: vfy_step_def on_vfy_match_done_def)
  note step = ssm_run_steps [OF platform_docD(1) [OF docs], where step = "vfy_step P D" and n = 2 and delay = "dev_delay P"]
  have "vfy_fuel = Suc (Suc 7)" by (simp add: vfy_fuel_def VERIMARK_VERIFY_MAX_ATTEMPTS_def)
  then have run: "ssm_run (fpi P) (dev_delay P) 2 (vfy_step P D) vfy_fuel 0 (?ctx, ?dev, w0) = Some (Inr (), ?ctx, report ?rep dev2, w2)"
    using step(2) [OF 1(1), of "Suc 7"] step(6) [OF 3, of 7] by (simp only: One_nat_def Suc_1 lessI)
  let ?c = "if ident then Identify_Complete None else Verify_Complete None"
  have "verimark_moc_verify_identify_start P D ident (dev, w) = Some (report ?c ((report ?rep dev2)\<lparr>task_ssm := None\<rparr>), w2)"
    using run clk by (simp add: verimark_moc_verify_identify_start_def VERIMARK_VERIFY_OVERALL_TIMEOUT_MS_def
        verimark_verify_ssm_done_def Let_def del: ssm_run.simps)
  moreover have "reports (report ?c ((report ?rep dev2)\<lparr>task_ssm := None\<rparr>)) = reports dev @ [?rep, ?c]"
    using same_op_fields [OF 1(3)] same_op_fields [OF moc_send_same [OF 2(1)]] by (simp add: report_def)
  moreover have "idle evs a' (report ?c ((report ?rep dev2)\<lparr>task_ssm := None\<rparr>), w2)"
    by (rule local [OF 2(2)]) (simp add: report_def)
  ultimately show ?thesis by blast
qed

end

subsection \<open>Against the sample sensor\<close>

definition match_reply :: bytes where
  "match_reply = [0, 0] @ replicate 16 5"

definition verify_sensor :: "bytes \<Rightarrow> bytes" where
  "verify_sensor cmd = (if cmd = verimark_moc_build_begin_id then match_reply else frame_sensor cmd)"

definition verify_answers :: "(bytes \<Rightarrow> bytes) \<Rightarrow> bool" where
  "verify_answers f \<longleftrightarrow> captures (answer f) \<and> f verimark_moc_build_begin_id = match_reply"

lemma verify_sensor_answers: "verify_answers verify_sensor"
  by (auto simp: verify_answers_def captures_def verify_sensor_def frame_sensor_def frame_reply_ready capture_cmd_def
      verimark_moc_build_begin_id_def VERIMARK_CMD_EVENT_READ_def)

lemma match_reply_echo: "echoed match_reply tid \<longleftrightarrow> tid = replicate 16 5"
  by (auto simp: echoed_def match_reply_def)

lemma match_reply_parse:
  "verimark_moc_parse_verify (moc_ptr match_reply) = Inr \<lparr>match_status = 0, matched = True, match_template_id = replicate 16 5\<rparr>"
  by (simp add: verimark_moc_parse_verify_def moc_ptr_def match_reply_def rd_u16le_def)

lemma verify_run_sample:
  assumes "verify_answers f" "idle [[0x01]] (dev, w)"
  shows "\<exists>dev' w'. verimark_moc_verify_identify_start (answering f) D ident (dev, w) = Some (dev', w')
    \<and> reports dev' = reports dev @ [vfy_verdict ident (vfy_found D ident \<lparr>match_status = 0, matched = True,
        match_template_id = replicate 16 5\<rparr>), if ident then Identify_Complete None else Verify_Complete None]"
proof -
  have "captures (answer f)" "f verimark_moc_build_begin_id = match_reply" "length match_reply \<le> 483"
    using assms(1) by (simp_all add: verify_answers_def match_reply_def)
  with ans.verify_runs [OF this(1) assms(2), where resp = match_reply and a' = "()" and D = D and ident = ident] match_reply_parse show ?thesis by auto
qed

subsection \<open>Properties\<close>

text \<open>C23: A verification or an identification always ends, within eight captures, and what it reports is
  one of: a verdict and a completion without error; a retry error as the verdict and, since the
  error was taken over by that report, again a completion without error; or a completion with an
  error that is not a retry.\<close>

theorem verimark_moc_verify_ends:
  assumes "platform_doc P T"
  shows "\<exists>dev' w' rs. verimark_moc_verify_identify_start P D ident (dev, w) = Some (dev', w')
    \<and> reports dev' = reports dev @ rs \<and> verdict_log ident rs"
  using verify_log [OF assms] by blast

lemma verimark_moc_verify_ends_witness:
  "\<exists>s'. verimark_moc_verify_identify_start (answering verify_sensor) \<lparr>verify_data = None, identify_data = Some []\<rparr> True
     (plain_device, world0) = Some s'"
  using verimark_moc_verify_ends [OF answering_doc] by blast

lemma verify_verdict:
  assumes "platform_doc P T" "verimark_moc_verify P D (dev, w) = Some (dev', w')"
    and "reports dev' = reports dev @ [Verify_Report verdict q None, c]"
  shows "\<exists>tr0 cap st resp. moc_path P (dev, w) (tr0 @ cap @ [Replied verimark_moc_build_begin_id st resp]) (dev', w')
    \<and> captured VERIMARK_ACQ_VERIFY cap \<and> moc_ops (tr0 @ cap) = [] \<and> c = Verify_Complete None
    \<and> (verdict = MATCH_SUCCESS \<longleftrightarrow> (\<exists>p tid. verify_data D = Some p \<and> echoed resp tid \<and> print_matches_tid p tid))
    \<and> (verdict = MATCH_SUCCESS \<and> q = verify_data D \<or> verdict = MATCH_FAIL \<and> q = None)"
proof -
  from verify_log [OF assms(1), of D False dev w] obtain dev2 w2 rs tr where
    run: "verimark_moc_verify_identify_start P D False (dev, w) = Some (dev2, w2)" and rs: "reports dev2 = reports dev @ rs"
      "verdict_log False rs" and path: "moc_path P (dev, w) tr (dev2, w2)"
    and ans: "\<forall>rep. rs = [rep, Verify_Complete None] \<and> \<not> (\<exists>e. rep = Verify_Report MATCH_ERROR None (Some e))
        \<longrightarrow> vfy_answered D False tr rep" by (auto split: if_splits)
  have eq: "dev2 = dev'" "w2 = w'" using run assms(2) by (simp_all add: verimark_moc_verify_def)
  then have "rs = [Verify_Report verdict q None, c]" using rs(1) assms(3) by simp
  moreover from this rs(2) have "c = Verify_Complete None"
    by (auto simp: verdict_log_def vfy_verdict_def split: if_split_asm)
  ultimately have "vfy_answered D False tr (Verify_Report verdict q None)" "c = Verify_Complete None" using ans by auto
  then obtain tr0 cap st resp m where a: "tr = tr0 @ cap @ [Replied verimark_moc_build_begin_id st resp]"
    "captured VERIMARK_ACQ_VERIFY cap" "moc_ops (tr0 @ cap) = []" "verimark_moc_parse_verify (Some resp) = Inr m"
    "Verify_Report verdict q None = vfy_verdict False (vfy_found D False m)"
    by (auto simp: vfy_answered_def)
  have v: "verdict = (if vfy_found D False m = None then MATCH_FAIL else MATCH_SUCCESS)" "q = vfy_found D False m"
    using a(5) by (auto simp: vfy_verdict_def split: if_split_asm)
  have found: "vfy_found D False m = Some p \<longleftrightarrow> verify_data D = Some p \<and> (\<exists>tid. echoed resp tid \<and> print_matches_tid p tid)" for p
    using vfy_found_verify [OF a(4)] echoed_matched [OF a(4)] by metis
  have verdict: "(verdict = MATCH_SUCCESS \<longleftrightarrow> (\<exists>p tid. verify_data D = Some p \<and> echoed resp tid \<and> print_matches_tid p tid))
    \<and> (verdict = MATCH_SUCCESS \<and> q = verify_data D \<or> verdict = MATCH_FAIL \<and> q = None)"
  proof (cases "vfy_found D False m")
    case None
    then have "verdict = MATCH_FAIL" "q = None" using v by simp_all
    moreover have "\<not> (\<exists>p tid. verify_data D = Some p \<and> echoed resp tid \<and> print_matches_tid p tid)"
      using found None by simp
    ultimately show ?thesis by simp
  next
    case (Some p)
    then have "verdict = MATCH_SUCCESS" "q = Some p" using v by simp_all
    with found [of p] Some show ?thesis by auto
  qed
  have "moc_path P (dev, w) (tr0 @ cap @ [Replied verimark_moc_build_begin_id st resp]) (dev', w')"
    using path a(1) eq by simp
  then show ?thesis using a(2,3) \<open>c = Verify_Complete None\<close> verdict by blast
qed

text \<open>C6: A verification that reports a verdict has captured a finger and then got a reply to its match
  command, and the verdict is a match exactly when that reply has status 0 and the id minted for
  the print to be verified; the print reported is then that print.\<close>

theorem verimark_moc_verify_sound:
  assumes "platform_doc P T" "verimark_moc_verify P D (dev, w) = Some (dev', w')"
    and "reports dev' = reports dev @ [Verify_Report verdict q None, c]"
  shows "\<exists>tr0 cap st resp. moc_path P (dev, w) (tr0 @ cap @ [Replied verimark_moc_build_begin_id st resp]) (dev', w')
    \<and> captured VERIMARK_ACQ_VERIFY cap \<and> moc_ops (tr0 @ cap) = [] \<and> c = Verify_Complete None
    \<and> (verdict = MATCH_SUCCESS \<longleftrightarrow> (\<exists>p tid. verify_data D = Some p \<and> echoed resp tid \<and> print_matches_tid p tid))
    \<and> (verdict = MATCH_SUCCESS \<and> q = verify_data D \<or> verdict = MATCH_FAIL \<and> q = None)"
  by (rule verify_verdict [OF assms])

definition stored_print :: "bytes \<Rightarrow> fp_print" where
  "stored_print tid = \<lparr>fpi_type = FPI_PRINT_RAW, fpi_data = Some (Print_Data 1 tid zero16 []), description = [],
     device_stored = True\<rparr>"

lemma stored_print_matches: "print_matches_tid (stored_print tid) tid' \<longleftrightarrow> tid' = tid \<and> length tid = 16"
  by (auto simp: print_matches_tid_iff stored_print_def zero16_def)

lemma verimark_moc_verify_sound_witness:
  "\<exists>s' tr0 cap st. verimark_moc_verify (answering verify_sensor) \<lparr>verify_data = Some (stored_print (replicate 16 5)), identify_data = None\<rparr>
      (plain_device, world0\<lparr>w_events := [[0x01]]\<rparr>) = Some s'
    \<and> captured VERIMARK_ACQ_VERIFY cap \<and> (\<exists>resp tid. echoed resp tid \<and> moc_path (answering verify_sensor)
        (plain_device, world0\<lparr>w_events := [[0x01]]\<rparr>) (tr0 @ cap @ [Replied verimark_moc_build_begin_id st resp]) s')"
proof -
  let ?D = "\<lparr>verify_data = Some (stored_print (replicate 16 5)), identify_data = None\<rparr>"
  from verify_run_sample [OF verify_sensor_answers idle_start, of ?D False] obtain dev' w' where
    run: "verimark_moc_verify (answering verify_sensor) ?D (plain_device, world0\<lparr>w_events := [[0x01]]\<rparr>) = Some (dev', w')"
    and rep: "reports dev' = reports plain_device @ [Verify_Report MATCH_SUCCESS (Some (stored_print (replicate 16 5))) None, Verify_Complete None]"
    by (auto simp: verimark_moc_verify_def vfy_found_def vfy_verdict_def stored_print_matches)
  from verimark_moc_verify_sound [OF answering_doc run rep] run show ?thesis by blast
qed

text \<open>C18: An identification that reports a verdict names the first print of the gallery whose minted id is
  the one the sensor echoed, after a capture, and reports no print exactly when the sensor echoed
  none of their ids.\<close>

theorem verimark_moc_identify_sound:
  assumes "platform_doc P T" "verimark_moc_identify P D (dev, w) = Some (dev', w')"
    and "reports dev' = reports dev @ [Identify_Report found q None, c]"
  shows "\<exists>tr0 cap st resp. moc_path P (dev, w) (tr0 @ cap @ [Replied verimark_moc_build_begin_id st resp]) (dev', w')
    \<and> captured VERIMARK_ACQ_VERIFY cap \<and> moc_ops (tr0 @ cap) = [] \<and> q = found \<and> c = Identify_Complete None
    \<and> (case found of
          Some p \<Rightarrow> \<exists>before after tid. identify_data D = Some (before @ p # after) \<and> echoed resp tid
            \<and> print_matches_tid p tid \<and> filter (\<lambda>p'. print_matches_tid p' tid) before = []
        | None \<Rightarrow> \<not> (\<exists>ps tid p. identify_data D = Some ps \<and> echoed resp tid \<and> p \<in> set ps \<and> print_matches_tid p tid))"
proof -
  from verify_log [OF assms(1), of D True dev w] obtain dev2 w2 rs tr where
    run: "verimark_moc_verify_identify_start P D True (dev, w) = Some (dev2, w2)" and rs: "reports dev2 = reports dev @ rs"
      "verdict_log True rs" and path: "moc_path P (dev, w) tr (dev2, w2)"
    and ans: "\<forall>rep. rs = [rep, Identify_Complete None] \<and> \<not> (\<exists>e. rep = Identify_Report None None (Some e))
        \<longrightarrow> vfy_answered D True tr rep" by (auto split: if_splits)
  have eq: "dev2 = dev'" "w2 = w'" using run assms(2) by (simp_all add: verimark_moc_identify_def)
  then have "rs = [Identify_Report found q None, c]" using rs(1) assms(3) by simp
  moreover from this rs(2) have "c = Identify_Complete None"
    by (auto simp: verdict_log_def vfy_verdict_def split: if_split_asm)
  ultimately have "vfy_answered D True tr (Identify_Report found q None)" "c = Identify_Complete None" using ans by auto
  then obtain tr0 cap st resp m where a: "tr = tr0 @ cap @ [Replied verimark_moc_build_begin_id st resp]"
    "captured VERIMARK_ACQ_VERIFY cap" "moc_ops (tr0 @ cap) = []" "verimark_moc_parse_verify (Some resp) = Inr m"
    "Identify_Report found q None = vfy_verdict True (vfy_found D True m)"
    by (auto simp: vfy_answered_def)
  have v: "found = vfy_found D True m" "q = found" using a(5) by (auto simp: vfy_verdict_def)
  have verdict: "case found of
          Some p \<Rightarrow> \<exists>before after tid. identify_data D = Some (before @ p # after) \<and> echoed resp tid
            \<and> print_matches_tid p tid \<and> filter (\<lambda>p'. print_matches_tid p' tid) before = []
        | None \<Rightarrow> \<not> (\<exists>ps tid p. identify_data D = Some ps \<and> echoed resp tid \<and> p \<in> set ps \<and> print_matches_tid p tid)"
  proof (cases "vfy_found D True m")
    case None
    with vfy_found_identify(2) [OF a(4) None] show ?thesis by (simp add: v(1))
  next
    case (Some p)
    from vfy_found_identify(1) [OF a(4) Some] obtain before after tid where
      "identify_data D = Some (before @ p # after)" "echoed resp tid" "print_matches_tid p tid"
      "filter (\<lambda>p'. print_matches_tid p' tid) before = []" by (metis filter_False)
    with Some v(1) show ?thesis by auto
  qed
  have "moc_path P (dev, w) (tr0 @ cap @ [Replied verimark_moc_build_begin_id st resp]) (dev', w')"
    using path a(1) eq by simp
  then show ?thesis using a(2,3) v(2) \<open>c = Identify_Complete None\<close> verdict by blast
qed

lemma verimark_moc_identify_sound_witness:
  "\<exists>s' tr0 cap st resp. verimark_moc_identify (answering verify_sensor) \<lparr>verify_data = None,
        identify_data = Some [stored_print (replicate 16 4), stored_print (replicate 16 5)]\<rparr>
      (plain_device, world0\<lparr>w_events := [[0x01]]\<rparr>) = Some s'
    \<and> captured VERIMARK_ACQ_VERIFY cap \<and> moc_path (answering verify_sensor)
        (plain_device, world0\<lparr>w_events := [[0x01]]\<rparr>) (tr0 @ cap @ [Replied verimark_moc_build_begin_id st resp]) s'"
proof -
  let ?D = "\<lparr>verify_data = None, identify_data = Some [stored_print (replicate 16 4), stored_print (replicate 16 5)]\<rparr>"
  from verify_run_sample [OF verify_sensor_answers idle_start, of ?D True] obtain dev' w' found where
    run: "verimark_moc_identify (answering verify_sensor) ?D (plain_device, world0\<lparr>w_events := [[0x01]]\<rparr>) = Some (dev', w')"
    and rep: "reports dev' = reports plain_device @ [Identify_Report found found None, Identify_Complete None]"
    by (auto simp: verimark_moc_identify_def vfy_verdict_def)
  from verimark_moc_identify_sound [OF answering_doc run rep] run show ?thesis by blast
qed

end
