(* ===== verification/Storage.thy ===== *)
theory Storage
  imports Answering Prints
begin

text \<open>
  The storage operations of \<open>verimark-moc.c\<close>: listing the templates of the sensor, deleting the
  template of a print (its id is resolved by an information command first), and clearing.
\<close>

definition VERIMARK_CMD_DB2_GET_OBJ_LIST :: byte where "VERIMARK_CMD_DB2_GET_OBJ_LIST = 0x9f"
definition VERIMARK_CMD_DB2_GET_OBJ_INFO :: byte where "VERIMARK_CMD_DB2_GET_OBJ_INFO = 0xa0"
definition VERIMARK_CMD_DB2_DELETE_OBJ :: byte where "VERIMARK_CMD_DB2_DELETE_OBJ = 0xa3"
definition VERIMARK_CMD_DB2_FORMAT :: byte where "VERIMARK_CMD_DB2_FORMAT = 0xa5"

subsection \<open>List\<close>

text \<open>\<open>VerimarkListCtx\<close>; \<open>None\<close> is \<open>NULL\<close>.\<close>

record list_ctx =
  list_prints :: "fp_print list option"

type_synonym 'w list_state = "list_ctx \<times> verimark \<times> 'w"

text \<open>The two calls into libfprint that make a print: \<open>fp_print_new\<close>, and
  \<open>fpi_print_fill_from_user_id\<close> with the label.\<close>

record print_lib =
  print_new :: fp_print
  fill_from_user_id :: "fp_print \<Rightarrow> string \<Rightarrow> fp_print"

definition list_label :: "bytes \<Rightarrow> string" where
  "list_label gid = ''verimark-'' @ concat (map hex_byte gid)"

definition list_print :: "print_lib \<Rightarrow> bytes \<Rightarrow> fp_print" where
  "list_print L gid =
     (let label = list_label gid;
          data = verimark_build_print_data 1 zero16 gid (label_bytes label);
          print = (print_new L)\<lparr>fpi_type := FPI_PRINT_RAW, device_stored := True\<rparr>;
          print = print\<lparr>fpi_data := Some data, description := label\<rparr>
      in fill_from_user_id L print label)"

definition on_list_done :: "print_lib \<Rightarrow> list_ctx \<Rightarrow> moc_reply \<Rightarrow> verimark \<times> 'w \<Rightarrow> ssm_call \<times> 'w list_state" where
  "on_list_done L ctx r s =
     (case r of
        Inl e \<Rightarrow> (Mark_Failed e, ctx, s)
      | Inr (status, resp) \<Rightarrow>
          (case verimark_moc_parse_obj_list (moc_ptr resp) of
             Inl e \<Rightarrow> (Mark_Failed e, ctx, s)
           | Inr (st, ids) \<Rightarrow>
               if st \<noteq> 0x0000
               then (Mark_Failed (Device_Error DEVICE_PROTO ''0x9f object-list status 0x%04x'' [unat st]), ctx, s)
               else (Mark_Completed, ctx\<lparr>list_prints := Some (map (list_print L) ids)\<rparr>, s)))"

abbreviation (input) LIST_GET :: nat where "LIST_GET \<equiv> 0"
abbreviation (input) LIST_N_STATES :: nat where "LIST_N_STATES \<equiv> 1"

definition list_step :: "'w platform \<Rightarrow> print_lib \<Rightarrow> nat \<Rightarrow> 'w list_state \<Rightarrow> (ssm_call \<times> 'w list_state) option" where
  "list_step P L c = (\<lambda>(ctx, s).
     if c = LIST_GET then
       map_option (\<lambda>(r, s). on_list_done L ctx r s) (verimark_moc_send P [VERIMARK_CMD_DB2_GET_OBJ_LIST, 0x01] 0x400 s)
     else Some (Mark_Failed Assert_Not_Reached, ctx, s))"

definition verimark_list_ssm_done :: "list_ctx \<Rightarrow> unit res \<Rightarrow> verimark \<Rightarrow> verimark" where
  "verimark_list_ssm_done ctx r dev =
     (let dev = dev\<lparr>task_ssm := None\<rparr>
      in case r of
        Inl e \<Rightarrow> report (List_Complete None (Some e)) dev
      | Inr _ \<Rightarrow> report (List_Complete (list_prints ctx) None) dev)"

definition verimark_moc_list :: "'w platform \<Rightarrow> print_lib \<Rightarrow> verimark \<times> 'w \<Rightarrow> (verimark \<times> 'w) option" where
  "verimark_moc_list P L = (\<lambda>(dev, w).
     map_option (\<lambda>(r, ctx, dev, w). (verimark_list_ssm_done ctx r dev, w))
       (ssm_run (fpi P) (dev_delay P) LIST_N_STATES (list_step P L) 1 LIST_GET
          (\<lparr>list_prints = None\<rparr>, dev\<lparr>task_ssm := Some List_Task\<rparr>, w)))"

subsection \<open>Delete\<close>

text \<open>\<open>VerimarkDeleteCtx\<close>\<close>

record del_ctx =
  target_gid :: bytes
  child :: bytes

type_synonym 'w del_state = "del_ctx \<times> verimark \<times> 'w"

definition on_del_info_done :: "del_ctx \<Rightarrow> moc_reply \<Rightarrow> verimark \<times> 'w \<Rightarrow> ssm_call \<times> 'w del_state" where
  "on_del_info_done ctx r s =
     (case r of
        Inl e \<Rightarrow> (Mark_Failed e, ctx, s)
      | Inr (status, resp) \<Rightarrow>
          (case verimark_moc_parse_obj_info (moc_ptr resp) of
             Inl e \<Rightarrow> (Mark_Failed e, ctx, s)
           | Inr c \<Rightarrow> (Next_State, ctx\<lparr>child := c\<rparr>, s)))"

definition on_del_delete_done :: "del_ctx \<Rightarrow> moc_reply \<Rightarrow> verimark \<times> 'w \<Rightarrow> ssm_call \<times> 'w del_state" where
  "on_del_delete_done ctx r s = (case r of Inl e \<Rightarrow> (Mark_Failed e, ctx, s) | Inr _ \<Rightarrow> (Mark_Completed, ctx, s))"

definition del_info_cmd :: "bytes \<Rightarrow> bytes" where
  "del_info_cmd gid = VERIMARK_CMD_DB2_GET_OBJ_INFO # wr_u32le 2 @ gid"

definition del_delete_cmd :: "bytes \<Rightarrow> bytes" where
  "del_delete_cmd c = VERIMARK_CMD_DB2_DELETE_OBJ # wr_u32le 1 @ c"

abbreviation (input) DEL_INFO :: nat where "DEL_INFO \<equiv> 0"
abbreviation (input) DEL_DELETE :: nat where "DEL_DELETE \<equiv> 1"
abbreviation (input) DEL_N_STATES :: nat where "DEL_N_STATES \<equiv> 2"

definition del_step :: "'w platform \<Rightarrow> nat \<Rightarrow> 'w del_state \<Rightarrow> (ssm_call \<times> 'w del_state) option" where
  "del_step P c = (\<lambda>(ctx, s).
     if c = DEL_INFO then
       map_option (\<lambda>(r, s). on_del_info_done ctx r s) (verimark_moc_send P (del_info_cmd (target_gid ctx)) 0x34 s)
     else if c = DEL_DELETE then
       map_option (\<lambda>(r, s). on_del_delete_done ctx r s) (verimark_moc_send P (del_delete_cmd (child ctx)) 4 s)
     else Some (Mark_Failed Assert_Not_Reached, ctx, s))"

definition verimark_delete_ssm_done :: "unit res \<Rightarrow> verimark \<Rightarrow> verimark" where
  "verimark_delete_ssm_done r dev =
     report (Delete_Complete (case r of Inl e \<Rightarrow> Some e | Inr _ \<Rightarrow> None)) (dev\<lparr>task_ssm := None\<rparr>)"

text \<open>The id a delete starts from: the listed id of the print, else its minted id; not all zero.
  \<open>print\<close> is what \<open>fpi_device_get_delete_data\<close> gives.\<close>

definition delete_target :: "fp_print option \<Rightarrow> bytes option" where
  "delete_target print =
     (case Option.bind print fpi_data of
        None \<Rightarrow> None
      | Some data \<Rightarrow>
          (case verimark_parse_print_data data of
             None \<Rightarrow> None
           | Some (finger, minted_tid, list_gid, uid) \<Rightarrow>
               if length list_gid = 16 \<and> list_gid \<noteq> zero16 then Some list_gid
               else if length minted_tid = 16 \<and> minted_tid \<noteq> zero16 then Some minted_tid
               else None))"

definition verimark_moc_delete :: "'w platform \<Rightarrow> fp_print option \<Rightarrow> verimark \<times> 'w \<Rightarrow> (verimark \<times> 'w) option" where
  "verimark_moc_delete P print = (\<lambda>(dev, w).
     case delete_target print of
        None \<Rightarrow>
          Some (report (Delete_Complete (Some (Device_Error DEVICE_DATA_INVALID
                  ''no usable on-device id stored for this print'' []))) dev, w)
      | Some target \<Rightarrow>
          map_option (\<lambda>(r, ctx, dev, w). (verimark_delete_ssm_done r dev, w))
            (ssm_run (fpi P) (dev_delay P) DEL_N_STATES (del_step P) 2 DEL_INFO
               (\<lparr>target_gid = target, child = replicate 16 0\<rparr>, dev\<lparr>task_ssm := Some Delete_Task\<rparr>, w)))"

subsection \<open>Clear\<close>

definition on_clr_done :: "moc_reply \<Rightarrow> verimark \<times> 'w \<Rightarrow> ssm_call \<times> verimark \<times> 'w" where
  "on_clr_done r s = (case r of Inl e \<Rightarrow> (Mark_Failed e, s) | Inr _ \<Rightarrow> (Mark_Completed, s))"

abbreviation (input) CLR_FORMAT :: nat where "CLR_FORMAT \<equiv> 0"
abbreviation (input) CLR_N_STATES :: nat where "CLR_N_STATES \<equiv> 1"

definition clear_step :: "'w platform \<Rightarrow> nat \<Rightarrow> verimark \<times> 'w \<Rightarrow> (ssm_call \<times> verimark \<times> 'w) option" where
  "clear_step P c s =
     (if c = CLR_FORMAT then
        map_option (\<lambda>(r, s). on_clr_done r s) (verimark_moc_send P [VERIMARK_CMD_DB2_FORMAT, 0x01] 4 s)
      else Some (Mark_Failed Assert_Not_Reached, s))"

definition verimark_clear_ssm_done :: "unit res \<Rightarrow> verimark \<Rightarrow> verimark" where
  "verimark_clear_ssm_done r dev =
     report (Clear_Storage_Complete (case r of Inl e \<Rightarrow> Some e | Inr _ \<Rightarrow> None)) (dev\<lparr>task_ssm := None\<rparr>)"

definition verimark_moc_clear :: "'w platform \<Rightarrow> verimark \<times> 'w \<Rightarrow> (verimark \<times> 'w) option" where
  "verimark_moc_clear P = (\<lambda>(dev, w).
     map_option (\<lambda>(r, dev, w). (verimark_clear_ssm_done r dev, w))
       (ssm_run (fpi P) (\<lambda>ms (dev, w). (dev, pause_us P (1000 * ms) w)) CLR_N_STATES (clear_step P) 1 CLR_FORMAT
          (dev\<lparr>task_ssm := Some Clear_Task\<rparr>, w)))"

subsection \<open>The machines as calls\<close>

text \<open>Each state is entered once, so the fuel is the number of states.\<close>

definition list_result :: "print_lib \<Rightarrow> moc_reply \<Rightarrow> report" where
  "list_result L r =
     (case bind_res r (\<lambda>(_, resp). verimark_moc_parse_obj_list (moc_ptr resp)) of
        Inl e \<Rightarrow> List_Complete None (Some e)
      | Inr (st, ids) \<Rightarrow>
          if st \<noteq> 0 then List_Complete None (Some (Device_Error DEVICE_PROTO ''0x9f object-list status 0x%04x'' [unat st]))
          else List_Complete (Some (map (list_print L) ids)) None)"

lemma moc_list_call:
  assumes "fpi_ssm_doc (fpi P)" "verimark_moc_send P [VERIMARK_CMD_DB2_GET_OBJ_LIST, 0x01] 0x400 (dev, w) = Some (r, dev1, w1)"
  shows "verimark_moc_list P L (dev, w) = Some (report (list_result L r) (dev1\<lparr>task_ssm := None\<rparr>), w1)"
proof -
  let ?dev1 = "dev1\<lparr>task_ssm := Some List_Task\<rparr>"
  have step: "list_step P L 0 (\<lparr>list_prints = None\<rparr>, dev\<lparr>task_ssm := Some List_Task\<rparr>, w) =
      Some (on_list_done L \<lparr>list_prints = None\<rparr> r (?dev1, w1))"
    using assms(2) by (simp add: list_step_def moc_send_task)
  show ?thesis
  proof (cases "bind_res r (\<lambda>(_, resp). verimark_moc_parse_obj_list (moc_ptr resp))")
    case (Inl e)
    then have "on_list_done L \<lparr>list_prints = None\<rparr> r (?dev1, w1) = (Mark_Failed e, \<lparr>list_prints = None\<rparr>, ?dev1, w1)"
      by (auto simp: on_list_done_def bind_res_Inl split: sum.split)
    with step Inl show ?thesis
      by (simp add: verimark_moc_list_def fpi_ssm_docD [OF assms(1)] verimark_list_ssm_done_def list_result_def)
  next
    case (Inr a)
    obtain st ids where a: "a = (st, ids)" by fastforce
    then have "on_list_done L \<lparr>list_prints = None\<rparr> r (?dev1, w1) =
        (if st \<noteq> 0 then (Mark_Failed (Device_Error DEVICE_PROTO ''0x9f object-list status 0x%04x'' [unat st]), \<lparr>list_prints = None\<rparr>, ?dev1, w1)
         else (Mark_Completed, \<lparr>list_prints = Some (map (list_print L) ids)\<rparr>, ?dev1, w1))"
      using Inr by (auto simp: on_list_done_def bind_res_Inr split: sum.split)
    with step Inr a show ?thesis
      by (simp add: verimark_moc_list_def fpi_ssm_docD [OF assms(1)] verimark_list_ssm_done_def list_result_def)
  qed
qed

definition delete_calls :: "'w platform \<Rightarrow> bytes \<Rightarrow> verimark \<times> 'w \<Rightarrow> (unit res \<times> verimark \<times> 'w) option" where
  "delete_calls P target s =
     bind_so (verimark_moc_send P (del_info_cmd target) 0x34 s) (\<lambda>(_, resp) s.
     case verimark_moc_parse_obj_info (moc_ptr resp) of
       Inl e \<Rightarrow> Some (Inl e, s)
     | Inr c \<Rightarrow> bind_so (verimark_moc_send P (del_delete_cmd c) 4 s) (\<lambda>_ s. Some (Inr (), s)))"

lemma delete_calls_task:
  "delete_calls P target (dev\<lparr>task_ssm := m\<rparr>, w) =
     map_option (\<lambda>(r, dev', w'). (r, dev'\<lparr>task_ssm := m\<rparr>, w')) (delete_calls P target (dev, w))"
  by (auto simp: delete_calls_def bind_so_def moc_send_task split: option.split sum.split)

lemma moc_delete_calls:
  assumes "fpi_ssm_doc (fpi P)" "delete_target print = Some target"
  shows "verimark_moc_delete P print (dev, w) =
    map_option (\<lambda>(r, dev, w). (verimark_delete_ssm_done r dev, w)) (delete_calls P target (dev, w))"
proof -
  let ?ctx = "\<lparr>target_gid = target, child = replicate 16 0\<rparr>"
  let ?run = "\<lambda>fuel c s. map_option (\<lambda>(r, ctx, s). (r, s)) (ssm_run (fpi P) (dev_delay P) 2 (del_step P) fuel c s)"
  have second: "?run (Suc 0) (Suc 0) (ctx, s) = bind_so (verimark_moc_send P (del_delete_cmd (child ctx)) 4 s) (\<lambda>_ s. Some (Inr (), s))" for ctx s
    by (cases "verimark_moc_send P (del_delete_cmd (child ctx)) 4 s")
      (auto simp: del_step_def on_del_delete_done_def ssm_run_steps [OF assms(1)] bind_so_def simp del: ssm_run.simps split: sum.split)
  have "?run (Suc (Suc 0)) 0 (?ctx, s) = delete_calls P target s" for s
  proof (cases "verimark_moc_send P (del_info_cmd target) 0x34 s")
    case None
    then show ?thesis by (simp add: del_step_def delete_calls_def)
  next
    case (Some q)
    obtain r s1 where q: "q = (r, s1)" by (cases q)
    have step: "del_step P 0 (?ctx, s) = Some (on_del_info_done ?ctx r s1)" using Some by (simp add: del_step_def q)
    show ?thesis
    proof (cases "bind_res r (\<lambda>(_, resp). verimark_moc_parse_obj_info (moc_ptr resp))")
      case (Inl e)
      then have "on_del_info_done ?ctx r s1 = (Mark_Failed e, ?ctx, s1)"
        by (auto simp: on_del_info_done_def bind_res_Inl split: sum.split)
      with step Inl Some q show ?thesis
        by (auto simp: ssm_run_steps [OF assms(1)] delete_calls_def bind_res_Inl simp del: ssm_run.simps)
    next
      case (Inr c)
      then have "on_del_info_done ?ctx r s1 = (Next_State, ?ctx\<lparr>child := c\<rparr>, s1)"
        by (auto simp: on_del_info_done_def bind_res_Inr split: sum.split)
      with step Inr Some q second [of "?ctx\<lparr>child := c\<rparr>" s1] show ?thesis
        by (auto simp: ssm_run_steps [OF assms(1)] delete_calls_def bind_res_Inr simp del: ssm_run.simps)
    qed
  qed
  moreover have "verimark_moc_delete P print (dev, w) = map_option (\<lambda>(r, dev, w). (verimark_delete_ssm_done r dev, w))
      (?run (Suc (Suc 0)) 0 (?ctx, dev\<lparr>task_ssm := Some Delete_Task\<rparr>, w))"
    using assms(2) by (simp add: verimark_moc_delete_def option.map_comp comp_def split_def numeral_2_eq_2 del: ssm_run.simps)
  ultimately have "verimark_moc_delete P print (dev, w) = map_option (\<lambda>(r, dev, w). (verimark_delete_ssm_done r dev, w))
      (delete_calls P target (dev\<lparr>task_ssm := Some Delete_Task\<rparr>, w))" by presburger
  then show ?thesis
    by (simp add: delete_calls_task option.map_comp comp_def split_def verimark_delete_ssm_done_def)
qed

lemma moc_clear_call:
  assumes "fpi_ssm_doc (fpi P)" "verimark_moc_send P [VERIMARK_CMD_DB2_FORMAT, 0x01] 4 (dev, w) = Some (r, dev1, w1)"
  shows "verimark_moc_clear P (dev, w) =
    Some (report (Clear_Storage_Complete (case r of Inl e \<Rightarrow> Some e | Inr _ \<Rightarrow> None)) (dev1\<lparr>task_ssm := None\<rparr>), w1)"
  using assms(2)
  by (cases r) (simp_all add: verimark_moc_clear_def clear_step_def on_clr_done_def fpi_ssm_docD [OF assms(1)]
      verimark_clear_ssm_done_def moc_send_task)

lemma path_report: "moc_path P s tr (dev, w) \<Longrightarrow> moc_path P s tr (report rep (dev\<lparr>task_ssm := None\<rparr>), w)"
  by (rule moc_path.local) (simp_all add: report_def)

lemma obj_info_Inr: "verimark_moc_parse_obj_info (moc_ptr resp) = Inr c \<longleftrightarrow> 36 \<le> length resp \<and> c = take 16 (drop 20 resp)"
  by (auto simp: verimark_moc_parse_obj_info_def moc_ptr_def)

lemma list_outcome:
  assumes "platform_doc P T"
  shows "\<exists>dev1 w' r. verimark_moc_list P L (dev, w) = Some (report (list_result L r) (dev1\<lparr>task_ssm := None\<rparr>), w') \<and> same_op dev dev1
    \<and> (\<forall>st resp. r = Inr (st, resp) \<longrightarrow>
         moc_path P (dev, w) [Replied [VERIMARK_CMD_DB2_GET_OBJ_LIST, 0x01] st resp] (report (list_result L r) (dev1\<lparr>task_ssm := None\<rparr>), w'))"
proof -
  obtain r dev1 w1 where send: "verimark_moc_send P [VERIMARK_CMD_DB2_GET_OBJ_LIST, 0x01] 0x400 (dev, w) = Some (r, dev1, w1)"
    using moc_send_total [OF assms, of "[VERIMARK_CMD_DB2_GET_OBJ_LIST, 0x01]" "0x400" dev w] by auto
  have "moc_path P (dev, w) [Replied [VERIMARK_CMD_DB2_GET_OBJ_LIST, 0x01] st resp] (report rep (dev1\<lparr>task_ssm := None\<rparr>), w1)"
    if "r = Inr (st, resp)" for st resp rep
    by (rule path_report [OF path_reply [OF send [unfolded that]]])
  then show ?thesis
    using moc_list_call [OF platform_docD(1) [OF assms] send, of L] moc_send_same [OF send]
    by (intro exI [of _ dev1] exI [of _ w1] exI [of _ r]) simp
qed

lemma delete_calls_outcome:
  assumes "platform_doc P T" "length target = 16"
  shows "\<exists>r dev1 w1 tr. delete_calls P target (dev, w) = Some (r, dev1, w1)
    \<and> same_op dev dev1 \<and> moc_path P (dev, w) tr (dev1, w1)
    \<and> (r = Inr () \<longrightarrow> (\<exists>st1 resp1 st2 resp2. 36 \<le> length resp1
         \<and> tr = [Replied (del_info_cmd target) st1 resp1, Replied (del_delete_cmd (take 16 (drop 20 resp1))) st2 resp2]))"
proof -
  note total = moc_send_total [OF assms(1)]
  have "length (del_info_cmd target) \<le> 65536" using assms(2) by (simp add: del_info_cmd_def)
  from total [OF this] obtain q dev1 w1 where
    send: "verimark_moc_send P (del_info_cmd target) 0x34 (dev, w) = Some (q, dev1, w1)" by blast
  show ?thesis
  proof (cases "bind_res q (\<lambda>(_, resp). verimark_moc_parse_obj_info (moc_ptr resp))")
    case (Inl e)
    then have "delete_calls P target (dev, w) = Some (Inl e, dev1, w1)"
      using send by (auto simp: delete_calls_def bind_res_Inl)
    then show ?thesis using path_send [OF send] moc_send_same [OF send] by blast
  next
    case (Inr c)
    then obtain st1 resp1 where q: "q = Inr (st1, resp1)" "36 \<le> length resp1" "c = take 16 (drop 20 resp1)"
      by (cases q) (auto simp: obj_info_Inr)
    then have "length (del_delete_cmd c) \<le> 65536" by (simp add: del_delete_cmd_def)
    from total [OF this] obtain q2 dev2 w2 where
      send2: "verimark_moc_send P (del_delete_cmd c) 4 (dev1, w1) = Some (q2, dev2, w2)" by blast
    have calls: "delete_calls P target (dev, w) = Some (case q2 of Inl e \<Rightarrow> Inl e | Inr _ \<Rightarrow> Inr (), dev2, w2)"
      using send send2 Inr q(1) by (cases q2) (auto simp: delete_calls_def)
    have path: "moc_path P (dev, w) ([Replied (del_info_cmd target) st1 resp1]
        @ (case q2 of Inl e \<Rightarrow> [] | Inr (st, resp) \<Rightarrow> [Replied (del_delete_cmd c) st resp])) (dev2, w2)"
      using moc_path_trans [OF path_send [OF send2] path_send [OF send]] q(1) by simp
    have same: "same_op dev dev2" using moc_send_same [OF send] moc_send_same [OF send2] by (rule same_op_trans)
    show ?thesis using calls path same q(2,3) by (cases q2) (fastforce split: prod.splits)+
  qed
qed

lemma delete_outcome:
  assumes "platform_doc P T" "delete_target print = Some target"
  shows "\<exists>dev1 w' r tr. verimark_moc_delete P print (dev, w) = Some (report (Delete_Complete r) (dev1\<lparr>task_ssm := None\<rparr>), w')
    \<and> same_op dev dev1 \<and> moc_path P (dev, w) tr (report (Delete_Complete r) (dev1\<lparr>task_ssm := None\<rparr>), w')
    \<and> (r = None \<longrightarrow> (\<exists>st1 resp1 st2 resp2. 36 \<le> length resp1
         \<and> tr = [Replied (del_info_cmd target) st1 resp1, Replied (del_delete_cmd (take 16 (drop 20 resp1))) st2 resp2]))"
proof -
  have "length target = 16"
    using assms(2) by (auto simp: delete_target_def split: option.split_asm if_split_asm)
  from delete_calls_outcome [OF assms(1) this, of dev w] obtain r dev1 w1 tr where
    calls: "delete_calls P target (dev, w) = Some (r, dev1, w1)" "same_op dev dev1" "moc_path P (dev, w) tr (dev1, w1)"
    and ok: "r = Inr () \<longrightarrow> (\<exists>st1 resp1 st2 resp2. 36 \<le> length resp1
      \<and> tr = [Replied (del_info_cmd target) st1 resp1, Replied (del_delete_cmd (take 16 (drop 20 resp1))) st2 resp2])"
    by blast
  note run = moc_delete_calls [OF platform_docD(1) [OF assms(1)] assms(2), of dev w]
  show ?thesis
    using run calls(1,2) path_report [OF calls(3)] ok
    by (cases r) (fastforce simp: verimark_delete_ssm_done_def)+
qed

subsection \<open>What they report\<close>

lemma list_reply:
  assumes "platform_doc P T"
  shows "\<exists>dev' w' q e. verimark_moc_list P L (dev, w) = Some (dev', w') \<and> reports dev' = reports dev @ [List_Complete q e]
    \<and> (q = None \<longleftrightarrow> e \<noteq> None)
    \<and> (\<forall>ps. q = Some ps \<longrightarrow> (\<exists>st resp ids rest.
         moc_path P (dev, w) [Replied [VERIMARK_CMD_DB2_GET_OBJ_LIST, 0x01] st resp] (dev', w')
         \<and> resp = obj_list_enc 0 ids @ rest \<and> (\<forall>v. v \<in> set ids \<longrightarrow> length v = 16) \<and> ps = map (list_print L) ids))"
proof -
  from list_outcome [OF assms, of L dev w] obtain dev1 w' r where
    run: "verimark_moc_list P L (dev, w) = Some (report (list_result L r) (dev1\<lparr>task_ssm := None\<rparr>), w')" and same: "same_op dev dev1"
    and path: "\<forall>st resp. r = Inr (st, resp) \<longrightarrow>
         moc_path P (dev, w) [Replied [VERIMARK_CMD_DB2_GET_OBJ_LIST, 0x01] st resp] (report (list_result L r) (dev1\<lparr>task_ssm := None\<rparr>), w')"
    by blast
  have rep: "reports (report rp (dev1\<lparr>task_ssm := None\<rparr>)) = reports dev @ [rp]" for rp
    using same_op_fields [OF same] by (simp add: report_def)
  show ?thesis
  proof (cases "bind_res r (\<lambda>(_, resp). verimark_moc_parse_obj_list (moc_ptr resp))")
    case (Inl e)
    then show ?thesis using run rep by (auto simp: list_result_def)
  next
    case (Inr a)
    then obtain st resp st' ids where r: "r = Inr (st, resp)" "verimark_moc_parse_obj_list (moc_ptr resp) = Inr (st', ids)" "a = (st', ids)"
      by (cases r; cases a) auto
    have ptr: "verimark_moc_parse_obj_list (Some resp) = Inr (st', ids)"
      using r(2) by (auto simp: moc_ptr_def verimark_moc_parse_obj_list_def split: if_split_asm)
    show ?thesis
    proof (cases "st' = 0")
      case True
      then have res: "list_result L r = List_Complete (Some (map (list_print L) ids)) None"
        using Inr r(3) by (simp add: list_result_def)
      from ptr True obtain rest where enc: "resp = obj_list_enc 0 ids @ rest" "\<forall>v. v \<in> set ids \<longrightarrow> length v = 16"
        by (auto simp: parse_obj_list_accepts)
      have p: "moc_path P (dev, w) [Replied [VERIMARK_CMD_DB2_GET_OBJ_LIST, 0x01] st resp]
          (report (List_Complete (Some (map (list_print L) ids)) None) (dev1\<lparr>task_ssm := None\<rparr>), w')"
        using path r(1) res by simp
      show ?thesis
        using run rep res enc p
        by (intro exI [of _ "report (List_Complete (Some (map (list_print L) ids)) None) (dev1\<lparr>task_ssm := None\<rparr>)"] exI [of _ w']
            exI [of _ "Some (map (list_print L) ids)"] exI [of _ None]) auto
    next
      case False
      then show ?thesis using Inr r(3) run rep by (auto simp: list_result_def)
    qed
  qed
qed

lemma delete_reply:
  assumes "platform_doc P T"
  shows "\<exists>dev' w' e. verimark_moc_delete P print (dev, w) = Some (dev', w') \<and> reports dev' = reports dev @ [Delete_Complete e]
    \<and> (case delete_target print of
          None \<Rightarrow> w' = w \<and> d_tls dev' = d_tls dev
            \<and> e = Some (Device_Error DEVICE_DATA_INVALID ''no usable on-device id stored for this print'' [])
        | Some target \<Rightarrow> e \<noteq> None \<or> (\<exists>st1 resp1 st2 resp2. 36 \<le> length resp1
            \<and> moc_path P (dev, w) [Replied (del_info_cmd target) st1 resp1,
                 Replied (del_delete_cmd (take 16 (drop 20 resp1))) st2 resp2] (dev', w')))"
proof (cases "delete_target print")
  case None
  then show ?thesis by (simp add: verimark_moc_delete_def report_def)
next
  case (Some target)
  from delete_outcome [OF assms Some, of dev w] obtain dev1 w' e tr where
    run: "verimark_moc_delete P print (dev, w) = Some (report (Delete_Complete e) (dev1\<lparr>task_ssm := None\<rparr>), w')" and same: "same_op dev dev1"
    and path: "moc_path P (dev, w) tr (report (Delete_Complete e) (dev1\<lparr>task_ssm := None\<rparr>), w')"
    and ok: "e = None \<longrightarrow> (\<exists>st1 resp1 st2 resp2. 36 \<le> length resp1
         \<and> tr = [Replied (del_info_cmd target) st1 resp1, Replied (del_delete_cmd (take 16 (drop 20 resp1))) st2 resp2])"
    by blast
  have rep: "reports (report (Delete_Complete e) (dev1\<lparr>task_ssm := None\<rparr>)) = reports dev @ [Delete_Complete e]"
    using same_op_fields [OF same] by (simp add: report_def)
  show ?thesis
    using run rep path ok Some by (cases e) auto
qed

subsection \<open>With a sensor that cooperates\<close>

context app_link begin

lemma list_runs:
  assumes "idle evs a (dev, w)" "app a [VERIMARK_CMD_DB2_GET_OBJ_LIST, 0x01] = (resp, a')" "length resp \<le> 483"
    and "verimark_moc_parse_obj_list (moc_ptr resp) = Inr (0, ids)"
  shows "\<exists>dev' w'. verimark_moc_list P L (dev, w) = Some (dev', w') \<and> idle evs a' (dev', w')
    \<and> reports dev' = reports dev @ [List_Complete (Some (map (list_print L) ids)) None]"
proof -
  obtain dev1 w1 where 1: "verimark_moc_send P [VERIMARK_CMD_DB2_GET_OBJ_LIST, 0x01] 0x400 (dev, w) =
      Some (Inr (reply_status resp, resp), dev1, w1)" "idle evs a' (dev1, w1)"
    using send [OF assms(1,2) _ assms(3), of "0x400"] by auto
  have "list_result L (Inr (reply_status resp, resp)) = List_Complete (Some (map (list_print L) ids)) None"
    using assms(4) by (simp add: list_result_def)
  with moc_list_call [OF platform_docD(1) [OF docs] 1(1), of L] have
    "verimark_moc_list P L (dev, w) = Some (report (List_Complete (Some (map (list_print L) ids)) None) (dev1\<lparr>task_ssm := None\<rparr>), w1)" by simp
  moreover have "idle evs a' (report (List_Complete (Some (map (list_print L) ids)) None) (dev1\<lparr>task_ssm := None\<rparr>), w1)"
    by (rule local [OF 1(2)]) (simp add: report_def)
  ultimately show ?thesis using same_op_fields [OF moc_send_same [OF 1(1)]] by (simp add: report_def)
qed

lemma delete_runs:
  assumes "idle evs a (dev, w)" "delete_target print = Some target"
    and "app a (del_info_cmd target) = (resp, a1)" "length resp \<le> 483" "36 \<le> length resp"
    and "app a1 (del_delete_cmd (take 16 (drop 20 resp))) = (resp', a')" "length resp' \<le> 483"
  shows "\<exists>dev' w'. verimark_moc_delete P print (dev, w) = Some (dev', w') \<and> idle evs a' (dev', w')
    \<and> reports dev' = reports dev @ [Delete_Complete None]"
proof -
  let ?c = "take 16 (drop 20 resp)"
  have "length target = 16" using assms(2) by (auto simp: delete_target_def split: option.split_asm if_split_asm)
  then have len: "length (del_info_cmd target) \<le> 32739" "length (del_delete_cmd ?c) \<le> 32739"
    by (simp_all add: del_info_cmd_def del_delete_cmd_def)
  obtain dev1 w1 where 1: "verimark_moc_send P (del_info_cmd target) 0x34 (dev, w) = Some (Inr (reply_status resp, resp), dev1, w1)"
    "idle evs a1 (dev1, w1)" using send [OF assms(1,3) len(1) assms(4), of "0x34"] by auto
  obtain dev2 w2 where 2: "verimark_moc_send P (del_delete_cmd ?c) 4 (dev1, w1) = Some (Inr (reply_status resp', resp'), dev2, w2)"
    "idle evs a' (dev2, w2)" using send [OF 1(2) assms(6) len(2) assms(7), of 4] by auto
  have "delete_calls P target (dev, w) = Some (Inr (), dev2, w2)"
    using 1(1) 2(1) obj_info_Inr [of resp ?c] assms(5) by (simp add: delete_calls_def)
  then have "verimark_moc_delete P print (dev, w) = Some (report (Delete_Complete None) (dev2\<lparr>task_ssm := None\<rparr>), w2)"
    using moc_delete_calls [OF platform_docD(1) [OF docs] assms(2), of dev w] by (simp add: verimark_delete_ssm_done_def)
  moreover have "idle evs a' (report (Delete_Complete None) (dev2\<lparr>task_ssm := None\<rparr>), w2)" by (rule local [OF 2(2)]) (simp add: report_def)
  ultimately show ?thesis
    using same_op_fields [OF moc_send_same [OF 1(1)]] same_op_fields [OF moc_send_same [OF 2(1)]] by (simp add: report_def)
qed

lemma clear_runs:
  assumes "idle evs a (dev, w)" "app a [VERIMARK_CMD_DB2_FORMAT, 0x01] = (resp, a')" "length resp \<le> 483"
  shows "\<exists>dev' w'. verimark_moc_clear P (dev, w) = Some (dev', w') \<and> idle evs a' (dev', w')
    \<and> reports dev' = reports dev @ [Clear_Storage_Complete None]"
proof -
  obtain dev1 w1 where 1: "verimark_moc_send P [VERIMARK_CMD_DB2_FORMAT, 0x01] 4 (dev, w) =
      Some (Inr (reply_status resp, resp), dev1, w1)" "idle evs a' (dev1, w1)"
    using send [OF assms(1,2) _ assms(3), of 4] by auto
  from moc_clear_call [OF platform_docD(1) [OF docs] 1(1)] have
    "verimark_moc_clear P (dev, w) = Some (report (Clear_Storage_Complete None) (dev1\<lparr>task_ssm := None\<rparr>), w1)" by simp
  moreover have "idle evs a' (report (Clear_Storage_Complete None) (dev1\<lparr>task_ssm := None\<rparr>), w1)" by (rule local [OF 1(2)]) (simp add: report_def)
  ultimately show ?thesis using same_op_fields [OF moc_send_same [OF 1(1)]] by (simp add: report_def)
qed

end

subsection \<open>Against a sample sensor\<close>

definition storage_sensor :: "bytes \<Rightarrow> bytes" where
  "storage_sensor cmd =
     (if cmd = [VERIMARK_CMD_DB2_GET_OBJ_LIST, 0x01] then obj_list_enc 0 [replicate 16 5]
      else if hd cmd = VERIMARK_CMD_DB2_GET_OBJ_INFO then [0, 0] @ replicate 18 0 @ replicate 16 6
      else [0x05, 0x04])"

lemma length_storage_sensor: "length (storage_sensor cmd) \<le> 512"
  by (simp add: storage_sensor_def obj_list_enc_def)

definition listed_print :: fp_print where
  "listed_print = \<lparr>fpi_type = FPI_PRINT_RAW, fpi_data = Some (Print_Data 1 zero16 (replicate 16 5) []),
     description = [], device_stored = True\<rparr>"

lemma storage_idle: "idle [] (plain_device, world0)"
  using idle_start [of "[]"] by (simp add: idle_def world0_def)

lemma storage_sensor_list: "storage_sensor [VERIMARK_CMD_DB2_GET_OBJ_LIST, 0x01] = obj_list_enc 0 [replicate 16 5]"
  by (simp add: storage_sensor_def)

lemma storage_sensor_delete:
  "storage_sensor (del_info_cmd (replicate 16 5)) = [0, 0] @ replicate 18 0 @ replicate 16 6"
  "storage_sensor (del_delete_cmd (replicate 16 6)) = [0x05, 0x04]"
  by (simp_all add: storage_sensor_def del_info_cmd_def del_delete_cmd_def VERIMARK_CMD_DB2_GET_OBJ_LIST_def
      VERIMARK_CMD_DB2_GET_OBJ_INFO_def VERIMARK_CMD_DB2_DELETE_OBJ_def)

lemma storage_sensor_object:
  "36 \<le> length (storage_sensor (del_info_cmd (replicate 16 5)))"
  "take 16 (drop 20 (storage_sensor (del_info_cmd (replicate 16 5)))) = replicate 16 6"
  unfolding storage_sensor_delete(1) by simp_all

text \<open>The two commands of a delete, the second one refused.\<close>

lemma delete_sends_sample:
  "\<exists>s1 w2. verimark_moc_send (answering storage_sensor) (del_info_cmd (replicate 16 5)) 0x34 (plain_device, world0) =
      Some (Inr (0, storage_sensor (del_info_cmd (replicate 16 5))), s1)
    \<and> verimark_moc_send (answering storage_sensor) (del_delete_cmd (replicate 16 6)) 4 s1 =
        Some (Inr (0x0405, [0x05, 0x04]), plain_device, w2)"
proof -
  let ?resp1 = "storage_sensor (del_info_cmd (replicate 16 5))"
  have st: "reply_status ?resp1 = 0" by (simp add: storage_sensor_delete(1) reply_status_def u16_of_le_def)
  obtain s1 where s1: "verimark_moc_send (answering storage_sensor) (del_info_cmd (replicate 16 5)) 0x34 (plain_device, world0) =
      Some (Inr (reply_status ?resp1, ?resp1), s1)" "idle [] s1" "fst s1 = plain_device"
    using idle_send [OF storage_idle, of "del_info_cmd (replicate 16 5)" storage_sensor "0x34"] length_storage_sensor
    by (auto simp: del_info_cmd_def)
  obtain s2 where "verimark_moc_send (answering storage_sensor) (del_delete_cmd (replicate 16 6)) 4 s1 =
      Some (Inr (0x0405, [0x05, 0x04]), s2)" "fst s2 = plain_device"
    using idle_send [OF s1(2), of "del_delete_cmd (replicate 16 6)" storage_sensor 4] length_storage_sensor s1(3)
    unfolding storage_sensor_delete(2) by (auto simp: del_delete_cmd_def reply_status_def u16_of_le_def)
  then show ?thesis using s1(1) st by (intro exI [of _ s1] exI [of _ "snd s2"]) (simp add: prod_eq_iff)
qed

lemma delete_run_sample:
  assumes "delete_target print = Some (replicate 16 5)"
  shows "\<exists>dev' w'. verimark_moc_delete (answering storage_sensor) print (plain_device, world0) = Some (dev', w')
    \<and> reports dev' = reports plain_device @ [Delete_Complete None]"
proof -
  let ?resp = "storage_sensor (del_info_cmd (replicate 16 5))"
  have "length ?resp = 36" unfolding storage_sensor_delete(1) by simp
  then show ?thesis
    using ans.delete_runs [OF storage_idle assms, of storage_sensor "()" ?resp "()" "[0x05, 0x04]" "()"] storage_sensor_object(2)
      storage_sensor_delete(2) by auto
qed

lemma list_run:
  assumes "f [VERIMARK_CMD_DB2_GET_OBJ_LIST, 0x01] = obj_list_enc 0 [replicate 16 5]"
  shows "\<exists>dev' w'. verimark_moc_list (answering f) L (plain_device, world0) = Some (dev', w')
    \<and> reports dev' = reports plain_device @ [List_Complete (Some [list_print L (replicate 16 5)]) None]"
proof -
  have "verimark_moc_parse_obj_list (Some (obj_list_enc 0 [replicate 16 5] @ [])) = Inr (0, [replicate 16 5])"
    unfolding parse_obj_list_accepts by auto
  then have "verimark_moc_parse_obj_list (moc_ptr (obj_list_enc 0 [replicate 16 5])) = Inr (0, [replicate 16 5])"
    by (simp add: moc_ptr_def obj_list_enc_def)
  moreover have "length (obj_list_enc 0 [replicate 16 5]) \<le> 483" by (simp add: obj_list_enc_def)
  ultimately show ?thesis
    using ans.list_runs [OF storage_idle, of f "()" "obj_list_enc 0 [replicate 16 5]" "()" "[replicate 16 5]" L] assms by auto
qed

subsection \<open>Properties\<close>

text \<open>C26: A list always ends with one completion, a list of prints or an error. A list of prints comes
  from one reply to the list command, of status 0, that is a well-formed object list, and has one
  print per object, in order, whose listed id is the object and whose minted id is unknown.\<close>

theorem verimark_moc_list_sound:
  assumes "platform_doc P T"
  shows "\<exists>dev' w' q e. verimark_moc_list P L (dev, w) = Some (dev', w') \<and> reports dev' = reports dev @ [List_Complete q e]
    \<and> (q = None \<longleftrightarrow> e \<noteq> None)
    \<and> (\<forall>ps. q = Some ps \<longrightarrow> (\<exists>st resp ids rest.
         moc_path P (dev, w) [Replied [VERIMARK_CMD_DB2_GET_OBJ_LIST, 0x01] st resp] (dev', w')
         \<and> resp = obj_list_enc 0 ids @ rest \<and> (\<forall>v. v \<in> set ids \<longrightarrow> length v = 16) \<and> ps = map (list_print L) ids))"
  by (rule list_reply [OF assms])

lemma verimark_moc_list_sound_witness:
  "\<exists>s'. verimark_moc_list (answering storage_sensor) \<lparr>print_new = listed_print, fill_from_user_id = \<lambda>p _. p\<rparr>
     (plain_device, world0) = Some s'"
  using verimark_moc_list_sound [OF answering_doc] by blast

text \<open>What a delete that starts from the id \<open>target\<close> has done when it completes with \<open>e\<close>, and what one
  that is refused does.\<close>

definition deletes_object :: "'w platform \<Rightarrow> bytes \<Rightarrow> verimark \<times> 'w \<Rightarrow> gerror option \<Rightarrow> verimark \<times> 'w \<Rightarrow> bool" where
  "deletes_object P target s e s' \<longleftrightarrow> e \<noteq> None \<or> (\<exists>st1 resp1 st2 resp2. 36 \<le> length resp1
     \<and> moc_path P s [Replied (del_info_cmd target) st1 resp1, Replied (del_delete_cmd (take 16 (drop 20 resp1))) st2 resp2] s')"

definition refuses_delete :: "verimark \<times> 'w \<Rightarrow> gerror option \<Rightarrow> verimark \<times> 'w \<Rightarrow> bool" where
  "refuses_delete s e s' \<longleftrightarrow> snd s' = snd s \<and> d_tls (fst s') = d_tls (fst s)
     \<and> e = Some (Device_Error DEVICE_DATA_INVALID ''no usable on-device id stored for this print'' [])"

text \<open>C27: A delete always ends, with one completion. For a print that carries a minted and a listed id of
  16 bytes each it starts from the listed id, unless that is all zero; then from the minted id,
  unless that is all zero as well. For a print with neither, or without print data of this driver,
  it sends nothing and fails. Without an error it has asked for the object of the id it starts from
  and has sent the delete command for the id at bytes 20 to 35 of that reply.\<close>

theorem verimark_moc_delete_sound:
  assumes "platform_doc P T"
  shows "\<exists>dev' w' e. verimark_moc_delete P print (dev, w) = Some (dev', w') \<and> reports dev' = reports dev @ [Delete_Complete e]
    \<and> (\<forall>p fg minted listed uid. print = Some p \<longrightarrow> fpi_data p = Some (Print_Data fg minted listed uid)
         \<longrightarrow> length minted = 16 \<longrightarrow> length listed = 16 \<longrightarrow>
           (listed \<noteq> replicate 16 0 \<longrightarrow> deletes_object P listed (dev, w) e (dev', w'))
         \<and> (listed = replicate 16 0 \<and> minted \<noteq> replicate 16 0 \<longrightarrow> deletes_object P minted (dev, w) e (dev', w'))
         \<and> (listed = replicate 16 0 \<and> minted = replicate 16 0 \<longrightarrow> refuses_delete (dev, w) e (dev', w')))
    \<and> ((\<nexists>p fg minted listed uid. print = Some p \<and> fpi_data p = Some (Print_Data fg minted listed uid)
           \<and> length minted = 16 \<and> length listed = 16) \<longrightarrow> refuses_delete (dev, w) e (dev', w'))"
proof -
  from delete_reply [OF assms, of print dev w] obtain dev' w' e where
    run: "verimark_moc_delete P print (dev, w) = Some (dev', w')" "reports dev' = reports dev @ [Delete_Complete e]"
    and cases: "case delete_target print of None \<Rightarrow> refuses_delete (dev, w) e (dev', w')
      | Some target \<Rightarrow> deletes_object P target (dev, w) e (dev', w')"
    unfolding deletes_object_def refuses_delete_def fst_conv snd_conv by blast
  have "delete_target print = None" if "\<nexists>p fg minted listed uid. print = Some p
      \<and> fpi_data p = Some (Print_Data fg minted listed uid) \<and> length minted = 16 \<and> length listed = 16"
    using that by (auto simp: delete_target_def verimark_parse_print_data_def bind_eq_Some_conv split: option.split gvariant.split)
  moreover have "delete_target print = (if listed \<noteq> replicate 16 0 then Some listed
      else if minted \<noteq> replicate 16 0 then Some minted else None)"
    if "print = Some p" "fpi_data p = Some (Print_Data fg minted listed uid)" "length minted = 16" "length listed = 16"
    for p fg minted listed uid
    using that by (simp add: delete_target_def verimark_parse_print_data_def zero16_def)
  ultimately show ?thesis using run cases by fastforce
qed

text \<open>A print with both ids: the delete goes by the listed one.\<close>

lemma verimark_moc_delete_sound_witness:
  "\<exists>dev' w' st1 resp1 st2 resp2. verimark_moc_delete (answering storage_sensor)
       (Some (listed_print\<lparr>fpi_data := Some (Print_Data 1 (replicate 16 9) (replicate 16 5) [])\<rparr>)) (plain_device, world0) = Some (dev', w')
    \<and> reports dev' = [Delete_Complete None]
    \<and> moc_path (answering storage_sensor) (plain_device, world0) [Replied (del_info_cmd (replicate 16 5)) st1 resp1,
         Replied (del_delete_cmd (take 16 (drop 20 resp1))) st2 resp2] (dev', w')"
proof -
  let ?p = "listed_print\<lparr>fpi_data := Some (Print_Data 1 (replicate 16 9) (replicate 16 5) [])\<rparr>"
  have start: "reports plain_device = []" by (simp add: plain_device_def dev_init_def)
  have "delete_target (Some ?p) = Some (replicate 16 5)"
    by (simp add: delete_target_def verimark_parse_print_data_def zero16_def)
  from delete_run_sample [OF this] obtain dev' w' where
    run: "verimark_moc_delete (answering storage_sensor) (Some ?p) (plain_device, world0) = Some (dev', w')"
      "reports dev' = [Delete_Complete None]" using start by auto
  from verimark_moc_delete_sound [OF answering_doc, of storage_sensor "Some ?p" plain_device world0] run start
  have "deletes_object (answering storage_sensor) (replicate 16 5) (plain_device, world0) None (dev', w')" by auto
  with run show ?thesis unfolding deletes_object_def by blast
qed

text \<open>C39: Neither delete nor clear looks at the status of a reply: as soon as the replies arrive (and the
  first one of a delete is long enough to hold the id), they complete without an error, so a
  delete or a clear that the sensor refused is reported as done.\<close>

theorem storage_status_ignored:
  assumes "fpi_ssm_doc (fpi P)" "delete_target print = Some target"
    and "verimark_moc_send P (del_info_cmd target) 0x34 (dev, w) = Some (Inr (st1, resp1), s1)" "36 \<le> length resp1"
    and "verimark_moc_send P (del_delete_cmd (take 16 (drop 20 resp1))) 4 s1 = Some (Inr (st2, resp2), dev2, w2)"
    and "verimark_moc_send P [VERIMARK_CMD_DB2_FORMAT, 0x01] 4 (dev, w) = Some (Inr (st3, resp3), dev3, w3)"
  shows "verimark_moc_delete P print (dev, w) = Some (report (Delete_Complete None) (dev2\<lparr>task_ssm := None\<rparr>), w2)
    \<and> verimark_moc_clear P (dev, w) = Some (report (Clear_Storage_Complete None) (dev3\<lparr>task_ssm := None\<rparr>), w3)"
proof
  have "delete_calls P target (dev, w) = Some (Inr (), dev2, w2)"
    using assms(3-5) by (simp add: delete_calls_def iffD2 [OF obj_info_Inr])
  then show "verimark_moc_delete P print (dev, w) = Some (report (Delete_Complete None) (dev2\<lparr>task_ssm := None\<rparr>), w2)"
    by (simp add: moc_delete_calls [OF assms(1,2)] verimark_delete_ssm_done_def)
  show "verimark_moc_clear P (dev, w) = Some (report (Clear_Storage_Complete None) (dev3\<lparr>task_ssm := None\<rparr>), w3)"
    using moc_clear_call [OF assms(1,6)] by simp
qed

lemma storage_status_ignored_witness:
  "\<exists>s1 s2 dev2 w2. verimark_moc_send (answering storage_sensor) (del_delete_cmd (replicate 16 6)) 4 s1 = Some (Inr (0x0405, [0x05, 0x04]), s2)
    \<and> verimark_moc_delete (answering storage_sensor) (Some listed_print) (plain_device, world0) = Some (report (Delete_Complete None) dev2, w2)"
proof -
  have target: "delete_target (Some listed_print) = Some (replicate 16 5)"
    by (simp add: delete_target_def listed_print_def verimark_parse_print_data_def zero16_def)
  from delete_sends_sample obtain s1 w2 where
    1: "verimark_moc_send (answering storage_sensor) (del_info_cmd (replicate 16 5)) 0x34 (plain_device, world0) =
      Some (Inr (0, storage_sensor (del_info_cmd (replicate 16 5))), s1)"
    and 2: "verimark_moc_send (answering storage_sensor) (del_delete_cmd (replicate 16 6)) 4 s1 =
        Some (Inr (0x0405, [0x05, 0x04]), plain_device, w2)" by blast
  obtain st3 resp3 dev3 w3 where
    "verimark_moc_send (answering storage_sensor) [VERIMARK_CMD_DB2_FORMAT, 0x01] 4 (plain_device, world0) = Some (Inr (st3, resp3), dev3, w3)"
    using idle_send [OF storage_idle, of "[VERIMARK_CMD_DB2_FORMAT, 0x01]" storage_sensor 4] length_storage_sensor by auto
  from storage_status_ignored [OF _ target 1 storage_sensor_object(1) 2 [folded storage_sensor_object(2)] this] sample_ssm_doc 2
  show ?thesis by fastforce
qed

end
