(* ===== verification/Driver.thy ===== *)
theory Driver
  imports Enroll_Runs Verify Storage
begin

text \<open>
  The driver as libfprint sees it: the virtual functions of \<open>verimark.c\<close>, and sequences of requests
  to them. The invariant of the device object is kept by every request, and every request is
  answered with exactly one completion of its kind.
\<close>

subsection \<open>The virtual functions\<close>

text \<open>A request, with what the getters \<open>fpi_device_get_*_data\<close> give for it.\<close>

datatype request =
    Open
  | Close
  | Do_Enroll fp_print
  | Do_Verify "fp_print option"
  | Do_Identify "fp_print list option"
  | Do_List
  | Do_Delete "fp_print option"
  | Do_Clear

text \<open>The parts of libfprint the driver calls into, and the fuel of an enrollment.\<close>

record fpi_lib =
  generate_user_id :: "fp_print \<Rightarrow> string"
  make_print :: print_lib
  enroll_fuel :: nat

definition dev_vfunc :: "'w platform \<Rightarrow> fpi_lib \<Rightarrow> request \<Rightarrow> verimark \<times> 'w \<Rightarrow> (verimark \<times> 'w) option" where
  "dev_vfunc P E req s =
     (case req of
        Open \<Rightarrow> Some (dev_open P s)
      | Close \<Rightarrow> Some (dev_close P s)
      | Do_Enroll print \<Rightarrow> verimark_moc_enroll P (generate_user_id E) (enroll_fuel E) print s
      | Do_Verify print \<Rightarrow> verimark_moc_verify P \<lparr>verify_data = print, identify_data = None\<rparr> s
      | Do_Identify prints \<Rightarrow> verimark_moc_identify P \<lparr>verify_data = None, identify_data = prints\<rparr> s
      | Do_List \<Rightarrow> verimark_moc_list P (make_print E) s
      | Do_Delete print \<Rightarrow> verimark_moc_delete P print s
      | Do_Clear \<Rightarrow> verimark_moc_clear P s)"

text \<open>\<open>dev_cancel\<close> does nothing: the transfers see the cancellation themselves (theory \<open>Cancel\<close>).\<close>

definition dev_cancel :: "verimark \<times> 'w \<Rightarrow> verimark \<times> 'w" where
  "dev_cancel s = s"

subsection \<open>The class\<close>

definition VERIMARK_VID :: u16 where "VERIMARK_VID = 0x047d"
definition VERIMARK_PID :: u16 where "VERIMARK_PID = 0x00f2"

text \<open>The table ends with an entry of zeros.\<close>

definition id_table :: "(u16 \<times> u16) list" where
  "id_table = [(VERIMARK_VID, VERIMARK_PID), (0, 0)]"

datatype device_type = FP_DEVICE_TYPE_VIRTUAL | FP_DEVICE_TYPE_UDEV | FP_DEVICE_TYPE_USB
datatype scan_type = FP_SCAN_TYPE_SWIPE | FP_SCAN_TYPE_PRESS

text \<open>The members of \<open>FpDeviceClass\<close> the driver sets.\<close>

record 'w fp_device_class =
  class_id :: string
  full_name :: string
  class_type :: device_type
  class_id_table :: "(u16 \<times> u16) list"
  class_scan_type :: scan_type
  nr_enroll_stages :: nat
  features :: "feature list"
  vfunc :: "request \<Rightarrow> verimark \<times> 'w \<Rightarrow> (verimark \<times> 'w) option"
  cancel :: "verimark \<times> 'w \<Rightarrow> verimark \<times> 'w"

definition fpi_device_verimark_class_init :: "'w platform \<Rightarrow> fpi_lib \<Rightarrow> 'w fp_device_class" where
  "fpi_device_verimark_class_init P E =
     \<lparr>class_id = ''verimark'', full_name = ''Kensington VeriMark Desktop (Synaptics Tudor MOC)'',
      class_type = FP_DEVICE_TYPE_USB, class_id_table = id_table, class_scan_type = FP_SCAN_TYPE_PRESS,
      nr_enroll_stages = VERIMARK_ENROLL_STAGES, features = class_features,
      vfunc = dev_vfunc P E, cancel = dev_cancel\<rparr>"

subsection \<open>What requests rely on and keep\<close>

text \<open>Between two requests no machine is running.\<close>

definition dev_wf :: "verimark \<Rightarrow> bool" where
  "dev_wf dev \<longleftrightarrow> enroll_stage dev \<le> VERIMARK_ENROLL_STAGES \<and> length (enroll_template_id dev) = 16
     \<and> task_ssm dev = None"

definition dev_inv :: "crypto \<Rightarrow> verimark \<Rightarrow> bool" where
  "dev_inv C dev \<longleftrightarrow> dev_wf dev \<and> (dev_closed dev \<or> dev_opened C dev)"

text \<open>libfprint opens a device that is closed, and asks for anything else while it is open.\<close>

definition admissible :: "request \<Rightarrow> verimark \<Rightarrow> bool" where
  "admissible req dev \<longleftrightarrow> (if req = Open then d_tls dev = None else d_tls dev \<noteq> None)"

definition completes :: "request \<Rightarrow> report \<Rightarrow> bool" where
  "completes req r =
     (case r of
        Open_Complete _ \<Rightarrow> req = Open
      | Close_Complete _ \<Rightarrow> req = Close
      | Enroll_Complete _ _ \<Rightarrow> (\<exists>p. req = Do_Enroll p)
      | Verify_Complete _ \<Rightarrow> (\<exists>p. req = Do_Verify p)
      | Identify_Complete _ \<Rightarrow> (\<exists>ps. req = Do_Identify ps)
      | List_Complete _ _ \<Rightarrow> req = Do_List
      | Delete_Complete _ \<Rightarrow> (\<exists>p. req = Do_Delete p)
      | Clear_Storage_Complete _ \<Rightarrow> req = Do_Clear
      | _ \<Rightarrow> False)"

definition is_completion :: "report \<Rightarrow> bool" where
  "is_completion r \<longleftrightarrow> (\<exists>req. completes req r)"

lemma is_completion_simps [simp]:
  "is_completion (Open_Complete e)" "is_completion (Close_Complete e)" "is_completion (Enroll_Complete q e)"
  "is_completion (Verify_Complete e)" "is_completion (Identify_Complete e)" "is_completion (List_Complete l e)"
  "is_completion (Delete_Complete e)" "is_completion (Clear_Storage_Complete e)"
  "\<not> is_completion (Enroll_Progress n e)" "\<not> is_completion (Verify_Report m q e)" "\<not> is_completion (Identify_Report q q2 e)"
  by (auto simp: is_completion_def completes_def)

subsection \<open>The session survives commands\<close>

definition same_session :: "tls \<Rightarrow> tls \<Rightarrow> bool" where
  "same_session t t' \<longleftrightarrow> (\<exists>a b. t' = t\<lparr>t_encr_seq := a, t_decr_seq := b\<rparr>)"

lemma same_session_refl [simp]: "same_session t t"
  by (cases t) (simp add: same_session_def)

lemma same_session_trans: "same_session a b \<Longrightarrow> same_session b c \<Longrightarrow> same_session a c"
  by (cases a) (auto simp: same_session_def)

lemma same_session_seq [simp]: "same_session t (t'\<lparr>t_encr_seq := a\<rparr>) \<longleftrightarrow> same_session t t'"
  "same_session t (t'\<lparr>t_decr_seq := a\<rparr>) \<longleftrightarrow> same_session t t'"
  by (cases t; cases t'; simp add: same_session_def)+

lemma wrap_session: "verimark_tls_wrap P (t, w) plain = (r, t', w') \<Longrightarrow> same_session t t'"
  by (auto simp: verimark_tls_wrap_def bind_st_def split: if_split_asm prod.split_asm sum.split_asm)

lemma unwrap_record_session:
  assumes "unwrap_record C ct frag s = (r, s')" "same_session t (snd s)"
  shows "same_session t (snd s')"
proof -
  obtain out t1 where s: "s = (out, t1)" by fastforce
  show ?thesis
    using assms
    by (cases "verimark_tls_gcm_unwrap C (decr_key (t_keys t1)) (decr_iv (t_keys t1)) (t_decr_seq t1) ct frag")
      (auto simp: unwrap_record_def s Let_def split: if_split_asm)
qed

lemma unwrap_session:
  assumes "verimark_tls_unwrap C t rcd = (r, t')"
  shows "same_session t t'"
proof (cases "t_established t")
  case True
  obtain q s where loop: "rec_loop ''unwrap'' (unwrap_record C) rcd 0 ([], t) = (q, s)"
    by (cases "rec_loop ''unwrap'' (unwrap_record C) rcd 0 ([], t)")
  have "same_session t (snd s)"
    using rec_loop_outcome [where I = "\<lambda>s. same_session t (snd s)" and Q = "\<lambda>_. True" and s = "([], t)", OF _ _ _ loop]
      unwrap_record_session by simp
  then show ?thesis using assms True loop by (cases s; cases q) (auto simp: verimark_tls_unwrap_def)
next
  case False
  then show ?thesis using assms by (simp add: verimark_tls_unwrap_def)
qed

lemma raw_resp_session:
  assumes "on_moc_raw_resp C q (dev, w) = (r, dev', w')" "d_tls dev = Some t"
  shows "\<exists>t'. d_tls dev' = Some t' \<and> same_session t t'"
proof (cases q)
  case (Inr response)
  obtain p t2 where u: "verimark_tls_unwrap C t response = (p, t2)" by fastforce
  from assms Inr u show ?thesis
    by (cases p) (auto simp: on_moc_raw_resp_def dest: unwrap_session)
qed (use assms in \<open>auto simp: on_moc_raw_resp_def\<close>)

lemma moc_send_session:
  assumes "verimark_moc_send P cmd hint (dev, w) = Some (r, dev', w')" "d_tls dev = Some t"
  shows "\<exists>t'. d_tls dev' = Some t' \<and> same_session t t'"
proof -
  obtain q t1 w1 where wrap: "verimark_tls_wrap P (t, w) cmd = (q, t1, w1)" by (metis surj_pair)
  note same = wrap_session [OF wrap]
  show ?thesis
  proof (cases q)
    case (Inl e)
    then show ?thesis using assms wrap same by (auto simp: verimark_moc_send_def)
  next
    case (Inr rcd)
    then obtain rr w2 where "on_moc_raw_resp (lib P) rr (dev\<lparr>d_tls := Some t1\<rparr>, w2) = (r, dev', w')"
      using assms wrap by (auto simp: verimark_moc_send_def)
    from raw_resp_session [OF this] show ?thesis using same by (auto intro: same_session_trans)
  qed
qed

text \<open>A path of commands leaves the connection as it is, but for the sequence numbers of its session.\<close>

definition same_connection :: "verimark \<Rightarrow> verimark \<Rightarrow> bool" where
  "same_connection dev dev' \<longleftrightarrow> d_iface dev' = d_iface dev \<and> d_ep_intr_in dev' = d_ep_intr_in dev
     \<and> d_sid dev' = d_sid dev \<and> d_pairing dev' = d_pairing dev
     \<and> (\<forall>t. d_tls dev = Some t \<longrightarrow> (\<exists>t'. d_tls dev' = Some t' \<and> same_session t t'))"

lemma same_connection_trans: "same_connection a b \<Longrightarrow> same_connection b c \<Longrightarrow> same_connection a c"
  unfolding same_connection_def by (metis same_session_trans)

lemma moc_path_connection: "moc_path P s tr s' \<Longrightarrow> same_connection (fst s) (fst s')"
proof (induction rule: moc_path.induct)
  have send: "same_connection (fst s1) (fst s2)" if "verimark_moc_send P cmd hint s1 = Some (r, s2)" for cmd hint s1 r s2
    using that moc_send_same [of P cmd hint "fst s1" "snd s1" r "fst s2" "snd s2"]
      moc_send_session [of P cmd hint "fst s1" "snd s1" r "fst s2" "snd s2"]
    by (auto simp: same_connection_def dest: same_op_fields)
  have press: "fst s2 = fst s1" if "cap_wait_press P s1 = Some (r, s2)" for s1 r s2
    using that by (cases s1) (auto simp: cap_wait_press_def)
  {
    case start
    then show ?case by (simp add: same_connection_def)
  next
    case (reply tr s1 cmd hint st resp s2)
    then show ?case using send same_connection_trans by blast
  next
    case (no_reply tr s1 cmd hint e s2)
    then show ?case using send same_connection_trans by blast
  next
    case (press tr s1 q s2)
    then show ?case using \<open>\<And>s1 r s2. cap_wait_press P s1 = Some (r, s2) \<Longrightarrow> fst s2 = fst s1\<close> by metis
  next
    case (no_press tr s1 r s2)
    then show ?case using \<open>\<And>s1 r s2. cap_wait_press P s1 = Some (r, s2) \<Longrightarrow> fst s2 = fst s1\<close> by metis
  }
qed (auto simp: same_connection_def)

lemma dev_opened_connection:
  assumes "dev_opened C dev" "same_connection dev dev'"
  shows "dev_opened C dev'"
proof -
  from assms(1) obtain t pd sid where t: "d_tls dev = Some t" "d_pairing dev = Some pd" "d_sid dev = Some sid"
    "t_established t" "t_pd t = pd" "authenticated C (verimark_tls_set_pairing verimark_tls_new pd) t"
    "d_iface dev = VERIMARK_IFACE" "d_ep_intr_in dev = VERIMARK_EP_INTR_IN" by (auto simp: dev_opened_def)
  from assms(2) t(1) obtain t' where t': "d_tls dev' = Some t'" "same_session t t'" by (auto simp: same_connection_def)
  then obtain a b where eq: "t' = t\<lparr>t_encr_seq := a, t_decr_seq := b\<rparr>" by (auto simp: same_session_def)
  have "authenticated C t0 t' \<longleftrightarrow> authenticated C t0 t" for t0
    unfolding eq authenticated_def session_keys_def finished_seen_def client_flight_def by simp
  then show ?thesis using t t' assms(2) by (auto simp: dev_opened_def same_connection_def eq)
qed

subsection \<open>Every request\<close>

definition answered :: "request \<Rightarrow> verimark \<Rightarrow> verimark \<Rightarrow> bool" where
  "answered req dev dev' \<longleftrightarrow> (\<exists>rs c. reports dev' = reports dev @ rs @ [c] \<and> completes req c \<and> list_all (\<lambda>r. \<not> is_completion r) rs)"

lemma answeredI:
  "reports dev' = reports dev @ rs @ [c] \<Longrightarrow> completes req c \<Longrightarrow> list_all (\<lambda>r. \<not> is_completion r) rs \<Longrightarrow> answered req dev dev'"
  unfolding answered_def by blast

lemma opened_path: "moc_path P (dev, w) tr (dev', w') \<Longrightarrow> dev_opened C dev \<Longrightarrow> dev_opened C dev'"
  using moc_path_connection [of P "(dev, w)" tr "(dev', w')"] dev_opened_connection by simp

lemma opened_report [simp]: "dev_opened C (report r dev) = dev_opened C dev" "dev_wf (report r dev) = dev_wf dev"
  "reports (report r dev) = reports dev @ [r]"
  by (simp_all add: dev_opened_def report_def dev_wf_def)

lemma opened_task [simp]: "dev_opened C (dev\<lparr>task_ssm := m\<rparr>) = dev_opened C dev"
  by (simp add: dev_opened_def)

lemma wf_task: "dev_wf dev \<Longrightarrow> dev\<lparr>task_ssm := None\<rparr> = dev"
  by (simp add: dev_wf_def)

lemma same_op_wf: "same_op dev dev' \<Longrightarrow> dev_wf dev \<Longrightarrow> dev_wf dev'"
  by (auto simp: dev_wf_def dest: same_op_fields)

lemma progress_log_completion: "progress_log log n \<Longrightarrow> list_all (\<lambda>r. \<not> is_completion r) log"
  by (induction rule: progress_log.induct) auto

lemma open_request:
  assumes "dev_inv (lib P) dev" "d_tls dev = None" "dev_open P (dev, w) = (dev', w')"
  shows "dev_inv (lib P) dev' \<and> answered Open dev dev'"
proof -
  have closed: "dev_closed dev" using assms(1,2) by (auto simp: dev_inv_def dev_opened_def)
  have "enroll_stage dev' = enroll_stage dev \<and> enroll_template_id dev' = enroll_template_id dev \<and> task_ssm dev' = task_ssm dev"
    using assms(3) by (auto simp: dev_open_def Let_def verimark_open_fail_def report_def
        split: prod.split_asm sum.split_asm option.split_asm if_split_asm)
  then have "dev_wf dev'" using assms(1) by (simp add: dev_inv_def dev_wf_def)
  with dev_open_outcome [OF assms(3) closed] show ?thesis
    by (auto simp: dev_inv_def intro!: answeredI [of _ _ "[]"] simp: completes_def)
qed

lemma close_request:
  assumes "dev_inv (lib P) dev" "dev_close P (dev, w) = (dev', w')"
  shows "dev_inv (lib P) dev' \<and> answered Close dev dev'"
proof -
  have "enroll_stage dev' = enroll_stage dev \<and> enroll_template_id dev' = enroll_template_id dev \<and> task_ssm dev' = task_ssm dev"
    using assms(2) by (auto simp: dev_close_def Let_def report_def split: prod.split_asm)
  then have "dev_wf dev'" using assms(1) by (simp add: dev_inv_def dev_wf_def)
  with dev_close_closed [of P dev w] assms(2) show ?thesis
    by (auto simp: dev_inv_def intro!: answeredI [of _ _ "[]"] simp: completes_def)
qed

lemma enroll_request:
  assumes "platform_doc P T" "dev_opened C dev" "verimark_moc_enroll P gen fuel print (dev, w) = Some (dev', w')"
  shows "dev_opened C dev' \<and> dev_wf dev' \<and> answered (Do_Enroll print) dev dev'"
proof -
  from enroll_outcome [OF assms(1,3)] obtain r dev1 log tr where
    r: "dev' = verimark_enroll_ssm_done gen print r dev1" "moc_path P (dev, w) tr (dev1, w')"
    "reports dev1 = reports dev @ log" "progress_log log (enroll_stage dev1)" "length (enroll_template_id dev1) = 16" by blast
  obtain c where c: "dev' = report c (dev1\<lparr>task_ssm := None\<rparr>)" "completes (Do_Enroll print) c"
    using r(1) by (cases r) (auto simp: verimark_enroll_ssm_done_def Let_def completes_def)
  have "dev_wf (dev1\<lparr>task_ssm := None\<rparr>)" using r(5) progress_log_le [OF r(4)] by (simp add: dev_wf_def VERIMARK_ENROLL_STAGES_def)
  with c opened_path [OF r(2) assms(2)] r(3) progress_log_completion [OF r(4)] show ?thesis
    by (auto intro!: answeredI)
qed

lemma verify_request:
  assumes "platform_doc P T" "dev_opened C dev" "dev_wf dev"
    and "verimark_moc_verify_identify_start P D ident (dev, w) = Some (dev', w')"
    and "req = (if ident then Do_Identify ps else Do_Verify p)"
  shows "dev_opened C dev' \<and> dev_wf dev' \<and> answered req dev dev'"
proof -
  from verify_log [OF assms(1), of D ident dev w] assms(4) obtain rs tr where
    r: "reports dev' = reports dev @ rs" "same_op (dev\<lparr>task_ssm := None, reports := reports dev @ rs\<rparr>) dev'" "verdict_log ident rs"
    "moc_path P (dev, w) tr (dev', w')" by auto
  have "dev_wf (dev\<lparr>task_ssm := None, reports := reports dev @ rs\<rparr>)" using assms(3) by (simp add: dev_wf_def)
  note wf = same_op_wf [OF r(2) this]
  have "\<exists>l c. rs = l @ [c] \<and> completes req c \<and> list_all (\<lambda>r. \<not> is_completion r) l"
    using r(3) unfolding verdict_log_def assms(5) vfy_verdict_def
    by (elim disjE exE conjE) (cases ident; force simp: completes_def)+
  then show ?thesis using wf opened_path [OF r(4) assms(2)] r(1) by (auto intro!: answeredI)
qed

lemma storage_request:
  assumes "platform_doc P T" "dev_opened C dev" "dev_wf dev" "dev_vfunc P E req (dev, w) = Some (dev', w')"
    and "req = Do_List \<or> req = Do_Clear \<or> (\<exists>p. req = Do_Delete p)"
  shows "dev_opened C dev' \<and> dev_wf dev' \<and> answered req dev dev'"
proof -
  have fin: "dev_opened C dev' \<and> dev_wf dev' \<and> answered req dev dev'"
    if "dev' = report c (dev1\<lparr>task_ssm := None\<rparr>)" "same_op dev dev1" "dev_opened C dev1" "completes req c" for c dev1
    using that same_op_wf [OF that(2) assms(3)] wf_task [of dev1] same_op_fields [OF that(2)]
    by (auto intro!: answeredI [of _ _ "[]"])
  have send: "same_op dev dev1 \<and> dev_opened C dev1" if "verimark_moc_send P cmd hint (dev, w) = Some (r, dev1, w1)" for cmd hint r dev1 w1
    using moc_send_same [OF that] opened_path [OF path_send [OF that] assms(2)] by simp
  note doc = platform_docD(1) [OF assms(1)]
  from assms(5) consider (l) "req = Do_List" | (c) "req = Do_Clear" | (d) p where "req = Do_Delete p" by blast
  then show ?thesis
  proof cases
    case l
    from moc_send_total [OF assms(1), of "[VERIMARK_CMD_DB2_GET_OBJ_LIST, 0x01]" "0x400" dev w] obtain r dev1 w1 where
      s: "verimark_moc_send P [VERIMARK_CMD_DB2_GET_OBJ_LIST, 0x01] 0x400 (dev, w) = Some (r, dev1, w1)" by auto
    have "completes req (list_result (make_print E) r)"
      by (auto simp: l list_result_def completes_def split: sum.split)
    with moc_list_call [OF doc s, of "make_print E"] assms(4) send [OF s] l fin show ?thesis by (auto simp: dev_vfunc_def)
  next
    case c
    from moc_send_total [OF assms(1), of "[VERIMARK_CMD_DB2_FORMAT, 0x01]" 4 dev w] obtain r dev1 w1 where
      s: "verimark_moc_send P [VERIMARK_CMD_DB2_FORMAT, 0x01] 4 (dev, w) = Some (r, dev1, w1)" by auto
    with moc_clear_call [OF doc s] assms(4) send [OF s] c fin show ?thesis
      by (auto simp: dev_vfunc_def completes_def)
  next
    case (d p)
    show ?thesis
    proof (cases "delete_target p")
      case None
      then show ?thesis
        using assms(2,4) d fin [of _ dev] wf_task [OF assms(3)] by (auto simp: dev_vfunc_def verimark_moc_delete_def completes_def)
    next
      case (Some target)
      from delete_outcome [OF assms(1) Some, of dev w] assms(4) d obtain dev1 r tr where
        "dev' = report (Delete_Complete r) (dev1\<lparr>task_ssm := None\<rparr>)" "same_op dev dev1" "moc_path P (dev, w) tr (dev', w')"
        by (auto simp: dev_vfunc_def)
      with opened_path [of P dev w tr dev' w' C] assms(2) d fin show ?thesis by (auto simp: completes_def)
    qed
  qed
qed

lemma request_ok:
  assumes "platform_doc P T" "dev_inv (lib P) dev" "admissible req dev" "dev_vfunc P E req (dev, w) = Some (dev', w')"
  shows "dev_inv (lib P) dev' \<and> answered req dev dev'"
proof -
  have wf: "dev_wf dev" using assms(2) by (simp add: dev_inv_def)
  have opened: "dev_opened (lib P) dev" if "req \<noteq> Open"
    using assms(2,3) that by (auto simp: dev_inv_def admissible_def dev_closed_def)
  show ?thesis
  proof (cases req)
    case Open
    then show ?thesis using open_request [OF assms(2), of w dev' w'] assms(3,4) by (simp add: admissible_def dev_vfunc_def)
  next
    case Close
    then show ?thesis using close_request [OF assms(2), of w dev' w'] assms(4) by (simp add: dev_vfunc_def)
  next
    case (Do_Enroll print)
    then show ?thesis
      using enroll_request [OF assms(1) opened] assms(4) by (simp add: dev_vfunc_def dev_inv_def)
  next
    case (Do_Verify print)
    then show ?thesis
      using verify_request [OF assms(1) opened wf, where ident = False and req = req and p = print] assms(4)
      by (simp add: dev_vfunc_def dev_inv_def verimark_moc_verify_def)
  next
    case (Do_Identify prints)
    then show ?thesis
      using verify_request [OF assms(1) opened wf, where ident = True and req = req and ps = prints] assms(4)
      by (simp add: dev_vfunc_def dev_inv_def verimark_moc_identify_def)
  next
    case Do_List
    then show ?thesis using storage_request [OF assms(1) opened wf assms(4)] by (simp add: dev_inv_def)
  next
    case (Do_Delete print)
    then show ?thesis using storage_request [OF assms(1) opened wf assms(4)] by (simp add: dev_inv_def)
  next
    case Do_Clear
    then show ?thesis using storage_request [OF assms(1) opened wf assms(4)] by (simp add: dev_inv_def)
  qed
qed

text \<open>Sequences of requests from the object \<open>fpi_device_verimark_init\<close> leaves (all fields zero). Between
  two requests anything can happen to the world.\<close>

inductive drv_run :: "'w platform \<Rightarrow> fpi_lib \<Rightarrow> request list \<Rightarrow> verimark \<times> 'w \<Rightarrow> bool" for P E where
  fresh: "drv_run P E [] (dev_init, w)"
| elapse: "drv_run P E reqs (dev, w) \<Longrightarrow> drv_run P E reqs (dev, w')"
| serve: "drv_run P E reqs (dev, w) \<Longrightarrow> admissible req dev \<Longrightarrow> dev_vfunc P E req (dev, w) = Some s'
    \<Longrightarrow> drv_run P E (reqs @ [req]) s'"

lemma dev_init_inv: "dev_inv C dev_init"
  by (simp add: dev_inv_def dev_wf_def dev_closed_def dev_init_def)

lemma drv_run_inv:
  assumes "platform_doc P T" "drv_run P E reqs s"
  shows "dev_inv (lib P) (fst s) \<and> list_all2 completes reqs (filter is_completion (reports (fst s)))"
  using assms(2)
proof (induction rule: drv_run.induct)
  case (fresh w)
  then show ?case by (simp add: dev_init_inv) (simp add: dev_init_def)
next
  case (elapse reqs dev w w')
  then show ?case by simp
next
  case (serve reqs dev w req s')
  obtain dev' w' where s': "s' = (dev', w')" by fastforce
  have "dev_inv (lib P) dev' \<and> answered req dev dev'"
    using request_ok [OF assms(1) _ serve.hyps(2), of E w dev' w'] serve.IH serve.hyps(3) s' by simp
  moreover from this obtain rs c where "reports dev' = reports dev @ rs @ [c]" "completes req c" "list_all (\<lambda>r. \<not> is_completion r) rs"
    by (auto simp: answered_def)
  moreover have "filter is_completion rs = []" using calculation(4) by (simp add: filter_empty_conv list_all_iff)
  moreover have "is_completion c" using calculation(3) by (auto simp: is_completion_def)
  ultimately show ?case
    using serve.IH by (auto simp: s' intro!: list_all2_appendI)
qed

lemma vfunc_total:
  assumes "platform_doc P T" "\<And>p. req \<noteq> Do_Enroll p"
  shows "\<exists>s'. dev_vfunc P E req (dev, w) = Some s'"
proof (cases req)
  case (Do_Verify print)
  then show ?thesis using verify_log [OF assms(1), of "\<lparr>verify_data = print, identify_data = None\<rparr>" False dev w]
    by (simp add: dev_vfunc_def verimark_moc_verify_def) blast
next
  case (Do_Identify prints)
  then show ?thesis using verify_log [OF assms(1), of "\<lparr>verify_data = None, identify_data = prints\<rparr>" True dev w]
    by (simp add: dev_vfunc_def verimark_moc_identify_def) blast
next
  case Do_List
  then show ?thesis using list_outcome [OF assms(1), of "make_print E" dev w] by (auto simp: dev_vfunc_def)
next
  case (Do_Delete print)
  then show ?thesis
    using delete_outcome [OF assms(1), of print _ dev w]
    by (cases "delete_target print") (auto simp: dev_vfunc_def verimark_moc_delete_def)
next
  case Do_Clear
  from moc_send_total [OF assms(1), of "[VERIMARK_CMD_DB2_FORMAT, 0x01]" 4 dev w] obtain r dev1 w1 where
    "verimark_moc_send P [VERIMARK_CMD_DB2_FORMAT, 0x01] 4 (dev, w) = Some (r, dev1, w1)" by auto
  from moc_clear_call [OF platform_docD(1) [OF assms(1)] this] Do_Clear show ?thesis by (simp add: dev_vfunc_def)
qed (use assms(2) in \<open>auto simp: dev_vfunc_def\<close>)

subsection \<open>Prints handed to libfprint\<close>

definition print_lib_doc :: "print_lib \<Rightarrow> bool" where
  "print_lib_doc L \<longleftrightarrow> (\<forall>p u. fpi_data (fill_from_user_id L p u) = fpi_data p \<and> fpi_type (fill_from_user_id L p u) = fpi_type p
     \<and> device_stored (fill_from_user_id L p u) = device_stored p)"

lemma list_print_fields:
  "print_lib_doc L \<Longrightarrow> fpi_data (list_print L gid) = Some (Print_Data 1 zero16 gid (label_bytes (list_label gid)))
    \<and> fpi_type (list_print L gid) = FPI_PRINT_RAW \<and> device_stored (list_print L gid)"
  by (simp add: list_print_def print_lib_doc_def Let_def verimark_build_print_data_def)

lemma listed_target:
  "print_lib_doc L \<Longrightarrow> length gid = 16 \<Longrightarrow> delete_target (Some (list_print L gid)) = (if gid = zero16 then None else Some gid)"
  by (simp add: delete_target_def list_print_fields verimark_parse_print_data_def zero16_def)

definition print_ok :: "fp_print \<Rightarrow> bool" where
  "print_ok p \<longleftrightarrow> fpi_type p = FPI_PRINT_RAW \<and> device_stored p \<and> Option.bind (fpi_data p) verimark_parse_print_data \<noteq> None"

fun report_prints :: "report \<Rightarrow> fp_print list" where
  "report_prints (Enroll_Complete (Some p) e) = [p]"
| "report_prints (List_Complete (Some ps) e) = ps"
| "report_prints _ = []"

lemma enroll_print_ok:
  assumes "platform_doc P T" "verimark_moc_enroll P gen fuel print (dev, w) = Some (dev', w')"
  shows "\<exists>rs. reports dev' = reports dev @ rs \<and> (\<forall>r \<in> set rs. list_all print_ok (report_prints r))"
proof -
  have log: "progress_log log n \<Longrightarrow> \<forall>r \<in> set log. report_prints r = []" for log n
    by (induction rule: progress_log.induct) auto
  from enroll_outcome [OF assms] obtain r dev1 log where
    "dev' = verimark_enroll_ssm_done gen print r dev1" "reports dev1 = reports dev @ log"
    "progress_log log (enroll_stage dev1)" "length (enroll_template_id dev1) = 16" by blast
  then show ?thesis
    using log [of log "enroll_stage dev1"]
    by (cases r) (auto simp: verimark_enroll_ssm_done_def report_def Let_def print_ok_def verimark_build_print_data_def
        verimark_parse_print_data_def zero16_def)
qed

lemma list_prints_ok:
  assumes "platform_doc P T" "print_lib_doc L" "verimark_moc_list P L (dev, w) = Some (dev', w')"
  shows "\<exists>rs. reports dev' = reports dev @ rs \<and> (\<forall>r \<in> set rs. list_all print_ok (report_prints r))"
proof -
  from list_outcome [OF assms(1), of L dev w] assms(3) obtain dev1 r where
    r: "dev' = report (list_result L r) (dev1\<lparr>task_ssm := None\<rparr>)" "same_op dev dev1" by auto
  have "list_all print_ok (report_prints (list_result L r))"
  proof (cases "bind_res r (\<lambda>(_, resp). verimark_moc_parse_obj_list (moc_ptr resp))")
    case (Inl e)
    then show ?thesis by (simp add: list_result_def)
  next
    case (Inr a)
    then obtain resp st ids where a: "a = (st, ids)" "verimark_moc_parse_obj_list (Some resp) = Inr (st, ids)"
      by (cases r; cases a) (auto simp: moc_ptr_def verimark_moc_parse_obj_list_def split: if_split_asm)
    then have "\<forall>gid \<in> set ids. length gid = 16" by (simp add: parse_obj_list_accepts)
    then show ?thesis
      using Inr a(1) list_print_fields [OF assms(2)]
      by (auto simp: list_result_def list_all_iff print_ok_def verimark_parse_print_data_def zero16_def)
  qed
  then show ?thesis using r same_op_fields [OF r(2)] by (intro exI [of _ "[list_result L r]"]) simp
qed

lemma run_prints_ok:
  assumes "platform_doc P T" "print_lib_doc (make_print E)" "drv_run P E reqs s"
  shows "\<forall>r \<in> set (reports (fst s)). list_all print_ok (report_prints r)"
  using assms(3)
proof (induction rule: drv_run.induct)
  case (fresh w)
  then show ?case by (simp add: dev_init_def)
next
  case (elapse reqs dev w w')
  then show ?case by simp
next
  case (serve reqs dev w req s')
  obtain dev' w' where s': "s' = (dev', w')" by fastforce
  note run = serve.hyps(3) [unfolded s' dev_vfunc_def]
  have "\<exists>rs. reports dev' = reports dev @ rs \<and> (\<forall>r \<in> set rs. list_all print_ok (report_prints r))"
  proof (cases "(\<exists>p. req = Do_Enroll p) \<or> req = Do_List")
    case True
    then show ?thesis using run enroll_print_ok [OF assms(1)] list_prints_ok [OF assms(1,2)] by auto
  next
    case False
    have inv: "dev_inv (lib P) dev" using drv_run_inv [OF assms(1) serve.hyps(1)] by simp
    from request_ok [OF assms(1) inv serve.hyps(2) serve.hyps(3) [unfolded s']] obtain rs c where
      r: "reports dev' = reports dev @ rs @ [c]" "completes req c" "list_all (\<lambda>r. \<not> is_completion r) rs"
      by (auto simp: answered_def)
    have "report_prints r = []" if "r \<in> set rs" for r
      using r(3) that by (induction r rule: report_prints.induct) (auto simp: list_all_iff)
    moreover have "report_prints c = []"
      using r(2) False by (induction c rule: report_prints.induct) (auto simp: completes_def)
    ultimately show ?thesis using r(1) by (intro exI [of _ "rs @ [c]"]) auto
  qed
  with serve.IH show ?case by (auto simp: s')
qed

subsection \<open>Properties\<close>

text \<open>C8: Whatever the sequence of requests, and whatever happens to the world between them, the device
  object is either closed or open with the session of an authenticated handshake, its enrollment
  stage and template id stay well-formed, no machine is left behind as the running one, and the completions reported are, in order, one per
  request, each of the request's kind.\<close>

theorem driver_runs_ok:
  assumes "platform_doc P T" "drv_run P E reqs (dev, w)"
  shows "dev_inv (lib P) dev \<and> list_all2 completes reqs (filter is_completion (reports dev))"
  using drv_run_inv [OF assms] by simp

definition sample_fpi :: fpi_lib where
  "sample_fpi = \<lparr>generate_user_id = \<lambda>_. ''FP1'', make_print = \<lparr>print_new = blank_print, fill_from_user_id = \<lambda>p _. p\<rparr>,
     enroll_fuel = 8\<rparr>"

lemma sample_fpi_doc: "print_lib_doc (make_print sample_fpi)"
  by (simp add: print_lib_doc_def sample_fpi_def)

lemma sample_run:
  "\<exists>s. drv_run (answering storage_sensor) sample_fpi [Open] s"
proof -
  have "admissible Open dev_init" by (simp add: admissible_def dev_init_def)
  from drv_run.serve [OF drv_run.fresh this, of "answering storage_sensor" sample_fpi world0] show ?thesis
    by (simp add: dev_vfunc_def) (metis surj_pair)
qed

lemma driver_runs_ok_witness:
  "\<exists>dev w c. drv_run (answering storage_sensor) sample_fpi [Open] (dev, w) \<and> dev_inv sample_crypto dev
    \<and> filter is_completion (reports dev) = [Open_Complete c]"
proof -
  obtain dev w where run: "drv_run (answering storage_sensor) sample_fpi [Open] (dev, w)" using sample_run by auto
  have inv: "dev_inv sample_crypto dev" and c: "list_all2 completes [Open] (filter is_completion (reports dev))"
    using driver_runs_ok [OF answering_doc run] by simp_all
  from c obtain r where "filter is_completion (reports dev) = [r]" "completes Open r"
    by (auto simp: list_all2_Cons1)
  with run inv show ?thesis by (cases r) (auto simp: completes_def)
qed

text \<open>C25: Every print the driver ever hands to libfprint, from an enrollment or a list, is well-typed: a
  raw print marked as stored on the device, whose data has the declared format, with two ids of 16
  bytes, so that verify, identify and delete can read it back.\<close>

theorem driver_prints_typed:
  assumes "platform_doc P T" "print_lib_doc (make_print E)" "drv_run P E reqs (dev, w)"
  shows "list_all (\<lambda>r. list_all print_ok (report_prints r)) (reports dev)"
  using run_prints_ok [OF assms] by (simp add: list_all_iff)

lemma driver_prints_typed_witness:
  "\<exists>dev w. drv_run (answering storage_sensor) sample_fpi [Open] (dev, w) \<and> list_all (\<lambda>r. list_all print_ok (report_prints r)) (reports dev)"
  using driver_prints_typed [OF answering_doc sample_fpi_doc] sample_run by (metis surj_pair)

text \<open>C24: Every request other than an enrollment ends, whatever the sensor, the bus and the clock do: no
  loop or state machine behind it needs more than the fuel the model gives it.\<close>

theorem driver_requests_end:
  assumes "platform_doc P T" "\<And>p. req \<noteq> Do_Enroll p"
  shows "\<exists>s'. dev_vfunc P E req (dev, w) = Some s'"
  by (rule vfunc_total [OF assms])

lemma driver_requests_end_witness:
  "\<exists>s'. dev_vfunc (answering storage_sensor) sample_fpi Do_Clear (plain_device, world0) = Some s'"
  using driver_requests_end [OF answering_doc, of Do_Clear] by simp

end
