(* ===== verification/Lifecycle.thy ===== *)
theory Lifecycle
  imports Link Driver
begin

text \<open>
  The driver and a sensor together, over the life of a device: it is opened (and paired, the first
  time), a finger is enrolled, the device is closed and opened again, and the finger is verified.
  The properties here are of the composition of all layers; they hold of every platform that is
  \<open>honest\<close>, and there is one (\<open>wired\<close>).
\<close>

subsection \<open>Fingers\<close>

text \<open>\<open>k\<close> presses arrive; nothing else happens.\<close>

definition pressed :: "('w, 'a) bench \<Rightarrow> nat \<Rightarrow> 'w \<Rightarrow> 'w \<Rightarrow> bool" where
  "pressed E k w w' \<longleftrightarrow> o_rx E w' = o_rx E w \<and> o_sensor E w' = o_sensor E w \<and> o_files E w' = o_files E w
     \<and> o_events E w' = o_events E w @ replicate k [0x01]"

lemma pressed_idle:
  "usb_idle E s0 F evs a (dev, w) \<Longrightarrow> pressed E k w w' \<Longrightarrow> usb_idle E s0 F (evs @ replicate k [0x01]) a (dev, w')"
  by (auto simp: usb_idle_def pressed_def at_rest_def)

text \<open>The application recognizes the finger it enrolled.\<close>

definition recognizes :: "('a \<Rightarrow> bytes \<Rightarrow> bytes \<times> 'a) \<Rightarrow> 'a \<Rightarrow> bytes \<Rightarrow> bool" where
  "recognizes app a tid \<longleftrightarrow> length (fst (app a verimark_moc_build_begin_id)) \<le> 483
     \<and> echoed (fst (app a verimark_moc_build_begin_id)) tid"

lemma recognized_verdict:
  assumes "fpi_data p = Some (Print_Data 1 tid zero16 u)" "length tid = 16"
  shows "vfy_found \<lparr>verify_data = Some p, identify_data = ps\<rparr> False \<lparr>match_status = 0, matched = True, match_template_id = tid\<rparr> = Some p"
  using assms by (auto simp: vfy_found_def print_matches_tid_iff zero16_def)

subsection \<open>Open, enroll, close, open, verify\<close>

lemma enrolls_id_length: "enrolls app a n tid a' \<Longrightarrow> length tid = 16"
proof -
  assume "enrolls app a n tid a'"
  then obtain r smp where "verimark_moc_parse_sample (moc_ptr r) = Inr smp" "sample_template_id smp = tid"
    by (auto simp: enrolls_def)
  then show ?thesis
    using parse_sample_id_length [of r smp] by (auto simp: moc_ptr_def verimark_moc_parse_sample_def split: if_splits)
qed

context usb_link begin

lemma verify_succeeds:
  assumes "captures (b_app E)" "recognizes (b_app E) a tid" "length tid = 16"
    and "fpi_data p = Some (Print_Data 1 tid zero16 u)" "usb_idle E s0 F ([0x01] # evs) a (dev, w)"
  shows "\<exists>dev' w'. verimark_moc_verify P \<lparr>verify_data = Some p, identify_data = None\<rparr> (dev, w) = Some (dev', w')
    \<and> reports dev' = reports dev @ [Verify_Report MATCH_SUCCESS (Some p) None, Verify_Complete None]"
proof -
  obtain resp a' where app: "b_app E a verimark_moc_build_begin_id = (resp, a')" by fastforce
  with assms(2) have "length resp \<le> 483" "echoed resp tid" by (simp_all add: recognizes_def)
  from verify_runs [OF assms(1,5) app this(1) echoed_parse [OF this(2)], of "\<lparr>verify_data = Some p, identify_data = None\<rparr>" False]
  show ?thesis
    using recognized_verdict [OF assms(4,3)] by (auto simp: verimark_moc_verify_def vfy_verdict_def)
qed

lemma enroll_succeeds:
  assumes "captures (b_app E)" "enrolls (b_app E) a n tid a'" "usb_idle E s0 F (replicate (n + 2) [0x01] @ evs) a (dev, w)"
  shows "\<exists>dev' w' p. verimark_moc_enroll P gen (2 * n + 8) print (dev, w) = Some (dev', w') \<and> usb_idle E s0 F evs a' (dev', w')
    \<and> reports dev' = reports dev @ progressed (Suc n) @ [Enroll_Complete (Some p) None]
    \<and> fpi_data p = Some (Print_Data 1 tid zero16 (label_bytes (gen print)))"
  by (rule enroll_runs [OF assms])

lemma enroll_never_ends:
  assumes "captures (b_app E)" "b_app E a verimark_moc_build_begin_id = (r0, a0)" "length r0 \<le> 483"
    and "b_app E a0 verimark_moc_build_enroll_create = (r1, a1)" "length r1 \<le> 483" "reply_status r1 = 0"
    and "sampled (b_app E) a1 n cov a2" "usb_idle E s0 F (replicate (n + 1) [0x01] @ evs) a (dev, w)"
  shows "verimark_moc_enroll P gen (2 * n) print (dev, w) = None"
  by (rule enroll_open_ended [OF assms])

lemma session_runs:
  assumes "usb_idle E s0 F evs a s" "\<forall>(cmd, hint) \<in> set calls. length cmd \<le> 32739 \<and> unat hint + 64 < 2 ^ 64"
    and "app_calls (b_app E) (map fst calls) a = (resps, a')" "\<forall>resp \<in> set resps. length resp \<le> 483"
  shows "\<exists>s'. moc_calls P calls s = Some (map (\<lambda>resp. Inr (reply_status resp, resp)) resps, s') \<and> usb_idle E s0 F evs a' s'"
  by (rule calls_run [OF assms])

end

text \<open>Opening again: the sensor is still paired, so the pairing file is read back.\<close>

lemma reopen_runs:
  assumes "honest P E" "usb_wf (lib P) s" "paired_with (lib P) s pd" "same_sensor (s\<lparr>u_app := a\<rparr>) s'"
    and "at_rest E s' [] F w" "s_phase (u_hs s') = 0"
    and "F (verimark_pairing_path P (version_sid (b_version E))) = Some (verimark_pairing_save pd)"
  shows "\<exists>dev' w' F'. dev_open P (dev, w) = (dev', w') \<and> reports dev' = reports dev @ [Open_Complete None]
    \<and> d_pairing dev' = Some pd \<and> usb_idle E s' F' [] a (dev', w')"
proof -
  have wf: "usb_wf (lib P) s'" using same_sensor_wf [OF assms(4)] assms(2) by (simp add: usb_wf_def)
  have s': "u_app s' = a" "paired_with (lib P) s' pd" using assms(3,4) by (simp_all add: same_sensor_def paired_with_def)
  then have known: "known_to P s' (version_sid (b_version E)) F" by (auto simp: known_to_def assms(7))
  have "[] \<notin> set (take 16 [])" by simp
  from open_runs [OF assms(1) wf assms(5,6) this known, of dev] obtain dev' w' F' pd' where 1:
    "dev_open P (dev, w) = (dev', w')" "reports dev' = reports dev @ [Open_Complete None]"
    "d_pairing dev' = Some pd'" "usb_idle E s' F' [] a (dev', w')"
    "F (verimark_pairing_path P (version_sid (b_version E))) \<in> {None, Some (verimark_pairing_save pd')}"
    "paired_with (lib P) s' pd'" unfolding s'(1) drop_Nil by blast
  have "pairing_wf pd" "pairing_wf pd'" "verimark_pairing_save pd' = verimark_pairing_save pd"
    using assms(3) 1(5,6) by (simp_all add: paired_with_def assms(7))
  then have "pd' = pd" using pairing_load_save [of pd] pairing_load_save [of pd'] by simp
  with 1(1-4) show ?thesis by blast
qed

lemma lifecycle_runs:
  assumes "honest P E"
    and "usb_wf (lib P) s" "at_rest E s evs F w" "s_phase (u_hs s) = 0" "length evs \<le> 16" "[] \<notin> set evs"
    and "known_to P s (version_sid (b_version E)) F"
    and "captures (b_app E)" "enrolls (b_app E) (u_app s) n tid a'" "recognizes (b_app E) a' tid"
  shows "\<exists>dev1 w1. dev_open P (dev, w) = (dev1, w1) \<and> reports dev1 = reports dev @ [Open_Complete None]
    \<and> (\<forall>w2. pressed E (n + 2) w1 w2 \<longrightarrow> (\<exists>dev3 w3 p.
        verimark_moc_enroll P gen (2 * n + 8) print (dev1, w2) = Some (dev3, w3)
      \<and> reports dev3 = reports dev1 @ progressed (Suc n) @ [Enroll_Complete (Some p) None]
      \<and> (\<exists>dev4 w4. dev_close P (dev3, w3) = (dev4, w4) \<and> reports dev4 = reports dev3 @ [Close_Complete None] \<and> dev_closed dev4
      \<and> (\<exists>dev5 w5. dev_open P (dev4, w4) = (dev5, w5) \<and> reports dev5 = reports dev4 @ [Open_Complete None]
        \<and> d_pairing dev5 = d_pairing dev1
      \<and> (\<forall>w6. pressed E 1 w5 w6 \<longrightarrow> (\<exists>dev7 w7.
          verimark_moc_verify P \<lparr>verify_data = Some p, identify_data = None\<rparr> (dev5, w6) = Some (dev7, w7)
        \<and> reports dev7 = reports dev5 @ [Verify_Report MATCH_SUCCESS (Some p) None, Verify_Complete None]))))))"
proof -
  note id = enrolls_id_length [OF assms(9)] and link = usb_link.intro [OF assms(1)]
  let ?path = "verimark_pairing_path P (version_sid (b_version E))"
  have evs: "[] \<notin> set (take 16 evs)" "drop 16 evs = []" using assms(5,6) in_set_takeD by fastforce+
  obtain dev1 w1 F1 pd where 1: "dev_open P (dev, w) = (dev1, w1)" "reports dev1 = reports dev @ [Open_Complete None]"
    "d_pairing dev1 = Some pd" "paired_with (lib P) s pd" "F1 = F(?path \<mapsto> verimark_pairing_save pd)"
    "usb_idle E s F1 [] (u_app s) (dev1, w1)"
    using open_runs [OF assms(1-4) evs(1) assms(7), of dev] evs(2) by auto
  have rest: "\<exists>dev3 w3 p. verimark_moc_enroll P gen (2 * n + 8) print (dev1, w2) = Some (dev3, w3)
      \<and> reports dev3 = reports dev1 @ progressed (Suc n) @ [Enroll_Complete (Some p) None]
      \<and> (\<exists>dev4 w4. dev_close P (dev3, w3) = (dev4, w4) \<and> reports dev4 = reports dev3 @ [Close_Complete None] \<and> dev_closed dev4
      \<and> (\<exists>dev5 w5. dev_open P (dev4, w4) = (dev5, w5) \<and> reports dev5 = reports dev4 @ [Open_Complete None]
        \<and> d_pairing dev5 = d_pairing dev1
      \<and> (\<forall>w6. pressed E 1 w5 w6 \<longrightarrow> (\<exists>dev7 w7.
          verimark_moc_verify P \<lparr>verify_data = Some p, identify_data = None\<rparr> (dev5, w6) = Some (dev7, w7)
        \<and> reports dev7 = reports dev5 @ [Verify_Report MATCH_SUCCESS (Some p) None, Verify_Complete None]))))"
    if "pressed E (n + 2) w1 w2" for w2
  proof -
    have "usb_idle E s F1 (replicate (n + 2) [0x01] @ []) (u_app s) (dev1, w2)"
      using pressed_idle [OF 1(6) that] by simp
    from usb_link.enroll_succeeds [OF link assms(8,9) this, of gen print] obtain dev3 w3 p where
      3: "verimark_moc_enroll P gen (2 * n + 8) print (dev1, w2) = Some (dev3, w3)" "usb_idle E s F1 [] a' (dev3, w3)"
      "reports dev3 = reports dev1 @ progressed (Suc n) @ [Enroll_Complete (Some p) None]"
      "fpi_data p = Some (Print_Data 1 tid zero16 (label_bytes (gen print)))" by blast
    from close_runs [OF assms(1,2) 3(2)] obtain dev4 w4 s4 where
      4: "dev_close P (dev3, w3) = (dev4, w4)" "dev_closed dev4" "reports dev4 = reports dev3 @ [Close_Complete None]"
      "at_rest E s4 [] F1 w4" "s_phase (u_hs s4) = 0" "same_sensor (s\<lparr>u_app := a'\<rparr>) s4" by blast
    obtain dev5 w5 F5 where 5: "dev_open P (dev4, w4) = (dev5, w5)" "reports dev5 = reports dev4 @ [Open_Complete None]"
      "d_pairing dev5 = Some pd" "usb_idle E s4 F5 [] a' (dev5, w5)"
      using reopen_runs [OF assms(1,2) 1(4) 4(6,4,5), of dev4] 1(5) by auto
    have "d_pairing dev5 = d_pairing dev1" using 1(3) 5(3) by simp
    moreover have "\<exists>dev7 w7. verimark_moc_verify P \<lparr>verify_data = Some p, identify_data = None\<rparr> (dev5, w6) = Some (dev7, w7)
        \<and> reports dev7 = reports dev5 @ [Verify_Report MATCH_SUCCESS (Some p) None, Verify_Complete None]"
      if "pressed E 1 w5 w6" for w6
    proof -
      have "usb_idle E s4 F5 [[0x01]] a' (dev5, w6)" using pressed_idle [OF 5(4) that] by simp
      from usb_link.verify_succeeds [OF link assms(8,10) id 3(4), of s4 F5 "[]"] this show ?thesis by simp
    qed
    ultimately show ?thesis using 3(1,3) 4(1-3) 5(1,2) by blast
  qed
  show ?thesis using 1(1,2) rest by blast
qed

subsection \<open>A platform with a sensor plugged in\<close>

record 'a usb_world = world + w_usb :: "'a usb_sensor"

abbreviation wired_step :: "('a \<Rightarrow> bytes \<Rightarrow> bytes \<times> 'a) \<Rightarrow> 'a usb_sensor \<Rightarrow> bytes \<Rightarrow> bytes \<times> 'a usb_sensor" where
  "wired_step app \<equiv> usb_step sample_crypto (replicate 38 0) (\<lambda>_. replicate 8 3) app"

definition wired :: "('a \<Rightarrow> bytes \<Rightarrow> bytes \<times> 'a) \<Rightarrow> 'a usb_world platform" where
  "wired app = sample\<lparr>
     ctrl_out := \<lambda>w req v data. (Inr (), w\<lparr>w_sent := w_sent w @ [(v, data)], w_busy := 2,
       w_pend := fst (wired_step app (w_usb w) (reassemble (w_sent w @ [(v, data)])))\<rparr>),
     ctrl_in := \<lambda>w req v n. if 0 < w_busy w then (Inl Usb_Timed_Out, w\<lparr>w_busy := w_busy w - 1\<rparr>)
       else (Inr (take n (w_pend w)), w\<lparr>w_pend := drop n (w_pend w), w_sent := [],
         w_usb := if w_sent w = [] then w_usb w else snd (wired_step app (w_usb w) (reassemble (w_sent w)))\<rparr>)\<rparr>"

definition wired_bench :: "('a \<Rightarrow> bytes \<Rightarrow> bytes \<times> 'a) \<Rightarrow> ('a usb_world, 'a) bench" where
  "wired_bench app = \<lparr>o_rx = w_sent, o_pend = w_pend, o_busy = w_busy, o_sensor = w_usb, o_events = w_events,
     o_files = w_files, o_time = sample_time, b_app = app, b_version = replicate 38 0, b_nonce = \<lambda>_. replicate 8 3\<rparr>"

lemma wired_sel [simp]: "fpi (wired app) = sample_ssm" "lib (wired app) = sample_crypto"
  "b_app (wired_bench app) = app" "o_time (wired_bench app) = sample_time" "b_version (wired_bench app) = replicate 38 0"
  by (simp_all add: wired_def wired_bench_def)

lemma wired_device:
  "frame_device (wired app) (o_rx (wired_bench app)) (o_pend (wired_bench app)) (o_busy (wired_bench app))
     (o_sensor (wired_bench app)) (bench_step (wired app) (wired_bench app))"
  by (auto simp: frame_device_def responder_def wired_def wired_bench_def sample_def split: if_splits)

lemma wired_platform: "platform_doc (wired app) sample_time"
proof -
  have "2 * n + 30000000 \<noteq> G_MAXINT64" for n :: int by (simp add: G_MAXINT64_def) presburger
  then show ?thesis
    by (auto simp: platform_doc_def sample_ssm_doc sample_crypto_docs rand_doc_def time_doc_def clock_doc_def
        sample_time_def wired_def sample_def split: list.splits)
qed

lemma wired_keys: "keys_ok (wired app)"
  by (simp add: keys_ok_def usable_def wired_def sample_def sample_crypto_def)

lemma wired_honest: "honest (wired app) (wired_bench app)"
proof -
  have "event_queue (wired app) VERIMARK_EP_INTR_IN w_events" "fs_doc (wired app) w_files" "disk_ok (wired app)" "topology_ok (wired app)"
    by (auto simp: event_queue_def fs_doc_def files_doc_def disk_ok_def topology_ok_def wired_def sample_def VERIMARK_EP_INTR_IN_def
        VERIMARK_IFACE_def split: list.splits option.splits)
  moreover have "leaves_rest (wired app) (\<lambda>w. (w_sent w, w_usb w, w_events w, w_files w))"
    "leaves_usb (wired app) (\<lambda>w. (w_events w, w_files w))" "leaves_intr (wired app) (\<lambda>w. (w_sent w, w_usb w, w_files w))"
    "leaves_files (wired app) (\<lambda>w. (w_sent w, w_usb w, w_events w))"
    by (auto simp: leaves_rest_def leaves_usb_def leaves_intr_def leaves_files_def wired_def sample_def split: list.splits)
  moreover have "sample_time (snd (mono_time (wired app) w)) < sample_time w + 30000000" for w
    by (simp add: sample_time_def wired_def sample_def)
  ultimately show ?thesis
    using wired_platform [of app] wired_device [of app] wired_keys [of app] sample_crypto_docs sample_dh
    by (simp add: honest_def wired_bench_def version_ok_def VERIMARK_GET_VERSION_RESP_LEN_def)
qed

interpretation wire: usb_link "wired dev_app" "wired_bench dev_app" s0 F for dev_app s0 F
  by unfold_locales (rule wired_honest)

text \<open>An application that needs \<open>goal\<close> samples of a finger, never enough when that is 0, and knows the
  finger from then on.\<close>

definition finger_app :: "nat \<Rightarrow> nat \<times> bool \<Rightarrow> bytes \<Rightarrow> bytes \<times> nat \<times> bool" where
  "finger_app goal = (\<lambda>(k, enrolled) cmd.
     if cmd = verimark_moc_build_begin_id then (if enrolled then match_reply else [0x09, 0x05], k, enrolled)
     else if cmd = verimark_moc_build_enroll_sample
     then (sample_reply (if Suc k = goal then 0x7f else if even k then 0x20 else 0x10), Suc k, enrolled)
     else if cmd = verimark_moc_build_enroll_commit then ([0, 0], k, True)
     else (frame_sensor cmd, k, enrolled))"

text \<open>A sensor just plugged in, with its application in state \<open>a\<close>.\<close>

definition wired_at :: "'a \<Rightarrow> 'a usb_world" where
  "wired_at a = world.extend world0 (usb_world.fields \<lparr>u_hs = sample_sensor, u_cert = sample_cert, u_peer = verimark_tls_new, u_app = a\<rparr>)"

lemma wired_at_rest:
  "at_rest (wired_bench app) (w_usb (wired_at a)) [] (\<lambda>_. None) (wired_at a)" "u_app (w_usb (wired_at a)) = a"
  "usb_wf sample_crypto (w_usb (wired_at a))" "s_phase (u_hs (w_usb (wired_at a))) = 0"
  "known_to (wired app) (w_usb (wired_at a)) sid (\<lambda>_. None)"
  using sample_cert_wf
  by (simp_all add: at_rest_def wired_bench_def wired_at_def usb_world.defs world.defs world0_def usb_wf_def
      sample_sensor_def known_to_def sample_crypto_def sample_cert_def)

lemmas finger_start = wired_at_rest [where a = "(0 :: nat, False)"]

lemma finger_captures: "captures (finger_app goal)"
  by (auto simp: captures_def finger_app_def frame_sensor_def frame_reply_ready capture_cmd_def verimark_moc_build_begin_id_def
      verimark_moc_build_enroll_sample_def verimark_moc_build_enroll_commit_def)

lemma finger_sampled:
  assumes "goal = 0 \<or> n < goal"
  shows "sampled (finger_app goal) (0, False) n (if n = 0 then 0 else if odd n then 0x20 else 0x10) (n, False)"
  using assms
proof (induction n)
  case 0
  then show ?case by (simp add: sampled_none)
next
  case (Suc n)
  let ?cov = "if even n then 0x20 else 0x10 :: byte"
  obtain smp where smp: "verimark_moc_parse_sample (moc_ptr (sample_reply ?cov)) = Inr smp" "sample_coverage smp = ?cov"
    using sample_reply_parse by blast
  have "finger_app goal (n, False) verimark_moc_build_enroll_sample = (sample_reply ?cov, Suc n, False)"
    using Suc.prems by (auto simp: finger_app_def verimark_moc_build_begin_id_def verimark_moc_build_enroll_sample_def)
  from sampled_more [OF Suc.IH this _ _ smp(1)] Suc.prems smp(2) show ?case by (auto split: if_splits)
qed

lemma finger_enrolls: "enrolls (finger_app (Suc n)) (0, False) n (replicate 16 5) (Suc n, True)"
proof -
  obtain smp where smp: "verimark_moc_parse_sample (moc_ptr (sample_reply 0x7f)) = Inr smp" "sample_coverage smp = 0x7f"
    "sample_template_id smp = replicate 16 5" using sample_reply_parse by blast
  have fin: "finger_app (Suc n) (Suc n, False) cmd = ([0, 0], Suc n, False)"
    if "length sid = 28" "verimark_moc_build_finalize (Some (replicate 16 5)) (Some sid) = Inr cmd" for sid cmd
  proof -
    from build_finalize_Inr [of "replicate 16 5" sid] that have "length cmd = 124" "cmd ! 0 = 0x96" by (auto simp: WIN_FINALIZE_def)
    moreover from this have "hd cmd = 0x96" by (metis hd_conv_nth list.size(3) zero_neq_numeral)
    ultimately show ?thesis
      by (auto simp: finger_app_def frame_sensor_def verimark_moc_build_begin_id_def verimark_moc_build_enroll_sample_def
          verimark_moc_build_enroll_commit_def VERIMARK_CMD_EVENT_READ_def)
  qed
  have step: "finger_app (Suc n) (0, False) verimark_moc_build_begin_id = ([0x09, 0x05], 0, False)"
    "finger_app (Suc n) (0, False) verimark_moc_build_enroll_create = ([0, 0], 0, False)"
    "finger_app (Suc n) (n, False) verimark_moc_build_enroll_sample = (sample_reply 0x7f, Suc n, False)"
    "finger_app (Suc n) (Suc n, False) verimark_moc_build_enroll_commit = ([0, 0], Suc n, True)"
    by (simp_all add: finger_app_def frame_sensor_def verimark_moc_build_begin_id_def verimark_moc_build_enroll_sample_def
        verimark_moc_build_enroll_commit_def verimark_moc_build_enroll_create_def VERIMARK_CMD_EVENT_READ_def)
  have "finishes (finger_app (Suc n)) (Suc n, False) (replicate 16 5) (Suc n, True)"
    unfolding finishes_def using fin step(4)
    by (intro allI impI exI [of _ "[0, 0]"] exI [of _ "(Suc n, False)"] exI [of _ "[0, 0]"]) (auto simp: u16_of_le_def)
  then show ?thesis
    using step(1-3) finger_sampled [of "Suc n" n] smp unfolding enrolls_def by (fastforce simp: u16_of_le_def)
qed

lemma finger_recognized: "recognizes (finger_app goal) (k, True) (replicate 16 5)"
  by (simp add: recognizes_def finger_app_def match_reply_echo) (simp add: match_reply_def)

subsection \<open>Properties\<close>

text \<open>C7: With a sensor plugged in, opening the device succeeds: the version is read over chunked control
  transfers, the pairing is loaded, or made with the sensor and stored if there is none, the
  handshake completes, and driver and sensor hold the two ends of one session, with the device
  idle and the interrupt events from before drained.\<close>

theorem dev_open_completes:
  assumes "honest P E" "usb_wf (lib P) s" "at_rest E s evs F w" "s_phase (u_hs s) = 0" "[] \<notin> set (take 16 evs)"
    and "known_to P s (version_sid (b_version E)) F"
  shows "\<exists>dev' w' F' pd. dev_open P (dev, w) = (dev', w') \<and> reports dev' = reports dev @ [Open_Complete None]
    \<and> dev_opened (lib P) dev' \<and> d_pairing dev' = Some pd \<and> paired_with (lib P) s pd
    \<and> F (verimark_pairing_path P (version_sid (b_version E))) \<in> {None, Some (verimark_pairing_save pd)}
    \<and> F' = F(verimark_pairing_path P (version_sid (b_version E)) \<mapsto> verimark_pairing_save pd)
    \<and> usb_idle E s F' (drop 16 evs) (u_app s) (dev', w')"
  by (rule open_runs [OF assms])

lemma dev_open_completes_witness:
  "\<exists>dev' w'. dev_open (wired (finger_app 3)) (dev_init, wired_at (0, False)) = (dev', w') \<and> reports dev' = [Open_Complete None]
    \<and> dev_opened sample_crypto dev'"
proof -
  have "reports dev_init = []" by (simp add: dev_init_def)
  with dev_open_completes [OF wired_honest _ finger_start(1,4) _ finger_start(5), of "finger_app 3" dev_init] finger_start(3)
  show ?thesis by auto
qed

lemma session_after_open:
  assumes "honest P E" "usb_wf (lib P) s" "at_rest E s evs F w" "s_phase (u_hs s) = 0" "[] \<notin> set (take 16 evs)"
    and "known_to P s (version_sid (b_version E)) F" "dev_open P (dev, w) = s1"
    and "\<forall>(cmd, hint) \<in> set calls. length cmd \<le> 32739 \<and> unat hint + 64 < 2 ^ 64"
    and "app_calls (b_app E) (map fst calls) (u_app s) = (resps, a')" "\<forall>resp \<in> set resps. length resp \<le> 483"
  shows "\<exists>dev' w'. moc_calls P calls s1 = Some (map (\<lambda>resp. Inr (reply_status resp, resp)) resps, dev', w')
    \<and> u_app (o_sensor E w') = a'"
proof -
  from open_runs [OF assms(1-6), of dev] assms(7) obtain F' where "usb_idle E s F' (drop 16 evs) (u_app s) s1" by auto
  from usb_link.session_runs [OF usb_link.intro [OF assms(1)] this assms(8-10)] show ?thesis
    by (fastforce simp: usb_idle_def at_rest_def same_sensor_def)
qed

text \<open>C3: An open device is a transparent channel: whatever commands are sent after an open, each comes
  back with exactly the reply the sensor's application gave to it, in order, and the application
  has gone through exactly these commands. The chunked transfers, the polling, the records, their
  encryption and sequence numbers refine direct calls of the application.\<close>

theorem session_refines_app:
  assumes "honest P E" "usb_wf (lib P) s" "at_rest E s evs F w" "s_phase (u_hs s) = 0" "[] \<notin> set (take 16 evs)"
    and "known_to P s (version_sid (b_version E)) F" "dev_open P (dev, w) = s1"
    and "\<forall>(cmd, hint) \<in> set calls. length cmd \<le> 32739 \<and> unat hint + 64 < 2 ^ 64"
    and "app_calls (b_app E) (map fst calls) (u_app s) = (resps, a')" "\<forall>resp \<in> set resps. length resp \<le> 483"
  shows "\<exists>dev' w'. moc_calls P calls s1 = Some (map (\<lambda>resp. Inr (reply_status resp, resp)) resps, dev', w')
    \<and> u_app (o_sensor E w') = a'"
  by (rule session_after_open [OF assms])

text \<open>An application with a memory: it answers with the command before.\<close>

definition echo_app :: "bytes \<Rightarrow> bytes \<Rightarrow> bytes \<times> bytes" where
  "echo_app a cmd = (a, cmd)"

lemmas echo_start = wired_at_rest [where a = "[] :: bytes"]

lemma session_refines_app_witness:
  "\<exists>dev' w'. moc_calls (wired echo_app) [([0x99, 1], 2), ([0x9f, 2, 3], 2)] (dev_open (wired echo_app) (dev_init, wired_at [])) =
      Some ([Inr (0, []), Inr (0x0199, [0x99, 1])], dev', w') \<and> u_app (w_usb w') = [0x9f, 2, 3]"
proof -
  have "app_calls echo_app (map fst [([0x99, 1], 2 :: u64), ([0x9f, 2, 3], 2)]) [] = ([[], [0x99, 1]], [0x9f, 2, 3])"
    by (simp add: echo_app_def)
  with session_refines_app [OF wired_honest _ echo_start(1,4) _ echo_start(5) refl, of echo_app
      "[([0x99, 1], 2), ([0x9f, 2, 3], 2)]" "[[], [0x99, 1]]" "[0x9f, 2, 3]" dev_init] echo_start(2,3)
  show ?thesis by (simp add: reply_status_def u16_of_le_def wired_bench_def)
qed

text \<open>C1: The whole life of a fingerprint: with a sensor plugged in that needs \<open>n + 1\<close> samples and then
  recognizes the finger, opening, enrolling, closing, opening again and verifying all succeed. The
  enrollment reports the stage after each sample and hands out a print; the second open finds the
  pairing of the first; and the verification of that print reports a match.\<close>

theorem lifecycle:
  assumes "honest P E" "usb_wf (lib P) s" "at_rest E s evs F w" "s_phase (u_hs s) = 0" "length evs \<le> 16" "[] \<notin> set evs"
    and "known_to P s (version_sid (b_version E)) F"
    and "captures (b_app E)" "enrolls (b_app E) (u_app s) n tid a'" "recognizes (b_app E) a' tid"
  shows "\<exists>dev1 w1. dev_open P (dev, w) = (dev1, w1) \<and> reports dev1 = reports dev @ [Open_Complete None]
    \<and> (\<forall>w2. pressed E (n + 2) w1 w2 \<longrightarrow> (\<exists>dev3 w3 p.
        verimark_moc_enroll P gen (2 * n + 8) print (dev1, w2) = Some (dev3, w3)
      \<and> reports dev3 = reports dev1 @ progressed (Suc n) @ [Enroll_Complete (Some p) None]
      \<and> (\<exists>dev4 w4. dev_close P (dev3, w3) = (dev4, w4) \<and> reports dev4 = reports dev3 @ [Close_Complete None] \<and> dev_closed dev4
      \<and> (\<exists>dev5 w5. dev_open P (dev4, w4) = (dev5, w5) \<and> reports dev5 = reports dev4 @ [Open_Complete None]
        \<and> d_pairing dev5 = d_pairing dev1
      \<and> (\<forall>w6. pressed E 1 w5 w6 \<longrightarrow> (\<exists>dev7 w7.
          verimark_moc_verify P \<lparr>verify_data = Some p, identify_data = None\<rparr> (dev5, w6) = Some (dev7, w7)
        \<and> reports dev7 = reports dev5 @ [Verify_Report MATCH_SUCCESS (Some p) None, Verify_Complete None]))))))"
  by (rule lifecycle_runs [OF assms])

lemma pressed_wired: "pressed (wired_bench app) k w (w\<lparr>w_events := w_events w @ replicate k [0x01]\<rparr>)"
  by (simp add: pressed_def wired_bench_def)

lemma lifecycle_witness:
  "\<exists>dev1 w1 dev3 w3 p dev4 w4 dev5 w5. dev_open (wired (finger_app 3)) (dev_init, wired_at (0, False)) = (dev1, w1)
    \<and> verimark_moc_enroll (wired (finger_app 3)) (\<lambda>_. ''FP1'') 12 blank_print
        (dev1, w1\<lparr>w_events := w_events w1 @ replicate 4 [0x01]\<rparr>) = Some (dev3, w3)
    \<and> dev_close (wired (finger_app 3)) (dev3, w3) = (dev4, w4)
    \<and> dev_open (wired (finger_app 3)) (dev4, w4) = (dev5, w5)
    \<and> (\<exists>dev7 w7. verimark_moc_verify (wired (finger_app 3)) \<lparr>verify_data = Some p, identify_data = None\<rparr>
          (dev5, w5\<lparr>w_events := w_events w5 @ replicate 1 [0x01]\<rparr>) = Some (dev7, w7)
        \<and> reports dev7 = reports dev5 @ [Verify_Report MATCH_SUCCESS (Some p) None, Verify_Complete None])"
proof -
  have "enrolls (finger_app 3) (u_app (w_usb (wired_at (0, False)))) 2 (replicate 16 5) (3, True)"
    using finger_enrolls [of 2] by (simp add: finger_start(2) eval_nat_numeral)
  from lifecycle [OF wired_honest _ finger_start(1,4) _ _ finger_start(5), of "finger_app 3" 2 "replicate 16 5" "(3, True)"
      dev_init "\<lambda>_. ''FP1''" blank_print, unfolded wired_sel, OF finger_start(3) _ _ finger_captures this finger_recognized]
  obtain dev1 w1 where 1: "dev_open (wired (finger_app 3)) (dev_init, wired_at (0, False)) = (dev1, w1)"
    and rest: "\<forall>w2. pressed (wired_bench (finger_app 3)) (2 + 2) w1 w2 \<longrightarrow> (\<exists>dev3 w3 p.
        verimark_moc_enroll (wired (finger_app 3)) (\<lambda>_. ''FP1'') (2 * 2 + 8) blank_print (dev1, w2) = Some (dev3, w3)
      \<and> (\<exists>dev4 w4. dev_close (wired (finger_app 3)) (dev3, w3) = (dev4, w4)
      \<and> (\<exists>dev5 w5. dev_open (wired (finger_app 3)) (dev4, w4) = (dev5, w5)
      \<and> (\<forall>w6. pressed (wired_bench (finger_app 3)) 1 w5 w6 \<longrightarrow> (\<exists>dev7 w7.
          verimark_moc_verify (wired (finger_app 3)) \<lparr>verify_data = Some p, identify_data = None\<rparr> (dev5, w6) = Some (dev7, w7)
        \<and> reports dev7 = reports dev5 @ [Verify_Report MATCH_SUCCESS (Some p) None, Verify_Complete None])))))"
    by (simp del: replicate.simps) metis
  from rest [rule_format, OF pressed_wired] obtain dev3 w3 p dev4 w4 dev5 w5 where
    3: "verimark_moc_enroll (wired (finger_app 3)) (\<lambda>_. ''FP1'') 12 blank_print
        (dev1, w1\<lparr>w_events := w_events w1 @ replicate 4 [0x01]\<rparr>) = Some (dev3, w3)"
    "dev_close (wired (finger_app 3)) (dev3, w3) = (dev4, w4)" "dev_open (wired (finger_app 3)) (dev4, w4) = (dev5, w5)"
    and last: "\<forall>w6. pressed (wired_bench (finger_app 3)) 1 w5 w6 \<longrightarrow> (\<exists>dev7 w7.
          verimark_moc_verify (wired (finger_app 3)) \<lparr>verify_data = Some p, identify_data = None\<rparr> (dev5, w6) = Some (dev7, w7)
        \<and> reports dev7 = reports dev5 @ [Verify_Report MATCH_SUCCESS (Some p) None, Verify_Complete None])"
    by (auto simp del: replicate.simps)
  from 1 3 last [rule_format, OF pressed_wired] show ?thesis by blast
qed

text \<open>C13: An enrollment has no time limit: as long as the finger is pressed and every accepted sample has
  another coverage than the one before, it goes on past any number of states, whatever the clock
  says. The overall deadline is looked at only when a capture fails or a sample does not change
  the coverage.\<close>

theorem enroll_unbounded:
  assumes "honest P E" "usb_idle E s0 F (replicate k [0x01]) a (dev, w)" "fuel < k" "captures (b_app E)"
    and "b_app E a verimark_moc_build_begin_id = (r0, a0)" "length r0 \<le> 483"
    and "b_app E a0 verimark_moc_build_enroll_create = (r1, a1)" "length r1 \<le> 483" "reply_status r1 = 0"
    and "\<forall>n. \<exists>cov a2. sampled (b_app E) a1 n cov a2"
  shows "verimark_moc_enroll P gen fuel print (dev, w) = None"
proof -
  obtain cov a2 where "sampled (b_app E) a1 fuel cov a2" using assms(10) by blast
  moreover have "replicate k [0x01] = replicate (fuel + 1) [0x01] @ replicate (k - fuel - 1) [0x01]"
    using assms(3) by (simp flip: replicate_add del: replicate.simps)
  ultimately have "verimark_moc_enroll P gen (2 * fuel) print (dev, w) = None"
    using usb_link.enroll_never_ends [OF usb_link.intro [OF assms(1)] assms(4-9)] assms(2) by metis
  then show ?thesis by (rule enroll_fuel_mono) simp
qed

lemma enroll_unbounded_witness:
  "\<exists>dev1 w1. dev_open (wired (finger_app 0)) (dev_init, wired_at (0, False)) = (dev1, w1)
    \<and> verimark_moc_enroll (wired (finger_app 0)) (\<lambda>_. ''FP1'') 999 blank_print
        (dev1, w1\<lparr>w_events := w_events w1 @ replicate 1000 [0x01]\<rparr>) = None"
proof -
  let ?P = "wired (finger_app 0)" and ?E = "wired_bench (finger_app 0)"
  from open_runs [OF wired_honest _ finger_start(1,4) _ finger_start(5), of "finger_app 0" dev_init] finger_start(2,3)
  obtain dev1 w1 F' where 1: "dev_open ?P (dev_init, wired_at (0, False)) = (dev1, w1)" "usb_idle ?E (w_usb (wired_at (0, False))) F' [] (0, False) (dev1, w1)"
    by auto
  from pressed_idle [OF 1(2) pressed_wired, of 1000] have
    idle: "usb_idle ?E (w_usb (wired_at (0, False))) F' (replicate 1000 [0x01]) (0, False) (dev1, w1\<lparr>w_events := w_events w1 @ replicate 1000 [0x01]\<rparr>)"
    by (simp del: replicate.simps)
  have app: "finger_app 0 (0, False) verimark_moc_build_begin_id = ([0x09, 0x05], 0, False)"
    "finger_app 0 (0, False) verimark_moc_build_enroll_create = ([0, 0], 0, False)"
    by (simp_all add: finger_app_def frame_sensor_def verimark_moc_build_begin_id_def verimark_moc_build_enroll_sample_def
        verimark_moc_build_enroll_commit_def verimark_moc_build_enroll_create_def VERIMARK_CMD_EVENT_READ_def)
  have "\<forall>n. \<exists>cov a2. sampled (finger_app 0) (0, False) n cov a2" using finger_sampled [of 0] by blast
  from enroll_unbounded [OF wired_honest idle, of 999, unfolded wired_sel, OF _ finger_captures app(1) _ app(2) _ _ this] 1(1)
  show ?thesis by (auto simp: u16_of_le_def simp del: replicate.simps)
qed

end
