(* ===== verification/Object_Store.thy ===== *)
theory Object_Store
  imports Lifecycle
begin

text \<open>
  The storage requests against a sensor that keeps objects: what list, delete and clear do to the
  sensor is what the operations of an abstract set of template ids do, through every layer
  of an open device.
\<close>

subsection \<open>The abstract store\<close>

text \<open>The ids in the order the sensor lists them. A request the caller has no reason to make (deleting a
  print that is not listed) has no specification.\<close>

fun spec_req :: "print_lib \<Rightarrow> request \<Rightarrow> bytes list \<Rightarrow> (report \<times> bytes list) option" where
  "spec_req L Do_List gids = Some (List_Complete (Some (map (list_print L) gids)) None, gids)"
| "spec_req L (Do_Delete (Some p)) gids =
     map_option (\<lambda>gid. (Delete_Complete None, removeAll gid gids)) (find (\<lambda>gid. list_print L gid = p) gids)"
| "spec_req L Do_Clear gids = Some (Clear_Storage_Complete None, [])"
| "spec_req L _ gids = None"

fun spec_run :: "print_lib \<Rightarrow> request list \<Rightarrow> bytes list \<Rightarrow> (report list \<times> bytes list) option" where
  "spec_run L [] gids = Some ([], gids)"
| "spec_run L (req # reqs) gids =
     Option.bind (spec_req L req gids) (\<lambda>(rep, gids). map_option (\<lambda>(reps, gids). (rep # reps, gids)) (spec_run L reqs gids))"

fun_cases spec_req_Some: "spec_req L req gids = Some q"

lemmas spec_req_cases = spec_req_Some [consumes 1, case_names listed deleted cleared]

text \<open>The requests one after the other.\<close>

fun serve_all :: "'w platform \<Rightarrow> fpi_lib \<Rightarrow> request list \<Rightarrow> verimark \<times> 'w \<Rightarrow> (verimark \<times> 'w) option" where
  "serve_all P E [] s = Some s"
| "serve_all P E (req # reqs) s = Option.bind (dev_vfunc P E req s) (serve_all P E reqs)"

subsection \<open>A sensor that keeps objects\<close>

text \<open>An object is listed under one id and deleted under another, the child id, which the information
  command gives. A reply fits into one record, so there are at most 29.\<close>

type_synonym objects = "(bytes \<times> bytes) list"

definition objects_ok :: "objects \<Rightarrow> bool" where
  "objects_ok objs \<longleftrightarrow> length objs \<le> 29 \<and> distinct (map fst objs) \<and> distinct (map snd objs)
     \<and> (\<forall>(gid, kid) \<in> set objs. length gid = 16 \<and> gid \<noteq> zero16 \<and> length kid = 16)"

definition keeps_objects :: "('a \<Rightarrow> bytes \<Rightarrow> bytes \<times> 'a) \<Rightarrow> ('a \<Rightarrow> objects) \<Rightarrow> bool" where
  "keeps_objects app S \<longleftrightarrow> (\<forall>a. objects_ok (S a) \<longrightarrow>
     (\<exists>a'. app a [VERIMARK_CMD_DB2_GET_OBJ_LIST, 0x01] = (obj_list_enc 0 (map fst (S a)), a') \<and> S a' = S a)
   \<and> (\<forall>(gid, kid) \<in> set (S a).
        (\<exists>pre post a'. app a (del_info_cmd gid) = (pre @ kid @ post, a') \<and> length pre = 20
           \<and> length post \<le> 447 \<and> S a' = S a)
      \<and> (\<exists>resp a'. app a (del_delete_cmd kid) = (resp, a') \<and> length resp \<le> 483
           \<and> S a' = filter (\<lambda>obj. snd obj \<noteq> kid) (S a)))
   \<and> (\<exists>resp a'. app a [VERIMARK_CMD_DB2_FORMAT, 0x01] = (resp, a') \<and> length resp \<le> 483 \<and> S a' = []))"

lemma keeps_objectsD:
  assumes "keeps_objects app S" "objects_ok (S a)"
  shows "\<exists>a'. app a [VERIMARK_CMD_DB2_GET_OBJ_LIST, 0x01] = (obj_list_enc 0 (map fst (S a)), a') \<and> S a' = S a"
    and "(gid, kid) \<in> set (S a) \<Longrightarrow> \<exists>pre post a'. app a (del_info_cmd gid) = (pre @ kid @ post, a') \<and> length pre = 20
           \<and> length post \<le> 447 \<and> S a' = S a"
    and "(gid, kid) \<in> set (S a) \<Longrightarrow> \<exists>resp a'. app a (del_delete_cmd kid) = (resp, a') \<and> length resp \<le> 483
           \<and> S a' = filter (\<lambda>obj. snd obj \<noteq> kid) (S a)"
    and "\<exists>resp a'. app a [VERIMARK_CMD_DB2_FORMAT, 0x01] = (resp, a') \<and> length resp \<le> 483 \<and> S a' = []"
proof -
  note all = mp [OF spec [OF assms(1) [unfolded keeps_objects_def], of a] assms(2)]
  show "\<exists>a'. app a [VERIMARK_CMD_DB2_GET_OBJ_LIST, 0x01] = (obj_list_enc 0 (map fst (S a)), a') \<and> S a' = S a"
    "\<exists>resp a'. app a [VERIMARK_CMD_DB2_FORMAT, 0x01] = (resp, a') \<and> length resp \<le> 483 \<and> S a' = []"
    using conjunct1 [OF all] conjunct2 [OF conjunct2 [OF all]] by simp_all
  note obj = bspec [OF conjunct1 [OF conjunct2 [OF all]], of "(gid, kid)", unfolded prod.case]
  show "\<exists>pre post a'. app a (del_info_cmd gid) = (pre @ kid @ post, a') \<and> length pre = 20 \<and> length post \<le> 447 \<and> S a' = S a"
    "\<exists>resp a'. app a (del_delete_cmd kid) = (resp, a') \<and> length resp \<le> 483 \<and> S a' = filter (\<lambda>obj. snd obj \<noteq> kid) (S a)"
    if "(gid, kid) \<in> set (S a)" using conjunct1 [OF obj [OF that]] conjunct2 [OF obj [OF that]] by simp_all
qed

lemma objects_ok_filter: "objects_ok objs \<Longrightarrow> objects_ok (filter Q objs)"
  unfolding objects_ok_def using order_trans [OF length_filter_le [of Q objs]]
  by (auto simp: distinct_map intro: inj_on_subset)

lemma objects_listed:
  assumes "objects_ok objs"
  shows "verimark_moc_parse_obj_list (moc_ptr (obj_list_enc 0 (map fst objs))) = Inr (0, map fst objs)"
    "length (obj_list_enc 0 (map fst objs)) \<le> 483"
proof -
  have len: "\<forall>v \<in> set (map fst objs). length v = 16" "length (map fst objs) \<le> 29"
    using assms by (auto simp: objects_ok_def)
  then show "length (obj_list_enc 0 (map fst objs)) \<le> 483"
    by (simp add: obj_list_enc_def length_concat_16)
  have "moc_ptr (obj_list_enc 0 (map fst objs)) = Some (obj_list_enc 0 (map fst objs))"
    by (simp add: moc_ptr_def obj_list_enc_def wr_u16le_def)
  then show "verimark_moc_parse_obj_list (moc_ptr (obj_list_enc 0 (map fst objs))) = Inr (0, map fst objs)"
    using len by (auto simp: parse_obj_list_accepts)
qed

lemma deleted_child:
  assumes "objects_ok objs" "(gid, kid) \<in> set objs"
  shows "map fst (filter (\<lambda>obj. snd obj \<noteq> kid) objs) = removeAll gid (map fst objs)"
proof -
  have inj: "inj_on fst (set objs)" "inj_on snd (set objs)" using assms(1) by (simp_all add: objects_ok_def distinct_map)
  have "snd obj \<noteq> kid \<longleftrightarrow> fst obj \<noteq> gid" if "obj \<in> set objs" for obj
    using inj_onD [OF inj(1) _ that assms(2)] inj_onD [OF inj(2) _ that assms(2)] by (cases obj) auto
  then show ?thesis by (induction objs) (auto simp: removeAll_filter_not_eq filter_map comp_def cong: filter_cong)
qed

subsection \<open>Simulation\<close>

context app_link begin

lemma storage_step:
  assumes "keeps_objects app S" "objects_ok (S a)" "idle evs a (dev, w)" "print_lib_doc (make_print E)"
    and "spec_req (make_print E) req (map fst (S a)) = Some (rep, gids)"
  shows "\<exists>dev' w' a'. dev_vfunc P E req (dev, w) = Some (dev', w') \<and> idle evs a' (dev', w')
    \<and> reports dev' = reports dev @ [rep] \<and> map fst (S a') = gids \<and> objects_ok (S a')"
  using assms(5)
proof (cases rule: spec_req_cases)
  case listed
  from keeps_objectsD(1) [OF assms(1,2)] obtain a' where
    a': "app a [VERIMARK_CMD_DB2_GET_OBJ_LIST, 0x01] = (obj_list_enc 0 (map fst (S a)), a')" "S a' = S a" by blast
  from list_runs [OF assms(3) a'(1) objects_listed(2,1) [OF assms(2)], of "make_print E"] listed a'(2) assms(2) show ?thesis
    by (fastforce simp: dev_vfunc_def)
next
  case (deleted p)
  then obtain gid where found: "find (\<lambda>gid. list_print (make_print E) gid = p) (map fst (S a)) = Some gid"
    and rep: "rep = Delete_Complete None" "gids = removeAll gid (map fst (S a))"
    by (cases "find (\<lambda>gid. list_print (make_print E) gid = p) (map fst (S a))") auto
  from found have gid: "gid \<in> set (map fst (S a))" "list_print (make_print E) gid = p"
    unfolding find_Some_iff by (metis nth_mem)+
  from gid(1) obtain kid where obj: "(gid, kid) \<in> set (S a)" by auto
  from assms(2) obj have len: "length gid = 16" "gid \<noteq> zero16" "length kid = 16" by (auto simp: objects_ok_def)
  from keeps_objectsD(2) [OF assms(1,2) obj] obtain pre post a1 where
    info: "app a (del_info_cmd gid) = (pre @ kid @ post, a1)" "length pre = 20" "length post \<le> 447" "S a1 = S a" by blast
  from keeps_objectsD(3) [OF assms(1), of a1 gid kid] assms(2) obj obtain resp a' where
    del: "app a1 (del_delete_cmd kid) = (resp, a')" "length resp \<le> 483" "S a' = filter (\<lambda>obj. snd obj \<noteq> kid) (S a)"
    unfolding info(4) by blast
  have target: "delete_target (Some p) = Some gid" using listed_target [OF assms(4) len(1)] gid(2) len(2) by simp
  have "app a1 (del_delete_cmd (take 16 (drop 20 (pre @ kid @ post)))) = (resp, a')" using info(2) len(3) del(1) by simp
  from delete_runs [OF assms(3) target info(1) _ _ this del(2)] info(2,3) len(3) obtain dev' w' where
    "verimark_moc_delete P (Some p) (dev, w) = Some (dev', w')" "idle evs a' (dev', w')" "reports dev' = reports dev @ [Delete_Complete None]"
    by auto
  then show ?thesis
    using deleted(1) rep del(3) deleted_child [OF assms(2) obj] objects_ok_filter [OF assms(2)] by (auto simp: dev_vfunc_def)
next
  case cleared
  from keeps_objectsD(4) [OF assms(1,2)] obtain resp a' where
    a': "app a [VERIMARK_CMD_DB2_FORMAT, 0x01] = (resp, a')" "length resp \<le> 483" "S a' = []" by blast
  have "objects_ok (S a')" by (simp add: a'(3) objects_ok_def)
  with clear_runs [OF assms(3) a'(1,2)] cleared a'(3) show ?thesis by (fastforce simp: dev_vfunc_def)
qed

lemma storage_run:
  assumes "keeps_objects app S" "objects_ok (S a)" "idle evs a (dev, w)" "print_lib_doc (make_print E)"
    and "spec_run (make_print E) reqs (map fst (S a)) = Some (reps, gids)"
  shows "\<exists>dev' w' a'. serve_all P E reqs (dev, w) = Some (dev', w') \<and> idle evs a' (dev', w')
    \<and> reports dev' = reports dev @ reps \<and> map fst (S a') = gids"
  using assms(2,3,5)
proof (induction reqs arbitrary: a dev w reps)
  case (Cons req reqs)
  from Cons.prems(3) obtain rep reps' gids1 where spec: "spec_req (make_print E) req (map fst (S a)) = Some (rep, gids1)"
    "spec_run (make_print E) reqs gids1 = Some (reps', gids)" "reps = rep # reps'"
    by (auto split: Option.bind_splits)
  from storage_step [OF assms(1) Cons.prems(1,2) assms(4) spec(1)] obtain dev1 w1 a1 where
    1: "dev_vfunc P E req (dev, w) = Some (dev1, w1)" "idle evs a1 (dev1, w1)" "reports dev1 = reports dev @ [rep]"
      "map fst (S a1) = gids1" "objects_ok (S a1)" by blast
  from Cons.IH [OF 1(5,2) spec(2) [folded 1(4)]] 1 spec(3) show ?case by auto
qed auto

end

context usb_link begin

lemmas storage_served = storage_run

end

lemma storage_after_open:
  assumes "honest P E" "usb_wf (lib P) s" "at_rest E s evs F w" "s_phase (u_hs s) = 0" "[] \<notin> set (take 16 evs)"
    and "known_to P s (version_sid (b_version E)) F" "dev_open P (dev, w) = s1"
    and "keeps_objects (b_app E) S" "objects_ok (S (u_app s))" "print_lib_doc (make_print L)"
    and "spec_run (make_print L) reqs (map fst (S (u_app s))) = Some (reps, gids)"
  shows "\<exists>dev' w'. serve_all P L reqs s1 = Some (dev', w') \<and> reports dev' = reports (fst s1) @ reps
    \<and> map fst (S (u_app (o_sensor E w'))) = gids"
proof -
  from open_runs [OF assms(1-6), of dev] assms(7) obtain F' where idle: "usb_idle E s F' (drop 16 evs) (u_app s) s1" by auto
  obtain dev1 w1 where s1: "s1 = (dev1, w1)" by fastforce
  from usb_link.storage_served [OF usb_link.intro [OF assms(1)] assms(8,9) idle [unfolded s1] assms(10,11)] show ?thesis
    by (fastforce simp: s1 usb_idle_def at_rest_def same_sensor_def)
qed

subsection \<open>Property\<close>

text \<open>C11: The storage requests implement the abstract store: on a device opened with a sensor that keeps
  objects, any sequence of lists, deletes of listed prints and clears completes with exactly the
  reports, and leaves exactly the ids, that the same operations on a list of ids give. What was
  deleted is gone from the next list, and nothing else is.\<close>

theorem storage_refines_objects:
  assumes "honest P E" "usb_wf (lib P) s" "at_rest E s evs F w" "s_phase (u_hs s) = 0" "[] \<notin> set (take 16 evs)"
    and "known_to P s (version_sid (b_version E)) F" "dev_open P (dev, w) = s1"
    and "keeps_objects (b_app E) S" "objects_ok (S (u_app s))" "print_lib_doc (make_print L)"
    and "spec_run (make_print L) reqs (map fst (S (u_app s))) = Some (reps, gids)"
  shows "\<exists>dev' w'. serve_all P L reqs s1 = Some (dev', w') \<and> reports dev' = reports (fst s1) @ reps
    \<and> map fst (S (u_app (o_sensor E w'))) = gids"
  by (rule storage_after_open [OF assms])

text \<open>An application whose state is its objects.\<close>

definition shelf_app :: "objects \<Rightarrow> bytes \<Rightarrow> bytes \<times> objects" where
  "shelf_app objs cmd =
     (if cmd = [VERIMARK_CMD_DB2_GET_OBJ_LIST, 0x01] then (obj_list_enc 0 (map fst objs), objs)
      else if cmd = [VERIMARK_CMD_DB2_FORMAT, 0x01] then ([0, 0], [])
      else if hd cmd = VERIMARK_CMD_DB2_GET_OBJ_INFO then
        (case map_of objs (drop 5 cmd) of None \<Rightarrow> ([0x09, 0x05], objs) | Some kid \<Rightarrow> (replicate 20 0 @ kid, objs))
      else if hd cmd = VERIMARK_CMD_DB2_DELETE_OBJ then ([0, 0], filter (\<lambda>obj. snd obj \<noteq> drop 5 cmd) objs)
      else ([0, 0], objs))"

lemma shelf_keeps: "keeps_objects shelf_app (\<lambda>objs. objs)"
proof -
  have cmds: "shelf_app objs (del_info_cmd gid) =
      (case map_of objs gid of None \<Rightarrow> ([0x09, 0x05], objs) | Some kid \<Rightarrow> (replicate 20 0 @ kid, objs))"
    "shelf_app objs (del_delete_cmd gid) = ([0, 0], filter (\<lambda>obj. snd obj \<noteq> gid) objs)" for objs gid
    by (simp_all add: shelf_app_def del_info_cmd_def del_delete_cmd_def wr_u32le_def VERIMARK_CMD_DB2_GET_OBJ_LIST_def
        VERIMARK_CMD_DB2_GET_OBJ_INFO_def VERIMARK_CMD_DB2_DELETE_OBJ_def VERIMARK_CMD_DB2_FORMAT_def)
  have "\<exists>pre post a'. shelf_app objs (del_info_cmd gid) = (pre @ kid @ post, a') \<and> length pre = 20 \<and> length post \<le> 447 \<and> a' = objs"
    if "objects_ok objs" "(gid, kid) \<in> set objs" for objs gid kid
    by (rule exI [of _ "replicate 20 0"], rule exI [of _ "[]"], rule exI [of _ objs])
      (use that in \<open>simp add: cmds objects_ok_def map_of_is_SomeI\<close>)
  then show ?thesis
    unfolding keeps_objects_def
    by (auto simp: cmds(2)) (simp_all add: shelf_app_def VERIMARK_CMD_DB2_GET_OBJ_LIST_def VERIMARK_CMD_DB2_FORMAT_def)
qed

definition two_objects :: objects where
  "two_objects = [(replicate 16 1, replicate 16 2), (replicate 16 3, replicate 16 4)]"

lemmas shelf_start = wired_at_rest [where a = two_objects]

lemma storage_refines_objects_witness:
  "\<exists>dev' w'. serve_all (wired shelf_app) sample_fpi
      [Do_List, Do_Delete (Some (list_print (make_print sample_fpi) (replicate 16 1))), Do_List, Do_Clear, Do_List]
      (dev_open (wired shelf_app) (dev_init, wired_at two_objects)) = Some (dev', w')
    \<and> drop 1 (reports dev') = [List_Complete (Some (map (list_print (make_print sample_fpi)) [replicate 16 1, replicate 16 3])) None,
        Delete_Complete None, List_Complete (Some [list_print (make_print sample_fpi) (replicate 16 3)]) None,
        Clear_Storage_Complete None, List_Complete (Some []) None]
    \<and> u_app (w_usb w') = []"
proof -
  let ?L = "make_print sample_fpi"
  have ok: "objects_ok two_objects" by (simp add: objects_ok_def two_objects_def zero16_def)
  let ?reps = "[List_Complete (Some (map (list_print ?L) [replicate 16 1, replicate 16 3])) None,
        Delete_Complete None, List_Complete (Some [list_print ?L (replicate 16 3)]) None,
        Clear_Storage_Complete None, List_Complete (Some []) None]"
  let ?reqs = "[Do_List, Do_Delete (Some (list_print ?L (replicate 16 1))), Do_List, Do_Clear, Do_List]"
  have spec: "spec_run ?L ?reqs (map fst two_objects) = Some (?reps, [])" by (simp add: two_objects_def)
  obtain dev1 w1 where opened: "dev_open (wired shelf_app) (dev_init, wired_at two_objects) = (dev1, w1)" by fastforce
  from dev_open_outcome [OF opened dev_init_closed] obtain e where "reports dev1 = [Open_Complete e]" by (auto simp: dev_init_def)
  moreover have "\<exists>dev' w'. serve_all (wired shelf_app) sample_fpi reqs (dev1, w1) = Some (dev', w')
      \<and> reports dev' = reports dev1 @ reps \<and> map fst (u_app (w_usb w')) = gids"
    if "spec_run ?L reqs (map fst two_objects) = Some (reps, gids)" for reqs reps gids
    using storage_refines_objects [where P = "wired shelf_app" and E = "wired_bench shelf_app" and S = "\<lambda>objs. objs"
        and evs = "[]" and L = sample_fpi, unfolded wired_sel, OF wired_honest shelf_start(3,1,4) _ shelf_start(5) opened shelf_keeps]
      shelf_start(2) ok sample_fpi_doc that
    by (simp only: wired_bench_def bench.simps) simp
  note this [OF spec]
  ultimately show ?thesis by (auto simp: opened simp del: serve_all.simps)
qed

end
