(* ===== verification/Safety.thy ===== *)
theory Safety
  imports Driver
begin

text \<open>
  Memory safety of the whole driver: whatever the sensor, the files and the user do, no request
  makes the driver read outside a buffer or reach an assertion that cannot hold. In the model both
  are errors of their own (\<open>defect\<close>), and errors end up in the reports.
\<close>

subsection \<open>What the environment may answer\<close>

text \<open>The environment's own errors are real ones.\<close>

definition env_sound :: "'w platform \<Rightarrow> bool" where
  "env_sound P \<longleftrightarrow> (\<forall>w r v d. in_buffer (fst (ctrl_out P w r v d))) \<and> (\<forall>w r v n. in_buffer (fst (ctrl_in P w r v n)))
     \<and> (\<forall>w ep n t. in_buffer (fst (intr_in P w ep n t))) \<and> (\<forall>w. in_buffer (fst (usb_interfaces P w)))
     \<and> (\<forall>w n. in_buffer (fst (usb_claim P w n))) \<and> (\<forall>w n. in_buffer (fst (usb_release P w n)))
     \<and> (\<forall>w p m. in_buffer (fst (fs_mkdir P w p m))) \<and> (\<forall>w p m. in_buffer (fst (fs_open_trunc P w p m)))
     \<and> (\<forall>w p. in_buffer (fst (fs_read P w p)))"

lemma env_soundD:
  assumes "env_sound P"
  shows "in_buffer (fst (ctrl_out P w r v d))" "in_buffer (fst (ctrl_in P w r v n))" "in_buffer (fst (intr_in P w ep n t))"
    "in_buffer (fst (usb_interfaces P w))" "in_buffer (fst (usb_claim P w n))" "in_buffer (fst (usb_release P w n))"
    "in_buffer (fst (fs_mkdir P w p m))" "in_buffer (fst (fs_open_trunc P w p m))" "in_buffer (fst (fs_read P w p))"
  using assms by (simp_all add: env_sound_def)

fun report_error :: "report \<Rightarrow> gerror option" where
  "report_error (Open_Complete e) = e"
| "report_error (Close_Complete e) = e"
| "report_error (Enroll_Progress n e) = e"
| "report_error (Enroll_Complete p e) = e"
| "report_error (Verify_Report m p e) = e"
| "report_error (Identify_Report p q e) = e"
| "report_error (Verify_Complete e) = e"
| "report_error (Identify_Complete e) = e"
| "report_error (List_Complete ps e) = e"
| "report_error (Delete_Complete e) = e"
| "report_error (Clear_Storage_Complete e) = e"

definition sound_report :: "report \<Rightarrow> bool" where
  "sound_report r \<longleftrightarrow> (\<forall>e. report_error r = Some e \<longrightarrow> \<not> defect e)"

definition sound_reports :: "verimark \<Rightarrow> bool" where
  "sound_reports dev \<longleftrightarrow> list_all sound_report (reports dev)"

lemma sound_reports_report [simp]: "sound_reports (report r dev) \<longleftrightarrow> sound_reports dev \<and> sound_report r"
  by (simp add: sound_reports_def report_def)

lemma sound_task [simp]: "sound_reports (dev\<lparr>task_ssm := m\<rparr>) = sound_reports dev"
  by (simp add: sound_reports_def)

lemma report_task [simp]: "task_ssm (report r dev) = task_ssm dev"
  by (simp add: report_def)

subsection \<open>Machines\<close>

definition sound_call :: "nat \<Rightarrow> ssm_call \<Rightarrow> bool" where
  "sound_call n call = (case call of Mark_Failed e \<Rightarrow> \<not> defect e | Jump_To_State t \<Rightarrow> t < n
     | Jump_To_State_Delayed t ms \<Rightarrow> t < n | _ \<Rightarrow> True)"

lemma sound_call_simps [simp]:
  "sound_call n Next_State" "sound_call n Mark_Completed" "sound_call n (Mark_Failed e) \<longleftrightarrow> \<not> defect e"
  "sound_call n (Jump_To_State t) \<longleftrightarrow> t < n" "sound_call n (Jump_To_State_Delayed t ms) \<longleftrightarrow> t < n"
  by (simp_all add: sound_call_def)

lemma sound_run:
  assumes "fpi_ssm_doc L" "\<And>c s call s'. c < n \<Longrightarrow> I s \<Longrightarrow> step c s = Some (call, s') \<Longrightarrow> I s' \<and> sound_call n call"
    and "\<And>ms s. I s \<Longrightarrow> I (delay ms s)" "ssm_run L delay n step fuel c s = Some (r, s')" "c < n" "I s"
  shows "in_buffer r \<and> I s'"
proof -
  have "ssm_contract n step delay (\<lambda>c. I) (\<lambda>r s. in_buffer r \<and> I s)"
  proof (rule ssm_contractI)
    fix c s q
    assume "c < n" "I s" "step c s = Some q"
    with assms(2) [of c s "fst q" "snd q"] assms(3) show "ssm_allows n delay (\<lambda>c. I) (\<lambda>r s. in_buffer r \<and> I s) c q"
      by (cases q) (auto simp: ssm_allows_def split: ssm_call.split)
  qed
  from ssm_contract.run_post [OF this assms(1,5,6,4)] show ?thesis by simp
qed

subsection \<open>Commands\<close>

lemma ctrl_read_sound:
  assumes "env_sound P"
  shows "in_buffer (fst (ctrl_read_loop P rmx acc first retries w))"
proof -
  obtain r w' where out: "ctrl_read_loop P rmx acc first retries w = (r, w')" by fastforce
  then have "in_buffer r"
  proof (induction rule: ctrl_read_loop_rule)
    case (failed acc first retries w want wvalue e w1)
    then show ?case using env_soundD(2) [OF assms] by (metis fst_conv read_stepD(4))
  qed simp_all
  with out show ?thesis by simp
qed

lemma ctrl_cmd_sound:
  assumes "env_sound P"
  shows "in_buffer (fst (verimark_ctrl_cmd_sync P cmd m w))"
proof -
  have frames: "in_buffer (fst (send_frames P fs w))" for fs w
  proof (induction fs arbitrary: w)
    case (Cons vd fs)
    obtain v d where "vd = (v, d)" by fastforce
    with Cons env_soundD(1) [OF assms, of w VERIMARK_CTRL_REQ_WRITE v d] show ?case
      by (auto split: prod.split sum.split)
  qed simp
  show ?thesis
    using frames [of "write_frames cmd" w] ctrl_read_sound [OF assms]
    by (auto simp: verimark_ctrl_cmd_sync_def verimark_ctrl_read_sync_def verimark_ctrl_write_frames split: prod.split sum.split)
qed

lemma moc_send_sound:
  assumes "platform_doc P T" "env_sound P" "length cmd \<le> 65536" "verimark_moc_send P cmd hint s = Some (r, s')"
  shows "in_buffer r" "reports (fst s') = reports (fst s)" "enroll_template_id (fst s') = enroll_template_id (fst s)"
    "task_ssm (fst s') = task_ssm (fst s)"
proof -
  note docs = platform_docD(1-3) [OF assms(1)]
  obtain dev w dev' w' where s: "s = (dev, w)" "s' = (dev', w')" by fastforce
  have "moc_exchange P cmd hint s = (r, s')" using moc_send_exchange [OF docs assms(3), of hint s] assms(4) by simp
  moreover have "in_buffer (fst (moc_exchange P cmd hint (dev, w)))"
  proof (cases "d_tls dev")
    case (Some t)
    obtain q t1 w1 where wrap: "verimark_tls_wrap P (t, w) cmd = (q, t1, w1)" by (metis surj_pair)
    show ?thesis
    proof (cases q)
      case (Inl e)
      have "in_buffer q" using wrap
        by (auto simp: verimark_tls_wrap_def bind_st_def gcm_in_bounds split: if_split_asm prod.split_asm sum.split_asm)
      then show ?thesis using Some wrap Inl by (simp add: moc_exchange_def)
    next
      case (Inr rcd)
      note ctrl_cmd_sound [OF assms(2), of rcd "moc_budget hint" w1]
      then show ?thesis using Some wrap Inr by (auto simp: moc_exchange_def split: prod.split intro!: raw_resp_in_bounds)
    qed
  qed (simp add: moc_exchange_def)
  ultimately show "in_buffer r" by (simp add: s)
  show "reports (fst s') = reports (fst s)" "enroll_template_id (fst s') = enroll_template_id (fst s)"
    "task_ssm (fst s') = task_ssm (fst s)"
    using same_op_fields [OF moc_send_same [OF assms(4) [unfolded s]]] by (simp_all add: s)
qed

lemma press_sound:
  assumes "platform_doc P T" "env_sound P" "cap_wait_press P s = Some (r, s')"
  shows "in_buffer r" "fst s' = fst s"
proof -
  obtain dev w where s: "s = (dev, w)" by fastforce
  have keep: "sound_call 1 call" if "intr_keep_waiting P ctx w = (call, x)" for ctx w call x
    using that by (auto simp: intr_keep_waiting_def Let_def split: prod.split_asm if_split_asm)
  have submit: "sound_call 1 call" if "intr_submit P ctx t w = Some (call, x)" for ctx t w call x
    using that env_soundD(3) [OF assms(2), of w "ic_ep ctx" VERIMARK_INTR_MAXPKT "nat t"]
    by (auto simp: intr_submit_def on_intr_read_done_def split: prod.split_asm sum.split_asm if_split_asm dest: keep)
  have step: "sound_call 1 call" if "c < 1" "intr_step P c x = Some (call, x')" for c x call x'
    using that submit by (auto simp: intr_step_def Let_def split: prod.split_asm if_split_asm)
  obtain q dev' w' where wait: "verimark_intr_wait_async P press_fuel (d_ep_intr_in dev) VERIMARK_EVT_FINGER_PRESS
      VERIMARK_CAPTURE_PRESS_TIMEOUT_MS w = Some (q, w')" "r = q" "s' = (dev, w')"
    using assms(3) by (auto simp: cap_wait_press_def s)
  then show "fst s' = fst s" by (simp add: s)
  from wait(1) obtain q0 x w0 ctx where run: "ssm_run (fpi P) (world_delay P) 1 (intr_step P) press_fuel 0 (ctx, w0) = Some (q0, x)"
    "(q, w') = intr_ssm_completed (q0, x)"
    by (auto simp: verimark_intr_wait_async_def Let_def split: prod.split_asm simp del: ssm_run.simps)
  have "in_buffer q0"
    using sound_run [OF platform_docD(1) [OF assms(1)], where I = "\<lambda>_. True", OF _ _ run(1)] step by simp
  then show "in_buffer r" using run(2) wait(2) by (cases q0) (auto simp: intr_ssm_completed_def split: prod.split_asm)
qed

lemma send_call_sound:
  assumes "platform_doc P T" "env_sound P" "length cmd \<le> 65536"
    and "map_option (\<lambda>(r, s). h r s) (verimark_moc_send P cmd hint s) = Some q"
  obtains r dev' w' where "in_buffer r" "reports dev' = reports (fst s)" "enroll_template_id dev' = enroll_template_id (fst s)"
    "q = h r (dev', w')"
proof -
  from assms(4) obtain r s' where r: "verimark_moc_send P cmd hint s = Some (r, s')" "q = h r s'" by auto
  show thesis
    by (rule that [of r "fst s'" "snd s'"]) (use moc_send_sound [OF assms(1-3) r(1)] r(2) in simp_all)
qed

lemma cap_keep_polling_sound [simp]: "sound_call 7 (fst (cap_keep_polling ctx b s))"
  by (simp add: cap_keep_polling_def)

lemma cap_handlers_sound:
  assumes "in_buffer r"
  shows "sound_call 7 (fst (on_cap_event_config_done ctx r s))" "sound_call 7 (fst (on_cap_frame_acq_done P ctx r s))"
    "sound_call 7 (fst (on_cap_wait_frame_done P ctx r s))" "sound_call 7 (fst (on_cap_frame_finish_done ctx r s))"
proof -
  obtain dev w where s: "s = (dev, w)" by fastforce
  have "sound_call 7 (fst (on_cap_event_config_done ctx r s)) \<and> sound_call 7 (fst (on_cap_frame_acq_done P ctx r s))
    \<and> sound_call 7 (fst (on_cap_wait_frame_done P ctx r s)) \<and> sound_call 7 (fst (on_cap_frame_finish_done ctx r s))"
  proof (cases r)
    case (Inl e)
    then show ?thesis
      using assms by (simp add: s on_cap_event_config_done_def on_cap_frame_acq_done_def on_cap_wait_frame_done_def
          on_cap_frame_finish_done_def)
  next
    case (Inr a)
    obtain st resp where a: "a = (st, resp)" by fastforce
    show ?thesis
      by (simp add: s Inr a on_cap_event_config_done_def on_cap_frame_acq_done_def on_cap_wait_frame_done_def
          on_cap_frame_finish_done_def VERIMARK_EVENT_CONFIG_RESP_LEN_def scan_events_ready Let_def split_beta)
  qed
  then show "sound_call 7 (fst (on_cap_event_config_done ctx r s))" "sound_call 7 (fst (on_cap_frame_acq_done P ctx r s))"
    "sound_call 7 (fst (on_cap_wait_frame_done P ctx r s))" "sound_call 7 (fst (on_cap_frame_finish_done ctx r s))" by blast+
qed

lemma cap_step_sound:
  assumes "platform_doc P T" "env_sound P" "c < 7" "cap_step P c x = Some q"
  shows "sound_call 7 (fst q)"
proof -
  have len: "length (build_event_config m) \<le> 65536" "length (build_event_read n) \<le> 65536"
    "length (verimark_moc_build_frame_acq k) \<le> 65536" "length verimark_moc_build_frame_finish \<le> 65536" for m n k
    using capture_cmd_lengths(1) [of m] capture_cmd_lengths(2) [of n] capture_cmd_lengths(3) [of k] capture_cmd_lengths(4) by simp_all
  obtain ctx dev w where x: "x = (ctx, dev, w)" by (metis surj_pair)
  note sent = moc_send_sound(1) [OF assms(1,2)]
  from assms(3) consider "c \<in> {0, 2, 5}" | "c = 1" | "c = 3" | "c = 4" | "c = 6" by fastforce
  then show ?thesis
  proof cases
    case 1
    then obtain m r s' where "verimark_moc_send P (build_event_config m) (of_nat VERIMARK_EVENT_CONFIG_RESP_LEN) (dev, w) = Some (r, s')"
      "q = on_cap_event_config_done ctx r s'" using assms(4) by (fastforce simp: cap_step_def x cap_send_config_def)
    then show ?thesis using sent [OF len(1)] cap_handlers_sound(1) by metis
  next
    case 2
    then show ?thesis
      using assms(4) press_sound(1) [OF assms(1,2), of "(dev, w)"]
      by (auto simp: cap_step_def x on_cap_wait_press_done_def split: sum.split prod.split)
  next
    case 3
    then obtain r s' where "verimark_moc_send P (verimark_moc_build_frame_acq (acq_kind ctx)) 2 (dev, w) = Some (r, s')"
      "q = on_cap_frame_acq_done P ctx r s'" using assms(4) by (auto simp: cap_step_def x)
    then show ?thesis using sent [OF len(3)] cap_handlers_sound(2) by metis
  next
    case 4
    then obtain r s' where "verimark_moc_send P (build_event_read (event_seq_num dev)) (of_nat VERIMARK_EVENT_READ_RESP_LEN) (dev, w) = Some (r, s')"
      "q = on_cap_wait_frame_done P ctx r s'" using assms(4) by (auto simp: cap_step_def x)
    then show ?thesis using sent [OF len(2)] cap_handlers_sound(3) by metis
  next
    case 5
    then obtain r s' where "verimark_moc_send P verimark_moc_build_frame_finish 2 (dev, w) = Some (r, s')"
      "q = on_cap_frame_finish_done ctx r s'" using assms(4) by (auto simp: cap_step_def x)
    then show ?thesis using sent [OF len(4)] cap_handlers_sound(4) by metis
  qed
qed

lemma capture_sound:
  assumes "platform_doc P T" "env_sound P" "verimark_moc_capture P kind s = Some (r, s')"
  shows "in_buffer r" "reports (fst s') = reports (fst s)" "enroll_template_id (fst s') = enroll_template_id (fst s)"
    "task_ssm (fst s') = task_ssm (fst s)"
proof -
  from assms(3) obtain x where run: "ssm_run (fpi P) (dev_delay P) 7 (cap_step P) (6 + cap_polls) 0
      (\<lparr>acq_kind = kind, frame_deadline_us = 0, frame_got = False\<rparr>, s) = Some (r, x)"
    by (auto simp: verimark_moc_capture_def simp del: ssm_run.simps)
  show "in_buffer r"
    using sound_run [OF platform_docD(1) [OF assms(1)], where I = "\<lambda>_. True", OF _ _ run] cap_step_sound [OF assms(1,2)] by fastforce
  show "reports (fst s') = reports (fst s)" "enroll_template_id (fst s') = enroll_template_id (fst s)"
    "task_ssm (fst s') = task_ssm (fst s)"
    using same_op_fields [OF capture_same [OF assms(1), of kind "fst s" "snd s" r "fst s'" "snd s'"]] assms(3) by simp_all
qed

subsection \<open>Enrollment\<close>

definition enr_sound :: "'w enr_state \<Rightarrow> bool" where
  "enr_sound = (\<lambda>(ctx, s). sound_reports (fst s) \<and> length (enroll_template_id (fst s)) = 16
     \<and> task_ssm (fst s) = Some Enroll_Task)"

lemma enr_sample_sound:
  assumes "in_buffer r" "enr_sound (ctx, dev, w)" "on_enr_sample_done P ctx r (dev, w) = (call, x)"
  shows "enr_sound x \<and> sound_call 7 call"
proof (cases r)
  case (Inl e)
  then show ?thesis using assms by (auto simp: on_enr_sample_done_def)
next
  case (Inr a)
  obtain st resp where a: "a = (st, resp)" by fastforce
  obtain now w' where clk: "mono_time P w = (now, w')" by fastforce
  show ?thesis
  proof (cases "verimark_moc_parse_sample (moc_ptr resp)")
    case (Inl e)
    then show ?thesis using assms clk by (auto simp: on_enr_sample_done_def Inr a enr_sound_def split: if_split_asm)
  next
    case smp: (Inr smp)
    then have "moc_ptr resp = Some resp" by (auto simp: moc_ptr_def verimark_moc_parse_sample_def split: if_splits)
    then have "length (sample_template_id smp) = 16" using parse_sample_id_length [of resp smp] smp by simp
    then show ?thesis
      using assms(2,3) clk smp
      by (auto simp: on_enr_sample_done_def Inr a enr_sound_def Let_def sound_report_def report_def sound_reports_def split: if_split_asm)
  qed
qed

lemma enr_finalize_sound:
  assumes "platform_doc P T" "env_sound P" "enr_sound (ctx, s1)" "enr_send_finalize P ctx s1 = Some (call, x')"
  shows "enr_sound x' \<and> sound_call 7 call"
proof -
  obtain dev w where s1: "s1 = (dev, w)" by fastforce
  obtain seed w1 where seed: "verimark_read_machine_seed P w = (seed, w1)" by fastforce
  obtain sid where sid: "verimark_moc_synth_sid (user_id P) (Some seed) = Inr sid"
    using synth_sid_Inr [OF length_machine_seed [OF seed]] by blast
  have "length (enroll_template_id dev) = 16" using assms(3) by (simp add: enr_sound_def s1)
  from build_finalize_Inr [OF this synth_sid_length [OF length_machine_seed [OF seed] sid]] obtain cmd where
    cmd: "verimark_moc_build_finalize (Some (enroll_template_id dev)) (Some sid) = Inr cmd" "length cmd \<le> 65536" by auto
  obtain r s2 where r: "verimark_moc_send P cmd 2 (dev, w1) = Some (r, s2)" "on_enr_finalize_done ctx r s2 = (call, x')"
    using assms(4) seed sid cmd(1) by (auto simp: s1 enr_send_finalize_def)
  with moc_send_sound [OF assms(1,2) cmd(2) r(1)] assms(3) show ?thesis
    by (auto simp: s1 enr_sound_def sound_reports_def on_enr_finalize_done_def split: sum.split_asm if_split_asm)
qed

lemma enr_step_sound:
  assumes "platform_doc P T" "env_sound P" "c < 7" "enr_sound x" "enr_step P c x = Some (call, x')"
  shows "enr_sound x' \<and> sound_call 7 call"
proof -
  have len: "length verimark_moc_build_begin_id \<le> 65536" "length verimark_moc_build_enroll_create \<le> 65536"
    "length verimark_moc_build_enroll_sample \<le> 65536" "length verimark_moc_build_enroll_commit \<le> 65536"
    using enroll_cmd_lengths by simp_all
  note send = moc_send_sound [OF assms(1,2)] and cap = capture_sound [OF assms(1,2)]
  obtain ctx s1 where x: "x = (ctx, s1)" by (cases x)
  have keep: "enr_sound (ctx, s2)" if "reports (fst s2) = reports (fst s1)" "enroll_template_id (fst s2) = enroll_template_id (fst s1)"
    "task_ssm (fst s2) = task_ssm (fst s1)" for s2
    using assms(4) that by (simp add: enr_sound_def x sound_reports_def)
  from assms(3) consider "c = 0 \<or> c = 3" | "c = 1" | "c = 2" | "c = 4" | "c = 5" | "c = 6" by fastforce
  then show ?thesis
  proof cases
    case 1
    then obtain kind r dev w where r: "verimark_moc_capture P kind s1 = Some (r, dev, w)" "on_enr_capture_done P c ctx r (dev, w) = (call, x')"
      using assms(5) by (auto simp: enr_step_def x)
    note same = cap [OF r(1)]
    have "enr_sound (ctx, dev, w')" for w' using keep [of "(dev, w')"] same by simp
    moreover from this have "task_ssm dev = Some Enroll_Task" by (simp add: enr_sound_def)
    ultimately have "enr_sound (ctx, dev, w') \<and> task_ssm dev = Some Enroll_Task" for w' by simp
    then show ?thesis
      using r(2) same(1) 1
      by (auto simp: on_enr_capture_done_def enr_sound_def sound_report_def report_def sound_reports_def Let_def
          split: sum.split_asm prod.split_asm if_split_asm)
  next
    case 2
    then obtain r s2 where r: "verimark_moc_send P verimark_moc_build_begin_id 177 s1 = Some (r, s2)" "on_enr_dedup_done ctx r s2 = (call, x')"
      using assms(5) by (auto simp: enr_step_def x)
    with send [OF len(1) r(1)] keep [of s2] show ?thesis by (auto simp: on_enr_dedup_done_def split: sum.split_asm)
  next
    case 3
    then obtain r s2 where r: "verimark_moc_send P verimark_moc_build_enroll_create 177 s1 = Some (r, s2)" "on_enr_create_done ctx r s2 = (call, x')"
      using assms(5) by (auto simp: enr_step_def x)
    with send [OF len(2) r(1)] keep [of s2] show ?thesis by (auto simp: on_enr_create_done_def split: sum.split_asm if_split_asm)
  next
    case 4
    then obtain r dev w where r: "verimark_moc_send P verimark_moc_build_enroll_sample 82 s1 = Some (r, dev, w)"
      "on_enr_sample_done P ctx r (dev, w) = (call, x')" using assms(5) by (auto simp: enr_step_def x)
    with enr_sample_sound [OF send(1) [OF len(3) r(1)] _ r(2)] send(2-4) [OF len(3) r(1)] keep [of "(dev, w)"] show ?thesis by simp
  next
    case 5
    with enr_finalize_sound [OF assms(1,2), of ctx s1 call x'] assms(4,5) show ?thesis by (simp add: x enr_step_def)
  next
    case 6
    then obtain r s2 where r: "verimark_moc_send P verimark_moc_build_enroll_commit 2 s1 = Some (r, s2)" "on_enr_commit_done ctx r s2 = (call, x')"
      using assms(5) by (auto simp: enr_step_def x)
    with send [OF len(4) r(1)] keep [of s2] show ?thesis by (auto simp: on_enr_commit_done_def split: sum.split_asm if_split_asm)
  qed
qed

lemma enroll_sound:
  assumes "platform_doc P T" "env_sound P" "sound_reports (fst s)" "verimark_moc_enroll P gen fuel print s = Some s'"
  shows "sound_reports (fst s')"
proof -
  from assms(4) obtain r ctx dev w where run: "ssm_run (fpi P) (dev_delay P) 7 (enr_step P) fuel 0 (enr_start P s) = Some (r, ctx, dev, w)"
    "s' = (verimark_enroll_ssm_done gen print r dev, w)" by (auto simp: verimark_moc_enroll_def simp del: ssm_run.simps)
  have start: "enr_sound (enr_start P s)"
    using assms(3) by (cases s) (auto simp: enr_start_def enr_sound_def sound_reports_def Let_def split: prod.split)
  have delay: "enr_sound (dev_delay P ms x)" if "enr_sound x" for ms x using that by (simp add: enr_sound_def dev_delay_def split_beta)
  have "in_buffer r \<and> enr_sound (ctx, dev, w)"
    by (rule sound_run [where I = enr_sound, OF platform_docD(1) [OF assms(1)] _ _ run(1) _ start]) (use enr_step_sound [OF assms(1,2)] delay in blast, use delay in blast, simp)
  then show ?thesis
    by (auto simp: run(2) verimark_enroll_ssm_done_def enr_sound_def sound_report_def Let_def split: sum.split)
qed

subsection \<open>Verification and identification\<close>

definition vfy_sound :: "'w vfy_state \<Rightarrow> bool" where
  "vfy_sound = (\<lambda>(ctx, s). sound_reports (fst s) \<and> task_ssm (fst s) = Some Verify_Task)"

lemma vfy_step_sound:
  assumes "platform_doc P T" "env_sound P" "c < 2" "vfy_sound x" "vfy_step P D c x = Some (call, x')"
  shows "vfy_sound x' \<and> sound_call 2 call"
proof -
  have len: "length verimark_moc_build_begin_id \<le> 65536" using begin_id_length by simp
  obtain ctx s1 where x: "x = (ctx, s1)" by (cases x)
  have keep: "sound_reports dev \<and> task_ssm dev = Some Verify_Task" if "reports dev = reports (fst s1)" "task_ssm dev = task_ssm (fst s1)" for dev
    using assms(4) that by (simp add: x sound_reports_def vfy_sound_def)
  from assms(3) consider "c = 0" | "c = 1" by fastforce
  then show ?thesis
  proof cases
    case 1
    then obtain r dev w where r: "verimark_moc_capture P VERIMARK_ACQ_VERIFY s1 = Some (r, dev, w)" "on_vfy_capture_done P ctx r (dev, w) = (call, x')"
      using assms(5) by (auto simp: vfy_step_def x)
    with capture_sound [OF assms(1,2) r(1)] keep [of dev] show ?thesis
      by (auto simp: vfy_sound_def on_vfy_capture_done_def Let_def split: sum.split_asm prod.split_asm if_split_asm)
  next
    case 2
    then obtain r dev w where r: "verimark_moc_send P verimark_moc_build_begin_id 177 s1 = Some (r, dev, w)" "on_vfy_match_done D ctx r (dev, w) = (call, x')"
      using assms(5) by (auto simp: vfy_step_def x)
    note sent = moc_send_sound [OF assms(1,2) len r(1)]
    have "in_buffer (verimark_moc_parse_verify q)" for q by (rule parse_in_bounds)
    then have "\<not> defect e" if "verimark_moc_parse_verify q = Inl e" for q e using that by (metis in_buffer_Inl)
    then show ?thesis
      using r(2) sent keep [of dev]
      by (auto simp: vfy_sound_def on_vfy_match_done_def vfy_verdict_def sound_report_def split: sum.split_asm if_split_asm)
  qed
qed

lemma verify_sound:
  assumes "platform_doc P T" "env_sound P" "sound_reports (fst s)" "verimark_moc_verify_identify_start P D ident s = Some s'"
  shows "sound_reports (fst s')"
proof -
  obtain dev w where s: "s = (dev, w)" by fastforce
  from assms(4) obtain ctx0 r ctx dev' w' w0 where
    run: "ssm_run (fpi P) (dev_delay P) 2 (vfy_step P D) vfy_fuel 0 (ctx0, dev\<lparr>task_ssm := Some Verify_Task\<rparr>, w0) = Some (r, ctx, dev', w')"
    "s' = (verimark_verify_ssm_done (is_identify ctx) r dev', w')"
    by (auto simp: verimark_moc_verify_identify_start_def s Let_def split: prod.split_asm simp del: ssm_run.simps)
  have start: "vfy_sound (ctx0, dev\<lparr>task_ssm := Some Verify_Task\<rparr>, w0)" using assms(3) by (simp add: s vfy_sound_def sound_reports_def)
  have delay: "vfy_sound (dev_delay P ms x)" if "vfy_sound x" for ms x using that by (simp add: vfy_sound_def dev_delay_def split_beta)
  have "in_buffer r \<and> vfy_sound (ctx, dev', w')"
    by (rule sound_run [where I = vfy_sound, OF platform_docD(1) [OF assms(1)] _ _ run(1) _ start]) (use vfy_step_sound [OF assms(1,2)] in blast, use delay in blast, simp)
  then show ?thesis
    by (auto simp: run(2) vfy_sound_def verimark_verify_ssm_done_def sound_report_def Let_def split: sum.split)
qed

subsection \<open>Storage\<close>

lemma sound_reports_same: "sound_reports dev \<Longrightarrow> reports dev' = reports dev \<Longrightarrow> sound_reports dev'"
  by (simp add: sound_reports_def)

lemma list_sound:
  assumes "platform_doc P T" "env_sound P" "sound_reports (fst s)" "verimark_moc_list P L s = Some s'"
  shows "sound_reports (fst s')"
proof -
  note send = moc_send_sound [OF assms(1,2)] and keep = sound_reports_same [OF assms(3)]
  obtain dev w where s: "s = (dev, w)" by fastforce
  note err = in_buffer_Inl [OF parse_in_bounds(3)]
  from moc_send_total [OF assms(1), of "[VERIMARK_CMD_DB2_GET_OBJ_LIST, 0x01]" "0x400" dev w] obtain r dev1 w1 where
    r: "verimark_moc_send P [VERIMARK_CMD_DB2_GET_OBJ_LIST, 0x01] 0x400 (dev, w) = Some (r, dev1, w1)" by auto
  have "sound_report (list_result L r)"
    using send(1) [OF _ r]
    by (auto dest: err simp: sound_report_def list_result_def bind_res_Inl split: sum.split prod.split)
  then show ?thesis using moc_list_call [OF platform_docD(1) [OF assms(1)] r, of L] assms(4) keep [of dev1] send(2) [OF _ r] by (auto simp: s)
qed

lemma clear_sound:
  assumes "platform_doc P T" "env_sound P" "sound_reports (fst s)" "verimark_moc_clear P s = Some s'"
  shows "sound_reports (fst s')"
proof -
  note send = moc_send_sound [OF assms(1,2)] and keep = sound_reports_same [OF assms(3)]
  obtain dev w where s: "s = (dev, w)" by fastforce
  from moc_send_total [OF assms(1), of "[VERIMARK_CMD_DB2_FORMAT, 0x01]" 4 dev w] obtain r dev1 w1 where
    r: "verimark_moc_send P [VERIMARK_CMD_DB2_FORMAT, 0x01] 4 (dev, w) = Some (r, dev1, w1)" by auto
  then show ?thesis using moc_clear_call [OF platform_docD(1) [OF assms(1)] r] assms(4) keep [of dev1] send(1,2) [OF _ r]
    by (auto simp: s sound_report_def split: sum.split)
qed

lemma delete_sound:
  assumes "platform_doc P T" "env_sound P" "sound_reports (fst s)" "verimark_moc_delete P print s = Some s'"
  shows "sound_reports (fst s')"
proof (cases "delete_target print")
  case None
  then show ?thesis using assms(3,4) by (cases s) (auto simp: verimark_moc_delete_def sound_report_def)
next
  case (Some target)
  then have "length target = 16" by (auto simp: delete_target_def split: option.split_asm if_split_asm)
  then have len: "length (del_info_cmd target) \<le> 65536" by (simp add: del_info_cmd_def)
  obtain dev w where s: "s = (dev, w)" by fastforce
  from assms(4) moc_delete_calls [OF platform_docD(1) [OF assms(1)] Some, of dev w] obtain r dev1 w1 where
    calls: "delete_calls P target s = Some (r, dev1, w1)" "s' = (verimark_delete_ssm_done r dev1, w1)" by (auto simp: s)
  then obtain q s1 where q: "verimark_moc_send P (del_info_cmd target) 0x34 s = Some (q, s1)"
    by (auto simp: delete_calls_def bind_so_def split: option.split_asm)
  note sent = moc_send_sound [OF assms(1,2) len q]
  have "in_buffer r \<and> reports dev1 = reports (fst s)"
  proof (cases "bind_res q (\<lambda>(_, resp). verimark_moc_parse_obj_info (moc_ptr resp))")
    case (Inl e)
    have "\<not> defect e"
      using Inl sent(1) parse_in_bounds(4) in_buffer_Inl by (fastforce simp: bind_res_Inl)
    then show ?thesis using Inl calls(1) q sent(2) by (auto simp: delete_calls_def bind_res_Inl)
  next
    case (Inr c)
    then obtain st resp where q': "q = Inr (st, resp)" "36 \<le> length resp" "c = take 16 (drop 20 resp)"
      by (auto simp: bind_res_Inr obj_info_Inr)
    then have "length (del_delete_cmd c) \<le> 65536" by (simp add: del_delete_cmd_def)
    then show ?thesis
      using calls(1) q sent(2) Inr q' moc_send_sound(1,2) [OF assms(1,2), of "del_delete_cmd c" 4 s1]
      by (fastforce simp: delete_calls_def bind_so_def split: option.split_asm prod.split_asm sum.split_asm)
  qed
  then show ?thesis
    using calls(2) sound_reports_same [OF assms(3), of dev1] by (auto simp: verimark_delete_ssm_done_def sound_report_def split: sum.split)
qed

subsection \<open>Opening and closing\<close>

lemma bring_up_sound:
  assumes "env_sound P"
  shows "in_buffer (fst (open_bring_up P w))"
proof -
  have io: "in_buffer (fst (verimark_tls_io_sync P w out))" "in_buffer (fst (verimark_pair_io_sync P w out))" for w out
    by (simp_all add: verimark_tls_io_sync_def verimark_pair_io_sync_def ctrl_cmd_sound [OF assms])
  have load_file: "in_buffer (fst (verimark_pairing_load_file P sid w))" for sid w
    by (auto simp: verimark_pairing_load_file_def intro!: bind_st_in_bounds env_soundD [OF assms] pairing_load_in_bounds)
  have save: "in_buffer (fst (verimark_pairing_save_file P pd sid w))" for pd sid w
    by (auto simp: verimark_pairing_save_file_def Let_def intro!: bind_st_in_bounds env_soundD [OF assms]
        split: prod.split)
  have "in_buffer (fst (open_pairing P sid w))" for sid w
    using load_file [of sid w]
    by (auto simp: open_pairing_def intro!: bind_st_in_bounds save pairing_do_in_bounds io split: prod.split sum.split)
  moreover have "in_buffer (fst (verimark_resolve_sid_sync P w))" for w
    by (auto simp: verimark_resolve_sid_sync_def VERIMARK_GET_VERSION_RESP_LEN_def VERIMARK_GET_VERSION_SID_OFFSET_def
        VERIMARK_GET_VERSION_SID_LEN_def rd_slice_def intro!: bind_st_in_bounds ctrl_cmd_sound [OF assms])
  moreover have "in_buffer (fst (case verimark_tls_handshake P (verimark_tls_io_sync P) s of
      (Inl e, _, w) \<Rightarrow> (Inl e, w) | (Inr _, t, w) \<Rightarrow> (Inr (t, sid, pd), w)))" for s sid pd
    using handshake_in_bounds [of "verimark_tls_io_sync P" P s, OF io(1)] by (auto split: prod.split sum.split)
  ultimately show ?thesis
    by (auto simp: open_bring_up_def intro!: bind_st_in_bounds)
qed

lemma open_sound:
  assumes "env_sound P" "sound_reports dev" "dev_open P (dev, w) = (dev', w')"
  shows "sound_reports dev'"
  using assms(2,3)
  by (auto dest!: fst_in_buffer [OF env_soundD(4) [OF assms(1)]] fst_in_buffer [OF env_soundD(5) [OF assms(1)]]
        fst_in_buffer [OF bring_up_sound [OF assms(1)]] simp: dev_open_def Let_def verimark_open_fail_def sound_report_def sound_reports_def report_def
        split: prod.split_asm sum.split_asm option.split_asm if_split_asm)

lemma close_sound:
  assumes "env_sound P" "sound_reports dev" "dev_close P (dev, w) = (dev', w')"
  shows "sound_reports dev'"
proof -
  have "\<not> defect e" if "usb_release P w1 n = (Inl e, w2)" for e w1 w2 n
    using that env_soundD(6) [OF assms(1), of w1 n] by auto
  then show ?thesis
    using assms(2,3)
    by (auto simp: dev_close_def Let_def sound_report_def sound_reports_def report_def split: prod.split_asm sum.split_asm)
qed

subsection \<open>Every request\<close>

lemma request_sound:
  assumes "platform_doc P T" "env_sound P" "sound_reports dev" "dev_vfunc P E req (dev, w) = Some (dev', w')"
  shows "sound_reports dev'"
proof (cases req)
  case Open
  then show ?thesis using assms(4) open_sound [OF assms(2,3)] by (simp add: dev_vfunc_def)
next
  case Close
  then show ?thesis using assms(4) close_sound [OF assms(2,3)] by (simp add: dev_vfunc_def)
next
  case (Do_Enroll print)
  then show ?thesis using assms(3,4) enroll_sound [OF assms(1,2), of "(dev, w)"] by (fastforce simp: dev_vfunc_def)
next
  case (Do_Verify print)
  then show ?thesis using assms(3,4) verify_sound [OF assms(1,2), of "(dev, w)"]
    by (fastforce simp: dev_vfunc_def verimark_moc_verify_def)
next
  case (Do_Identify prints)
  then show ?thesis using assms(3,4) verify_sound [OF assms(1,2), of "(dev, w)"]
    by (fastforce simp: dev_vfunc_def verimark_moc_identify_def)
next
  case Do_List
  then show ?thesis using assms(3,4) list_sound [OF assms(1,2), of "(dev, w)"] by (fastforce simp: dev_vfunc_def)
next
  case (Do_Delete print)
  then show ?thesis using assms(3,4) delete_sound [OF assms(1,2), of "(dev, w)"] by (fastforce simp: dev_vfunc_def)
next
  case Do_Clear
  then show ?thesis using assms(3,4) clear_sound [OF assms(1,2), of "(dev, w)"] by (fastforce simp: dev_vfunc_def)
qed

lemma run_sound:
  assumes "platform_doc P T" "env_sound P" "drv_run P E reqs s"
  shows "sound_reports (fst s)"
  using assms(3)
proof (induction rule: drv_run.induct)
  case (fresh w)
  then show ?case by (simp add: dev_init_def sound_reports_def)
next
  case (elapse reqs dev w w')
  then show ?case by simp
next
  case (serve reqs dev w req s')
  then show ?case using request_sound [OF assms(1,2), of dev E req w "fst s'" "snd s'"] by simp
qed

subsection \<open>Property\<close>

text \<open>C4: The driver is memory safe against its environment: whatever the sensor, the files and the user
  answer, over any sequence of requests, no report carries a read outside a buffer, an assertion
  that cannot hold or the resumption of a machine that is not the running one. Nor is one hidden
  where an error is retried or dropped: no command, capture or connection produces one, from any
  state; no parser of a reply, no record of the channel, whatever its bytes, and no transfer of a
  command of any length and read budget does.\<close>

theorem driver_memory_safe:
  assumes "platform_doc P T" "env_sound P" "drv_run P E reqs (dev, w)"
  shows "(\<forall>r \<in> set (reports dev). report_error r \<noteq> Some Out_Of_Bounds \<and> report_error r \<noteq> Some Assert_Not_Reached
          \<and> report_error r \<noteq> Some No_Machine)
    \<and> (\<forall>cmd hint r s s'. length cmd \<le> 65536 \<longrightarrow> verimark_moc_send P cmd hint s = Some (r, s') \<longrightarrow> in_buffer r)
    \<and> (\<forall>kind r s s'. verimark_moc_capture P kind s = Some (r, s') \<longrightarrow> in_buffer r)
    \<and> (\<forall>v. in_buffer (fst (open_bring_up P v)))
    \<and> (\<forall>resp. in_buffer (verimark_moc_parse_sample resp) \<and> in_buffer (verimark_moc_parse_verify resp)
         \<and> in_buffer (verimark_moc_parse_obj_list resp) \<and> in_buffer (verimark_moc_parse_obj_info resp))
    \<and> (\<forall>t rcd. in_buffer (fst (verimark_tls_unwrap (lib P) t rcd)))
    \<and> (\<forall>cmd budget v. in_buffer (fst (verimark_ctrl_cmd_sync P cmd budget v)))"
proof (intro conjI)
  show "\<forall>r \<in> set (reports dev). report_error r \<noteq> Some Out_Of_Bounds \<and> report_error r \<noteq> Some Assert_Not_Reached
      \<and> report_error r \<noteq> Some No_Machine"
    using run_sound [OF assms] by (auto simp: sound_reports_def sound_report_def list_all_iff defect_def)
qed (use moc_send_sound(1) [OF assms(1,2)] capture_sound(1) [OF assms(1,2)] bring_up_sound [OF assms(2)] parse_in_bounds
    unwrap_in_bounds ctrl_cmd_sound [OF assms(2)] in blast)+

text \<open>A sensor that answers everything with 255 bytes of \<open>0xff\<close>.\<close>

definition hostile :: "bytes \<Rightarrow> bytes" where
  "hostile cmd = replicate 255 0xff"

lemma answering_sound: "env_sound (answering f)"
  by (simp add: env_sound_def answering_def sample_def split: option.split list.split)

lemma driver_memory_safe_witness:
  "\<exists>dev w e. drv_run (answering hostile) sample_fpi [Open] (dev, w) \<and> reports dev = [Open_Complete e]
    \<and> e \<noteq> Some Out_Of_Bounds \<and> e \<noteq> Some Assert_Not_Reached \<and> e \<noteq> Some No_Machine \<and> in_buffer (fst (open_bring_up (answering hostile) w))
    \<and> in_buffer (verimark_moc_parse_sample (Some [0, 0, 7]))"
proof -
  have "admissible Open dev_init" by (simp add: admissible_def dev_init_def)
  from drv_run.serve [OF drv_run.fresh this, of "answering hostile" sample_fpi world0] obtain dev w where
    run: "dev_open (answering hostile) (dev_init, world0) = (dev, w)" "drv_run (answering hostile) sample_fpi [Open] (dev, w)"
    by (simp add: dev_vfunc_def) (metis surj_pair)
  have "dev_closed dev_init" "reports dev_init = []" by (simp_all add: dev_closed_def dev_init_def)
  with dev_open_outcome [OF run(1)] obtain e where e: "reports dev = [Open_Complete e]" by auto
  note safe = driver_memory_safe [OF answering_doc answering_sound run(2)]
  from safe have "in_buffer (fst (open_bring_up (answering hostile) w))" "in_buffer (verimark_moc_parse_sample (Some [0, 0, 7]))"
    by blast+
  moreover from safe e have "e \<noteq> Some Out_Of_Bounds \<and> e \<noteq> Some Assert_Not_Reached \<and> e \<noteq> Some No_Machine" by simp
  ultimately show ?thesis using run(2) e by blast
qed

end
