(* ===== verification/Cancel_Calls.thy ===== *)
theory Cancel_Calls
  imports Driver
begin

text \<open>
  Cancellation, up to the captures (\<open>dev_cancel\<close> of \<open>verimark.c\<close>, whose body is empty, does nothing
  itself): the driver hands the cancellable of the action to every transfer. A call during which the
  user cancels, at any point of it, comes back with \<open>Io_Cancelled\<close>: a command, a wait for a press, a
  whole capture, and the connection an open makes.
\<close>

subsection \<open>A cancellable action\<close>

text \<open>\<open>C\<close> holds of the worlds in which the cancellable of the current action has been cancelled. That
  is never undone; a transfer after which it is so, because the user cancelled before it or while it
  was pending, comes back with \<open>Io_Cancelled\<close>. It can also become so while the driver or the main
  loop waits for a delay. The calls that return at once neither see nor change it. \<open>cancel_doc\<close> adds
  the interrupt transfers, which are handed the cancellable but in the drain of an open.\<close>

definition transfer_cancels :: "('w \<Rightarrow> bool) \<Rightarrow> 'w \<Rightarrow> 'a res \<times> 'w \<Rightarrow> bool" where
  "transfer_cancels C w = (\<lambda>(r, w'). (C w \<longrightarrow> C w') \<and> (C w' \<longrightarrow> r = Inl Io_Cancelled))"

definition ctrl_cancel_doc :: "'w platform \<Rightarrow> ('w \<Rightarrow> bool) \<Rightarrow> bool" where
  "ctrl_cancel_doc P C \<longleftrightarrow>
     (\<forall>w req v d. transfer_cancels C w (ctrl_out P w req v d))
   \<and> (\<forall>w req v n. transfer_cancels C w (ctrl_in P w req v n))
   \<and> (\<forall>w us. C w \<longrightarrow> C (pause_us P us w))
   \<and> (\<forall>w. C (snd (mono_time P w)) = C w) \<and> (\<forall>w n. C (snd (rand_bytes P w n)) = C w)
   \<and> (\<forall>w. C (snd (unix_time P w)) = C w) \<and> (\<forall>w k m. C (snd (evp_digest_sign P w k m)) = C w)
   \<and> (\<forall>w k m. C (snd (ecdsa_sign P w k m)) = C w) \<and> (\<forall>w. C (snd (ec_generate P w)) = C w)
   \<and> (\<forall>w. C (snd (usb_interfaces P w)) = C w) \<and> (\<forall>w n. C (snd (usb_claim P w n)) = C w)
   \<and> (\<forall>w n. C (snd (usb_release P w n)) = C w) \<and> (\<forall>w p m. C (snd (fs_mkdir P w p m)) = C w)
   \<and> (\<forall>w p m. C (snd (fs_open_trunc P w p m)) = C w) \<and> (\<forall>w p d. C (snd (fs_write P w p d)) = C w)
   \<and> (\<forall>w p. C (snd (fs_read P w p)) = C w)"

definition cancel_doc :: "'w platform \<Rightarrow> ('w \<Rightarrow> bool) \<Rightarrow> bool" where
  "cancel_doc P C \<longleftrightarrow> ctrl_cancel_doc P C \<and> (\<forall>w ep n t. transfer_cancels C w (intr_in P w ep n t))"

lemma cancel_doc_ctrl: "cancel_doc P C \<Longrightarrow> ctrl_cancel_doc P C"
  by (simp add: cancel_doc_def)

lemma ctrl_cancel_doc_drain: "ctrl_cancel_doc (P\<lparr>intr_in := drain\<rparr>) C = ctrl_cancel_doc P C"
  by (simp add: ctrl_cancel_doc_def)

lemma transfer_cancelsD:
  "transfer_cancels C w m \<Longrightarrow> m = (r, w') \<Longrightarrow> (C w \<longrightarrow> C w') \<and> (C w' \<longrightarrow> r = Inl Io_Cancelled)"
  by (simp add: transfer_cancels_def)

lemma cancelD:
  assumes "ctrl_cancel_doc P C"
  shows "ctrl_out P w req v d = (r1, w') \<Longrightarrow> (C w \<longrightarrow> C w') \<and> (C w' \<longrightarrow> r1 = Inl Io_Cancelled)"
    and "ctrl_in P w req v n = (r2, w') \<Longrightarrow> (C w \<longrightarrow> C w') \<and> (C w' \<longrightarrow> r2 = Inl Io_Cancelled)"
    and "C w \<Longrightarrow> C (pause_us P us w)"
proof -
  have "transfer_cancels C w (ctrl_out P w req v d)" "transfer_cancels C w (ctrl_in P w req v n)"
    "C w \<longrightarrow> C (pause_us P us w)"
    using assms by (simp_all add: ctrl_cancel_doc_def)
  then show "ctrl_out P w req v d = (r1, w') \<Longrightarrow> (C w \<longrightarrow> C w') \<and> (C w' \<longrightarrow> r1 = Inl Io_Cancelled)"
    "ctrl_in P w req v n = (r2, w') \<Longrightarrow> (C w \<longrightarrow> C w') \<and> (C w' \<longrightarrow> r2 = Inl Io_Cancelled)"
    "C w \<Longrightarrow> C (pause_us P us w)"
    by (auto dest: transfer_cancelsD)
qed

lemma cancel_intr:
  assumes "cancel_doc P C" "intr_in P w ep n t = (r, w')"
  shows "(C w \<longrightarrow> C w') \<and> (C w' \<longrightarrow> r = Inl Io_Cancelled)"
  by (rule transfer_cancelsD [OF _ assms(2)]) (use assms(1) in \<open>simp add: cancel_doc_def\<close>)

lemma cancel_instant:
  assumes "ctrl_cancel_doc P C"
  shows "mono_time P w = (now, w') \<Longrightarrow> C w' = C w" "rand_bytes P w n = (bs, w') \<Longrightarrow> C w' = C w"
    "unix_time P w = (u, w') \<Longrightarrow> C w' = C w" "evp_digest_sign P w k m = (sig, w') \<Longrightarrow> C w' = C w"
    "ecdsa_sign P w k m = (sig, w') \<Longrightarrow> C w' = C w" "ec_generate P w = (key, w') \<Longrightarrow> C w' = C w"
    "usb_interfaces P w = (ifs, w') \<Longrightarrow> C w' = C w" "usb_claim P w i = (ok, w') \<Longrightarrow> C w' = C w"
    "usb_release P w i = (ok, w') \<Longrightarrow> C w' = C w" "fs_mkdir P w p j = (ok, w') \<Longrightarrow> C w' = C w"
    "fs_open_trunc P w p j = (ok, w') \<Longrightarrow> C w' = C w" "fs_write P w p d = (wr, w') \<Longrightarrow> C w' = C w"
    "fs_read P w p = (q, w') \<Longrightarrow> C w' = C w"
  using assms by (simp_all add: ctrl_cancel_doc_def) (metis snd_conv)+

text \<open>A call settles a cancellation: when the action is cancelled after it, its result says so. \<open>b\<close> is
  whether it was cancelled before it already.\<close>

definition settled :: "('s \<Rightarrow> bool) \<Rightarrow> bool \<Rightarrow> 'a res \<times> 's \<Rightarrow> bool" where
  "settled C b = (\<lambda>(r, s). (b \<longrightarrow> C s) \<and> (C s \<longrightarrow> r = Inl Io_Cancelled))"

lemma settledD: "settled C b (r, s) \<Longrightarrow> (b \<longrightarrow> C s) \<and> (C s \<longrightarrow> r = Inl Io_Cancelled)"
  by (simp add: settled_def)

lemma settled_Inr [simp]: "settled C b (Inr a, s) \<longleftrightarrow> \<not> b \<and> \<not> C s"
  by (auto simp: settled_def)

lemma settled_uncancelled: "\<not> C s \<Longrightarrow> settled C False (r, s)"
  by (simp add: settled_def)

lemma settled_bind:
  assumes "settled C b m" "\<And>a s. m = (Inr a, s) \<Longrightarrow> \<not> C s \<Longrightarrow> settled C False (f a s)"
  shows "settled C b (bind_st m f)"
proof -
  obtain r s where m: "m = (r, s)" by fastforce
  show ?thesis
  proof (cases r)
    case (Inl e)
    then show ?thesis using assms(1) by (auto simp: m settled_def)
  next
    case (Inr a)
    then have "\<not> b" "\<not> C s" using assms(1) by (simp_all add: m)
    then show ?thesis using assms(2) [of a s] Inr by (simp add: m)
  qed
qed

subsection \<open>A command\<close>

lemma settled_frames:
  assumes "ctrl_cancel_doc P C"
  shows "(C w \<Longrightarrow> fs \<noteq> []) \<Longrightarrow> settled C (C w) (send_frames P fs w)"
proof (induction fs arbitrary: w)
  case Nil
  then show ?case by auto
next
  case (Cons vd fs)
  obtain v d where vd: "vd = (v, d)" by fastforce
  obtain q w1 where io: "ctrl_out P w VERIMARK_CTRL_REQ_WRITE v d = (q, w1)" by fastforce
  note c = cancelD(1) [OF assms io]
  show ?case
  proof (cases q)
    case (Inl e)
    with io c show ?thesis by (simp add: vd settled_def)
  next
    case (Inr u)
    with c have "\<not> C w1" "\<not> C w" by auto
    with Cons.IH [of w1] io Inr show ?thesis by (simp add: vd)
  qed
qed

lemma settled_read:
  assumes "ctrl_cancel_doc P C" "ctrl_read_loop P rmx acc first retries w = (r, w')" "C w \<Longrightarrow> length acc < unat rmx"
  shows "settled C (C w) (r, w')"
  using assms(2,3)
proof (induction rule: ctrl_read_loop_rule)
  case (full acc first retries w)
  then show ?case by auto
next
  case (failed acc first retries w want wvalue e w1)
  then show ?case using cancelD(2) [OF assms(1) read_stepD(4) [OF failed(1)]] by (simp add: settled_def)
next
  case (retried acc first retries w want wvalue w1 r w')
  have "settled C (C (pause_us P VERIMARK_SYNC_READ_RETRY_DELAY_US w1)) (r, w')"
    using retried(3) read_stepD(1) [OF retried(1)] by blast
  then show ?case
    using cancelD(2) [OF assms(1) read_stepD(4) [OF retried(1)]] cancelD(3) [OF assms(1)] by (auto simp: settled_def)
next
  case (ended acc first retries w want wvalue data w1)
  then show ?case using cancelD(2) [OF assms(1) read_stepD(4) [OF ended(1)]] by auto
next
  case (more acc first retries w want wvalue data w1 r w')
  then show ?case using cancelD(2) [OF assms(1) read_stepD(4) [OF more(1)]] by (auto simp: settled_def)
qed

lemma settled_cmd:
  assumes "ctrl_cancel_doc P C" "C w \<Longrightarrow> length cmd + 8 \<le> 2 ^ 63"
  shows "settled C (C w) (verimark_ctrl_cmd_sync P cmd m w)"
proof -
  obtain q w1 where wr: "send_frames P (write_frames cmd) w = (q, w1)" by fastforce
  note c = settled_frames [OF assms(1), of w "write_frames cmd", OF write_frames_nonempty [OF assms(2)], unfolded wr]
  show ?thesis
  proof (cases q)
    case (Inl e)
    then show ?thesis using wr c by (simp add: verimark_ctrl_cmd_sync_def verimark_ctrl_write_frames settled_def)
  next
    case (Inr u)
    then have "\<not> C w" "\<not> C w1" using c by simp_all
    moreover obtain r w' where rd: "ctrl_read_loop P (max m 1) [] True 0 w1 = (r, w')" by fastforce
    ultimately have "settled C (C w) (r, w')" using settled_read [OF assms(1) rd] by simp
    then show ?thesis
      using wr Inr rd by (simp add: verimark_ctrl_cmd_sync_def verimark_ctrl_write_frames verimark_ctrl_read_sync_def)
  qed
qed

text \<open>The same for a call that may not return and has the device object in its state, which stays
  connected.\<close>

definition settles :: "('w \<Rightarrow> bool) \<Rightarrow> bool \<Rightarrow> ('a res \<times> verimark \<times> 'w) option \<Rightarrow> bool" where
  "settles C b m \<longleftrightarrow> (\<forall>r dev w. m = Some (r, dev, w) \<longrightarrow> d_tls dev \<noteq> None \<and> settled C b (r, w))"

lemma settlesI: "(\<And>r dev w. m = Some (r, dev, w) \<Longrightarrow> d_tls dev \<noteq> None \<and> settled C b (r, w)) \<Longrightarrow> settles C b m"
  by (simp add: settles_def)

lemma settlesD: "settles C b m \<Longrightarrow> m = Some (r, dev, w) \<Longrightarrow> d_tls dev \<noteq> None \<and> settled C b (r, w)"
  by (simp add: settles_def)

lemma settles_Some: "settles C b (Some (r, dev, w)) \<longleftrightarrow> d_tls dev \<noteq> None \<and> settled C b (r, w)"
  by (simp add: settles_def)

lemma settles_bind:
  assumes "settles C b m"
    and "\<And>a dev w. m = Some (Inr a, dev, w) \<Longrightarrow> d_tls dev \<noteq> None \<Longrightarrow> \<not> C w \<Longrightarrow> settles C False (f a (dev, w))"
  shows "settles C b (bind_so m f)"
proof (rule settlesI)
  fix r dev w
  assume "bind_so m f = Some (r, dev, w)"
  then consider e where "m = Some (Inl e, dev, w)" "r = Inl e"
    | a dev1 w1 where "m = Some (Inr a, dev1, w1)" "f a (dev1, w1) = Some (r, dev, w)"
    by (auto simp: bind_so_Some)
  then show "d_tls dev \<noteq> None \<and> settled C b (r, w)"
  proof cases
    case 1
    then show ?thesis using settlesD [OF assms(1)] by (auto simp: settled_def)
  next
    case 2
    from settlesD [OF assms(1) 2(1)] have "d_tls dev1 \<noteq> None" "\<not> C w1" "\<not> b" by auto
    with settlesD [OF assms(2) [OF 2(1)] 2(2)] show ?thesis by simp
  qed
qed

lemma settles_send:
  assumes "platform_doc P T" "cancel_doc P C" "d_tls (fst s) \<noteq> None" "length cmd \<le> 65536"
  shows "settles C (C (snd s)) (verimark_moc_send P cmd hint s)"
proof (rule settlesI)
  fix r dev' w'
  assume send: "verimark_moc_send P cmd hint s = Some (r, dev', w')"
  note docs = platform_docD(1-3) [OF assms(1)]
  obtain dev w where s: "s = (dev, w)" by fastforce
  from assms(3) obtain t where t: "d_tls dev = Some t" by (auto simp: s)
  obtain nonce w1 where rnd: "rand_bytes P w 8 = (nonce, w1)" by fastforce
  from gcm_wrap_total [OF docs(2) rand_docD [OF docs(3) rnd]] obtain frag where
    "verimark_tls_gcm_wrap (lib P) (encr_key (t_keys t)) (encr_iv (t_keys t)) (t_encr_seq t)
       VERIMARK_TLS_CT_APPDATA nonce cmd = Inr frag" .
  then obtain rcd t1 w2 where wrap: "verimark_tls_wrap P (t, w) cmd = (Inr rcd, t1, w2)" "w2 = w \<or> w2 = w1"
    using rnd by (cases "t_established t") (auto simp: verimark_tls_wrap_def)
  have w2: "C w2 = C w" using wrap(2) cancel_instant(2) [OF cancel_doc_ctrl [OF assms(2)] rnd] by auto
  have "length rcd + 8 \<le> 2 ^ 63" using tls_wrap_length [OF docs(2,3) wrap(1)] assms(4) by simp
  then have io: "settled C (C w) (verimark_ctrl_cmd_sync P rcd (moc_budget hint) w2)"
    using settled_cmd [OF cancel_doc_ctrl [OF assms(2)], of w2] by (simp add: w2)
  obtain q w3 where q: "verimark_ctrl_cmd_sync P rcd (moc_budget hint) w2 = (q, w3)" by fastforce
  have "moc_exchange P cmd hint (dev, w) = (r, dev', w')"
    using trans [OF sym [OF moc_send_exchange [OF docs assms(4), of hint s]] send] by (simp add: s)
  then have resp: "on_moc_raw_resp (lib P) q (dev\<lparr>d_tls := Some t1\<rparr>, w3) = (r, dev', w')"
    using t wrap(1) q by (simp add: moc_exchange_def)
  have "settled C (C w) (q, w3)" using io by (simp add: q)
  moreover have "w' = w3" using raw_resp_dev [OF resp] by blast
  moreover have "d_tls dev' \<noteq> None" using raw_resp_session [OF resp, of t1] by auto
  moreover have "r = Inl Io_Cancelled" if "q = Inl Io_Cancelled" using resp that by (simp add: on_moc_raw_resp_def)
  ultimately show "d_tls dev' \<noteq> None \<and> settled C (C (snd s)) (r, w')" by (auto simp: settled_def s)
qed

subsection \<open>A capture\<close>

lemma settles_arm:
  assumes "platform_doc P T" "cancel_doc P C" "d_tls (fst s) \<noteq> None"
  shows "settles C (C (snd s)) (cap_arm P m s)"
proof -
  have "length (build_event_config m) \<le> 65536" using capture_cmd_lengths(1) [of m] by simp
  from settles_send [OF assms this] show ?thesis
    unfolding cap_arm_def cap_send_config_def by (intro settles_bind) (auto simp: settles_def)
qed

lemma settles_press:
  assumes "platform_doc P T" "cancel_doc P C" "d_tls (fst s) \<noteq> None" "\<not> C (snd s)"
  shows "settles C False (cap_press P s)"
proof -
  have keeps: "intr_keeps P (\<lambda>w. \<not> C w) (\<lambda>e w. C w \<longrightarrow> e = Io_Cancelled)"
    unfolding intr_keeps_def
  proof (intro conjI allI impI)
    fix w now w'
    show "\<not> C w \<Longrightarrow> mono_time P w = (now, w') \<Longrightarrow> \<not> C w'" using cancel_instant(1) [OF cancel_doc_ctrl [OF assms(2)]] by blast
  next
    fix w ep n t r w'
    assume "intr_in P w ep n t = (r, w')"
    from cancel_intr [OF assms(2) this] have "C w' \<longrightarrow> r = Inl Io_Cancelled" by blast
    then show "case r of Inl e \<Rightarrow> if e = Usb_Timed_Out then \<not> C w' else C w' \<longrightarrow> e = Io_Cancelled | Inr _ \<Rightarrow> \<not> C w'"
      by (cases r) auto
  qed
  have "settles C False (cap_wait_press P s)"
  proof (rule settlesI)
    fix r dev w assume "cap_wait_press P s = Some (r, dev, w)"
    then have "dev = fst s" and "verimark_intr_wait_async P press_fuel (d_ep_intr_in (fst s)) VERIMARK_EVT_FINGER_PRESS
        VERIMARK_CAPTURE_PRESS_TIMEOUT_MS (snd s) = Some (r, w)" by (auto simp: cap_wait_press_def split_beta)
    with intr_wait_keeps [OF keeps platform_docD(1) [OF assms(1)] assms(4) this(2)] assms(3)
    show "d_tls dev \<noteq> None \<and> settled C False (r, w)" by (auto simp: settled_def split: sum.split_asm)
  qed
  then show ?thesis unfolding cap_press_def by (rule settles_bind) (auto simp: settles_Some settled_def)
qed

lemma settles_acquire:
  assumes "platform_doc P T" "cancel_doc P C" "d_tls (fst s) \<noteq> None"
  shows "settles C (C (snd s)) (cap_acquire P kind s)"
proof -
  have "length (verimark_moc_build_frame_acq kind) \<le> 65536" using capture_cmd_lengths(3) [of kind] by simp
  from settles_send [OF assms this] show ?thesis
    unfolding cap_acquire_def by (rule settles_bind)
      (auto simp: settles_Some settled_def cancel_instant [OF cancel_doc_ctrl [OF assms(2)]] split: prod.split)
qed

lemma settles_poll:
  assumes "platform_doc P T" "cancel_doc P C"
  shows "d_tls (fst s) \<noteq> None \<Longrightarrow> settles C (C (snd s)) (cap_poll P n deadline s)"
proof (induction n arbitrary: s)
  case 0
  then show ?case by (simp add: settles_def)
next
  case (Suc n)
  have "length (build_event_read m) \<le> 65536" for m using capture_cmd_lengths(2) [of m] by simp
  from settles_send [OF assms Suc.prems this] have
    "settles C (C (snd s)) (verimark_moc_send P (build_event_read (event_seq_num (fst s))) 390 s)" .
  then show ?case
    unfolding cap_poll.simps
  proof (rule settles_bind)
    fix a :: "u16 \<times> bytes" and dev :: verimark and w
    assume "d_tls dev \<noteq> None" "\<not> C w"
    obtain status resp where a: "a = (status, resp)" by fastforce
    obtain now w1 where clk: "mono_time P w = (now, w1)" by fastforce
    then have "\<not> C w1" using cancel_instant(1) [OF cancel_doc_ctrl [OF assms(2)] clk] \<open>\<not> C w\<close> by simp
    moreover have "settles C False (cap_poll P n deadline (dev1, w2))" if "d_tls dev1 \<noteq> None" for dev1 w2
      using Suc.IH [of "(dev1, w2)"] that by (auto simp: settles_def settled_def)
    ultimately show "settles C False ((\<lambda>(status, resp) (dev, w). let (now, w) = mono_time P w
       in if status \<noteq> 0 \<and> \<not> (0x0405 \<le> status \<and> status \<le> 0x0407)
          then Some (Inl (Device_Error DEVICE_PROTO ''EVENT_READ status 0x%04x'' [unat status]), dev, w)
          else
            let dev = (if status = 0 then dev\<lparr>event_seq_num := event_seq_num dev + frame_events resp\<rparr> else dev)
            in if status = 0 \<and> frame_ready resp then Some (Inr True, dev, w)
               else if deadline \<le> now then Some (Inr False, dev, w)
               else cap_poll P n deadline (dev, pause_us P 15000 w)) a (dev, w))"
      using \<open>d_tls dev \<noteq> None\<close> by (simp add: a clk Let_def settles_Some settled_def)
  qed
qed

lemma settles_end:
  assumes "platform_doc P T" "cancel_doc P C" "d_tls (fst s) \<noteq> None"
  shows "settles C (C (snd s)) (cap_end P ready s)"
proof -
  have "length verimark_moc_build_frame_finish \<le> 65536" using capture_cmd_lengths(4) by simp
  note send = settles_send [OF assms(1,2) _ this]
  show ?thesis
    unfolding cap_end_def
  proof (intro settles_bind settles_arm [OF assms])
    fix dev :: verimark and w
    assume "d_tls dev \<noteq> None" "\<not> C w"
    with send [of "(dev, w)" 2] show "settles C False (verimark_moc_send P verimark_moc_build_frame_finish 2 (dev, w))" by simp
  qed (simp_all add: settles_Some settled_def)
qed

text \<open>Whenever the user cancels while a capture is under way, be it armed, waiting for the finger or
  polling for the frame, the capture fails with the cancellation.\<close>

lemma settles_capture:
  assumes "platform_doc P T" "cancel_doc P C" "d_tls (fst s) \<noteq> None"
  shows "settles C (C (snd s)) (verimark_moc_capture P kind s)"
proof -
  have "settles C False (cap_arm P m (dev, w))" "settles C False (cap_press P (dev, w))"
    "settles C False (cap_acquire P kind (dev, w))" "settles C False (cap_poll P n deadline (dev, w))"
    "settles C False (cap_end P ready (dev, w))"
    if "d_tls dev \<noteq> None" "\<not> C w" for m n deadline ready dev w
    using settles_arm [OF assms(1,2), of "(dev, w)"] settles_press [OF assms(1,2), of "(dev, w)"]
      settles_acquire [OF assms(1,2), of "(dev, w)"] settles_poll [OF assms(1,2), of "(dev, w)"]
      settles_end [OF assms(1,2), of "(dev, w)"] that by simp_all
  then show ?thesis
    unfolding capture_eq_spec [OF assms(1)] capture_spec_def by (intro settles_bind settles_arm [OF assms])
qed

subsection \<open>An open\<close>

text \<open>What an open does between its transfers neither sees nor changes a cancellation.\<close>

lemma uncancelled_hello:
  assumes "ctrl_cancel_doc P C" "hs_build_client_hello P t w = (out, t', w')"
  shows "C w' = C w"
  using assms(2) cancel_instant(2,3) [OF assms(1)] by (auto simp: hs_build_client_hello_def Let_def split: prod.split_asm)

lemma uncancelled_rt2:
  assumes "ctrl_cancel_doc P C" "hs_build_rt2 P (t, w) = (r, t', w')"
  shows "C w' = C w"
proof -
  have flight: "C w1 = C w" if "rt2_flight P (t, w) = (q, t1, w1)" for q t1 w1
    using that cancel_instant(2,5) [OF assms(1)]
    by (auto simp: rt2_flight_def Let_def verimark_ecdsa_sign_prehashed_def bind_st_def
        split: prod.split_asm sum.split_asm if_split_asm option.split_asm)
  have fin: "C w2 = C w1" if "rt2_finished P out (t1, w1) = (q, t2, w2)" for out t1 w1 q t2 w2
    using that cancel_instant(2) [OF assms(1)]
    by (auto simp: rt2_finished_def Let_def bind_st_def split: prod.split_asm sum.split_asm option.split_asm)
  show ?thesis
    using assms(2) by (auto simp: hs_build_rt2_def Let_def bind_st_def dest: flight fin split: prod.split_asm sum.split_asm)
qed

lemma settled_handshake:
  assumes "ctrl_cancel_doc P C" "\<not> C w"
  shows "settled (\<lambda>(t, w). C w) False (verimark_tls_handshake P (verimark_tls_io_sync P) (t, w))"
proof -
  have io: "settled (\<lambda>(t, w). C w) False (fst (verimark_tls_io_sync P w1 out), t1, snd (verimark_tls_io_sync P w1 out))"
    if "\<not> C w1" for w1 out and t1 :: tls
    using settled_cmd [OF assms(1), of w1 "[VERIMARK_CMD_TLS_DATA, 0x00, 0x00, 0x00] @ out" VERIMARK_TLS_HANDSHAKE_RESP_MAX] that
    by (simp add: settled_def verimark_tls_io_sync_def split_beta)
  have rt2: "settled (\<lambda>(t, w). C w) False (hs_build_rt2 P (t1, w1))" if "\<not> C w1" for t1 w1
    using uncancelled_rt2 [OF assms(1), of t1 w1] that by (cases "hs_build_rt2 P (t1, w1)") (auto simp: settled_def)
  obtain out t1 w1 where hello: "hs_build_client_hello P t w = (out, t1, w1)" by (metis surj_pair)
  with uncancelled_hello [OF assms(1)] assms(2) have w1: "\<not> C w1" by simp
  show ?thesis
    using assms(2)
    by (auto simp: verimark_tls_handshake_def Let_def hello split_beta settled_uncancelled
        intro!: settled_bind io rt2 w1)
qed

lemma settled_pairing_do:
  assumes "ctrl_cancel_doc P C" "\<not> C w"
  shows "settled C False (verimark_pairing_do P (verimark_pair_io_sync P) w)"
proof -
  have key: "settled C False (ec_keygen P w)"
    using cancel_instant(6) [OF assms(1)] assms(2) by (auto simp: ec_keygen_def settled_def split: prod.split option.split)
  have cert: "settled C False (build_host_cert P priv w1)" if "\<not> C w1" for priv w1
    using cancel_instant(4) [OF assms(1)] that
    by (auto simp: build_host_cert_def Let_def bind_st_def verimark_ecdsa_sign_def settled_def
        split: prod.split sum.split option.split)
  have io: "settled C False (verimark_pair_io_sync P w1 out)" if "\<not> C w1" for w1 out
    using settled_cmd [OF assms(1), of w1 out 802] that by (simp add: verimark_pair_io_sync_def)
  show ?thesis
    unfolding verimark_pairing_do_def
    by (auto simp: settled_uncancelled split_beta intro!: settled_bind key cert io)
qed

lemma uncancelled_load:
  assumes "ctrl_cancel_doc P C" "verimark_pairing_load_file P sid w = (r, w')"
  shows "C w' = C w"
  using assms(2) cancel_instant(13) [OF assms(1)]
  by (auto simp: verimark_pairing_load_file_def bind_st_def split: prod.split_asm sum.split_asm if_split_asm)

lemma uncancelled_save:
  assumes "ctrl_cancel_doc P C" "verimark_pairing_save_file P pd sid w = (r, w')"
  shows "C w' = C w"
  using assms(2) cancel_instant(10-12) [OF assms(1)]
  by (auto simp: verimark_pairing_save_file_def Let_def bind_st_def split: prod.split_asm sum.split_asm if_split_asm)

lemma settled_open_pairing:
  assumes "ctrl_cancel_doc P C" "\<not> C w"
  shows "settled C False (open_pairing P sid w)"
proof -
  obtain q w1 where load: "verimark_pairing_load_file P sid w = (q, w1)" by fastforce
  with uncancelled_load [OF assms(1)] assms(2) have w1: "\<not> C w1" by simp
  have save: "settled C False (verimark_pairing_save_file P pd sid w2)" if "\<not> C w2" for pd w2
    using uncancelled_save [OF assms(1), of pd sid w2] that
    by (cases "verimark_pairing_save_file P pd sid w2") (auto simp: settled_def)
  show ?thesis
  proof (cases q)
    case (Inr pd)
    then show ?thesis using load w1 by (simp add: open_pairing_def)
  next
    case (Inl e)
    have "settled C False (bind_st (verimark_pairing_do P (verimark_pair_io_sync P) w1) (\<lambda>pd w.
        bind_st (verimark_pairing_save_file P pd sid w) (\<lambda>_ w. (Inr pd, w))))"
      by (intro settled_bind settled_pairing_do [OF assms(1) w1] save) simp_all
    then show ?thesis using Inl load w1 by (simp add: open_pairing_def settled_uncancelled)
  qed
qed

lemma settled_bring_up:
  assumes "ctrl_cancel_doc P C"
  shows "settled C (C w) (open_bring_up P w)"
proof -
  have sid: "settled C (C w) (verimark_resolve_sid_sync P w)"
    unfolding verimark_resolve_sid_sync_def
    by (intro settled_bind settled_cmd [OF assms]) (simp_all add: settled_uncancelled)
  show ?thesis
    unfolding open_bring_up_def
  proof (intro settled_bind sid settled_open_pairing [OF assms])
    fix s pd w1
    assume "\<not> C w1"
    obtain r t w2 where hs: "verimark_tls_handshake P (verimark_tls_io_sync P)
        (verimark_tls_set_pairing verimark_tls_new pd, w1) = (r, t, w2)" by (metis surj_pair)
    from settled_handshake [OF assms \<open>\<not> C w1\<close>, of "verimark_tls_set_pairing verimark_tls_new pd"]
    have "C w2 \<longrightarrow> r = Inl Io_Cancelled" by (simp add: hs settled_def)
    then show "settled C False (case verimark_tls_handshake P (verimark_tls_io_sync P)
          (verimark_tls_set_pairing verimark_tls_new pd, w1) of
        (Inl e, _, w) \<Rightarrow> (Inl e, w) | (Inr _, t, w) \<Rightarrow> (Inr (t, s, pd), w))"
      by (cases r) (auto simp: hs settled_def)
  qed
qed

text \<open>An open during which the user cancels completes with that as its error, unless the action was
  cancelled from the start and the device cannot be claimed anyway.\<close>

lemma open_cancelled:
  assumes "ctrl_cancel_doc P C" "dev_open P (dev, w) = (dev', w')" "dev_closed dev" "C w'"
  shows "dev_closed dev' \<and> (\<exists>e. reports dev' = reports dev @ [Open_Complete (Some e)] \<and> (\<not> C w \<longrightarrow> e = Io_Cancelled))"
proof -
  obtain ifs w1 where usb: "usb_interfaces P w = (ifs, w1)" by fastforce
  then have w1: "C w1 = C w" by (rule cancel_instant(7) [OF assms(1)])
  obtain ok w2 where claim: "usb_claim P w1 VERIMARK_IFACE = (ok, w2)" by fastforce
  then have w2: "C w2 = C w" using cancel_instant(8) [OF assms(1) claim] w1 by simp
  let ?w = "verimark_intr_drain_sync P VERIMARK_EP_INTR_IN w2"
  obtain q w3 where up: "open_bring_up P ?w = (q, w3)" by fastforce
  with settled_bring_up [OF assms(1), of ?w] have q: "C w3 \<longrightarrow> q = Inl Io_Cancelled" by (simp add: settled_def)
  obtain rl w4 where rel: "usb_release P w3 VERIMARK_IFACE = (rl, w4)" by fastforce
  then have w4: "C w4 = C w3" by (rule cancel_instant(9) [OF assms(1)])
  have "(\<exists>e. reports dev' = reports dev @ [Open_Complete (Some e)] \<and> (w' = w1 \<or> w' = w2))
      \<or> (\<exists>e. reports dev' = reports dev @ [Open_Complete (Some e)] \<and> q = Inl e \<and> w' = w4) \<or> (\<exists>x. q = Inr x \<and> w' = w3)"
    using assms(2) unfolding dev_open_def
    by (auto simp: Let_def usb claim up rel report_def verimark_open_fail_def
        split: sum.split_asm option.split_asm if_split_asm)
  then have ended: "\<exists>e. reports dev' = reports dev @ [Open_Complete (Some e)] \<and> (\<not> C w \<longrightarrow> e = Io_Cancelled)"
    using assms(4) q w4 w1 w2 by auto
  with dev_open_outcome [OF assms(2,3)] show ?thesis by auto
qed

end
