(* ===== verification/Cancel.thy ===== *)
theory Cancel
  imports Cancel_Calls
begin

text \<open>
  Cancellation, the requests: what an open, a verification, an identification, a list, a delete, a
  clear and an enrollment make of a cancellation that comes before or while they run, whichever of
  their calls it meets.
\<close>

subsection \<open>Storage\<close>

text \<open>A request from \<open>s\<close> returns, and if the user has cancelled by then, it has reported its one
  completion and nothing else.\<close>

definition ends_cancelled :: "('w \<Rightarrow> bool) \<Rightarrow> verimark \<times> 'w \<Rightarrow> report \<Rightarrow> (verimark \<times> 'w) option \<Rightarrow> bool" where
  "ends_cancelled C s completion m \<longleftrightarrow> (\<exists>dev' w'. m = Some (dev', w') \<and> (C (snd s) \<longrightarrow> C w')
     \<and> (C w' \<longrightarrow> reports dev' = reports (fst s) @ [completion]))"

lemma cancel_send:
  assumes "platform_doc P T" "cancel_doc P C" "d_tls dev \<noteq> None" "length cmd \<le> 65536"
  shows "\<exists>r dev' w'. verimark_moc_send P cmd hint (dev, w) = Some (r, dev', w') \<and> d_tls dev' \<noteq> None
    \<and> reports dev' = reports dev \<and> settled C (C w) (r, w')"
proof -
  from moc_send_total [OF assms(1,4), of hint dev w] obtain r dev' w' where
    send: "verimark_moc_send P cmd hint (dev, w) = Some (r, dev', w')" by blast
  with settlesD [OF settles_send [OF assms(1,2) _ assms(4), of "(dev, w)"] send] assms(3)
    same_op_fields [OF moc_send_same [OF send]] show ?thesis by simp
qed

lemma cancel_list:
  assumes "platform_doc P T" "cancel_doc P C" "d_tls dev \<noteq> None"
  shows "ends_cancelled C (dev, w) (List_Complete None (Some Io_Cancelled)) (verimark_moc_list P L (dev, w))"
proof -
  have "length [VERIMARK_CMD_DB2_GET_OBJ_LIST, 0x01] \<le> 65536" by simp
  from cancel_send [OF assms this, of "0x400" w] obtain r dev1 w1 where
    send: "verimark_moc_send P [VERIMARK_CMD_DB2_GET_OBJ_LIST, 0x01] 0x400 (dev, w) = Some (r, dev1, w1)"
      "reports dev1 = reports dev" "settled C (C w) (r, w1)" by blast
  then show ?thesis
    using moc_list_call [OF platform_docD(1) [OF assms(1)] send(1), of L] settledD [OF send(3)]
    by (auto simp: ends_cancelled_def list_result_def report_def)
qed

lemma cancel_clear:
  assumes "platform_doc P T" "cancel_doc P C" "d_tls dev \<noteq> None"
  shows "ends_cancelled C (dev, w) (Clear_Storage_Complete (Some Io_Cancelled)) (verimark_moc_clear P (dev, w))"
proof -
  have "length [VERIMARK_CMD_DB2_FORMAT, 0x01] \<le> 65536" by simp
  from cancel_send [OF assms this, of 4 w] obtain r dev1 w1 where
    send: "verimark_moc_send P [VERIMARK_CMD_DB2_FORMAT, 0x01] 4 (dev, w) = Some (r, dev1, w1)"
      "reports dev1 = reports dev" "settled C (C w) (r, w1)" by blast
  then show ?thesis
    using moc_clear_call [OF platform_docD(1) [OF assms(1)] send(1)] settledD [OF send(3)]
    by (auto simp: ends_cancelled_def report_def)
qed

lemma cancel_delete:
  assumes "platform_doc P T" "cancel_doc P C" "d_tls dev \<noteq> None" "delete_target print \<noteq> None"
  shows "ends_cancelled C (dev, w) (Delete_Complete (Some Io_Cancelled)) (verimark_moc_delete P print (dev, w))"
proof -
  from assms(4) obtain gid where gid: "delete_target print = Some gid" by blast
  then have len: "length gid = 16" by (auto simp: delete_target_def split: option.split_asm if_split_asm)
  then have "length (del_info_cmd gid) \<le> 65536" by (simp add: del_info_cmd_def)
  note info = settles_send [OF assms(1,2) _ this]
  have del: "settles C False (verimark_moc_send P (del_delete_cmd c) 4 (dev1, w1))"
    if "length c = 16" "d_tls dev1 \<noteq> None" "\<not> C w1" for c dev1 w1
    using settles_send [OF assms(1,2), of "(dev1, w1)" "del_delete_cmd c" 4] that by (simp add: del_delete_cmd_def)
  from delete_calls_outcome [OF assms(1) len, of dev w] obtain r dev1 w1 where
    calls: "delete_calls P gid (dev, w) = Some (r, dev1, w1)" "same_op dev dev1" by blast
  have "settles C (C w) (delete_calls P gid (dev, w))"
    unfolding delete_calls_def
  proof (rule settles_bind)
    show "settles C (C w) (verimark_moc_send P (del_info_cmd gid) 0x34 (dev, w))"
      using info [of "(dev, w)" "0x34"] assms(3) by simp
  next
    fix a :: "u16 \<times> bytes" and dev1 :: verimark and w1
    assume s: "d_tls dev1 \<noteq> None" "\<not> C w1"
    obtain st resp where a: "a = (st, resp)" by fastforce
    have "settles C False (bind_so (verimark_moc_send P (del_delete_cmd c) 4 (dev1, w1)) (\<lambda>_ s. Some (Inr (), s)))"
      if "length c = 16" for c
      by (intro settles_bind del that s) (simp add: settles_Some)
    then show "settles C False ((\<lambda>(_, resp) s. case verimark_moc_parse_obj_info (moc_ptr resp) of
        Inl e \<Rightarrow> Some (Inl e, s)
      | Inr c \<Rightarrow> bind_so (verimark_moc_send P (del_delete_cmd c) 4 s) (\<lambda>_ s. Some (Inr (), s))) a (dev1, w1))"
      using s by (auto simp: a settles_Some settled_def obj_info_Inr split: sum.split)
  qed
  from settlesD [OF this calls(1)] calls(1) same_op_fields [OF calls(2)] show ?thesis
    using moc_delete_calls [OF platform_docD(1) [OF assms(1)] gid, of dev w]
    by (auto simp: ends_cancelled_def verimark_delete_ssm_done_def report_def settled_def)
qed

subsection \<open>Verification and identification\<close>

lemma cancel_capture:
  assumes "platform_doc P T" "cancel_doc P C" "d_tls dev \<noteq> None"
  shows "\<exists>r dev' w'. verimark_moc_capture P kind (dev, w) = Some (r, dev', w') \<and> d_tls dev' \<noteq> None
    \<and> same_op dev dev' \<and> settled C (C w) (r, w')"
proof -
  from capture_total [OF assms(1), of kind "(dev, w)"] obtain r dev' w' where
    cap: "verimark_moc_capture P kind (dev, w) = Some (r, dev', w')" by (metis surj_pair)
  with settlesD [OF settles_capture [OF assms(1,2), of "(dev, w)"] cap] assms(3)
    capture_same [OF assms(1) cap] show ?thesis by simp
qed

text \<open>A cancelled capture is taken again, like any other that failed, until the attempts or the time are
  used up; none of this is reported.\<close>

definition vfy_unwinds :: "('w \<Rightarrow> bool) \<Rightarrow> bool \<Rightarrow> bool \<Rightarrow> verimark \<Rightarrow> nat \<Rightarrow> 'w vfy_state \<Rightarrow> bool" where
  "vfy_unwinds C b ident dev0 c = (\<lambda>(ctx, dev, w). is_identify ctx = ident \<and> d_tls dev \<noteq> None \<and> same_op dev0 dev
     \<and> (b \<longrightarrow> C w) \<and> (C w \<longrightarrow> c = VFY_CAPTURE))"

definition vfy_unwound :: "('w \<Rightarrow> bool) \<Rightarrow> bool \<Rightarrow> bool \<Rightarrow> verimark \<Rightarrow> unit res \<Rightarrow> 'w vfy_state \<Rightarrow> bool" where
  "vfy_unwound C b ident dev0 r = (\<lambda>(ctx, dev, w). is_identify ctx = ident \<and> (b \<longrightarrow> C w)
     \<and> (C w \<longrightarrow> r = Inl Io_Cancelled \<and> same_op dev0 dev))"

lemma vfy_unwinds_step:
  assumes "platform_doc P T" "cancel_doc P C" "task_ssm dev0 = Some Verify_Task"
    and "vfy_unwinds C b ident dev0 c x" "vfy_step P D c x = Some q" "c < 2"
  shows "ssm_allows 2 (dev_delay P) (vfy_unwinds C b ident dev0) (vfy_unwound C b ident dev0) c q"
proof -
  obtain ctx dev w where x: "x = (ctx, dev, w)" "is_identify ctx = ident" "d_tls dev \<noteq> None" "same_op dev0 dev"
    "b \<longrightarrow> C w" "C w \<longrightarrow> c = VFY_CAPTURE"
    using assms(4) by (auto simp: vfy_unwinds_def)
  consider "c = VFY_CAPTURE" | "c = VFY_MATCH" using assms(6) by linarith
  then show ?thesis
  proof cases
    case 1
    from cancel_capture [OF assms(1,2) x(3), of VERIMARK_ACQ_VERIFY w] obtain r dev1 w1 where
      cap: "verimark_moc_capture P VERIMARK_ACQ_VERIFY (dev, w) = Some (r, dev1, w1)" "d_tls dev1 \<noteq> None"
        "same_op dev dev1" "settled C (C w) (r, w1)" by blast
    obtain now w2 where clk: "mono_time P w1 = (now, w2)" by fastforce
    have w2: "C w2 = C w1" by (rule cancel_instant(1) [OF cancel_doc_ctrl [OF assms(2)] clk])
    note same = same_op_trans [OF x(4) cap(3)]
    have task: "task_ssm dev1 = Some Verify_Task" using same_op_fields [OF same] assms(3) by simp
    have q: "q = on_vfy_capture_done P ctx r (dev1, w1)" using assms(5) cap(1) 1 by (simp add: x(1) vfy_step_def)
    show ?thesis
      using settledD [OF cap(4)] x(2,5) cap(2) same task w2 1
      by (cases r) (auto simp: q on_vfy_capture_done_def clk Let_def ssm_allows_def vfy_unwinds_def vfy_unwound_def)
  next
    case 2
    have "length verimark_moc_build_begin_id \<le> 65536" by (simp add: verimark_moc_build_begin_id_def)
    note send = settles_send [OF assms(1,2) _ this, of "(dev, w)" 177]
    from assms(5) obtain r dev1 w1 where
      snd: "verimark_moc_send P verimark_moc_build_begin_id 177 (dev, w) = Some (r, dev1, w1)"
      and q: "q = on_vfy_match_done D ctx r (dev1, w1)" using 2 by (auto simp: x(1) vfy_step_def)
    have w: "\<not> C w" "\<not> b" using x(5,6) 2 by simp_all
    from settlesD [OF send snd] x(3) have set: "settled C (C w) (r, w1)" by simp
    show ?thesis
      using settledD [OF set] w x(2) same_op_trans [OF x(4) moc_send_same [OF snd]]
      by (auto simp: q on_vfy_match_done_def ssm_allows_def vfy_unwound_def split: sum.split)
  qed
qed

lemma cancel_verify:
  assumes "platform_doc P T" "cancel_doc P C" "d_tls dev \<noteq> None"
  shows "ends_cancelled C (dev, w) (if ident then Identify_Complete (Some Io_Cancelled) else Verify_Complete (Some Io_Cancelled))
    (verimark_moc_verify_identify_start P D ident (dev, w))"
proof -
  let ?dev = "dev\<lparr>task_ssm := Some Verify_Task\<rparr>"
  from verify_log [OF assms(1), of D ident dev w] obtain dev' w' where
    some: "verimark_moc_verify_identify_start P D ident (dev, w) = Some (dev', w')" by blast
  obtain now w1 where clk: "mono_time P w = (now, w1)" by fastforce
  have w1: "C w1 = C w" by (rule cancel_instant(1) [OF cancel_doc_ctrl [OF assms(2)] clk])
  from some clk obtain r ctx0 ctx dev1 where run: "ssm_run (fpi P) (dev_delay P) 2 (vfy_step P D) vfy_fuel 0 (ctx0, ?dev, w1) = Some (r, ctx, dev1, w')"
    "dev' = verimark_verify_ssm_done (is_identify ctx) r dev1" "is_identify ctx0 = ident"
    by (auto simp: verimark_moc_verify_identify_start_def Let_def simp del: ssm_run.simps)
  have "ssm_contract 2 (vfy_step P D) (dev_delay P) (vfy_unwinds C (C w) ident ?dev) (vfy_unwound C (C w) ident ?dev)"
    by (rule ssm_contractI) (rule vfy_unwinds_step [OF assms(1,2)], simp_all)
  moreover have "vfy_unwinds C (C w) ident ?dev 0 (ctx0, ?dev, w1)"
    using run(3) assms(3) w1 same_op_refl [of ?dev] by (simp add: vfy_unwinds_def)
  ultimately have "vfy_unwound C (C w) ident ?dev r (ctx, dev1, w')"
    using ssm_contract.run_post [OF _ platform_docD(1) [OF assms(1)] _ _ run(1)] by simp
  then show ?thesis
    using run(2) some same_op_fields [of ?dev dev1]
    by (auto simp: ends_cancelled_def vfy_unwound_def verimark_verify_ssm_done_def is_retry_def report_def Let_def)
qed

subsection \<open>Enrollment\<close>

text \<open>However an enrollment ends that was cancelled, its error is the cancellation.\<close>

definition enrolling :: "verimark \<Rightarrow> bool" where
  "enrolling dev \<longleftrightarrow> d_tls dev \<noteq> None \<and> task_ssm dev = Some Enroll_Task \<and> length (enroll_template_id dev) = 16"

definition enr_unwinds :: "('w \<Rightarrow> bool) \<Rightarrow> bool \<Rightarrow> nat \<Rightarrow> 'w enr_state \<Rightarrow> bool" where
  "enr_unwinds C b c = (\<lambda>(ctx, dev, w). enrolling dev \<and> (b \<longrightarrow> C w)
     \<and> (C w \<longrightarrow> c = ENR_DEDUP_CAPTURE \<or> c = ENR_SAMPLE_CAPTURE))"

definition enr_unwound :: "('w \<Rightarrow> bool) \<Rightarrow> bool \<Rightarrow> unit res \<Rightarrow> 'w enr_state \<Rightarrow> bool" where
  "enr_unwound C b r = (\<lambda>(ctx, dev, w). (b \<longrightarrow> C w) \<and> (C w \<longrightarrow> r = Inl Io_Cancelled))"

abbreviation enr_cancels :: "'w platform \<Rightarrow> ('w \<Rightarrow> bool) \<Rightarrow> bool \<Rightarrow> nat \<Rightarrow> ssm_call \<times> 'w enr_state \<Rightarrow> bool" where
  "enr_cancels P C b \<equiv> ssm_allows ENR_N_STATES (dev_delay P) (enr_unwinds C b) (enr_unwound C b)"

lemma enrolling_same: "enrolling dev \<Longrightarrow> same_op dev dev' \<Longrightarrow> d_tls dev' \<noteq> None \<Longrightarrow> enrolling dev'"
  using same_op_fields [of dev dev'] by (simp add: enrolling_def)

lemma enr_unwinds_capture:
  assumes "platform_doc P T" "cancel_doc P C" "enr_unwinds C b c (ctx, dev, w)"
    and "verimark_moc_capture P kind (dev, w) = Some (r, s1)" "c = ENR_DEDUP_CAPTURE \<or> c = ENR_SAMPLE_CAPTURE"
  shows "enr_cancels P C b c (on_enr_capture_done P c ctx r s1)"
proof -
  from assms(3) have x: "enrolling dev" "b \<longrightarrow> C w" by (simp_all add: enr_unwinds_def)
  then have "d_tls dev \<noteq> None" by (simp add: enrolling_def)
  from cancel_capture [OF assms(1,2) this, of kind w] assms(4) obtain dev1 w1 where
    cap: "s1 = (dev1, w1)" "d_tls dev1 \<noteq> None" "same_op dev dev1" "settled C (C w) (r, w1)" by auto
  note dev1 = enrolling_same [OF x(1) cap(3,2)]
  obtain now w2 where clk: "mono_time P w1 = (now, w2)" by fastforce
  have w2: "C w2 = C w1" by (rule cancel_instant(1) [OF cancel_doc_ctrl [OF assms(2)] clk])
  show ?thesis
    using settledD [OF cap(4)] dev1 x w2 assms(5)
    by (cases r) (auto simp: cap(1) on_enr_capture_done_def clk Let_def ssm_allows_def enr_unwinds_def enr_unwound_def
        report_def enrolling_def)
qed

text \<open>A command, from a state that is entered only when the action has not been cancelled.\<close>

lemma enr_unwinds_send:
  assumes "platform_doc P T" "cancel_doc P C" "enrolling dev" "\<not> b" "\<not> C w"
    and "verimark_moc_send P cmd hint (dev, w) = Some (r, s1)" "length cmd \<le> 65536"
    and "\<And>e. on_done (Inl e) s1 = (Mark_Failed e, ctx, s1)"
    and "\<And>reply dev1 w1. enrolling dev1 \<Longrightarrow> \<not> C w1 \<Longrightarrow> enr_cancels P C b c (on_done (Inr reply) (dev1, w1))"
  shows "enr_cancels P C b c (on_done r s1)"
proof -
  obtain dev1 w1 where s1: "s1 = (dev1, w1)" by fastforce
  note send = assms(6) [unfolded s1]
  from settlesD [OF settles_send [OF assms(1,2) _ assms(7), of "(dev, w)"] send] assms(3,5)
  have "d_tls dev1 \<noteq> None" and r: "settled C False (r, w1)" by (simp_all add: enrolling_def)
  then have dev1: "enrolling dev1" using enrolling_same [OF assms(3) moc_send_same [OF send]] by simp
  show ?thesis
    using assms(4,8) assms(9) [OF dev1] r by (cases r) (auto simp: s1 ssm_allows_def enr_unwound_def settled_def)
qed

lemma enr_unwinds_sample:
  assumes "cancel_doc P C" "enrolling dev" "\<not> b" "\<not> C w"
  shows "enr_cancels P C b ENR_SAMPLE (on_enr_sample_done P ctx (Inr reply) (dev, w))"
proof -
  obtain st resp where reply: "reply = (st, resp)" by fastforce
  obtain now w1 where clk: "mono_time P w = (now, w1)" by fastforce
  then have "\<not> C w1" using cancel_instant(1) [OF cancel_doc_ctrl [OF assms(1)] clk] assms(4) by simp
  moreover have "length (sample_template_id smp) = 16" if "verimark_moc_parse_sample (moc_ptr resp) = Inr smp" for smp
    using that parse_sample_id_length [of resp smp] by (cases resp) (auto simp: moc_ptr_def verimark_moc_parse_sample_def)
  ultimately show ?thesis
    using assms(2-4)
    by (auto simp: reply on_enr_sample_done_def clk Let_def ssm_allows_def enr_unwinds_def enr_unwound_def report_def
        enrolling_def split: sum.split)
qed

lemma enr_unwinds_finalize:
  assumes "platform_doc P T" "cancel_doc P C" "enrolling dev" "\<not> b" "\<not> C w" "enr_send_finalize P ctx (dev, w) = Some q"
  shows "enr_cancels P C b ENR_FINALIZE q"
proof -
  obtain seed w1 where seed: "verimark_read_machine_seed P w = (seed, w1)" by fastforce
  then obtain c where "fs_read P w ''/etc/machine-id'' = (c, w1)"
    by (auto simp: verimark_read_machine_seed_def split: prod.split_asm sum.split_asm)
  then have w1: "\<not> C w1" using cancel_instant(13) [OF cancel_doc_ctrl [OF assms(2)]] assms(5) by simp
  obtain sid where sid: "verimark_moc_synth_sid (user_id P) (Some seed) = Inr sid"
    using synth_sid_Inr [OF length_machine_seed [OF seed]] by blast
  have len: "length sid = 28" by (rule synth_sid_length [OF length_machine_seed [OF seed] sid])
  have "length (enroll_template_id dev) = 16" using assms(3) by (simp add: enrolling_def)
  from build_finalize_Inr [OF this len] obtain cmd where
    cmd: "verimark_moc_build_finalize (Some (enroll_template_id dev)) (Some sid) = Inr cmd" "length cmd = 124" by auto
  obtain r s1 where send: "verimark_moc_send P cmd 2 (dev, w1) = Some (r, s1)" "q = on_enr_finalize_done ctx r s1"
    using assms(6) by (auto simp: enr_send_finalize_def seed sid cmd)
  have "length cmd \<le> 65536" by (simp add: cmd(2))
  then show ?thesis
    unfolding send(2)
    by (rule enr_unwinds_send [OF assms(1-4) w1 send(1)])
      (use assms(4) in \<open>auto simp: on_enr_finalize_done_def ssm_allows_def enr_unwinds_def enr_unwound_def split: if_split_asm\<close>)
qed

lemma enr_unwinds_step:
  assumes "platform_doc P T" "cancel_doc P C" "enr_unwinds C b c x" "enr_step P c x = Some q" "c < 7"
  shows "enr_cancels P C b c q"
proof -
  obtain ctx dev w where x: "x = (ctx, dev, w)" by (metis surj_pair)
  have cmds: "length verimark_moc_build_begin_id \<le> 65536" "length verimark_moc_build_enroll_create \<le> 65536"
    "length verimark_moc_build_enroll_sample \<le> 65536" "length verimark_moc_build_enroll_commit \<le> 65536"
    using enroll_cmd_lengths by simp_all
  have pre: "enrolling dev" using assms(3) by (simp add: enr_unwinds_def x)
  have un: "\<not> b" "\<not> C w" if "c \<noteq> ENR_DEDUP_CAPTURE" "c \<noteq> ENR_SAMPLE_CAPTURE"
    using assms(3) that by (auto simp: enr_unwinds_def x)
  note send = enr_unwinds_send [OF assms(1,2) pre]
  from assms(5) consider "c = ENR_DEDUP_CAPTURE" | "c = ENR_DEDUP" | "c = ENR_CREATE" | "c = ENR_SAMPLE_CAPTURE"
    | "c = ENR_SAMPLE" | "c = ENR_FINALIZE" | "c = ENR_COMMIT" by linarith
  then show ?thesis
  proof cases
    case 1
    then show ?thesis
      using assms(4) enr_unwinds_capture [OF assms(1,2) assms(3) [unfolded x]] by (auto simp: x enr_step_def)
  next
    case 2
    then obtain r s1 where q: "verimark_moc_send P verimark_moc_build_begin_id 177 (dev, w) = Some (r, s1)"
      "q = on_enr_dedup_done ctx r s1" using assms(4) by (auto simp: x enr_step_def)
    show ?thesis
      unfolding q(2) by (rule send [OF _ _ q(1) cmds(1)])
        (use 2 un in \<open>auto simp: on_enr_dedup_done_def ssm_allows_def enr_unwinds_def\<close>)
  next
    case 3
    then obtain r s1 where q: "verimark_moc_send P verimark_moc_build_enroll_create 177 (dev, w) = Some (r, s1)"
      "q = on_enr_create_done ctx r s1" using assms(4) by (auto simp: x enr_step_def)
    show ?thesis
      unfolding q(2) by (rule send [OF _ _ q(1) cmds(2)])
        (use 3 un in \<open>auto simp: on_enr_create_done_def ssm_allows_def enr_unwinds_def enr_unwound_def split: if_split_asm\<close>)
  next
    case 4
    then show ?thesis
      using assms(4) enr_unwinds_capture [OF assms(1,2) assms(3) [unfolded x]] by (auto simp: x enr_step_def)
  next
    case 5
    then obtain r s1 where q: "verimark_moc_send P verimark_moc_build_enroll_sample 82 (dev, w) = Some (r, s1)"
      "q = on_enr_sample_done P ctx r s1" using assms(4) by (auto simp: x enr_step_def)
    have "on_enr_sample_done P ctx (Inl e) s1 = (Mark_Failed e, ctx, s1)" for e
      by (cases s1) (simp add: on_enr_sample_done_def)
    then show ?thesis
      unfolding q(2) by (rule send [OF _ _ q(1) cmds(3), rotated 2])
        (use 5 un enr_unwinds_sample [OF assms(2)] in auto)
  next
    case 6
    then show ?thesis using assms(4) un enr_unwinds_finalize [OF assms(1,2) pre] by (auto simp: x enr_step_def)
  next
    case 7
    then obtain r s1 where q: "verimark_moc_send P verimark_moc_build_enroll_commit 2 (dev, w) = Some (r, s1)"
      "q = on_enr_commit_done ctx r s1" using assms(4) by (auto simp: x enr_step_def)
    show ?thesis
      unfolding q(2) by (rule send [OF _ _ q(1) cmds(4)])
        (use 7 un in \<open>auto simp: on_enr_commit_done_def ssm_allows_def enr_unwound_def split: if_split_asm\<close>)
  qed
qed

lemma enr_start_run:
  assumes "verimark_moc_enroll P gen fuel print (dev, w) = Some (dev', w')"
  obtains now w1 r ctx dev1 where "mono_time P w = (now, w1)" "dev' = verimark_enroll_ssm_done gen print r dev1"
    "ssm_run (fpi P) (dev_delay P) 7 (enr_step P) fuel 0 (\<lparr>overall_deadline_us = now + 150000000\<rparr>,
       dev\<lparr>enroll_stage := 0, enroll_coverage := 0, enroll_template_id := replicate 16 0, task_ssm := Some Enroll_Task\<rparr>, w1)
       = Some (r, ctx, dev1, w')"
  using assms
  by (auto simp: verimark_moc_enroll_def enr_start_def Let_def VERIMARK_ENROLL_OVERALL_TIMEOUT_MS_def
      simp del: ssm_run.simps split: prod.split_asm)

lemma cancel_enroll:
  assumes "platform_doc P T" "cancel_doc P C" "d_tls dev \<noteq> None"
    and "verimark_moc_enroll P gen fuel print (dev, w) = Some (dev', w')"
  shows "(C w \<longrightarrow> C w') \<and> (C w' \<longrightarrow> (\<exists>log n. progress_log log n
    \<and> reports dev' = reports dev @ log @ [Enroll_Complete None (Some Io_Cancelled)]))"
proof -
  obtain now w1 r ctx dev1 where clk: "mono_time P w = (now, w1)" and dev': "dev' = verimark_enroll_ssm_done gen print r dev1"
    and run: "ssm_run (fpi P) (dev_delay P) 7 (enr_step P) fuel 0 (\<lparr>overall_deadline_us = now + 150000000\<rparr>,
       dev\<lparr>enroll_stage := 0, enroll_coverage := 0, enroll_template_id := replicate 16 0, task_ssm := Some Enroll_Task\<rparr>, w1)
       = Some (r, ctx, dev1, w')"
    by (rule enr_start_run [OF assms(4)])
  have w1: "C w1 = C w" by (rule cancel_instant(1) [OF cancel_doc_ctrl [OF assms(2)] clk])
  have "ssm_contract 7 (enr_step P) (dev_delay P) (enr_unwinds C (C w)) (enr_unwound C (C w))"
    by (rule ssm_contractI) (rule enr_unwinds_step [OF assms(1,2)])
  from ssm_contract.run_post [OF this platform_docD(1) [OF assms(1)] _ _ run]
  have post: "(C w \<longrightarrow> C w') \<and> (C w' \<longrightarrow> r = Inl Io_Cancelled)"
    using assms(3) w1 by (simp add: enr_unwinds_def enrolling_def enr_unwound_def)
  from enroll_outcome [OF assms(1,4)] obtain q dev2 log where
    "dev' = verimark_enroll_ssm_done gen print q dev2" "reports dev2 = reports dev @ log" "progress_log log (enroll_stage dev2)"
    by blast
  then have "\<exists>log n x. progress_log log n \<and> reports dev' = reports dev @ log @ [x]"
    by (cases q) (auto simp: verimark_enroll_ssm_done_def report_def Let_def)
  moreover have "last (reports dev') = Enroll_Complete None (Some Io_Cancelled)" if "C w'"
    using post that by (simp add: dev' verimark_enroll_ssm_done_def report_def)
  ultimately show ?thesis using post by fastforce
qed

text \<open>But a capture that is cancelled does not end it: it is taken over and over, with a progress report
  each time, while there is time left.\<close>

definition capture_cancelled :: "'w platform \<Rightarrow> ('w \<Rightarrow> bool) \<Rightarrow> byte \<Rightarrow> verimark \<times> 'w \<Rightarrow> bool" where
  "capture_cancelled P C kind s \<longleftrightarrow> (\<exists>r dev w. verimark_moc_capture P kind s = Some (r, dev, w) \<and> C w)"

definition enr_kind :: "nat \<Rightarrow> byte" where
  "enr_kind c = (if c = ENR_DEDUP_CAPTURE then VERIMARK_ACQ_VERIFY else VERIMARK_ACQ_ENROLL)"

definition enr_spins :: "'w platform \<Rightarrow> ('w \<Rightarrow> bool) \<Rightarrow> int \<Rightarrow> nat \<Rightarrow> verimark \<Rightarrow> nat \<Rightarrow> 'w enr_state \<Rightarrow> bool" where
  "enr_spins P C deadline c0 dev c = (\<lambda>(ctx, dev', w). c = c0 \<and> overall_deadline_us ctx = deadline
     \<and> capture_cancelled P C (enr_kind c0) (dev', w) \<and> d_tls dev' \<noteq> None
     \<and> enroll_stage dev' = enroll_stage dev \<and> task_ssm dev' = Some Enroll_Task
     \<and> (\<exists>k. reports dev' = reports dev @ replicate k (Enroll_Progress (enroll_stage dev) (Some Io_Cancelled))))"

definition enr_spun :: "('w \<Rightarrow> int) \<Rightarrow> int \<Rightarrow> verimark \<Rightarrow> unit res \<Rightarrow> 'w enr_state \<Rightarrow> bool" where
  "enr_spun T deadline dev r = (\<lambda>(ctx, dev', w). r = Inl Io_Cancelled \<and> deadline \<le> T w
     \<and> (\<exists>k. reports dev' = reports dev @ replicate k (Enroll_Progress (enroll_stage dev) (Some Io_Cancelled))))"

lemma cancelled_captures:
  assumes "platform_doc P T" "cancel_doc P C" "d_tls dev \<noteq> None" "C w"
  shows "capture_cancelled P C kind (dev, w)"
  using cancel_capture [OF assms(1-3), of kind w] assms(4) by (auto simp: capture_cancelled_def settled_def)

lemma enr_spins_step:
  assumes "platform_doc P T" "cancel_doc P C" "c0 = ENR_DEDUP_CAPTURE \<or> c0 = ENR_SAMPLE_CAPTURE"
    and "enr_spins P C deadline c0 dev c x" "enr_step P c x = Some q"
  shows "ssm_allows 7 (dev_delay P) (enr_spins P C deadline c0 dev) (enr_spun T deadline dev) c q"
proof -
  let ?log = "\<lambda>k. replicate k (Enroll_Progress (enroll_stage dev) (Some Io_Cancelled))"
  obtain ctx dev1 w1 k where x: "x = (ctx, dev1, w1)" "c = c0" "overall_deadline_us ctx = deadline"
    "capture_cancelled P C (enr_kind c0) (dev1, w1)" "d_tls dev1 \<noteq> None" "enroll_stage dev1 = enroll_stage dev"
    "task_ssm dev1 = Some Enroll_Task" "reports dev1 = reports dev @ ?log k"
    using assms(4) by (auto simp: enr_spins_def)
  from cancel_capture [OF assms(1,2) x(5), of "enr_kind c0" w1] x(4) obtain dev2 w2 where
    cap: "verimark_moc_capture P (enr_kind c0) (dev1, w1) = Some (Inl Io_Cancelled, dev2, w2)" "d_tls dev2 \<noteq> None"
      "same_op dev1 dev2" "C w2" by (auto simp: capture_cancelled_def settled_def)
  obtain now w3 where clk: "mono_time P w2 = (now, w3)" by fastforce
  have w3: "C w3" "now \<le> T w3"
    using cancel_instant(1) [OF cancel_doc_ctrl [OF assms(2)] clk] cap(4) platform_docD(5) [OF assms(1) clk] by simp_all
  have "q = on_enr_capture_done P c ctx (Inl Io_Cancelled) (dev2, w2)"
    using assms(3,5) cap(1) by (auto simp: x(1,2) enr_step_def enr_kind_def)
  moreover have "capture_cancelled P C (enr_kind c0) (report rep dev2, w3)" for rep
    by (rule cancelled_captures [OF assms(1,2) _ w3(1)]) (simp add: report_def cap(2))
  moreover have "\<exists>m. ?log k @ [Enroll_Progress (enroll_stage dev) (Some Io_Cancelled)] = ?log m"
    by (intro exI [of _ "Suc k"]) (simp add: replicate_append_same)
  ultimately show ?thesis
    using x cap(2) w3(2) assms(3) same_op_fields [OF cap(3)]
    by (auto simp: on_enr_capture_done_def clk ssm_allows_def enr_spins_def enr_spun_def report_def Let_def)
qed

lemma enr_spins_run:
  assumes "platform_doc P T" "cancel_doc P C" "c = ENR_DEDUP_CAPTURE \<or> c = ENR_SAMPLE_CAPTURE"
    and "d_tls dev \<noteq> None" "task_ssm dev = Some Enroll_Task" "capture_cancelled P C (enr_kind c) (dev, w)"
    and "ssm_run (fpi P) (dev_delay P) ENR_N_STATES (enr_step P) fuel c (ctx, dev, w) = Some (r, ctx', dev', w')"
  shows "r = Inl Io_Cancelled \<and> overall_deadline_us ctx \<le> T w'
    \<and> (\<exists>k. reports dev' = reports dev @ replicate k (Enroll_Progress (enroll_stage dev) (Some Io_Cancelled)))"
proof -
  let ?d = "overall_deadline_us ctx"
  have "ssm_contract 7 (enr_step P) (dev_delay P) (enr_spins P C ?d c dev) (enr_spun T ?d dev)"
    by (rule ssm_contractI) (rule enr_spins_step [OF assms(1-3)])
  moreover have "c < 7" using assms(3) by auto
  moreover have "enr_spins P C ?d c dev c (ctx, dev, w)"
    using assms(4-6) by (simp add: enr_spins_def)
  ultimately have "enr_spun T ?d dev r (ctx', dev', w')"
    by (rule ssm_contract.run_post [OF _ platform_docD(1) [OF assms(1)] _ _ assms(7)])
  then show ?thesis by (simp add: enr_spun_def)
qed

lemma cancelled_enroll:
  assumes "platform_doc P T" "cancel_doc P C" "C w" "d_tls dev \<noteq> None"
    and "verimark_moc_enroll P gen fuel print (dev, w) = Some (dev', w')"
  shows "T w + 150000000 \<le> T w' \<and> (\<exists>k. reports dev' =
    reports dev @ replicate k (Enroll_Progress 0 (Some Io_Cancelled)) @ [Enroll_Complete None (Some Io_Cancelled)])"
proof -
  let ?dev = "dev\<lparr>enroll_stage := 0, enroll_coverage := 0, enroll_template_id := replicate 16 0, task_ssm := Some Enroll_Task\<rparr>"
  obtain now w1 r ctx dev1 where clk: "mono_time P w = (now, w1)" and dev': "dev' = verimark_enroll_ssm_done gen print r dev1"
    and run: "ssm_run (fpi P) (dev_delay P) 7 (enr_step P) fuel 0 (\<lparr>overall_deadline_us = now + 150000000\<rparr>, ?dev, w1)
       = Some (r, ctx, dev1, w')"
    by (rule enr_start_run [OF assms(5)])
  have "C w1" using cancel_instant(1) [OF cancel_doc_ctrl [OF assms(2)] clk] assms(3) by simp
  then have "capture_cancelled P C (enr_kind 0) (?dev, w1)"
    by (intro cancelled_captures [OF assms(1,2)]) (use assms(4) in simp_all)
  from enr_spins_run [OF assms(1,2) _ _ _ this run] assms(4) platform_docD(5) [OF assms(1) clk] show ?thesis
    by (auto simp: dev' verimark_enroll_ssm_done_def report_def)
qed

subsection \<open>A sample\<close>

text \<open>A sensor that answers every command with a status of 0, until the user cancels while the driver
  waits for the finger. Transfers submitted after that come back 40 s later.\<close>

definition interrupted :: "world platform" where
  "interrupted = sample\<lparr>
     ctrl_out := \<lambda>w req v d. if w_events w = [] then (Inl Io_Cancelled, w\<lparr>w_now := w_now w + 40000000\<rparr>) else (Inr (), w),
     ctrl_in := \<lambda>w req v n. if w_events w = [] then (Inl Io_Cancelled, w) else (Inr (take n [0, 0]), w),
     intr_in := \<lambda>w ep n t. (Inl Io_Cancelled, w\<lparr>w_events := [], w_now := w_now w + 1\<rparr>)\<rparr>"

definition user_cancelled :: "world \<Rightarrow> bool" where
  "user_cancelled w \<longleftrightarrow> w_events w = []"

lemma interrupted_docs: "platform_doc interrupted sample_time" "cancel_doc interrupted user_cancelled"
proof -
  have "2 * n + 30000000 \<noteq> G_MAXINT64" for n :: int by (simp add: G_MAXINT64_def) presburger
  then show "platform_doc interrupted sample_time"
    by (auto simp: platform_doc_def sample_ssm_doc sample_crypto_docs rand_doc_def time_doc_def clock_doc_def
        sample_time_def interrupted_def sample_def split: list.splits)
  show "cancel_doc interrupted user_cancelled"
    by (simp add: cancel_doc_def ctrl_cancel_doc_def transfer_cancels_def user_cancelled_def interrupted_def sample_def)
qed

abbreviation (input) late :: "world \<Rightarrow> world" where
  "late w \<equiv> w\<lparr>w_now := w_now w + 40000000\<rparr>"

lemma interrupted_frames: "w_events w \<noteq> [] \<Longrightarrow> send_frames interrupted fs w = (Inr (), w)"
  by (induction fs) (auto simp: interrupted_def)

lemma interrupted_read:
  assumes "w_events w \<noteq> []" "3 \<le> unat rmx"
  shows "ctrl_read_loop interrupted rmx [] True 0 w = (Inr [0, 0], w)"
proof -
  obtain want wvalue q w1 where st: "read_step interrupted rmx [] True w want wvalue q w1"
    by (rule read_step_ex [of "[]" rmx]) (use assms(2) in simp)
  note rd = read_stepD [OF st]
  have want: "3 \<le> unat want" using rd(2) assms(2) by simp
  have "q = Inr [0, 0] \<and> w1 = w" using rd(4) assms(1) want by (auto simp: interrupted_def take_Cons')
  then show ?thesis
    using ctrl_read_loop_step [OF rd(1,3,4), of 0] want by simp
qed

lemma interrupted_send:
  assumes "d_tls dev = Some t" "\<not> t_established t" "length cmd \<le> 65536" "unat hint + 64 < 2 ^ 64"
  shows "verimark_moc_send interrupted cmd hint (dev, w) =
    (if w_events w = [] then Some (Inl Io_Cancelled, dev, late w) else Some (Inr (0, [0, 0]), dev, w))"
proof -
  have "length cmd + 8 \<le> 2 ^ 63" using assms(3) by simp
  from write_frames_nonempty [OF this] obtain v d fs where fs: "write_frames cmd = (v, d) # fs" by (metis list.exhaust surj_pair)
  have "3 \<le> unat (max (moc_budget hint) 1)" using moc_budget_bounds [OF assms(4)] by simp
  then have "verimark_ctrl_cmd_sync interrupted cmd (moc_budget hint) w =
      (if w_events w = [] then (Inl Io_Cancelled, late w) else (Inr [0, 0], w))"
    using interrupted_frames [of w] interrupted_read [of w] fs
    by (auto simp: verimark_ctrl_cmd_sync_def verimark_ctrl_write_frames verimark_ctrl_read_sync_def interrupted_def)
  moreover have "dev\<lparr>d_tls := Some t\<rparr> = dev" using assms(1) by (cases dev) simp
  ultimately have "moc_exchange interrupted cmd hint (dev, w) =
      (if w_events w = [] then (Inl Io_Cancelled, dev, late w) else (Inr (0, [0, 0]), dev, w))"
    using assms(1,2)
    by (simp add: moc_exchange_def verimark_tls_wrap_def on_moc_raw_resp_def verimark_tls_unwrap_def u16_of_le_def)
  then show ?thesis
    using moc_send_exchange [OF platform_docD(1-3) [OF interrupted_docs(1)] assms(3), of hint "(dev, w)"] by simp
qed

text \<open>The first capture is cancelled in its wait for a press, the next ones at once.\<close>

lemma interrupted_press:
  "cap_press interrupted (dev, w) = Some (Inl Io_Cancelled, dev, w\<lparr>w_events := [], w_now := w_now w + 1\<rparr>)"
proof -
  let ?w = "w\<lparr>w_events := [], w_now := w_now w + 1\<rparr>"
  have fuel: "press_fuel = Suc 30000000" by (simp add: press_fuel_def VERIMARK_CAPTURE_PRESS_TIMEOUT_MS_def)
  have clk: "mono_time interrupted w = (2 * w_now w, w)" by (simp add: interrupted_def sample_def)
  have step: "intr_step interrupted 0 (ctx, w) = Some (Mark_Failed Io_Cancelled, ctx, ?w)"
    if "2 * w_now w < deadline_us ctx" for ctx
    using that by (simp add: intr_step_def intr_submit_def on_intr_read_done_def Let_def interrupted_def sample_def)
  have run: "ssm_run (fpi interrupted) d 1 (intr_step interrupted) press_fuel 0 (ctx, w) = Some (Inl Io_Cancelled, ctx, ?w)"
    if "2 * w_now w < deadline_us ctx" for ctx d
    unfolding fuel by (rule ssm_run_steps(7) [OF platform_docD(1) [OF interrupted_docs(1)]]) (rule step [OF that])
  show ?thesis
    by (simp add: cap_press_def cap_wait_press_def verimark_intr_wait_async_def clk run [unfolded One_nat_def] intr_ssm_completed_def
        VERIMARK_CAPTURE_PRESS_TIMEOUT_MS_def del: ssm_run.simps)
qed

lemma interrupted_capture:
  assumes "d_tls dev = Some t" "\<not> t_established t"
  shows "verimark_moc_capture interrupted kind (dev, w) = Some (Inl Io_Cancelled, dev,
    if w_events w = [] then late w else w\<lparr>w_events := [], w_now := w_now w + 1\<rparr>)"
proof -
  have "length (build_event_config m) \<le> 65536" for m using capture_cmd_lengths(1) [of m] by simp
  note send = interrupted_send [OF assms this]
  show ?thesis
    by (simp add: capture_eq_spec [OF interrupted_docs(1)] capture_spec_def cap_arm_def cap_send_config_def send
        interrupted_press VERIMARK_EVENT_CONFIG_RESP_LEN_def)
qed

abbreviation (input) waiting :: world where
  "waiting \<equiv> world0\<lparr>w_events := [[0x02]]\<rparr>"

lemma interrupted_verify: "\<exists>dev' w'. verimark_moc_verify interrupted D (plain_device, waiting) = Some (dev', w') \<and> user_cancelled w'"
proof -
  let ?dev = "plain_device\<lparr>task_ssm := Some Verify_Task\<rparr>"
  let ?ctx = "\<lambda>n. \<lparr>is_identify = False, attempt = n, vfy_deadline_us = 45000000\<rparr>"
  let ?run = "ssm_run (fpi interrupted) (dev_delay interrupted) 2 (vfy_step interrupted D)"
  note steps = ssm_run_steps [OF platform_docD(1) [OF interrupted_docs(1)]]
  have dev: "d_tls ?dev = Some verimark_tls_new" "\<not> t_established verimark_tls_new"
    by (simp_all add: plain_device_def verimark_tls_new_def)
  have "vfy_step interrupted D 0 (?ctx 0, ?dev, waiting) = Some (Jump_To_State 0, ?ctx 1, ?dev, world0\<lparr>w_now := 1\<rparr>)"
    by (simp add: vfy_step_def interrupted_capture [OF dev] on_vfy_capture_done_def Let_def VERIMARK_VERIFY_MAX_ATTEMPTS_def)
      (simp add: interrupted_def sample_def world0_def)
  then have "?run (Suc (Suc 7)) 0 (?ctx 0, ?dev, waiting) = ?run (Suc 7) 0 (?ctx 1, ?dev, world0\<lparr>w_now := 1\<rparr>)"
    by (rule steps(4)) simp
  also have "vfy_step interrupted D 0 (?ctx 1, ?dev, world0\<lparr>w_now := 1\<rparr>) =
      Some (Mark_Failed Io_Cancelled, ?ctx 2, ?dev, world0\<lparr>w_now := 40000001\<rparr>)"
    by (simp add: vfy_step_def interrupted_capture [OF dev] on_vfy_capture_done_def Let_def VERIMARK_VERIFY_MAX_ATTEMPTS_def)
      (simp add: interrupted_def sample_def world0_def)
  then have "?run (Suc 7) 0 (?ctx 1, ?dev, world0\<lparr>w_now := 1\<rparr>) =
      Some (Inl Io_Cancelled, ?ctx 2, ?dev, world0\<lparr>w_now := 40000001\<rparr>)"
    by (rule steps(7))
  finally have run: "?run vfy_fuel 0 (?ctx 0, ?dev, waiting) = Some (Inl Io_Cancelled, ?ctx 2, ?dev, world0\<lparr>w_now := 40000001\<rparr>)"
    by (simp add: vfy_fuel_def VERIMARK_VERIFY_MAX_ATTEMPTS_def)
  have "mono_time interrupted waiting = (0, waiting)" by (simp add: interrupted_def sample_def world0_def)
  then show ?thesis
    using run by (simp add: verimark_moc_verify_def verimark_moc_verify_identify_start_def VERIMARK_VERIFY_OVERALL_TIMEOUT_MS_def
        user_cancelled_def world0_def del: ssm_run.simps)
qed

lemma interrupted_enroll:
  "\<exists>dev' w'. verimark_moc_enroll interrupted gen 3 new (plain_device, waiting) = Some (dev', w') \<and> user_cancelled w'"
proof -
  let ?step = "enr_step interrupted" and ?ctx = "\<lparr>overall_deadline_us = 150000000\<rparr>"
  define dev where "dev n = plain_device\<lparr>enroll_stage := 0, enroll_coverage := 0, enroll_template_id := replicate 16 0,
    task_ssm := Some Enroll_Task, reports := replicate n (Enroll_Progress 0 (Some Io_Cancelled))\<rparr>" for n
  have sel: "d_tls (dev n) = Some verimark_tls_new" "task_ssm (dev n) = Some Enroll_Task" "enroll_stage (dev n) = 0"
    "report (Enroll_Progress 0 (Some Io_Cancelled)) (dev n) = dev (Suc n)" for n
    by (simp_all add: dev_def plain_device_def report_def replicate_append_same)
  have new: "\<not> t_established verimark_tls_new" by (simp add: verimark_tls_new_def)
  note cap = interrupted_capture [OF sel(1) new]
  have clk: "mono_time interrupted w = (2 * w_now w, w)" for w by (simp add: interrupted_def sample_def)
  have "?step 0 (?ctx, dev 0, waiting) = Some (Jump_To_State 0, ?ctx, dev 1, world0\<lparr>w_now := 1\<rparr>)"
    "?step 0 (?ctx, dev 1, world0\<lparr>w_now := 1\<rparr>) = Some (Jump_To_State 0, ?ctx, dev 2, world0\<lparr>w_now := 40000001\<rparr>)"
    "?step 0 (?ctx, dev 2, world0\<lparr>w_now := 40000001\<rparr>) = Some (Mark_Failed Io_Cancelled, ?ctx, dev 2, world0\<lparr>w_now := 80000001\<rparr>)"
    by (simp_all add: enr_step_def cap on_enr_capture_done_def sel clk world0_def numeral_2_eq_2)
  moreover have "enr_start interrupted (plain_device, waiting) = (?ctx, dev 0, waiting)"
    by (simp add: enr_start_def clk world0_def dev_def plain_device_def dev_init_def VERIMARK_ENROLL_OVERALL_TIMEOUT_MS_def)
  ultimately show ?thesis
    by (simp add: verimark_moc_enroll_def numeral_3_eq_3 ssm_run_steps [OF platform_docD(1) [OF interrupted_docs(1)]]
        user_cancelled_def world0_def del: ssm_run.simps)
qed

text \<open>An open whose user cancels during the drain.\<close>

definition drain_cancels :: "world \<Rightarrow> byte \<Rightarrow> nat \<Rightarrow> nat \<Rightarrow> bytes res \<times> world" where
  "drain_cancels w ep n t = (Inl Usb_Timed_Out, w\<lparr>w_events := []\<rparr>)"

lemma interrupted_open:
  "\<exists>dev' w'. dev_open (interrupted\<lparr>intr_in := drain_cancels\<rparr>) (dev_init, waiting) = (dev', w') \<and> user_cancelled w'"
proof -
  have fs: "length [VERIMARK_CMD_GET_VERSION] + 8 \<le> 2 ^ 63" by simp
  obtain v d fs where fs: "write_frames [VERIMARK_CMD_GET_VERSION] = (v, d) # fs"
    using write_frames_nonempty [OF fs] by (metis list.exhaust surj_pair)
  have "open_bring_up (interrupted\<lparr>intr_in := drain_cancels\<rparr>) world0 = (Inl Io_Cancelled, late world0)"
    by (simp add: open_bring_up_def verimark_resolve_sid_sync_def verimark_ctrl_cmd_sync_def verimark_ctrl_write_frames fs
        interrupted_def world0_def)
  moreover have "verimark_intr_drain_sync (interrupted\<lparr>intr_in := drain_cancels\<rparr>) ep waiting = world0" for ep
    by (simp add: verimark_intr_drain_sync_def VERIMARK_INTR_DRAIN_MAX_READS_def numeral_eq_Suc drain_cancels_def world0_def)
  ultimately show ?thesis
    by (simp add: dev_open_def Let_def interrupted_def sample_def VERIMARK_IFACE_def VERIMARK_EP_INTR_IN_def
        verimark_open_fail_def user_cancelled_def world0_def)
qed

subsection \<open>Property\<close>

text \<open>C14: What a cancellation does to a request, whether it was there before the request began or comes
  while any of its transfers is pending or it is waiting. Verify, identify, list, delete and clear
  return and report nothing but their one completion, with the cancellation as its error. An open
  leaves the device closed and reports one completion with an error, the cancellation if it came
  during the open. An enrollment that ends reports its one completion, without a print and with the
  cancellation as its error. But it does not end at once: from the first capture that ends
  cancelled, for the duplicate check or for a sample, it reports nothing but its present stage with
  the cancellation, takes the same capture over, and ends only when its deadline is past. One that
  was cancelled from the start so lasts its 150 s.\<close>

theorem cancel_unwinds:
  assumes "platform_doc P T" "cancel_doc P C" "d_tls dev \<noteq> None" "delete_target print \<noteq> None"
  shows "ends_cancelled C (dev, w) (Verify_Complete (Some Io_Cancelled)) (verimark_moc_verify P D (dev, w))
    \<and> ends_cancelled C (dev, w) (Identify_Complete (Some Io_Cancelled)) (verimark_moc_identify P D (dev, w))
    \<and> ends_cancelled C (dev, w) (List_Complete None (Some Io_Cancelled)) (verimark_moc_list P L (dev, w))
    \<and> ends_cancelled C (dev, w) (Delete_Complete (Some Io_Cancelled)) (verimark_moc_delete P print (dev, w))
    \<and> ends_cancelled C (dev, w) (Clear_Storage_Complete (Some Io_Cancelled)) (verimark_moc_clear P (dev, w))
    \<and> (\<forall>drain cdev dev' w'. dev_closed cdev \<and> dev_open (P\<lparr>intr_in := drain\<rparr>) (cdev, w) = (dev', w') \<and> C w' \<longrightarrow>
        dev_closed dev' \<and> (\<exists>e. reports dev' = reports cdev @ [Open_Complete (Some e)] \<and> (\<not> C w \<longrightarrow> e = Io_Cancelled)))
    \<and> (C w \<longrightarrow> fst (open_bring_up P w) = Inl Io_Cancelled)
    \<and> (\<forall>fuel dev' w'. verimark_moc_enroll P gen fuel new (dev, w) = Some (dev', w') \<longrightarrow>
        (C w' \<longrightarrow> (\<exists>log n. progress_log log n
           \<and> reports dev' = reports dev @ log @ [Enroll_Complete None (Some Io_Cancelled)]))
      \<and> (C w \<longrightarrow> C w' \<and> T w + 150000000 \<le> T w' \<and> (\<exists>k. reports dev' = reports dev
           @ replicate k (Enroll_Progress 0 (Some Io_Cancelled)) @ [Enroll_Complete None (Some Io_Cancelled)])))
    \<and> (\<forall>c fuel ctx r ctx' dev' w'. (c = ENR_DEDUP_CAPTURE \<or> c = ENR_SAMPLE_CAPTURE) \<and> task_ssm dev = Some Enroll_Task
         \<and> capture_cancelled P C (enr_kind c) (dev, w)
         \<and> ssm_run (fpi P) (dev_delay P) ENR_N_STATES (enr_step P) fuel c (ctx, dev, w) = Some (r, ctx', dev', w') \<longrightarrow>
        r = Inl Io_Cancelled \<and> overall_deadline_us ctx \<le> T w'
      \<and> (\<exists>k. reports dev' = reports dev @ replicate k (Enroll_Progress (enroll_stage dev) (Some Io_Cancelled))))"
proof (intro conjI)
  note docs = assms(1,2) and ctrl = cancel_doc_ctrl [OF assms(2)]
  show "ends_cancelled C (dev, w) (Verify_Complete (Some Io_Cancelled)) (verimark_moc_verify P D (dev, w))"
    "ends_cancelled C (dev, w) (Identify_Complete (Some Io_Cancelled)) (verimark_moc_identify P D (dev, w))"
    using cancel_verify [OF assms(1-3), of w False D] cancel_verify [OF assms(1-3), of w True D]
    by (simp_all add: verimark_moc_verify_def verimark_moc_identify_def)
  show "\<forall>drain cdev dev' w'. dev_closed cdev \<and> dev_open (P\<lparr>intr_in := drain\<rparr>) (cdev, w) = (dev', w') \<and> C w' \<longrightarrow>
      dev_closed dev' \<and> (\<exists>e. reports dev' = reports cdev @ [Open_Complete (Some e)] \<and> (\<not> C w \<longrightarrow> e = Io_Cancelled))"
    using open_cancelled ctrl by (metis ctrl_cancel_doc_drain)
  show "C w \<longrightarrow> fst (open_bring_up P w) = Inl Io_Cancelled"
    using settled_bring_up [OF ctrl, of w] by (auto simp: settled_def split_beta)
  show "\<forall>fuel dev' w'. verimark_moc_enroll P gen fuel new (dev, w) = Some (dev', w') \<longrightarrow>
      (C w' \<longrightarrow> (\<exists>log n. progress_log log n \<and> reports dev' = reports dev @ log @ [Enroll_Complete None (Some Io_Cancelled)]))
    \<and> (C w \<longrightarrow> C w' \<and> T w + 150000000 \<le> T w' \<and> (\<exists>k. reports dev' = reports dev
         @ replicate k (Enroll_Progress 0 (Some Io_Cancelled)) @ [Enroll_Complete None (Some Io_Cancelled)]))"
    using cancel_enroll [OF assms(1-3)] cancelled_enroll [OF docs _ assms(3)] by blast
qed (use cancel_list [OF assms(1-3)] cancel_delete [OF assms] cancel_clear [OF assms(1-3)] enr_spins_run [OF assms(1,2) _ assms(3)] in blast)+

abbreviation (input) no_prints :: vfy_data where
  "no_prints \<equiv> \<lparr>verify_data = None, identify_data = None\<rparr>"

lemma cancel_unwinds_witness:
  "\<not> user_cancelled waiting
    \<and> (\<exists>dev' w'. verimark_moc_verify interrupted no_prints (plain_device, waiting) = Some (dev', w')
        \<and> reports dev' = [Verify_Complete (Some Io_Cancelled)])
    \<and> (\<exists>dev' w'. dev_open (interrupted\<lparr>intr_in := drain_cancels\<rparr>) (dev_init, waiting) = (dev', w')
        \<and> dev_closed dev' \<and> reports dev' = [Open_Complete (Some Io_Cancelled)])
    \<and> (\<exists>dev' w' log n. verimark_moc_enroll interrupted (\<lambda>_. ''FP1'') 3 blank_print (plain_device, waiting) = Some (dev', w')
        \<and> progress_log log n \<and> reports dev' = log @ [Enroll_Complete None (Some Io_Cancelled)])"
proof -
  have start: "d_tls plain_device \<noteq> None" "reports plain_device = []" "reports dev_init = []" "\<not> user_cancelled waiting"
    by (simp_all add: plain_device_def dev_init_def user_cancelled_def)
  have "delete_target (Some (list_print (make_print sample_fpi) (replicate 16 5))) \<noteq> None"
    using list_print_fields [OF sample_fpi_doc, of "replicate 16 5"]
    by (simp add: delete_target_def verimark_parse_print_data_def zero16_def)
  note all = cancel_unwinds [OF interrupted_docs start(1) this, where w = waiting and D = no_prints
      and gen = "\<lambda>_. ''FP1''" and new = blank_print]
  have "\<exists>dev' w'. verimark_moc_verify interrupted no_prints (plain_device, waiting) = Some (dev', w')
      \<and> reports dev' = [Verify_Complete (Some Io_Cancelled)]"
    using conjunct1 [OF all] interrupted_verify [of no_prints] start(2) by (auto simp: ends_cancelled_def)
  moreover note rest = all [THEN conjunct2, THEN conjunct2, THEN conjunct2, THEN conjunct2, THEN conjunct2]
  obtain dev1 w1 where op: "dev_open (interrupted\<lparr>intr_in := drain_cancels\<rparr>) (dev_init, waiting) = (dev1, w1)"
    "user_cancelled w1" using interrupted_open by blast
  have "dev_closed dev1 \<and> reports dev1 = [Open_Complete (Some Io_Cancelled)]"
    using rest [THEN conjunct1, rule_format, OF conjI [OF dev_init_closed conjI [OF op]]] start(3,4) by auto
  moreover obtain dev2 w2 where
    enr: "verimark_moc_enroll interrupted (\<lambda>_. ''FP1'') 3 blank_print (plain_device, waiting) = Some (dev2, w2)" "user_cancelled w2"
    using interrupted_enroll by blast
  have "\<exists>log n. progress_log log n \<and> reports dev2 = log @ [Enroll_Complete None (Some Io_Cancelled)]"
    using rest [THEN conjunct2, THEN conjunct2, THEN conjunct1, rule_format, OF enr(1)] enr(2) start(2) by simp
  ultimately show ?thesis using start(4) op(1) enr(1) by blast
qed

end
