(* ===== verification/Bus_Log.thy ===== *)
theory Bus_Log
  imports Driver
begin

text \<open>
  What an observer of the cable sees of a match-on-chip command: \<open>B\<close> is the log of the control
  transfers the driver has submitted, each with its \<open>wValue\<close> and its data. A command of an
  established session shows as the frames of one sealed record, or as the first of them when a
  transfer fails, and a wait for a press shows as nothing.
\<close>

subsection \<open>The observer\<close>

definition bus_log :: "'w platform \<Rightarrow> ('w \<Rightarrow> (u16 \<times> bytes) list) \<Rightarrow> bool" where
  "bus_log P B \<longleftrightarrow> (\<forall>w req v d. B (snd (ctrl_out P w req v d)) = B w @ [(v, d)])
     \<and> (\<forall>w req v n. B (snd (ctrl_in P w req v n)) = B w) \<and> (\<forall>w ep n t. B (snd (intr_in P w ep n t)) = B w)
     \<and> (\<forall>w us. B (pause_us P us w) = B w) \<and> (\<forall>w. B (snd (mono_time P w)) = B w)
     \<and> (\<forall>w n. B (snd (rand_bytes P w n)) = B w)"

lemma bus_logD:
  assumes "bus_log P B"
  shows "ctrl_out P w req v d = (q, w1) \<Longrightarrow> B w1 = B w @ [(v, d)]" "B (snd (ctrl_in P w req v n)) = B w"
    "intr_in P w ep n t = (r, w2) \<Longrightarrow> B w2 = B w" "B (pause_us P us w) = B w"
    "mono_time P w = (now, w3) \<Longrightarrow> B w3 = B w" "rand_bytes P w n = (bs, w4) \<Longrightarrow> B w4 = B w"
  using assms unfolding bus_log_def by (simp_all, (metis snd_conv)+)

subsection \<open>A command\<close>

lemma bus_frames:
  assumes "bus_log P B"
  shows "send_frames P fs w = (r, w') \<Longrightarrow>
    \<exists>k. B w' = B w @ take k fs \<and> (fs \<noteq> [] \<longrightarrow> 0 < k) \<and> (r = Inr () \<longrightarrow> k = length fs)"
proof (induction fs arbitrary: w)
  case Nil
  then show ?case by auto
next
  case (Cons vd fs)
  obtain v d where vd: "vd = (v, d)" by fastforce
  obtain q w1 where io: "ctrl_out P w VERIMARK_CTRL_REQ_WRITE v d = (q, w1)" by fastforce
  note w1 = bus_logD(1) [OF assms io]
  show ?case
  proof (cases q)
    case (Inl e)
    with Cons.prems io w1 show ?thesis by (intro exI [of _ 1]) (auto simp: vd)
  next
    case (Inr u)
    with Cons.IH [of w1] Cons.prems io obtain k where "B w' = B w1 @ take k fs" "r = Inr () \<longrightarrow> k = length fs"
      by (auto simp: vd)
    with w1 show ?thesis by (intro exI [of _ "Suc k"]) (auto simp: vd)
  qed
qed

lemma bus_command:
  assumes "bus_log P B" "verimark_ctrl_cmd_sync P rcd m w = (r, w')" "length rcd + 8 \<le> 2 ^ 63"
  shows "\<exists>k. 0 < k \<and> B w' = B w @ take k (write_frames rcd) \<and> ((\<exists>a. r = Inr a) \<longrightarrow> k = length (write_frames rcd))"
proof -
  obtain q w1 where wr: "send_frames P (write_frames rcd) w = (q, w1)" by fastforce
  from bus_frames [OF assms(1) wr] write_frames_nonempty [OF assms(3)] obtain k where
    k: "B w1 = B w @ take k (write_frames rcd)" "0 < k" "q = Inr () \<longrightarrow> k = length (write_frames rcd)" by blast
  show ?thesis
  proof (cases q)
    case (Inl e)
    then show ?thesis using assms(2) wr k by (auto simp: verimark_ctrl_cmd_sync_def verimark_ctrl_write_frames)
  next
    case (Inr u)
    then have "ctrl_read_loop P (max m 1) [] True 0 w1 = (r, w')"
      using assms(2) wr by (simp add: verimark_ctrl_cmd_sync_def verimark_ctrl_write_frames verimark_ctrl_read_sync_def)
    from ctrl_read_loop_keeps [of B, OF bus_logD(2,4) [OF assms(1)] this] k Inr show ?thesis by auto
  qed
qed

text \<open>The one record a command is sealed into, under the session's write key and sequence number.\<close>

definition sealed_record :: "crypto \<Rightarrow> tls \<Rightarrow> bytes \<Rightarrow> bytes \<Rightarrow> bool" where
  "sealed_record C t cmd rcd \<longleftrightarrow> (\<exists>nonce frag. length nonce = 8
     \<and> verimark_tls_gcm_wrap C (encr_key (t_keys t)) (encr_iv (t_keys t)) (t_encr_seq t)
         VERIMARK_TLS_CT_APPDATA nonce cmd = Inr frag
     \<and> rcd = rec_write_plain [] VERIMARK_TLS_CT_APPDATA frag)"

lemma wrap_seals:
  assumes "aead_doc (lib P)" "rand_doc P" "bus_log P B" "t_established t" "verimark_tls_wrap P (t, w) cmd = (q, t1, w1)"
  shows "\<exists>rcd. q = Inr rcd \<and> sealed_record (lib P) t cmd rcd \<and> t1 = t\<lparr>t_encr_seq := t_encr_seq t + 1\<rparr> \<and> B w1 = B w"
proof -
  obtain nonce v where rnd: "rand_bytes P w 8 = (nonce, v)" by fastforce
  note n = rand_docD [OF assms(2) rnd]
  from gcm_wrap_total [OF assms(1) n] obtain frag where
    "verimark_tls_gcm_wrap (lib P) (encr_key (t_keys t)) (encr_iv (t_keys t)) (t_encr_seq t)
       VERIMARK_TLS_CT_APPDATA nonce cmd = Inr frag" .
  with assms(4,5) rnd n bus_logD(6) [OF assms(3) rnd] show ?thesis
    by (auto simp: verimark_tls_wrap_def sealed_record_def)
qed

text \<open>Reading the reply changes the read side of the session only.\<close>

lemma unwrap_reads:
  assumes "verimark_tls_unwrap C t rcd = (r, t')"
  shows "t_keys t' = t_keys t \<and> t_encr_seq t' = t_encr_seq t"
proof -
  let ?I = "\<lambda>s. t_keys (snd s) = t_keys t \<and> t_encr_seq (snd s) = t_encr_seq t"
  have step: "?I s'" if "?I s" "unwrap_record C ct frag s = (q, s')" for ct frag s q s'
    using that
    by (cases s; cases "verimark_tls_gcm_unwrap C (decr_key (t_keys (snd s))) (decr_iv (t_keys (snd s))) (t_decr_seq (snd s)) ct frag")
      (auto simp: unwrap_record_def Let_def split: if_split_asm)
  obtain q s where loop: "rec_loop ''unwrap'' (unwrap_record C) rcd 0 ([], t) = (q, s)"
    by (cases "rec_loop ''unwrap'' (unwrap_record C) rcd 0 ([], t)")
  have s: "?I s"
    by (rule rec_loop_outcome [where I = ?I and Q = "\<lambda>_. True" and s = "([], t)", OF _ _ _ loop, THEN conjunct1])
      (use step in blast, simp_all)
  obtain out t1 where "s = (out, t1)" by fastforce
  then have "t' = t1 \<or> t' = t" using assms loop by (cases q; cases "t_established t") (simp_all add: verimark_tls_unwrap_def)
  with s show ?thesis by (auto simp: \<open>s = (out, t1)\<close>)
qed

lemma raw_resp_reads:
  assumes "on_moc_raw_resp C r (dev, w) = (q, dev', w')" "d_tls dev = Some t"
  shows "w' = w" "\<exists>t'. d_tls dev' = Some t' \<and> t_keys t' = t_keys t \<and> t_encr_seq t' = t_encr_seq t" "(\<exists>a. q = Inr a) \<Longrightarrow> \<exists>a. r = Inr a"
  using assms unwrap_reads [of C t]
  by (auto simp: on_moc_raw_resp_def split: sum.split_asm prod.split_asm)

lemma bus_send:
  assumes "fpi_ssm_doc (fpi P)" "aead_doc (lib P)" "rand_doc P" "bus_log P B" "length cmd \<le> 65536"
    and "d_tls dev = Some t" "t_established t" "verimark_moc_send P cmd hint (dev, w) = Some (r, dev', w')"
  shows "\<exists>rcd k t'. sealed_record (lib P) t cmd rcd \<and> 0 < k \<and> B w' = B w @ take k (write_frames rcd)
    \<and> ((\<exists>a. r = Inr a) \<longrightarrow> k = length (write_frames rcd))
    \<and> d_tls dev' = Some t' \<and> t_keys t' = t_keys t \<and> t_encr_seq t' = t_encr_seq t + 1"
proof -
  obtain q t1 w1 where wrap: "verimark_tls_wrap P (t, w) cmd = (q, t1, w1)" by (metis surj_pair)
  from wrap_seals [OF assms(2-4,7) wrap] obtain rcd where
    rcd: "q = Inr rcd" "sealed_record (lib P) t cmd rcd" "t1 = t\<lparr>t_encr_seq := t_encr_seq t + 1\<rparr>" "B w1 = B w" by blast
  have "length rcd + 8 \<le> 2 ^ 63"
    using tls_wrap_length [OF assms(2,3) wrap [unfolded rcd(1)]] assms(5) by simp
  moreover obtain q2 w2 where io: "verimark_ctrl_cmd_sync P rcd (moc_budget hint) w1 = (q2, w2)" by fastforce
  ultimately obtain k where k: "0 < k" "B w2 = B w1 @ take k (write_frames rcd)"
    "(\<exists>a. q2 = Inr a) \<longrightarrow> k = length (write_frames rcd)" using bus_command [OF assms(4) io] by blast
  have "moc_exchange P cmd hint (dev, w) = (r, dev', w')"
    using trans [OF sym [OF moc_send_exchange [OF assms(1-3,5), of hint "(dev, w)"]] assms(8)] by (rule option.inject [THEN iffD1])
  then have "on_moc_raw_resp (lib P) q2 (dev\<lparr>d_tls := Some t1\<rparr>, w2) = (r, dev', w')"
    using assms(6) wrap io by (simp add: moc_exchange_def rcd(1))
  note resp = raw_resp_reads [OF this, of t1]
  have "d_tls (dev\<lparr>d_tls := Some t1\<rparr>) = Some t1" by simp
  note resp = resp [OF this]
  from resp(2) obtain t' where t': "d_tls dev' = Some t'" "t_keys t' = t_keys t1" "t_encr_seq t' = t_encr_seq t1" by blast
  have "B w' = B w @ take k (write_frames rcd)" using k(2) rcd(4) resp(1) by simp
  moreover have "(\<exists>a. r = Inr a) \<longrightarrow> k = length (write_frames rcd)" using k(3) resp(3) by blast
  moreover have "t_keys t' = t_keys t" "t_encr_seq t' = t_encr_seq t + 1" using t'(2,3) by (simp_all add: rcd(3))
  ultimately show ?thesis using rcd(2) k(1) t'(1) by blast
qed

subsection \<open>A wait for a press\<close>

lemma bus_wait:
  assumes "fpi_ssm_doc (fpi P)" "bus_log P B" "cap_wait_press P (dev, w) = Some (r, dev', w')"
  shows "B w' = B w \<and> dev' = dev"
proof -
  have "intr_keeps P (\<lambda>v. B v = B w) (\<lambda>e v. B v = B w)"
    using bus_logD(3,5) [OF assms(2)] by (auto simp: intr_keeps_def split: sum.split)
  then show ?thesis
    using intr_wait_keeps [of P "\<lambda>v. B v = B w" "\<lambda>e v. B v = B w" w] assms(1,3)
    by (fastforce simp: cap_wait_press_def split: sum.split_asm)
qed

end
