(* ===== verification/Channel.thy ===== *)
theory Channel
  imports Tls_Session
begin

text \<open>
  What an established session accepts. GCM returns a plaintext only for the very ciphertext and tag
  its sealing gives, so the record layer accepts exactly the streams of records sealed under the
  session's key and IV, with the content type of application data and consecutive sequence numbers: a
  record from another session, out of order, replayed at another number, cut or of another type is not one.
\<close>

definition aead_exact :: "crypto \<Rightarrow> bool" where
  "aead_exact C \<longleftrightarrow> (\<forall>k iv a c t p. length t = 16 \<longrightarrow> gcm_decrypt C k iv a c t = Some p \<longrightarrow> gcm_encrypt C k iv a p = Some (c, t))"

lemma gcm_unwrap_exact:
  assumes "aead_doc C" "aead_exact C"
  shows "verimark_tls_gcm_unwrap C key iv seq ct frag = Inr p \<longleftrightarrow>
    (\<exists>nonce. length nonce = 8 \<and> verimark_tls_gcm_wrap C key iv seq ct nonce p = Inr frag)"
proof
  assume un: "verimark_tls_gcm_unwrap C key iv seq ct frag = Inr p"
  let ?nonce = "take 8 frag" and ?n = "length frag - 24"
  from gcm_unwrap_length [OF assms(1) un] have len: "length frag = length p + 24" .
  with un have "gcm_decrypt C key (gcm_iv iv ?nonce) (gcm_build_aad seq ct (length p)) (take (length p) (drop 8 frag)) (drop (length frag - 16) frag) = Some p"
    by (simp add: verimark_tls_gcm_unwrap_def Let_def split: option.split_asm)
  then have "gcm_encrypt C key (gcm_iv iv ?nonce) (gcm_build_aad seq ct (length p)) p = Some (take (length p) (drop 8 frag), drop (length frag - 16) frag)"
    using assms(2) len by (simp add: aead_exact_def)
  moreover have "frag = take 8 frag @ take (length p) (drop 8 frag) @ drop (length frag - 16) frag"
    using append_take_drop_id [of 8 frag] append_take_drop_id [of "length p" "drop 8 frag"] len by (simp add: add.commute)
  ultimately show "\<exists>nonce. length nonce = 8 \<and> verimark_tls_gcm_wrap C key iv seq ct nonce p = Inr frag"
    using len by (intro exI [of _ ?nonce]) (simp add: verimark_tls_gcm_wrap_def)
next
  assume "\<exists>nonce. length nonce = 8 \<and> verimark_tls_gcm_wrap C key iv seq ct nonce p = Inr frag"
  then show "verimark_tls_gcm_unwrap C key iv seq ct frag = Inr p"
    using gcm_unwrap_wrap [OF assms(1)] by (metis sum.inject(2))
qed

text \<open>The records \<open>rs\<close> carry the plaintexts \<open>ps\<close>, from the next sequence number of \<open>t\<close> on.\<close>

inductive sealed :: "crypto \<Rightarrow> tls \<Rightarrow> tls_record list \<Rightarrow> bytes list \<Rightarrow> bool" for C where
  sealed_end: "sealed C t [] []"
| sealed_more: "length nonce = 8 \<Longrightarrow> verimark_tls_gcm_wrap C (decr_key (t_keys t)) (decr_iv (t_keys t)) (t_decr_seq t)
      VERIMARK_TLS_CT_APPDATA nonce p = Inr frag
    \<Longrightarrow> sealed C (t\<lparr>t_decr_seq := t_decr_seq t + 1\<rparr>) rs ps \<Longrightarrow> sealed C t ((VERIMARK_TLS_CT_APPDATA, v, frag) # rs) (p # ps)"

inductive_simps sealed_simps: "sealed C t [] ps" "sealed C t ((ct, v, frag) # rs) ps"

lemma run_unwrap:
  assumes "aead_doc C" "aead_exact C"
  shows "run_recs (unwrap_record C) rs (out, t) = (Inr (), out', t') \<longleftrightarrow>
    (\<exists>ps. sealed C t rs ps \<and> out' = out @ concat ps \<and> t' = t\<lparr>t_decr_seq := t_decr_seq t + of_nat (length rs)\<rparr>)"
proof (induction rs arbitrary: out t)
  case Nil
  then show ?case by (auto simp: sealed_simps)
next
  case (Cons r rs)
  obtain ct v frag where r: "r = (ct, v, frag)" by (cases r) auto
  let ?t = "t\<lparr>t_decr_seq := t_decr_seq t + 1\<rparr>"
  have step: "unwrap_record C ct frag (out, t) = (Inr (), s) \<longleftrightarrow> ct = VERIMARK_TLS_CT_APPDATA \<and> (\<exists>p nonce. length nonce = 8
      \<and> verimark_tls_gcm_wrap C (decr_key (t_keys t)) (decr_iv (t_keys t)) (t_decr_seq t) ct nonce p = Inr frag \<and> s = (out @ p, ?t))" for s
  proof -
    let ?un = "verimark_tls_gcm_unwrap C (decr_key (t_keys t)) (decr_iv (t_keys t)) (t_decr_seq t) ct frag"
    have "unwrap_record C ct frag (out, t) = (Inr (), s) \<longleftrightarrow> ct = VERIMARK_TLS_CT_APPDATA \<and> (\<exists>p. ?un = Inr p \<and> s = (out @ p, ?t))"
      by (cases ?un) (auto simp: unwrap_record_def Let_def)
    then show ?thesis by (auto simp: gcm_unwrap_exact [OF assms])
  qed
  have run: "run_recs (unwrap_record C) (r # rs) (out, t) = (Inr (), out', t') \<longleftrightarrow>
      (\<exists>s. unwrap_record C ct frag (out, t) = (Inr (), s) \<and> run_recs (unwrap_record C) rs s = (Inr (), out', t'))"
    by (auto simp: r bind_st_Inr)
  show ?case
  proof
    assume "run_recs (unwrap_record C) (r # rs) (out, t) = (Inr (), out', t')"
    then obtain p nonce where p: "ct = VERIMARK_TLS_CT_APPDATA" "length nonce = 8"
      "verimark_tls_gcm_wrap C (decr_key (t_keys t)) (decr_iv (t_keys t)) (t_decr_seq t) ct nonce p = Inr frag"
      "run_recs (unwrap_record C) rs (out @ p, ?t) = (Inr (), out', t')" unfolding run step by auto
    then obtain ps where "sealed C ?t rs ps" "out' = (out @ p) @ concat ps" "t' = ?t\<lparr>t_decr_seq := t_decr_seq ?t + of_nat (length rs)\<rparr>"
      unfolding Cons.IH by blast
    then show "\<exists>ps. sealed C t (r # rs) ps \<and> out' = out @ concat ps \<and> t' = t\<lparr>t_decr_seq := t_decr_seq t + of_nat (length (r # rs))\<rparr>"
      using sealed_more [OF p(2) p(3) [unfolded p(1)]] p(1) by (intro exI [of _ "p # ps"]) (simp add: r add.assoc)
  next
    assume "\<exists>ps. sealed C t (r # rs) ps \<and> out' = out @ concat ps \<and> t' = t\<lparr>t_decr_seq := t_decr_seq t + of_nat (length (r # rs))\<rparr>"
    then obtain p nonce ps where p: "ct = VERIMARK_TLS_CT_APPDATA" "length nonce = 8"
      "verimark_tls_gcm_wrap C (decr_key (t_keys t)) (decr_iv (t_keys t)) (t_decr_seq t) ct nonce p = Inr frag"
      "sealed C ?t rs ps" "out' = (out @ p) @ concat ps" "t' = ?t\<lparr>t_decr_seq := t_decr_seq ?t + of_nat (length rs)\<rparr>"
      unfolding r sealed_simps by (auto simp: add.assoc)
    then have "run_recs (unwrap_record C) rs (out @ p, ?t) = (Inr (), out', t')" unfolding Cons.IH by blast
    with p(1-3) show "run_recs (unwrap_record C) (r # rs) (out, t) = (Inr (), out', t')" unfolding run step by blast
  qed
qed

lemma unwrap_accepts:
  assumes "aead_doc C" "aead_exact C" "t_established t"
  shows "verimark_tls_unwrap C t resp = (Inr plain, t') \<longleftrightarrow>
    (\<exists>rs ps. resp = concat (map rec_enc rs) \<and> (\<forall>r \<in> set rs. rec_fits r) \<and> sealed C t rs ps \<and> plain = concat ps
       \<and> t' = t\<lparr>t_decr_seq := t_decr_seq t + of_nat (length rs)\<rparr>)"
proof -
  have "verimark_tls_unwrap C t resp = (Inr plain, t') \<longleftrightarrow> rec_loop ''unwrap'' (unwrap_record C) resp 0 ([], t) = (Inr (), plain, t')"
    using assms(3) by (auto simp: verimark_tls_unwrap_def split: prod.split sum.split)
  also have "\<dots> \<longleftrightarrow> (\<exists>rs. resp = concat (map rec_enc rs) \<and> (\<forall>r \<in> set rs. rec_fits r) \<and> run_recs (unwrap_record C) rs ([], t) = (Inr (), plain, t'))"
    using rec_loop_InrD [of "''unwrap''" "unwrap_record C" resp 0 "([], t)" "(plain, t')"]
      rec_loop_enc [of _ "''unwrap''" "unwrap_record C" "[]" "([], t)"] by auto
  finally show ?thesis by (auto simp: run_unwrap [OF assms(1,2)])
qed

subsection \<open>Property\<close>

text \<open>C12: An established session accepts a reply exactly when it is a sequence of records whose
  fragments are the sealings, under this session's key and IV, of plaintexts as application data with
  consecutive sequence numbers starting at the next one expected; it then returns the
  plaintexts, and expects the number after the last one. So nothing forged, replayed, reordered, cut
  within a record or left over is ever returned to the driver.\<close>

theorem tls_unwrap_accepts:
  assumes "aead_doc C" "aead_exact C" "t_established t"
  shows "verimark_tls_unwrap C t resp = (Inr plain, t') \<longleftrightarrow>
    (\<exists>rs ps. resp = concat (map rec_enc rs) \<and> (\<forall>r \<in> set rs. rec_fits r) \<and> sealed C t rs ps \<and> plain = concat ps
       \<and> t' = t\<lparr>t_decr_seq := t_decr_seq t + of_nat (length rs)\<rparr>)"
  by (rule unwrap_accepts [OF assms])

text \<open>The tag of this sample is the lowest byte of the sequence number.\<close>

definition low_tag :: "bytes \<Rightarrow> bytes" where
  "low_tag a = (a @ replicate 8 0) ! 7 # replicate 15 0"

lemma low_tag_aad [simp]: "low_tag (gcm_build_aad seq ct n) = ucast seq # replicate 15 0" "length (low_tag a) = 16"
  by (simp_all add: low_tag_def gcm_build_aad_def)

definition exact_crypto :: crypto where
  "exact_crypto = sample_crypto\<lparr>gcm_encrypt := \<lambda>k iv a p. Some (p, low_tag a),
     gcm_decrypt := \<lambda>k iv a c t. if t = low_tag a then Some c else None\<rparr>"

lemma exact_crypto_docs: "aead_doc exact_crypto" "aead_exact exact_crypto"
  by (auto simp: aead_doc_def aead_exact_def exact_crypto_def)

text \<open>The first record is accepted, its replay is not.\<close>

definition first_record :: tls_record where
  "first_record = (0x17, (3, 3), replicate 8 0 @ [0x99] @ 0 # replicate 15 0)"

lemma first_record_sealed: "sealed exact_crypto sample_session [first_record] [[0x99]]" "rec_fits first_record"
proof -
  have "verimark_tls_gcm_wrap exact_crypto key iv 0 VERIMARK_TLS_CT_APPDATA (replicate 8 0) [0x99] =
      Inr (replicate 8 0 @ [0x99] @ 0 # replicate 15 0)" for key iv
    by (simp add: verimark_tls_gcm_wrap_def exact_crypto_def low_tag_aad)
  then show "sealed exact_crypto sample_session [first_record] [[0x99]]" "rec_fits first_record"
    by (auto simp: first_record_def sealed_simps sample_session_def verimark_tls_new_def rec_fits_def VERIMARK_TLS_CT_APPDATA_def
        intro!: exI [of _ "replicate 8 0"])
qed

lemma tls_unwrap_accepts_witness:
  "verimark_tls_unwrap exact_crypto sample_session (rec_enc first_record) = (Inr [0x99], sample_session\<lparr>t_decr_seq := 1\<rparr>)
    \<and> fst (verimark_tls_unwrap exact_crypto sample_session (rec_enc first_record @ rec_enc first_record)) =
        Inl (Crypto_Error FAILED ''GCM unwrap/auth failed'' [])"
proof
  have s: "t_established sample_session" "t_decr_seq sample_session = 0" by (simp_all add: sample_session_def verimark_tls_new_def)
  from tls_unwrap_accepts [OF exact_crypto_docs s(1), of "rec_enc first_record" "[0x99]" "sample_session\<lparr>t_decr_seq := 1\<rparr>"]
  show "verimark_tls_unwrap exact_crypto sample_session (rec_enc first_record) = (Inr [0x99], sample_session\<lparr>t_decr_seq := 1\<rparr>)"
    using first_record_sealed s(2) by (auto intro!: exI [of _ "[first_record]"] exI [of _ "[[0x99]]"])
next
  let ?t = "sample_session\<lparr>t_decr_seq := 1\<rparr>" and ?frag = "snd (snd first_record)"
  have "unwrap_record exact_crypto 0x17 ?frag ([], sample_session) = (Inr (), [0x99], ?t)"
    by (simp add: unwrap_record_def verimark_tls_gcm_unwrap_def exact_crypto_def first_record_def sample_session_def
        verimark_tls_new_def VERIMARK_TLS_CT_APPDATA_def)
  moreover have "unwrap_record exact_crypto 0x17 ?frag ([0x99], ?t) =
      (Inl (Crypto_Error FAILED ''GCM unwrap/auth failed'' []), [0x99], ?t)"
    by (simp add: unwrap_record_def verimark_tls_gcm_unwrap_def exact_crypto_def first_record_def)
  ultimately have "run_recs (unwrap_record exact_crypto) [first_record, first_record] ([], sample_session) =
      (Inl (Crypto_Error FAILED ''GCM unwrap/auth failed'' []), [0x99], ?t)"
    by (simp add: first_record_def)
  then show "fst (verimark_tls_unwrap exact_crypto sample_session (rec_enc first_record @ rec_enc first_record)) =
      Inl (Crypto_Error FAILED ''GCM unwrap/auth failed'' [])"
    using rec_loop_enc [of "[first_record, first_record]" "''unwrap''" "unwrap_record exact_crypto" "[]" "([], sample_session)"]
      first_record_sealed(2)
    by (simp add: verimark_tls_unwrap_def sample_session_def)
qed

end
