(* ===== verification/Unit_Tests.thy ===== *)
theory Unit_Tests
  imports Capture
begin

text \<open>
  The repository's unit tests of the pure code, \<open>driver/tests/test_moc.c\<close> and
  \<open>driver/tests/test_transport_framing.c\<close>, run on the model: one lemma per test, under its name, with its inputs and
  its assertions. They pin the definitions to byte values the authors took from the prototype that
  works with the device.
\<close>

subsection \<open>\<open>test_moc.c\<close>: builders\<close>

lemma test_build_begin_id:
  "verimark_moc_build_begin_id = [0x99, 0x01, 0x00, 0x00, 0x00, 0x00, 0x00, 0x00, 0x00, 0x00, 0x00, 0x00, 0x00]"
  by code_simp

lemma test_build_enroll_create:
  "verimark_moc_build_enroll_create = [0x96, 0x01, 0x00, 0x00, 0x00, 0x00, 0x00, 0x00, 0x00, 0x00, 0x00, 0x00, 0x00]"
  by code_simp

lemma test_build_enroll_sample:
  "verimark_moc_build_enroll_sample = [0x96, 0x02, 0x00, 0x00, 0x00]"
  by code_simp

lemma test_build_enroll_commit:
  "verimark_moc_build_enroll_commit = [0x96, 0x04, 0x00, 0x00, 0x00]"
  by code_simp

lemma test_build_frame_acq_enroll:
  "verimark_moc_build_frame_acq VERIMARK_ACQ_ENROLL = [0x80, 0x0c, 0x00, 0x00, 0x00, 0x01, 0x00, 0x00, 0x00, 0x01, 0x00, 0x00, 0x08, 0x01, 0x01, 0x01, 0x00]"
  by code_simp

lemma test_build_frame_acq_verify:
  "verimark_moc_build_frame_acq VERIMARK_ACQ_VERIFY = [0x80, 0x14, 0x00, 0x00, 0x00, 0x01, 0x00, 0x00, 0x00, 0x01, 0x00, 0x00, 0x08, 0x01, 0x01, 0x01, 0x00]"
  by code_simp

lemma test_build_frame_finish:
  "verimark_moc_build_frame_finish = [0x81]"
  by code_simp

subsection \<open>\<open>test_moc.c\<close>: parsers\<close>

definition sample_hex :: bytes where
  "sample_hex =
    [0x00, 0x00, 0x01, 0x02, 0x03, 0x04, 0x05, 0x06, 0x07, 0x08, 0x09, 0x0a, 0x0b, 0x0c, 0x0d, 0x0e, 0x0f, 0x10, 0x00, 0x00, 0x00, 0x00,
     0x7f, 0x00, 0x05, 0x00, 0x00, 0x00, 0x00, 0x00, 0x00, 0x00, 0x00, 0x00, 0x00, 0x00, 0x00, 0x00, 0x00, 0x00, 0x00, 0x00, 0x63]"

lemma test_parse_sample_ok:
  "verimark_moc_parse_sample (Some sample_hex) = Inr \<lparr>sample_status = 0,
     sample_template_id = [0x01, 0x02, 0x03, 0x04, 0x05, 0x06, 0x07, 0x08, 0x09, 0x0a, 0x0b, 0x0c, 0x0d, 0x0e, 0x0f, 0x10],
     sample_coverage = 0x7f, sample_counter = 0x05, sample_quality = 0x63\<rparr>"
  by code_simp

lemma test_parse_sample_too_short:
  "\<exists>e. verimark_moc_parse_sample (Some (replicate 10 0)) = Inl e"
  by (simp add: verimark_moc_parse_sample_def)

lemma test_parse_verify_match:
  "verimark_moc_parse_verify (Some ([0, 0] @ [0x01, 0x02, 0x03, 0x04, 0x05, 0x06, 0x07, 0x08, 0x09, 0x0a, 0x0b, 0x0c, 0x0d, 0x0e, 0x0f, 0x10] @ replicate 159 0)) =
     Inr \<lparr>match_status = 0, matched = True,
       match_template_id = [0x01, 0x02, 0x03, 0x04, 0x05, 0x06, 0x07, 0x08, 0x09, 0x0a, 0x0b, 0x0c, 0x0d, 0x0e, 0x0f, 0x10]\<rparr>"
  by code_simp

lemma test_parse_verify_no_match:
  "\<exists>tid. verimark_moc_parse_verify (Some ([0x09, 0x05] @ replicate 175 0)) =
     Inr \<lparr>match_status = 0x0509, matched = False, match_template_id = tid\<rparr>"
  by (simp add: verimark_moc_parse_verify_def rd_u16le_def rd8_def u16_of_le_def)

lemma test_parse_verify_too_short:
  "\<exists>e. verimark_moc_parse_verify None = Inl e" "\<exists>e. verimark_moc_parse_verify (Some [0]) = Inl e"
  by (simp_all add: verimark_moc_parse_verify_def)

definition objlist_hex :: bytes where
  "objlist_hex =
    [0x00, 0x00, 0x02, 0x00, 0x11, 0x11, 0x11, 0x11, 0x11, 0x11, 0x11, 0x11, 0x11, 0x11, 0x11, 0x11, 0x11, 0x11, 0x11, 0x11, 0x22, 0x22,
     0x22, 0x22, 0x22, 0x22, 0x22, 0x22, 0x22, 0x22, 0x22, 0x22, 0x22, 0x22, 0x22, 0x22]"

lemma test_parse_obj_list_ok:
  "verimark_moc_parse_obj_list (Some objlist_hex) = Inr (0, [replicate 16 0x11, replicate 16 0x22])"
  by code_simp

lemma test_parse_obj_list_truncated:
  "\<exists>e. verimark_moc_parse_obj_list (Some [0x00, 0x00, 0x05, 0x00]) = Inl e"
  by (simp add: verimark_moc_parse_obj_list_def rd_u16le_def rd8_def u16_of_le_def)

definition objinfo_hex :: bytes where
  "objinfo_hex =
    [0x00, 0x00, 0x00, 0x00, 0x00, 0x00, 0x00, 0x00, 0x00, 0x00, 0x00, 0x00, 0x00, 0x00, 0x00, 0x00, 0x00, 0x00, 0x00, 0x00, 0xaa, 0xbb,
     0xcc, 0xdd, 0xee, 0xff, 0x00, 0x11, 0x22, 0x33, 0x44, 0x55, 0x66, 0x77, 0x88, 0x99, 0x00, 0x00, 0x00, 0x00, 0x00, 0x00, 0x00, 0x00,
     0x00, 0x00, 0x00, 0x00, 0x00, 0x00, 0x00, 0x00]"

lemma test_parse_obj_info_ok:
  "verimark_moc_parse_obj_info (Some objinfo_hex) =
     Inr [0xaa, 0xbb, 0xcc, 0xdd, 0xee, 0xff, 0x00, 0x11, 0x22, 0x33, 0x44, 0x55, 0x66, 0x77, 0x88, 0x99]"
  by code_simp

lemma test_parse_obj_info_too_short:
  "\<exists>e. verimark_moc_parse_obj_info (Some (replicate 10 0)) = Inl e"
  by (simp add: verimark_moc_parse_obj_info_def)

subsection \<open>\<open>test_moc.c\<close>: finalize, SID, states\<close>

text \<open>\<open>win_finalize\<close>, from the hex string of the test.\<close>

definition win_finalize :: bytes where
  "win_finalize =
    [0x96, 0x03, 0x00, 0x00, 0x00, 0x00, 0x00, 0x00, 0x00, 0x6f, 0x00, 0x00, 0x00, 0x00, 0x00, 0x10, 0x00, 0x00, 0x00, 0x45, 0x2d, 0xec,
     0x91, 0x88, 0x13, 0x90, 0xe4, 0x14, 0xeb, 0x6a, 0x58, 0x12, 0x8e, 0x41, 0x21, 0x01, 0x00, 0x4c, 0x00, 0x00, 0x00, 0x03, 0x00, 0x00,
     0x00, 0x1c, 0x00, 0x00, 0x00, 0x01, 0x05, 0x00, 0x00, 0x00, 0x00, 0x00, 0x05, 0x15, 0x00, 0x00, 0x00, 0x00, 0x00, 0x00, 0x00, 0x00,
     0x00, 0x00, 0x00, 0x00, 0x00, 0x00, 0x00, 0xe9, 0x03, 0x00, 0x00, 0x00, 0x00, 0x00, 0x00, 0x00, 0x00, 0x00, 0x00, 0x00, 0x00, 0x00,
     0x00, 0x00, 0x00, 0x00, 0x00, 0x00, 0x00, 0x00, 0x00, 0x00, 0x00, 0x00, 0x00, 0x00, 0x00, 0x00, 0x00, 0x00, 0x00, 0x00, 0x00, 0x00,
     0x00, 0x00, 0x00, 0x00, 0x00, 0x00, 0x00, 0x02, 0x00, 0x01, 0x00, 0x00, 0x00, 0xf5]"

definition counting :: "byte \<Rightarrow> nat \<Rightarrow> bytes" where
  "counting b n = map (\<lambda>i. b + of_nat i) [0..<n]"

lemma test_finalize_splice:
  "case verimark_moc_build_finalize (Some (counting 0xa0 16)) (Some (counting 0xb0 28)) of
     Inl e \<Rightarrow> False
   | Inr out \<Rightarrow> out ! 0 = 0x96 \<and> out ! 1 = 0x03
       \<and> take 16 (drop 19 out) = counting 0xa0 16 \<and> take 28 (drop 49 out) = counting 0xb0 28
       \<and> take 19 out = take 19 win_finalize \<and> take 14 (drop 35 out) = take 14 (drop 35 win_finalize)
       \<and> take 47 (drop 77 out) = take 47 (drop 77 win_finalize)"
  by code_simp

lemma test_finalize_matches_python:
  "verimark_moc_build_finalize (Some (take 16 (drop 19 win_finalize))) (Some (take 28 (drop 49 win_finalize)))
    = Inr win_finalize"
  by code_simp

definition rd32 :: "bytes \<Rightarrow> nat \<Rightarrow> u32" where
  "rd32 b i = u32_of_le (b ! i) (b ! (i + 1)) (b ! (i + 2)) (b ! (i + 3))"

lemma test_synth_sid_layout:
  "case (verimark_moc_synth_sid 1001 (Some (counting 0 16)), verimark_moc_synth_sid 1001 (Some (counting 0x40 16))) of
     (Inr sid_a, Inr sid_b) \<Rightarrow> take 8 sid_a = [0x01, 0x05, 0, 0, 0, 0, 0, 0x05] \<and> rd32 sid_a 8 = 21 \<and> rd32 sid_a 24 = 1001
       \<and> take 8 sid_b = take 8 sid_a \<and> take 4 (drop 24 sid_b) = take 4 (drop 24 sid_a)
       \<and> take 16 (drop 8 sid_a) \<noteq> take 16 (drop 8 sid_b)
   | _ \<Rightarrow> False"
  by code_simp

text \<open>The states of the capture machine, in the order of the enumeration.\<close>

lemma test_capture_state_order:
  "[CAP_ARM_PRESS, CAP_WAIT_PRESS, CAP_ARM_FRAME, CAP_FRAME_ACQ, CAP_WAIT_FRAME, CAP_EVENT_CLEAR, CAP_FRAME_FINISH]
    = [0..<CAP_N_STATES]"
  by (simp add: upt_rec)

subsection \<open>\<open>test_transport_framing.c\<close>\<close>

lemma test_padded_len:
  "map frame_padded_len [0, 1, 7, 8, 9, 200, 4200, 5001] = [0, 8, 8, 8, 16, 200, 4200, 5008]"
  by code_simp

lemma test_write_chunks_single:
  "map frame_write_chunks [0, 1, 7, 8, 9, 200] =
     map (\<lambda>(n, v). [\<lparr>wc_offset = 0, wc_len = n, wc_wvalue = v\<rparr>])
       [(0, 0), (8, 1), (8, 7), (8, 0), (16, 1), (200, 0)]"
  by code_simp

lemma test_write_chunks_multi:
  "frame_write_chunks 4200 = [\<lparr>wc_offset = 0, wc_len = 0x1000, wc_wvalue = 0x8000\<rparr>,
     \<lparr>wc_offset = 0x1000, wc_len = 104, wc_wvalue = 0x4000\<rparr>]"
  "frame_write_chunks 5001 = [\<lparr>wc_offset = 0, wc_len = 0x1000, wc_wvalue = 0x8000\<rparr>,
     \<lparr>wc_offset = 0x1000, wc_len = 912, wc_wvalue = 0x4001\<rparr>]"
  by code_simp+

fun tiles :: "write_chunk list \<Rightarrow> u64 \<Rightarrow> u64 \<Rightarrow> bool" where
  "tiles [] off n \<longleftrightarrow> off = n"
| "tiles (c # cs) off n \<longleftrightarrow> wc_offset c = off \<and> wc_len c \<le> 0x1000
     \<and> (cs \<noteq> [] \<longrightarrow> wc_len c = 0x1000) \<and> tiles cs (off + wc_len c) n"

lemma test_write_chunks_tile_exactly:
  "list_all (\<lambda>n. frame_write_chunks n \<noteq> [] \<and> tiles (frame_write_chunks n) 0 (frame_padded_len n))
     [0, 1, 7, 8, 9, 200, 4200, 5001, 4096, 4097, 8192, 8193]"
  by code_simp

lemma test_read_chunk_next:
  "map (\<lambda>(n, first). frame_read_chunk_next n first)
     [(1, True), (2, True), (8, True), (4096, True), (5000, True), (904, False), (8192, False)] =
     [(1, 0), (2, 0), (8, 0), (4096, 0x8000), (4096, 0x8000), (904, 0x4000), (4096, 0xc000)]"
  by code_simp

end
