(* ===== verification/Testing.thy ===== *)
theory Testing
  imports Sensor Pairing
begin

text \<open>
  The build of \<open>verimark-tls.c\<close> and \<open>verimark-pairing.c\<close> the unit tests run, with
  \<open>VERIMARK_TESTING\<close> defined: the hooks that pin the random inputs of a handshake, the handshake
  with its pinned branches, and the entry points to its single steps. What the tests exercise is
  the code of the driver: a pinned handshake is the handshake of the driver on a platform whose
  random generator, clock and signer give the pinned values.
\<close>

subsection \<open>The pins\<close>

text \<open>The fields of the session that exist in this build only; \<open>None\<close> is a \<open>_set\<close> flag that is
  \<open>FALSE\<close>.\<close>

record tls_pins =
  pin_client_random :: "bytes option"
  pin_eph_priv :: "bytes option"
  pin_gcm_nonce :: "bytes option"
  pin_cert_verify_sig :: "bytes option"

definition no_pins :: tls_pins where
  "no_pins = \<lparr>pin_client_random = None, pin_eph_priv = None, pin_gcm_nonce = None, pin_cert_verify_sig = None\<rparr>"

text \<open>\<open>if (p) { memcpy (pin, p, n); pin_set = TRUE; }\<close>\<close>

definition pin_copy :: "bytes option \<Rightarrow> nat \<Rightarrow> bytes option \<Rightarrow> bytes option res" where
  "pin_copy p n old = (case p of None \<Rightarrow> Inr old | Some b \<Rightarrow> bind_res (rd_slice b 0 n) (\<lambda>b. Inr (Some b)))"

definition verimark_tls__test_pin ::
  "tls_pins \<Rightarrow> bytes option \<Rightarrow> bytes option \<Rightarrow> bytes option \<Rightarrow> tls_pins res" where
  "verimark_tls__test_pin k client_random eph_priv gcm_nonce =
     bind_res (pin_copy client_random 32 (pin_client_random k)) (\<lambda>cr.
     bind_res (pin_copy eph_priv 32 (pin_eph_priv k)) (\<lambda>eph.
     bind_res (pin_copy gcm_nonce 8 (pin_gcm_nonce k)) (\<lambda>nonce.
     Inr (k\<lparr>pin_client_random := cr, pin_eph_priv := eph, pin_gcm_nonce := nonce\<rparr>))))"

definition verimark_tls__test_pin_cert_verify_sig :: "tls_pins \<Rightarrow> bytes option \<Rightarrow> nat \<Rightarrow> tls_pins res" where
  "verimark_tls__test_pin_cert_verify_sig k sig_der sig_len =
     (case sig_der of
        Some sig \<Rightarrow>
          if sig_len \<noteq> 0 \<and> sig_len \<le> 80
          then bind_res (rd_slice sig 0 sig_len) (\<lambda>sig. Inr (k\<lparr>pin_cert_verify_sig := Some sig\<rparr>))
          else Inr (k\<lparr>pin_cert_verify_sig := None\<rparr>)
      | None \<Rightarrow> Inr (k\<lparr>pin_cert_verify_sig := None\<rparr>))"

subsection \<open>The handshake with its pinned branches\<close>

definition hs_build_client_hello_pinned :: "'w platform \<Rightarrow> tls_pins \<Rightarrow> tls \<Rightarrow> 'w \<Rightarrow> bytes \<times> tls \<times> 'w" where
  "hs_build_client_hello_pinned P k t w =
     (let (cr, w) =
        (case pin_client_random k of
           Some cr \<Rightarrow> (cr, w)
         | None \<Rightarrow>
             let (now, w) = unix_time P w; (rnd, w) = rand_bytes P w 28
             in ([ucast (drop_bit 24 now), ucast (drop_bit 16 now), ucast (drop_bit 8 now), ucast now] @ rnd, w));
          (content, t) = hs_msg (t\<lparr>t_client_random := cr\<rparr>) [] 0x01 (client_hello_body cr)
      in (rec_write_plain [] 0x16 content, t, w))"

definition rt2_flight_pinned :: "'w platform \<Rightarrow> tls_pins \<Rightarrow> tls \<times> 'w \<Rightarrow> bytes res \<times> tls \<times> 'w" where
  "rt2_flight_pinned P k = (\<lambda>(t, w).
     let certbody = [0x00, 0x01, 0x90] @ [0x00, 0x01, 0x90] @ [0x00, 0x00] @ verimark_cert_serialize (host_cert (t_pd t));
         (content16, t) = hs_msg t [] 0x0b certbody;
         (eph, w) = (case pin_eph_priv k of Some eph \<Rightarrow> (eph, w) | None \<Rightarrow> rand_bytes P w 32);
         t = t\<lparr>t_eph_priv := eph\<rparr>
     in bind_st (verimark_pub_from_priv (lib P) eph, t, w) (\<lambda>(x, y) (t, w).
        let (content16, t) = hs_msg t content16 0x10 ([0x04] @ x @ y);
            dA = transcript_snapshot (lib P) t;
            (sig, w) = (case pin_cert_verify_sig k of
                Some sig \<Rightarrow> (Inr sig, w)
              | None \<Rightarrow> verimark_ecdsa_sign_prehashed P (priv_scalar (t_pd t)) dA w)
        in bind_st (sig, t, w) (\<lambda>sig_der (t, w).
           let (content16, t) = hs_msg t content16 0x0f sig_der
           in (Inr (rec_write_plain [] 0x16 content16), t, w))))"

definition rt2_finished_pinned :: "'w platform \<Rightarrow> tls_pins \<Rightarrow> bytes \<Rightarrow> tls \<times> 'w \<Rightarrow> bytes res \<times> tls \<times> 'w" where
  "rt2_finished_pinned P k out = (\<lambda>(t, w).
     let out = rec_write_plain out 0x14 [0x01];
         t = t\<lparr>t_verify_digest := transcript_snapshot (lib P) t\<rparr>
     in (case verimark_tls_prf (lib P) MD_SHA384 (t_master_secret t) ''client finished'' (t_verify_digest t) 12 of
           None \<Rightarrow> (Inl (set_error ''client Finished PRF failed''), t, w)
         | Some verify_data \<Rightarrow>
             let (finmsg, t) = hs_msg t [] 0x14 verify_data;
                 (nonce, w) = (case pin_gcm_nonce k of Some nonce \<Rightarrow> (nonce, w) | None \<Rightarrow> rand_bytes P w 8)
             in bind_st (verimark_tls_gcm_wrap (lib P) (encr_key (t_keys t)) (encr_iv (t_keys t)) (t_encr_seq t)
                           0x16 nonce finmsg, t, w) (\<lambda>frag (t, w).
                (Inr (rec_write_plain out 0x16 frag), t\<lparr>t_encr_seq := t_encr_seq t + 1\<rparr>, w))))"

definition hs_build_rt2_pinned :: "'w platform \<Rightarrow> tls_pins \<Rightarrow> tls \<times> 'w \<Rightarrow> bytes res \<times> tls \<times> 'w" where
  "hs_build_rt2_pinned P k s =
     bind_st (rt2_flight_pinned P k s) (\<lambda>out (t, w).
       let (r, t) = rt2_keys (lib P) t
       in bind_st (r, t, w) (\<lambda>_ s. rt2_finished_pinned P k out s))"

definition verimark_tls_handshake_pinned :: "'w platform \<Rightarrow> tls_pins \<Rightarrow> 'w tls_io \<Rightarrow> tls \<times> 'w \<Rightarrow> bool res \<times> tls \<times> 'w" where
  "verimark_tls_handshake_pinned P k io = (\<lambda>(t, w).
     if \<not> t_have_pairing t then (Inl (set_error ''no pairing set''), t, w)
     else
       let (out, t, w) = hs_build_client_hello_pinned P k t w;
           (resp, w) = io w out
       in bind_st (resp, t, w) (\<lambda>resp (t, w).
          let (r1, t) = hs_process_rt1 t resp
          in bind_st (r1, t, w) (\<lambda>_ s.
             bind_st (hs_build_rt2_pinned P k s) (\<lambda>out (t, w).
             let (resp, w) = io w out
             in bind_st (resp, t, w) (\<lambda>resp (t, w).
                let (r2, t) = hs_process_rt2 (lib P) t resp
                in bind_st (r2, t, w) (\<lambda>_ (t, w). (Inr (t_established t), t, w)))))))"

subsection \<open>The entry points\<close>

definition verimark_tls__test_build_client_hello :: "'w platform \<Rightarrow> tls_pins \<Rightarrow> tls \<times> 'w \<Rightarrow> bytes \<times> tls \<times> 'w" where
  "verimark_tls__test_build_client_hello P k = (\<lambda>(t, w). hs_build_client_hello_pinned P k t w)"

definition verimark_tls__test_process_rt1 :: "tls \<Rightarrow> bytes \<Rightarrow> bytes res \<times> tls" where
  "verimark_tls__test_process_rt1 t resp = bind_st (hs_process_rt1 t resp) (\<lambda>_ t. (Inr (t_server_random t), t))"

text \<open>The flight and the master secret.\<close>

definition verimark_tls__test_build_rt2 :: "'w platform \<Rightarrow> tls_pins \<Rightarrow> tls \<times> 'w \<Rightarrow> (bytes \<times> bytes) res \<times> tls \<times> 'w" where
  "verimark_tls__test_build_rt2 P k s =
     bind_st (hs_build_rt2_pinned P k s) (\<lambda>out (t, w). (Inr (out, t_master_secret t), t, w))"

definition verimark_pairing__test_build_host_cert :: "'w platform \<Rightarrow> bytes \<Rightarrow> 'w \<Rightarrow> (cert \<times> bytes) res \<times> 'w" where
  "verimark_pairing__test_build_host_cert P priv w = build_host_cert P priv w"

definition verimark_pairing__test_hs_key_scalar :: "crypto \<Rightarrow> bytes res" where
  "verimark_pairing__test_hs_key_scalar C = hs_key_scalar C"

subsection \<open>A pinned handshake is a handshake of the driver\<close>

text \<open>The platform whose inputs are the pinned ones: the three draws of a handshake are told apart by
  their sizes, and the clock supplies the first four bytes of the client random.\<close>

definition be32_time :: "bytes \<Rightarrow> u32" where
  "be32_time cr = u32_of_le (cr ! 3) (cr ! 2) (cr ! 1) (cr ! 0)"

definition pinned :: "tls_pins \<Rightarrow> 'w platform \<Rightarrow> 'w platform" where
  "pinned k P = P\<lparr>
     unix_time := (\<lambda>w. case pin_client_random k of Some cr \<Rightarrow> (be32_time cr, w) | None \<Rightarrow> unix_time P w),
     rand_bytes := (\<lambda>w n.
       case (if n = 28 then map_option (drop 4) (pin_client_random k) else if n = 32 then pin_eph_priv k
             else if n = 8 then pin_gcm_nonce k else None) of
         Some b \<Rightarrow> (b, w) | None \<Rightarrow> rand_bytes P w n),
     ecdsa_sign := (\<lambda>w priv digest. case pin_cert_verify_sig k of Some sig \<Rightarrow> (Some sig, w) | None \<Rightarrow> ecdsa_sign P w priv digest)\<rparr>"

definition sized :: "nat \<Rightarrow> bytes option \<Rightarrow> bool" where
  "sized n p \<longleftrightarrow> (case p of None \<Rightarrow> True | Some b \<Rightarrow> length b = n)"

definition pins_wf :: "tls_pins \<Rightarrow> bool" where
  "pins_wf k \<longleftrightarrow> sized 32 (pin_client_random k) \<and> sized 32 (pin_eph_priv k) \<and> sized 8 (pin_gcm_nonce k)"

lemma pinned_sel [simp]: "lib (pinned k P) = lib P"
  by (simp add: pinned_def)

text \<open>Setting pins through the hooks gives pins of the right sizes.\<close>

lemma pin_copy_sized: "pin_copy p n old = Inr q \<Longrightarrow> sized n old \<Longrightarrow> sized n q"
  by (cases p) (auto simp: pin_copy_def rd_slice_def sized_def split: if_split_asm)

lemma test_pin_wf:
  assumes "pins_wf k" "verimark_tls__test_pin k cr eph nonce = Inr k'"
  shows "pins_wf k'"
proof -
  obtain a b c where k': "pin_copy cr 32 (pin_client_random k) = Inr a" "pin_copy eph 32 (pin_eph_priv k) = Inr b"
    "pin_copy nonce 8 (pin_gcm_nonce k) = Inr c" "k' = k\<lparr>pin_client_random := a, pin_eph_priv := b, pin_gcm_nonce := c\<rparr>"
    using assms(2) by (auto simp: verimark_tls__test_pin_def bind_res_Inr)
  from pin_copy_sized [OF k'(1)] pin_copy_sized [OF k'(2)] pin_copy_sized [OF k'(3)] assms(1)
  show ?thesis unfolding k'(4) pins_wf_def by simp
qed

lemma test_pin_sig_wf:
  assumes "pins_wf k" "verimark_tls__test_pin_cert_verify_sig k sig n = Inr k'"
  shows "pins_wf k'"
  using assms by (auto simp: verimark_tls__test_pin_cert_verify_sig_def bind_res_Inr pins_wf_def
      split: option.split_asm if_split_asm)

lemma ucast_and_0xff: "ucast (v AND 0xff :: u32) = (ucast v :: byte)"
  by (rule bit_word_eqI) (auto simp: bit_simps bit_0xff)

lemma time_bytes:
  assumes "length cr = 32"
  shows "[ucast (drop_bit 24 (be32_time cr)), ucast (drop_bit 16 (be32_time cr)), ucast (drop_bit 8 (be32_time cr)),
      ucast (be32_time cr)] @ drop 4 cr = cr"
proof -
  have "[ucast (be32_time cr), ucast (drop_bit 8 (be32_time cr)), ucast (drop_bit 16 (be32_time cr)),
      ucast (drop_bit 24 (be32_time cr))] = wr_u32le (be32_time cr)"
    by (simp add: wr_u32le_def ucast_and_0xff)
  also have "\<dots> = [cr ! 3, cr ! 2, cr ! 1, cr ! 0]"
    by (simp add: be32_time_def wr_u32le_of_le)
  finally have "[ucast (drop_bit 24 (be32_time cr)), ucast (drop_bit 16 (be32_time cr)), ucast (drop_bit 8 (be32_time cr)),
      ucast (be32_time cr)] = [cr ! 0, cr ! 1, cr ! 2, cr ! 3]" by simp
  also have "[cr ! 0, cr ! 1, cr ! 2, cr ! 3] = take 4 cr"
    using assms by (simp add: take_4)
  finally show ?thesis by simp
qed

lemma client_hello_pinned:
  assumes "pins_wf k"
  shows "hs_build_client_hello_pinned P k = hs_build_client_hello (pinned k P)"
proof (intro ext)
  fix t w
  show "hs_build_client_hello_pinned P k t w = hs_build_client_hello (pinned k P) t w"
  proof (cases "pin_client_random k")
    case None
    then show ?thesis by (simp add: hs_build_client_hello_pinned_def hs_build_client_hello_def pinned_def Let_def split_beta)
  next
    case (Some cr)
    with assms have "length cr = 32" by (simp add: pins_wf_def sized_def)
    from time_bytes [OF this] Some show ?thesis
      by (simp add: hs_build_client_hello_pinned_def hs_build_client_hello_def pinned_def Let_def)
  qed
qed

lemma rt2_flight_is_pinned:
  assumes "pin_cert_verify_sig k \<noteq> None \<Longrightarrow> ec_set_private_key (lib P) (priv_scalar (t_pd t))"
  shows "rt2_flight_pinned P k (t, w) = rt2_flight (pinned k P) (t, w)"
proof -
  have rnd: "rand_bytes (pinned k P) v 32 = (case pin_eph_priv k of Some eph \<Rightarrow> (eph, v) | None \<Rightarrow> rand_bytes P v 32)" for v
    by (simp add: pinned_def)
  have sign: "verimark_ecdsa_sign_prehashed (pinned k P) (priv_scalar (t_pd t)) d v = (case pin_cert_verify_sig k of
      Some sig \<Rightarrow> (Inr sig, v) | None \<Rightarrow> verimark_ecdsa_sign_prehashed P (priv_scalar (t_pd t)) d v)" for d v
    using assms by (auto simp: verimark_ecdsa_sign_prehashed_def pinned_def split: option.split)
  obtain eph w1 where eph: "(case pin_eph_priv k of Some eph \<Rightarrow> (eph, w) | None \<Rightarrow> rand_bytes P w 32) = (eph, w1)"
    by fastforce
  show ?thesis
    by (cases "verimark_pub_from_priv (lib P) eph")
      (simp_all add: rt2_flight_pinned_def rt2_flight_def Let_def rnd eph hs_msg_def sign split: prod.split option.split)
qed

lemma rt2_finished_is_pinned: "rt2_finished_pinned P k = rt2_finished (pinned k P)"
proof -
  have rnd: "rand_bytes (pinned k P) v 8 = (case pin_gcm_nonce k of Some b \<Rightarrow> (b, v) | None \<Rightarrow> rand_bytes P v 8)" for v
    by (simp add: pinned_def)
  show ?thesis unfolding rt2_finished_pinned_def rt2_finished_def rnd pinned_sel ..
qed

lemma hs_build_rt2_is_pinned:
  assumes "pin_cert_verify_sig k \<noteq> None \<Longrightarrow> ec_set_private_key (lib P) (priv_scalar (t_pd t))"
  shows "hs_build_rt2_pinned P k (t, w) = hs_build_rt2 (pinned k P) (t, w)"
  using rt2_flight_is_pinned [OF assms]
  by (simp add: hs_build_rt2_pinned_def hs_build_rt2_def rt2_finished_is_pinned)

lemma client_hello_pd: "hs_build_client_hello P t w = (out, t', w') \<Longrightarrow> t_pd t' = t_pd t"
  by (auto simp: hs_build_client_hello_def hs_msg_def Let_def split: prod.split_asm)

lemma process_rt1_pd: "hs_process_rt1 t resp = (Inr (), t') \<Longrightarrow> t_pd t' = t_pd t"
  by (auto simp: hs_process_rt1_accepts rt1_after_def)

lemma handshake_is_pinned:
  assumes "pins_wf k" "pin_cert_verify_sig k \<noteq> None \<Longrightarrow> ec_set_private_key (lib P) (priv_scalar (t_pd t))"
  shows "verimark_tls_handshake_pinned P k io (t, w) = verimark_tls_handshake (pinned k P) io (t, w)"
proof -
  obtain out t1 w1 where hello: "hs_build_client_hello (pinned k P) t w = (out, t1, w1)" by (metis surj_pair)
  obtain resp w2 where io: "io w1 out = (resp, w2)" by fastforce
  have rt2: "hs_build_rt2_pinned P k (t2, v) = hs_build_rt2 (pinned k P) (t2, v)"
    if "resp = Inr b" "hs_process_rt1 t1 b = (Inr u, t2)" for b u t2 v
    using that assms(2) client_hello_pd [OF hello] process_rt1_pd [of t1 b t2] by (intro hs_build_rt2_is_pinned) simp
  show ?thesis
  proof (cases resp)
    case (Inl e)
    then show ?thesis
      using hello io by (simp add: verimark_tls_handshake_pinned_def verimark_tls_handshake_def client_hello_pinned [OF assms(1)])
  next
    case (Inr b)
    then show ?thesis
      using hello io rt2 [OF Inr]
      by (cases "hs_process_rt1 t1 b"; cases "fst (hs_process_rt1 t1 b)")
        (simp_all add: verimark_tls_handshake_pinned_def verimark_tls_handshake_def client_hello_pinned [OF assms(1)])
  qed
qed

lemma pinned_no_pins: "pinned no_pins P = P"
  by (cases P) (auto simp: pinned_def no_pins_def fun_eq_iff)

text \<open>A device on the pinned platform is what it was: only the random inputs differ.\<close>

lemma pinned_rand: "pins_wf k \<Longrightarrow> rand_doc P \<Longrightarrow> rand_doc (pinned k P)"
  by (auto simp: rand_doc_def pinned_def pins_wf_def sized_def split: option.split)

subsection \<open>Properties\<close>

text \<open>C38: The handshake the tests run with pinned inputs is the driver's handshake on a platform
  that supplies them, so what the tests observe is the behaviour of the code that ships: with no
  pins set the two are the same function, with pins they differ in the random inputs only, provided
  the signing key is one OpenSSL would load.\<close>

theorem pinned_handshake_is_handshake:
  assumes "verimark_tls__test_pin no_pins cr eph nonce = Inr k0"
    and "verimark_tls__test_pin_cert_verify_sig k0 sig sig_len = Inr k"
    and "ec_set_private_key (lib P) (priv_scalar (t_pd t))"
  shows "verimark_tls_handshake_pinned P k io (t, w) = verimark_tls_handshake (pinned k P) io (t, w)
    \<and> verimark_tls_handshake_pinned P no_pins io (t, w) = verimark_tls_handshake P io (t, w)
    \<and> verimark_tls__test_build_client_hello P k (t, w) = hs_build_client_hello (pinned k P) t w
    \<and> map_prod (map_sum id fst) id (verimark_tls__test_build_rt2 P k (t, w)) = hs_build_rt2 (pinned k P) (t, w)"
proof (intro conjI)
  have no: "pins_wf no_pins" by (simp add: pins_wf_def no_pins_def sized_def)
  then have k: "pins_wf k" using test_pin_wf [OF _ assms(1)] test_pin_sig_wf [OF _ assms(2)] by simp
  show "verimark_tls_handshake_pinned P k io (t, w) = verimark_tls_handshake (pinned k P) io (t, w)"
    by (rule handshake_is_pinned [OF k assms(3)])
  show "verimark_tls_handshake_pinned P no_pins io (t, w) = verimark_tls_handshake P io (t, w)"
    using handshake_is_pinned [OF no assms(3)] by (simp add: pinned_no_pins)
  show "verimark_tls__test_build_client_hello P k (t, w) = hs_build_client_hello (pinned k P) t w"
    by (simp add: verimark_tls__test_build_client_hello_def client_hello_pinned [OF k])
  show "map_prod (map_sum id fst) id (verimark_tls__test_build_rt2 P k (t, w)) = hs_build_rt2 (pinned k P) (t, w)"
    using hs_build_rt2_is_pinned [OF assms(3), of k w]
    by (auto simp: verimark_tls__test_build_rt2_def bind_st_def split: sum.split prod.split)
qed

lemma pinned_handshake_is_handshake_witness:
  "\<exists>k t' w'. verimark_tls__test_pin no_pins (Some (replicate 32 1)) (Some (replicate 32 2)) (Some (replicate 8 3)) = Inr k
    \<and> verimark_tls_handshake_pinned sample k sample_io (sample_tls, sensor_world0) = (Inr True, t', w')"
proof -
  let ?k = "\<lparr>pin_client_random = Some (replicate 32 1), pin_eph_priv = Some (replicate 32 2), pin_gcm_nonce = Some (replicate 8 3),
    pin_cert_verify_sig = None\<rparr>"
  let ?P = "pinned ?k sample :: sensor_world platform"
  have pin: "verimark_tls__test_pin no_pins (Some (replicate 32 1)) (Some (replicate 32 2)) (Some (replicate 8 3)) = Inr ?k"
    by (simp add: verimark_tls__test_pin_def pin_copy_def no_pins_def)
  have sig: "verimark_tls__test_pin_cert_verify_sig ?k None 0 = Inr ?k"
    by (simp add: verimark_tls__test_pin_cert_verify_sig_def)
  have wf: "pins_wf ?k" by (simp add: pins_wf_def sized_def)
  have key: "ec_set_private_key (lib (sample :: sensor_world platform)) (priv_scalar (t_pd sample_tls))" by (simp add: sample_def sample_crypto_def)
  have "keys_doc ?P (priv_scalar (t_pd sample_tls))"
    by (simp add: keys_doc_def pinned_def sample_def sample_crypto_def)
  moreover have "sensor_link ?P sample_io (\<lambda>_. True) w_sensor"
    using sample_link by (auto simp: sensor_link_def pinned_def sample_def)
  ultimately obtain t' w' where "verimark_tls_handshake ?P sample_io (sample_tls, sensor_world0) = (Inr True, t', w')"
    using verimark_tls_handshake_completes [of ?P sample_tls w_sensor sensor_world0 sample_io "\<lambda>_. True"]
      pinned_rand [OF wf sample_rand]
    by (auto simp: sample_crypto_docs sample_dh sample_tls_start sensor_world0_sensor sample_sensor_start sample_paired)
  then have "verimark_tls_handshake_pinned sample ?k sample_io (sample_tls, sensor_world0) = (Inr True, t', w')"
    using pinned_handshake_is_handshake [OF pin sig key] by simp
  with pin show ?thesis by blast
qed

end
