(* ===== verification/Golden_Vectors.thy ===== *)
theory Golden_Vectors
  imports Testing
begin

text \<open>
  The repository's unit tests of the protected channel, \<open>driver/tests/test_tls_channel.c\<close> and the
  certificate tests of \<open>test_tls_core.c\<close>, run on the model with the golden vectors of
  \<open>handshake_vectors.h\<close>: what the prototype put on the wire, byte for byte. OpenSSL stays a parameter, of
  which the answers to the calls of these tests are assumed (\<open>known_answers\<close>) and nothing else, so a call
  with other arguments, a transcript or a nonce that differs in a byte, fails the test. One lemma per
  test, under its name; not among them are the tests that need a fresh signature or the pairing
  file of a real device.
\<close>

subsection \<open>The vectors\<close>

text \<open>The longer ones are written with the parts they share.\<close>

definition sensor_cert_400 :: bytes where
  "sensor_cert_400 =
    [0x3f, 0x5f, 0x17, 0x00, 0x83, 0x7b, 0x01, 0xa7, 0x65, 0xd3, 0xfb, 0xf0, 0xc2, 0x37, 0xbf, 0x2e, 0x66, 0x8a, 0x3a, 0xd8, 0x49, 0x23, 0xe2, 0x02,
     0x21, 0x2f, 0xe2, 0xa6, 0xce, 0xf8, 0x67, 0xd8, 0x19, 0x31, 0x39, 0xc7, 0x00, 0x00, 0x00, 0x00, 0x00, 0x00, 0x00, 0x00, 0x00, 0x00, 0x00, 0x00,
     0x00, 0x00, 0x00, 0x00, 0x00, 0x00, 0x00, 0x00, 0x00, 0x00, 0x00, 0x00, 0x00, 0x00, 0x00, 0x00, 0x00, 0x00, 0x00, 0x00, 0x00, 0x00, 0x00, 0x00,
     0xd7, 0xa9, 0x46, 0x8a, 0xeb, 0x61, 0xd6, 0x23, 0xdf, 0x5e, 0xb3, 0xd6, 0x1f, 0x79, 0xdc, 0x58, 0xd9, 0x6a, 0x3e, 0xb3, 0x21, 0xe0, 0xcb, 0xe9,
     0xc9, 0xf8, 0x89, 0x93, 0x0e, 0xe0, 0x1b, 0xea, 0x00, 0x00, 0x00, 0x00, 0x00, 0x00, 0x00, 0x00, 0x00, 0x00, 0x00, 0x00, 0x00, 0x00, 0x00, 0x00,
     0x00, 0x00, 0x00, 0x00, 0x00, 0x00, 0x00, 0x00, 0x00, 0x00, 0x00, 0x00, 0x00, 0x00, 0x00, 0x00, 0x00, 0x00, 0x00, 0x00, 0x00, 0x00, 0x47, 0x00,
     0x30, 0x45, 0x02, 0x21, 0x00, 0xf6, 0x0e, 0xae, 0xc1, 0xe7, 0x83, 0x7c, 0x9c, 0x02, 0x6a, 0x3e, 0xd4, 0xad, 0x32, 0x8f, 0x83, 0x36, 0x6d, 0xaa,
     0x35, 0x98, 0xa3, 0x53, 0xc3, 0x6b, 0xa5, 0x05, 0xcc, 0x0c, 0x79, 0x62, 0xdb, 0x02, 0x20, 0x6d, 0xa3, 0x07, 0x12, 0x92, 0xf6, 0xb4, 0x98, 0x4a,
     0x94, 0x2b, 0xea, 0x34, 0x90, 0x3a, 0x03, 0xe2, 0x09, 0x69, 0x2e, 0x15, 0xa3, 0xc4, 0x00, 0x91, 0xb6, 0x6f, 0x55, 0x4f, 0x0d, 0x15, 0xad, 0x00,
     0x00, 0x00, 0x00, 0x00, 0x00, 0x00, 0x00, 0x00, 0x00, 0x00, 0x00, 0x00, 0x00, 0x00, 0x00, 0x00, 0x00, 0x00, 0x00, 0x00, 0x00, 0x00, 0x00, 0x00,
     0x00, 0x00, 0x00, 0x00, 0x00, 0x00, 0x00, 0x00, 0x00, 0x00, 0x00, 0x00, 0x00, 0x00, 0x00, 0x00, 0x00, 0x00, 0x00, 0x00, 0x00, 0x00, 0x00, 0x00,
     0x00, 0x00, 0x00, 0x00, 0x00, 0x00, 0x00, 0x00, 0x00, 0x00, 0x00, 0x00, 0x00, 0x00, 0x00, 0x00, 0x00, 0x00, 0x00, 0x00, 0x00, 0x00, 0x00, 0x00,
     0x00, 0x00, 0x00, 0x00, 0x00, 0x00, 0x00, 0x00, 0x00, 0x00, 0x00, 0x00, 0x00, 0x00, 0x00, 0x00, 0x00, 0x00, 0x00, 0x00, 0x00, 0x00, 0x00, 0x00,
     0x00, 0x00, 0x00, 0x00, 0x00, 0x00, 0x00, 0x00, 0x00, 0x00, 0x00, 0x00, 0x00, 0x00, 0x00, 0x00, 0x00, 0x00, 0x00, 0x00, 0x00, 0x00, 0x00, 0x00,
     0x00, 0x00, 0x00, 0x00, 0x00, 0x00, 0x00, 0x00, 0x00, 0x00, 0x00, 0x00, 0x00, 0x00, 0x00, 0x00, 0x00, 0x00, 0x00, 0x00, 0x00, 0x00, 0x00, 0x00,
     0x00, 0x00, 0x00, 0x00, 0x00, 0x00, 0x00, 0x00, 0x00, 0x00, 0x00, 0x00, 0x00, 0x00, 0x00, 0x00, 0x00, 0x00, 0x00, 0x00, 0x00, 0x00, 0x00, 0x00,
     0x00, 0x00, 0x00, 0x00, 0x00, 0x00, 0x00, 0x00, 0x00, 0x00, 0x00, 0x00, 0x00, 0x00, 0x00, 0x00]"

definition host_cert_400 :: bytes where
  "host_cert_400 =
    [0x3f, 0x5f, 0x17, 0x00, 0x41, 0xbc, 0xea, 0x99, 0x0f, 0xf1, 0xef, 0xf5, 0xcb, 0x08, 0xb4, 0xd9, 0x0d, 0x5f, 0x9d, 0x43, 0x12, 0x62, 0x19, 0x61,
     0xa7, 0x50, 0xa9, 0x0d, 0x25, 0x01, 0x30, 0x69, 0x2f, 0xbd, 0xfe, 0x08, 0x00, 0x00, 0x00, 0x00, 0x00, 0x00, 0x00, 0x00, 0x00, 0x00, 0x00, 0x00,
     0x00, 0x00, 0x00, 0x00, 0x00, 0x00, 0x00, 0x00, 0x00, 0x00, 0x00, 0x00, 0x00, 0x00, 0x00, 0x00, 0x00, 0x00, 0x00, 0x00, 0x00, 0x00, 0x00, 0x00,
     0x3d, 0x6a, 0xe3, 0x6b, 0x79, 0xce, 0xc6, 0xd8, 0xad, 0x46, 0x72, 0x6f, 0x5a, 0x00, 0xd4, 0x07, 0x84, 0x39, 0x1e, 0x41, 0x22, 0x79, 0x48, 0xac,
     0x95, 0x30, 0xb9, 0xd2, 0xf4, 0x88, 0x7f, 0x6f, 0x00, 0x00, 0x00, 0x00, 0x00, 0x00, 0x00, 0x00, 0x00, 0x00, 0x00, 0x00, 0x00, 0x00, 0x00, 0x00,
     0x00, 0x00, 0x00, 0x00, 0x00, 0x00, 0x00, 0x00, 0x00, 0x00, 0x00, 0x00, 0x00, 0x00, 0x00, 0x00, 0x00, 0x00, 0x00, 0x00, 0x00, 0x02, 0x20, 0x00,
     0x61, 0x4d, 0x01, 0xf3, 0x59, 0x3f, 0xbb, 0x03, 0xab, 0xde, 0x0e, 0x12, 0x1f, 0xbb, 0xdf, 0x25, 0x43, 0x30, 0xb0, 0x2b, 0x95, 0x0e, 0x89, 0x92,
     0xbf, 0xec, 0x96, 0x9c, 0x89, 0x15, 0xd1, 0x12, 0x00, 0x00, 0x00, 0x00, 0x00, 0x00, 0x00, 0x00, 0x00, 0x00, 0x00, 0x00, 0x00, 0x00, 0x00, 0x00,
     0x00, 0x00, 0x00, 0x00, 0x00, 0x00, 0x00, 0x00, 0x00, 0x00, 0x00, 0x00, 0x00, 0x00, 0x00, 0x00, 0x00, 0x00, 0x00, 0x00, 0x00, 0x00, 0x00, 0x00,
     0x00, 0x00, 0x00, 0x00, 0x00, 0x00, 0x00, 0x00, 0x00, 0x00, 0x00, 0x00, 0x00, 0x00, 0x00, 0x00, 0x00, 0x00, 0x00, 0x00, 0x00, 0x00, 0x00, 0x00,
     0x00, 0x00, 0x00, 0x00, 0x00, 0x00, 0x00, 0x00, 0x00, 0x00, 0x00, 0x00, 0x00, 0x00, 0x00, 0x00, 0x00, 0x00, 0x00, 0x00, 0x00, 0x00, 0x00, 0x00,
     0x00, 0x00, 0x00, 0x00, 0x00, 0x00, 0x00, 0x00, 0x00, 0x00, 0x00, 0x00, 0x00, 0x00, 0x00, 0x00, 0x00, 0x00, 0x00, 0x00, 0x00, 0x00, 0x00, 0x00,
     0x00, 0x00, 0x00, 0x00, 0x00, 0x00, 0x00, 0x00, 0x00, 0x00, 0x00, 0x00, 0x00, 0x00, 0x00, 0x00, 0x00, 0x00, 0x00, 0x00, 0x00, 0x00, 0x00, 0x00,
     0x00, 0x00, 0x00, 0x00, 0x00, 0x00, 0x00, 0x00, 0x00, 0x00, 0x00, 0x00, 0x00, 0x00, 0x00, 0x00, 0x00, 0x00, 0x00, 0x00, 0x00, 0x00, 0x00, 0x00,
     0x00, 0x00, 0x00, 0x00, 0x00, 0x00, 0x00, 0x00, 0x00, 0x00, 0x00, 0x00, 0x00, 0x00, 0x00, 0x00, 0x00, 0x00, 0x00, 0x00, 0x00, 0x00, 0x00, 0x00,
     0x00, 0x00, 0x00, 0x00, 0x00, 0x00, 0x00, 0x00, 0x00, 0x00, 0x00, 0x00, 0x00, 0x00, 0x00, 0x00, 0x00, 0x00, 0x00, 0x00, 0x00, 0x00, 0x00, 0x00,
     0x00, 0x00, 0x00, 0x00, 0x00, 0x00, 0x00, 0x00, 0x00, 0x00, 0x00, 0x00, 0x00, 0x00, 0x00, 0x00]"

definition sensor_cert_pub_x :: bytes where
  "sensor_cert_pub_x =
    [0xc7, 0x39, 0x31, 0x19, 0xd8, 0x67, 0xf8, 0xce, 0xa6, 0xe2, 0x2f, 0x21, 0x02, 0xe2, 0x23, 0x49, 0xd8, 0x3a, 0x8a, 0x66, 0x2e, 0xbf, 0x37, 0xc2,
     0xf0, 0xfb, 0xd3, 0x65, 0xa7, 0x01, 0x7b, 0x83]"

definition sensor_cert_pub_y :: bytes where
  "sensor_cert_pub_y =
    [0xea, 0x1b, 0xe0, 0x0e, 0x93, 0x89, 0xf8, 0xc9, 0xe9, 0xcb, 0xe0, 0x21, 0xb3, 0x3e, 0x6a, 0xd9, 0x58, 0xdc, 0x79, 0x1f, 0xd6, 0xb3, 0x5e, 0xdf,
     0x23, 0xd6, 0x61, 0xeb, 0x8a, 0x46, 0xa9, 0xd7]"

definition ecdh_premaster :: bytes where
  "ecdh_premaster =
    [0x52, 0xf2, 0xbe, 0x89, 0x00, 0xa0, 0x3e, 0xbd, 0xb2, 0x60, 0x83, 0xb8, 0xb6, 0xe0, 0xad, 0xbf, 0x2e, 0x4a, 0x93, 0x42, 0xf9, 0x71, 0x9b, 0x9b,
     0x9d, 0x32, 0x5e, 0xc5, 0x9e, 0x39, 0x8e, 0xdc]"

definition hv_client_random :: bytes where
  "hv_client_random =
    [0x11, 0x11, 0x11, 0x11, 0xaa, 0xaa, 0xaa, 0xaa, 0xaa, 0xaa, 0xaa, 0xaa, 0xaa, 0xaa, 0xaa, 0xaa, 0xaa, 0xaa, 0xaa, 0xaa, 0xaa, 0xaa, 0xaa, 0xaa,
     0xaa, 0xaa, 0xaa, 0xaa, 0xaa, 0xaa, 0xaa, 0xaa]"

definition hv_server_random :: bytes where
  "hv_server_random =
    [0x22, 0x22, 0x22, 0x22, 0xbb, 0xbb, 0xbb, 0xbb, 0xbb, 0xbb, 0xbb, 0xbb, 0xbb, 0xbb, 0xbb, 0xbb, 0xbb, 0xbb, 0xbb, 0xbb, 0xbb, 0xbb, 0xbb, 0xbb,
     0xbb, 0xbb, 0xbb, 0xbb, 0xbb, 0xbb, 0xbb, 0xbb]"

definition hv_eph_priv :: bytes where
  "hv_eph_priv =
    [0x01, 0x02, 0x03, 0x04, 0x05, 0x06, 0x07, 0x08, 0x09, 0x0a, 0x0b, 0x0c, 0x0d, 0x0e, 0x0f, 0x10, 0x11, 0x12, 0x13, 0x14, 0x15, 0x16, 0x17, 0x18,
     0x19, 0x1a, 0x1b, 0x1c, 0x1d, 0x1e, 0x1f, 0x20]"

definition hv_gcm_nonce :: bytes where
  "hv_gcm_nonce =
    [0xc1, 0xc1, 0xc1, 0xc1, 0xc1, 0xc1, 0xc1, 0xc1]"

definition hv_master_secret :: bytes where
  "hv_master_secret =
    [0x46, 0x5d, 0x0b, 0xea, 0x83, 0x11, 0x4b, 0x3e, 0x14, 0x64, 0x8b, 0x17, 0x02, 0x9d, 0x77, 0x75, 0x76, 0xff, 0x6c, 0x9c, 0x84, 0x7b, 0x54, 0x6b,
     0xf5, 0x07, 0x0f, 0x1e, 0x0c, 0xad, 0x18, 0x35, 0xf5, 0xe4, 0xab, 0xc8, 0x72, 0x28, 0x66, 0x83, 0xb9, 0xc4, 0x3e, 0x89, 0x49, 0x20, 0x22, 0xc4]"

definition hv_verify_digest :: bytes where
  "hv_verify_digest =
    [0x60, 0x11, 0xc0, 0xed, 0xa5, 0x06, 0xa7, 0x8f, 0xdf, 0xe9, 0x47, 0x78, 0x29, 0xe7, 0x99, 0x77, 0x32, 0x39, 0x43, 0x0b, 0x3a, 0xc5, 0xbf, 0x55,
     0x03, 0x33, 0x89, 0xf8, 0x76, 0xa6, 0x6b, 0x67]"

definition golden_cke :: bytes where
  "golden_cke =
    [0x10, 0x00, 0x00, 0x41, 0x04, 0x51, 0x5c, 0x3d, 0x6e, 0xb9, 0xe3, 0x96, 0xb9, 0x04, 0xd3, 0xfe, 0xca, 0x7f, 0x54, 0xfd, 0xcd, 0x0c, 0xc1, 0xe9,
     0x97, 0xbf, 0x37, 0x5d, 0xca, 0x51, 0x5a, 0xd0, 0xa6, 0xc3, 0xb4, 0x03, 0x5f, 0x45, 0x36, 0xbe, 0x3a, 0x50, 0xf3, 0x18, 0xfb, 0xf9, 0xa5, 0x47,
     0x59, 0x02, 0xa2, 0x21, 0x50, 0x2b, 0xef, 0x0d, 0x57, 0xe0, 0x8c, 0x53, 0xb2, 0xcc, 0x0a, 0x56, 0xf1, 0x7d, 0x9f, 0x93, 0x54]"

definition golden_cert_verify :: bytes where
  "golden_cert_verify =
    [0x0f, 0x00, 0x00, 0x48, 0x30, 0x46, 0x02, 0x21, 0x00, 0x8c, 0xff, 0xea, 0x92, 0x6d, 0xd3, 0xeb, 0xaa, 0x53, 0xd5, 0xc5, 0x79, 0xb2, 0x55, 0x75,
     0x8d, 0xe1, 0xe0, 0x79, 0xb3, 0x58, 0x94, 0x3a, 0xbf, 0xa1, 0x77, 0x39, 0xc3, 0x23, 0x28, 0xe9, 0x23, 0x02, 0x21, 0x00, 0xc6, 0x1a, 0x43, 0xf4,
     0x35, 0x1d, 0x8f, 0xdc, 0x34, 0x0e, 0x94, 0x0d, 0x01, 0x5e, 0x2a, 0xac, 0xae, 0xdf, 0x47, 0x1d, 0x81, 0xad, 0x38, 0x49, 0xe1, 0x65, 0xa4, 0x68,
     0x13, 0x34, 0xf1, 0x07]"

definition golden_hs_priv_scalar :: bytes where
  "golden_hs_priv_scalar =
    [0xe8, 0xa2, 0xa2, 0xb6, 0x65, 0x62, 0x54, 0xd6, 0xac, 0xb0, 0xef, 0x47, 0x9c, 0xae, 0x41, 0x40, 0xc7, 0xe8, 0xe2, 0x60, 0xdb, 0x3f, 0x64, 0x2e,
     0x35, 0xd4, 0x09, 0x9c, 0x01, 0xb3, 0x6a, 0x86]"

definition golden_pair_host_priv :: bytes where
  "golden_pair_host_priv =
    [0x40, 0x41, 0x42, 0x43, 0x44, 0x45, 0x46, 0x47, 0x48, 0x49, 0x4a, 0x4b, 0x4c, 0x4d, 0x4e, 0x4f, 0x50, 0x51, 0x52, 0x53, 0x54, 0x55, 0x56, 0x57,
     0x58, 0x59, 0x5a, 0x5b, 0x5c, 0x5d, 0x5e, 0x5f]"

definition golden_client_rt1 :: bytes where
  "golden_client_rt1 =
    [0x16, 0x03, 0x03, 0x00, 0x43, 0x01, 0x00, 0x00, 0x3f, 0x03, 0x03, 0x11, 0x11, 0x11, 0x11, 0xaa, 0xaa, 0xaa, 0xaa, 0xaa, 0xaa, 0xaa, 0xaa, 0xaa,
     0xaa, 0xaa, 0xaa, 0xaa, 0xaa, 0xaa, 0xaa, 0xaa, 0xaa, 0xaa, 0xaa, 0xaa, 0xaa, 0xaa, 0xaa, 0xaa, 0xaa, 0xaa, 0xaa, 0x07, 0x00, 0x00, 0x00, 0x00,
     0x00, 0x00, 0x00, 0x00, 0x04, 0xc0, 0x05, 0xc0, 0x2e, 0x00, 0x00, 0x0a, 0x00, 0x04, 0x00, 0x02, 0x00, 0x17, 0x00, 0x0b, 0x00, 0x02, 0x01, 0x00]"

definition server_rt1 :: bytes where
  "server_rt1 =
    [0x16, 0x03, 0x03, 0x01, 0xd9, 0x02, 0x00, 0x00, 0x2d, 0x03, 0x03, 0x22, 0x22, 0x22, 0x22, 0xbb, 0xbb, 0xbb, 0xbb, 0xbb, 0xbb, 0xbb, 0xbb, 0xbb,
     0xbb, 0xbb, 0xbb, 0xbb, 0xbb, 0xbb, 0xbb, 0xbb, 0xbb, 0xbb, 0xbb, 0xbb, 0xbb, 0xbb, 0xbb, 0xbb, 0xbb, 0xbb, 0xbb, 0x07, 0x00, 0x00, 0x00, 0x00,
     0x00, 0x00, 0x00, 0xc0, 0x2e, 0x00, 0x0b, 0x00, 0x01, 0x98, 0x00, 0x01, 0x90, 0x00, 0x01, 0x90, 0x00, 0x00]
    @ sensor_cert_400 @ [0x0d, 0x00, 0x00, 0x04, 0x01, 0x40, 0x00, 0x00, 0x0e, 0x00, 0x00, 0x00]"

definition golden_finished :: bytes where
  "golden_finished = [0xc1, 0xc1, 0xc1, 0xc1, 0xc1, 0xc1, 0xc1, 0xc1, 0x35, 0xf0, 0xf9, 0x65, 0xb4, 0x62, 0xe9, 0x43, 0x6d, 0x9e, 0xc6,
                     0xc3, 0x42, 0xb9, 0x2f, 0x4e, 0x6a, 0xdf, 0x96, 0xdd, 0x80, 0x91, 0xea, 0x2c, 0x7e, 0xe2, 0xbe, 0x36, 0x12, 0x7c,
                     0x73, 0xb5]"

definition golden_client_rt2 :: bytes where
  "golden_client_rt2 =
    [0x16, 0x03, 0x03, 0x02, 0x2d, 0x0b, 0x00, 0x01, 0x98, 0x00, 0x01, 0x90, 0x00, 0x01, 0x90, 0x00, 0x00]
    @ host_cert_400 @ golden_cke @ golden_cert_verify
    @ [0x14, 0x03, 0x03, 0x00, 0x01, 0x01, 0x16, 0x03, 0x03, 0x00, 0x28] @ golden_finished"

definition server_finished :: bytes where
  "server_finished = [0xc2, 0xc2, 0xc2, 0xc2, 0xc2, 0xc2, 0xc2, 0xc2, 0x4b, 0xda, 0x05, 0x10, 0xec, 0x7c, 0x9c, 0xa3, 0x6d, 0x20, 0xaf,
                     0xf0, 0xff, 0x8c, 0x6f, 0x0e, 0x73, 0xb3, 0xf4, 0xf9, 0xc2, 0x06, 0x77, 0xbb, 0x0e, 0x76, 0xbf, 0xb1, 0x6e, 0xdd,
                     0xf5, 0x9a]"

definition server_rt2 :: bytes where
  "server_rt2 = [0x14, 0x03, 0x03, 0x00, 0x01, 0x01, 0x16, 0x03, 0x03, 0x00, 0x28] @ server_finished"

definition golden_pair_resp_802 :: bytes where "golden_pair_resp_802 = [0, 0] @ host_cert_400 @ sensor_cert_400"

text \<open>The first 142 bytes of \<open>golden_host_cert_400\<close>; the signature after them is fresh at every call.\<close>

definition golden_host_cert_signed :: bytes where
  "golden_host_cert_signed =
    [0x3f, 0x5f, 0x17, 0x00, 0xba, 0xe7, 0x47, 0xd7, 0x34, 0x34, 0x95, 0xc7, 0x45, 0x7e, 0x02, 0x0c, 0x15, 0x45, 0x0a, 0xbd, 0x22, 0x65, 0x42, 0x95,
     0xe8, 0x4d, 0xb1, 0x43, 0x6e, 0x10, 0xd4, 0x8c, 0xf0, 0x7c, 0xec, 0x68, 0x00, 0x00, 0x00, 0x00, 0x00, 0x00, 0x00, 0x00, 0x00, 0x00, 0x00, 0x00,
     0x00, 0x00, 0x00, 0x00, 0x00, 0x00, 0x00, 0x00, 0x00, 0x00, 0x00, 0x00, 0x00, 0x00, 0x00, 0x00, 0x00, 0x00, 0x00, 0x00, 0x00, 0x00, 0x00, 0x00,
     0x8d, 0x11, 0x15, 0xf4, 0xba, 0x7d, 0x58, 0xb0, 0xb0, 0xfd, 0xc3, 0x37, 0x32, 0x5a, 0x9b, 0xcb, 0x89, 0x3a, 0x5c, 0x84, 0xe7, 0x61, 0xbb, 0x79,
     0x86, 0xee, 0xbb, 0x8e, 0xa8, 0x39, 0xaf, 0xe3, 0x00, 0x00, 0x00, 0x00, 0x00, 0x00, 0x00, 0x00, 0x00, 0x00, 0x00, 0x00, 0x00, 0x00, 0x00, 0x00,
     0x00, 0x00, 0x00, 0x00, 0x00, 0x00, 0x00, 0x00, 0x00, 0x00, 0x00, 0x00, 0x00, 0x00, 0x00, 0x00, 0x00, 0x00, 0x00, 0x00, 0x00, 0x00]"

subsection \<open>What OpenSSL answers\<close>

text \<open>The calls of one PRF: \<open>as\<close> are the \<open>A(i)\<close> of RFC 5246, \<open>bs\<close> the blocks.\<close>

type_synonym mac_call = "(md \<times> bytes \<times> bytes) \<times> bytes"

definition mac_calls :: "md \<Rightarrow> bytes \<Rightarrow> string \<Rightarrow> bytes \<Rightarrow> bytes list \<Rightarrow> bytes list \<Rightarrow> mac_call list" where
  "mac_calls m secret label seed as bs =
     (let inp = label_bytes label @ seed
      in ((m, secret, inp), hd as) # zip (map (\<lambda>a. (m, secret, a @ inp)) (butlast as)) bs
         @ zip (map (\<lambda>a. (m, secret, a)) (butlast as)) (tl as))"

definition master_mac_a1 :: bytes where
  "master_mac_a1 = [0x15, 0x81, 0x27, 0xe1, 0x50, 0x83, 0x80, 0xc6, 0x1e, 0x5a, 0x98, 0x1a, 0x17, 0x82, 0xa4, 0x23, 0x22, 0x01, 0x5f, 0x0f, 0x69, 0x56, 0x8c, 0xa5,
         0x73, 0x35, 0xcc, 0x47, 0xa2, 0xc8, 0x2e, 0x2b, 0xbc, 0x79, 0xa4, 0x60, 0x62, 0x40, 0x47, 0xd8, 0x6a, 0xbe, 0x2b, 0x32, 0xe7, 0xd4, 0x5e, 0x80]"

definition master_mac_a2 :: bytes where
  "master_mac_a2 = [0xba, 0x79, 0x92, 0x32, 0x09, 0xb6, 0xe6, 0xc9, 0x4f, 0x8d, 0x3d, 0xe0, 0x02, 0x28, 0x33, 0xdd, 0x3a, 0x2e, 0x45, 0xe5, 0xfe, 0xd3, 0x16, 0x33,
         0x0b, 0x7d, 0x21, 0x7d, 0xe1, 0x81, 0xc8, 0x75, 0x0a, 0x97, 0xcc, 0xc8, 0x91, 0xbd, 0x6f, 0xba, 0x43, 0x5e, 0x74, 0x03, 0x33, 0x21, 0x51, 0x18]"

definition master_macs :: "mac_call list" where
  "master_macs = mac_calls MD_SHA384 ecdh_premaster ''master secret'' (hv_client_random @ hv_server_random) [master_mac_a1, master_mac_a2] [hv_master_secret]"

definition keys_mac_a1 :: bytes where
  "keys_mac_a1 = [0x5e, 0x4b, 0xfd, 0x13, 0x6b, 0xaf, 0x1a, 0x16, 0xd1, 0xbd, 0x70, 0xc2, 0x3e, 0x8d, 0x46, 0x0e, 0xfb, 0x49, 0x11, 0x56, 0x12, 0x07, 0x4c, 0xea,
         0x45, 0x1d, 0xf7, 0x94, 0xc6, 0x6b, 0x52, 0x56, 0x46, 0xc7, 0x81, 0x3f, 0x7f, 0xd8, 0x5a, 0x0e, 0x89, 0x66, 0xd6, 0x46, 0x8c, 0x65, 0xcc, 0xab]"

definition keys_mac_a2 :: bytes where
  "keys_mac_a2 = [0x9a, 0x46, 0xd3, 0x31, 0xde, 0x50, 0x05, 0xf6, 0xb9, 0xcc, 0xcd, 0x29, 0x6d, 0x8a, 0xe3, 0x50, 0x94, 0x90, 0x0e, 0xfd, 0x1f, 0x1c, 0x3f, 0xf9,
         0xe9, 0xd2, 0x6a, 0xc5, 0x51, 0xb1, 0xa1, 0x68, 0xb6, 0xb5, 0x2f, 0x1c, 0x2c, 0x0f, 0x90, 0x32, 0xb3, 0x08, 0x91, 0xda, 0x67, 0x11, 0x19, 0xde]"

definition keys_mac_a3 :: bytes where
  "keys_mac_a3 = [0x1a, 0x73, 0xfe, 0x2c, 0xad, 0x9e, 0x1a, 0xeb, 0x17, 0xda, 0xf3, 0x44, 0x71, 0xd7, 0x6b, 0x20, 0xda, 0xd9, 0x5f, 0x9a, 0xdf, 0x96, 0x0a, 0xe9,
         0xce, 0x7c, 0x60, 0xa6, 0xd2, 0x41, 0x69, 0xf0, 0xae, 0x2b, 0xe0, 0x34, 0xd4, 0x9b, 0x5e, 0xff, 0xdc, 0xf3, 0xbb, 0x8c, 0x6f, 0xee, 0x0d, 0x5f]"

definition keys_mac_b1 :: bytes where
  "keys_mac_b1 = [0x73, 0xba, 0xa8, 0xef, 0xd8, 0xca, 0xc4, 0x7a, 0xe7, 0xbc, 0xdd, 0x1b, 0x4b, 0xeb, 0x1a, 0xc1, 0xc9, 0x7a, 0x84, 0xfe, 0x02, 0x90, 0x0a, 0x6d,
         0x27, 0xb3, 0xb1, 0xae, 0xb9, 0x19, 0xc9, 0x65, 0x8f, 0xd0, 0x3a, 0xec, 0xae, 0xeb, 0xee, 0x0f, 0x95, 0xa1, 0x18, 0xde, 0x61, 0x48, 0xbd, 0x69]"

definition keys_mac_b2 :: bytes where
  "keys_mac_b2 = [0x0a, 0xc6, 0xfd, 0x88, 0x63, 0x32, 0xa3, 0x91, 0xed, 0xa0, 0x32, 0x3a, 0x46, 0x0c, 0x45, 0xcb, 0x98, 0x70, 0xda, 0x07, 0x7e, 0x5c, 0x3a, 0x40,
         0x97, 0x85, 0xe3, 0x87, 0x03, 0x37, 0x29, 0xb4, 0x04, 0xc2, 0x31, 0xdd, 0x24, 0x8d, 0x05, 0xb5, 0x28, 0x80, 0x53, 0x06, 0xf7, 0x52, 0x8d, 0x61]"

definition keys_macs :: "mac_call list" where
  "keys_macs = mac_calls MD_SHA384 hv_master_secret ''key expansion'' (hv_client_random @ hv_server_random) [keys_mac_a1, keys_mac_a2, keys_mac_a3] [keys_mac_b1, keys_mac_b2]"

definition client_mac_a1 :: bytes where
  "client_mac_a1 = [0x5a, 0xd1, 0xbd, 0xf3, 0x6b, 0x5a, 0xad, 0xf3, 0x0a, 0x9a, 0xdd, 0xab, 0xff, 0xca, 0x80, 0xe3, 0xc8, 0x4e, 0xd4, 0xdb, 0x88, 0xc3, 0x58, 0xed,
         0x9c, 0x3e, 0xf3, 0x47, 0x36, 0xcc, 0x22, 0x28, 0xc8, 0xc2, 0xbf, 0x0e, 0x5f, 0xe4, 0x89, 0xb2, 0x34, 0xdb, 0x99, 0x3c, 0xf9, 0xef, 0x94, 0x19]"

definition client_mac_a2 :: bytes where
  "client_mac_a2 = [0xec, 0x51, 0x42, 0xb6, 0x94, 0xd0, 0x4b, 0x73, 0x5b, 0x04, 0x36, 0x9d, 0x9f, 0xff, 0x91, 0x2d, 0x7b, 0xef, 0xea, 0x28, 0x61, 0xec, 0xfe, 0xed,
         0xe8, 0xa1, 0x64, 0x03, 0xc3, 0x31, 0xb1, 0x6e, 0xef, 0x02, 0x2c, 0x9c, 0x62, 0xb5, 0xe7, 0xad, 0xb0, 0x12, 0xd6, 0xd2, 0x7a, 0x16, 0x8f, 0x3b]"

definition client_mac_b1 :: bytes where
  "client_mac_b1 = [0x08, 0x62, 0x47, 0x15, 0x2c, 0xe1, 0x1a, 0x92, 0xd9, 0x1d, 0x1f, 0x41, 0x51, 0x43, 0x15, 0x84, 0x45, 0xcb, 0xb6, 0xff, 0x82, 0xe2, 0xfd, 0x8e,
         0xc6, 0x5a, 0xb9, 0x1f, 0xc2, 0x35, 0x15, 0x30, 0x69, 0x61, 0xe0, 0xb6, 0x5d, 0xa4, 0x82, 0x7d, 0x78, 0xb9, 0xea, 0xb4, 0x8c, 0x6c, 0x68, 0x64]"

definition client_macs :: "mac_call list" where
  "client_macs = mac_calls MD_SHA384 hv_master_secret ''client finished'' hv_verify_digest [client_mac_a1, client_mac_a2] [client_mac_b1]"

definition server_mac_a1 :: bytes where
  "server_mac_a1 = [0x9a, 0x4e, 0xa8, 0xb0, 0x9d, 0xd4, 0xb3, 0x3b, 0xaf, 0x75, 0xa3, 0xcf, 0xfd, 0x67, 0x99, 0x4f, 0x33, 0x35, 0x16, 0xc6, 0x6b, 0x30, 0x3e, 0x61,
         0xfd, 0xba, 0xa3, 0x4a, 0xc8, 0x22, 0x31, 0xe3, 0xad, 0x2e, 0x7c, 0xfd, 0xcc, 0x4d, 0x1f, 0x94, 0x40, 0x5b, 0x7f, 0x29, 0x18, 0xf9, 0x02, 0x4e]"

definition server_mac_a2 :: bytes where
  "server_mac_a2 = [0xa7, 0x1a, 0x9e, 0xc9, 0x90, 0x74, 0x41, 0x03, 0x77, 0xa5, 0x9e, 0xb0, 0x7b, 0x07, 0x88, 0xae, 0x00, 0x9f, 0x18, 0x90, 0xd9, 0xf8, 0xc3, 0x07,
         0x24, 0x7a, 0xf5, 0xe4, 0x13, 0x42, 0x99, 0xcb, 0x93, 0xbe, 0x71, 0xdb, 0x42, 0x90, 0xcf, 0x9c, 0x75, 0xe1, 0xe0, 0x3b, 0xd6, 0xb0, 0x53, 0x0c]"

definition server_mac_b1 :: bytes where
  "server_mac_b1 = [0x6f, 0xde, 0x28, 0x16, 0xab, 0xda, 0x24, 0x1f, 0x2b, 0x85, 0x1f, 0x54, 0xcc, 0x1c, 0x05, 0x5a, 0x77, 0x30, 0x47, 0x3d, 0xc0, 0x3a, 0xac, 0xad,
         0x18, 0x93, 0x05, 0x0b, 0x46, 0x04, 0x43, 0x92, 0x33, 0x8d, 0x0b, 0x73, 0x29, 0x5b, 0x4b, 0x2c, 0xd1, 0xad, 0x7b, 0x96, 0x6d, 0xe6, 0x85, 0xe2]"

definition server_macs :: "mac_call list" where
  "server_macs = mac_calls MD_SHA384 hv_master_secret ''server finished'' hv_verify_digest [server_mac_a1, server_mac_a2] [server_mac_b1]"

definition hs_key_mac_a1 :: bytes where
  "hs_key_mac_a1 = [0x18, 0x05, 0x4d, 0x97, 0xcd, 0x6f, 0x10, 0xca, 0x4c, 0xda, 0x53, 0x77, 0x5c, 0xde, 0x4f, 0x7f, 0x3e, 0xe3, 0x77, 0x00, 0xdf, 0xc9, 0x3e, 0xd7,
         0x53, 0x38, 0x85, 0x6d, 0x18, 0xc4, 0xd2, 0x1b]"

definition hs_key_mac_a2 :: bytes where
  "hs_key_mac_a2 = [0x98, 0xf5, 0x6c, 0xf4, 0xdc, 0x20, 0x6e, 0x93, 0x06, 0x60, 0x5e, 0x61, 0x1b, 0xa9, 0x13, 0xb8, 0x37, 0xf1, 0xf7, 0x89, 0x7f, 0xc5, 0x24, 0xe6,
         0xa6, 0x71, 0x96, 0x8e, 0xb3, 0x34, 0x86, 0xed]"

definition hs_key_mac_b1 :: bytes where
  "hs_key_mac_b1 = [0x86, 0x6a, 0xb3, 0x01, 0x9c, 0x09, 0xd4, 0x35, 0x2e, 0x64, 0x3f, 0xdb, 0x60, 0xe2, 0xe8, 0xc7, 0x40, 0x41, 0xae, 0x9c, 0x47, 0xef, 0xb0, 0xac,
         0xd6, 0x54, 0x62, 0x65, 0xb6, 0xa2, 0xa2, 0xe8]"

definition hs_key_macs :: "mac_call list" where
  "hs_key_macs = mac_calls MD_SHA256 hs_secret ''HS_KEY_PAIR_GEN'' hs_seed [hs_key_mac_a1, hs_key_mac_a2] [hs_key_mac_b1]"

definition hv_keys :: tls_keys where
  "hv_keys = (let block = keys_mac_b1 @ keys_mac_b2 in \<lparr>encr_key = take 32 block, decr_key = take 32 (drop 32 block),
     encr_iv = take 4 (drop 64 block), decr_iv = take 4 (drop 68 block)\<rparr>)"

text \<open>The messages of the handshake, cut out of the records.\<close>

definition golden_messages :: bytes where
  "golden_messages = drop 5 golden_client_rt1 @ drop 5 server_rt1 @ take 557 (drop 5 golden_client_rt2)"

definition client_verify :: bytes where "client_verify = [0x14, 0, 0, 12] @ take 12 client_mac_b1"
definition server_verify :: bytes where "server_verify = [0x14, 0, 0, 12] @ take 12 server_mac_b1"

definition finished_aad :: bytes where
  "finished_aad = [0, 0, 0, 0, 0, 0, 0, 0, 0x16, 0x03, 0x03, 0x00, 0x10]"

definition mac_answers :: "mac_call list" where
  "mac_answers = master_macs @ keys_macs @ client_macs @ server_macs @ hs_key_macs"

definition macs_known :: "crypto \<Rightarrow> mac_call list \<Rightarrow> bool" where
  "macs_known C = list_all (\<lambda>((m, k, x), v). hmac C m k x = Some v)"

definition known_answers :: "crypto \<Rightarrow> bool" where
  "known_answers C \<longleftrightarrow>
     macs_known C mac_answers
   \<and> sha256 C golden_messages = hv_verify_digest
   \<and> gcm_encrypt C (encr_key hv_keys) (encr_iv hv_keys @ hv_gcm_nonce) finished_aad client_verify
       = Some (take 16 (drop 8 golden_finished), drop 24 golden_finished)
   \<and> gcm_decrypt C (decr_key hv_keys) (decr_iv hv_keys @ take 8 server_finished) finished_aad
       (take 16 (drop 8 server_finished)) (drop 24 server_finished) = Some server_verify
   \<and> ec_set_private_key C hv_eph_priv \<and> ec_set_public_key C sensor_cert_pub_x sensor_cert_pub_y
   \<and> ecdh_compute_key C hv_eph_priv sensor_cert_pub_x sensor_cert_pub_y = ecdh_premaster
   \<and> ec_point_mul C hv_eph_priv = Some (take 32 (drop 5 golden_cke), drop 37 golden_cke)
   \<and> ec_point_mul C golden_pair_host_priv = Some (rev (take 32 (drop 4 golden_host_cert_signed)), rev (take 32 (drop 72 golden_host_cert_signed)))
   \<and> ec_set_private_key C golden_hs_priv_scalar \<and> ec_point_mul C golden_hs_priv_scalar \<noteq> None"

text \<open>There is such a crypto: no call is given two answers.\<close>

definition answer_book :: crypto where
  "answer_book = \<lparr>
     hmac = (\<lambda>m k x. map_of mac_answers (m, k, x)),
     sha256 = (\<lambda>_. hv_verify_digest),
     gcm_encrypt = (\<lambda>_ _ _ _. Some (take 16 (drop 8 golden_finished), drop 24 golden_finished)),
     gcm_decrypt = (\<lambda>_ _ _ _ _. Some server_verify),
     ec_set_private_key = (\<lambda>_. True), ec_set_public_key = (\<lambda>_ _. True),
     ecdh_compute_key = (\<lambda>_ _ _. ecdh_premaster),
     ec_point_mul = (\<lambda>p. if p = hv_eph_priv then Some (take 32 (drop 5 golden_cke), drop 37 golden_cke)
       else Some (rev (take 32 (drop 4 golden_host_cert_signed)), rev (take 32 (drop 72 golden_host_cert_signed)))),
     evp_digest_verify = (\<lambda>_ _ _ _. 1)\<rparr>"

lemma mac_calls_distinct:
  "distinct (map fst mac_answers)"
  by code_simp

lemma answer_book_known: "known_answers answer_book"
proof -
  have "macs_known answer_book mac_answers"
    using mac_calls_distinct by (auto simp: macs_known_def list_all_iff answer_book_def)
  moreover have "hv_eph_priv \<noteq> golden_pair_host_priv" by code_simp
  ultimately show ?thesis by (auto simp: known_answers_def answer_book_def)
qed

lemma mac_callsD:
  assumes "macs_known C (mac_calls m secret label seed as bs)"
  shows "as = [a1, a2] \<Longrightarrow> bs = [b1] \<Longrightarrow> n \<le> length b1 \<Longrightarrow> n \<noteq> 0 \<Longrightarrow>
      verimark_tls_prf C m secret label seed n = Some (take n b1)"
    and "as = [a1, a2, a3] \<Longrightarrow> bs = [b1, b2] \<Longrightarrow> length b1 < n \<Longrightarrow> n \<le> length b1 + length b2 \<Longrightarrow> b1 \<noteq> [] \<Longrightarrow>
      verimark_tls_prf C m secret label seed n = Some (take n (b1 @ b2))"
proof -
  assume h: "as = [a1, a2]" "bs = [b1]" "n \<le> length b1" "n \<noteq> 0"
  then obtain k where "n = Suc k" by (cases n) auto
  then show "verimark_tls_prf C m secret label seed n = Some (take n b1)"
    using assms h by (auto simp: verimark_tls_prf_def mac_calls_def macs_known_def Let_def min_def)
next
  assume h: "as = [a1, a2, a3]" "bs = [b1, b2]" "length b1 < n" "n \<le> length b1 + length b2" "b1 \<noteq> []"
  moreover from h(3,5) obtain k where "n = Suc (Suc k)" by (cases n; cases "n - 1"; cases b1) auto
  ultimately show "verimark_tls_prf C m secret label seed n = Some (take n (b1 @ b2))"
    using assms by (auto simp: verimark_tls_prf_def mac_calls_def macs_known_def Let_def min_def)
qed

lemma golden_lengths [simp]:
  "length sensor_cert_400 = 400" "length host_cert_400 = 400" "length golden_cke = 69" "length golden_cert_verify = 76"
  "length hv_master_secret = 48" "length keys_mac_b1 = 48" "length keys_mac_b2 = 48" "length client_mac_b1 = 48"
  "length server_mac_b1 = 48" "length hs_key_mac_b1 = 32" "length golden_finished = 40" "length server_finished = 40"
  "length ecdh_premaster = 32" "length hv_client_random = 32" "length hv_server_random = 32" "length hv_gcm_nonce = 8"
  "length hv_eph_priv = 32" "length golden_client_rt1 = 72"
  by (simp_all only: sensor_cert_400_def host_cert_400_def golden_cke_def golden_cert_verify_def hv_master_secret_def
      keys_mac_b1_def keys_mac_b2_def client_mac_b1_def server_mac_b1_def hs_key_mac_b1_def golden_finished_def server_finished_def
      ecdh_premaster_def hv_client_random_def hv_server_random_def hv_gcm_nonce_def hv_eph_priv_def golden_client_rt1_def
      list.size One_nat_def add_Suc_right add_0_right)

lemma known_prfs:
  assumes "known_answers C"
  shows "verimark_tls_derive_master_secret C ecdh_premaster hv_client_random hv_server_random = Some hv_master_secret"
    and "verimark_tls_derive_keys C hv_master_secret hv_client_random hv_server_random = Some hv_keys"
    and "verimark_tls_prf C MD_SHA384 hv_master_secret ''client finished'' hv_verify_digest 12 = Some (drop 4 client_verify)"
    and "verimark_tls_prf C MD_SHA384 hv_master_secret ''server finished'' hv_verify_digest 12 = Some (drop 4 server_verify)"
    and "verimark_tls_prf C MD_SHA256 hs_secret ''HS_KEY_PAIR_GEN'' hs_seed 32 = Some hs_key_mac_b1"
proof -
  have all: "macs_known C master_macs" "macs_known C keys_macs" "macs_known C client_macs" "macs_known C server_macs"
    "macs_known C hs_key_macs" using assms by (simp_all add: known_answers_def mac_answers_def macs_known_def)
  show "verimark_tls_derive_master_secret C ecdh_premaster hv_client_random hv_server_random = Some hv_master_secret"
    using mac_callsD(1) [OF all(1) [unfolded master_macs_def] refl refl, of 48] by (simp add: verimark_tls_derive_master_secret_def master_macs_def)
  have "keys_mac_b1 \<noteq> []" by (simp flip: length_greater_0_conv)
  then show "verimark_tls_derive_keys C hv_master_secret hv_client_random hv_server_random = Some hv_keys"
    using mac_callsD(2) [OF all(2) [unfolded keys_macs_def] refl refl, of 72]
    by (simp add: verimark_tls_derive_keys_def hv_keys_def Let_def drop_take)
  show "verimark_tls_prf C MD_SHA384 hv_master_secret ''client finished'' hv_verify_digest 12 = Some (drop 4 client_verify)"
    using mac_callsD(1) [OF all(3) [unfolded client_macs_def] refl refl, of 12] by (simp add: client_macs_def client_verify_def)
  show "verimark_tls_prf C MD_SHA384 hv_master_secret ''server finished'' hv_verify_digest 12 = Some (drop 4 server_verify)"
    using mac_callsD(1) [OF all(4) [unfolded server_macs_def] refl refl, of 12] by (simp add: server_macs_def server_verify_def)
  show "verimark_tls_prf C MD_SHA256 hs_secret ''HS_KEY_PAIR_GEN'' hs_seed 32 = Some hs_key_mac_b1"
    using mac_callsD(1) [OF all(5) [unfolded hs_key_macs_def] refl refl, of 32] by (simp add: hs_key_macs_def)
qed

subsection \<open>\<open>test_tls_core.c\<close>: certificates\<close>

lemma test_cert_roundtrip:
  "case verimark_cert_parse sensor_cert_400 of
     Inl e \<Rightarrow> False
   | Inr c \<Rightarrow> cert_type c = 0 \<and> sign_size c = 71 \<and> pub_x c = sensor_cert_pub_x \<and> pub_y c = sensor_cert_pub_y
       \<and> verimark_cert_serialize c = sensor_cert_400"
  by code_simp

lemma test_cert_signbytes:
  "case verimark_cert_parse sensor_cert_400 of
     Inl e \<Rightarrow> False | Inr c \<Rightarrow> verimark_cert_signbytes c = take 142 sensor_cert_400"
  by code_simp

lemma host_cert_roundtrip:
  "case verimark_cert_parse host_cert_400 of Inl e \<Rightarrow> False | Inr c \<Rightarrow> verimark_cert_serialize c = host_cert_400"
  by code_simp

lemma test_ecdh_premaster:
  assumes "known_answers C" "verimark_cert_parse sensor_cert_400 = Inr c"
  shows "verimark_ecdh_premaster C hv_eph_priv (pub_x c) (pub_y c) = Inr ecdh_premaster"
  using assms test_cert_roundtrip by (simp add: verimark_ecdh_premaster_def known_answers_def)

subsection \<open>\<open>test_tls_channel.c\<close>: the first round trip\<close>

definition golden_pins :: tls_pins where
  "golden_pins = \<lparr>pin_client_random = Some hv_client_random, pin_eph_priv = Some hv_eph_priv,
     pin_gcm_nonce = Some hv_gcm_nonce, pin_cert_verify_sig = Some (drop 4 golden_cert_verify)\<rparr>"

lemma golden_pins_set:
  "bind_res (verimark_tls__test_pin no_pins (Some hv_client_random) (Some hv_eph_priv) (Some hv_gcm_nonce))
     (\<lambda>k. verimark_tls__test_pin_cert_verify_sig k (Some (drop 4 golden_cert_verify)) 72) = Inr golden_pins"
  by (simp add: verimark_tls__test_pin_def verimark_tls__test_pin_cert_verify_sig_def pin_copy_def no_pins_def golden_pins_def)

lemma golden_client_hello: "rec_write_plain [] 0x16 (hs_bytes 0x01 (client_hello_body hv_client_random)) = golden_client_rt1"
  by (simp add: rec_write_plain_def hs_bytes_def client_hello_body_def ext_supported_groups_def ext_ec_point_formats_def)
    (simp add: golden_client_rt1_def hv_client_random_def)

lemma hello_message: "hs_bytes 0x01 (client_hello_body hv_client_random) = drop 5 golden_client_rt1"
  unfolding golden_client_hello [symmetric] by (simp add: rec_write_plain_def)

lemma test_client_hello:
  "fst (verimark_tls__test_build_client_hello P (no_pins\<lparr>pin_client_random := Some hv_client_random\<rparr>) (t, w)) = golden_client_rt1"
  by (simp add: verimark_tls__test_build_client_hello_def hs_build_client_hello_pinned_def hs_msg_def golden_client_hello)

text \<open>The flight of the server: ServerHello, Certificate, CertificateRequest, ServerHelloDone.\<close>

definition server_hello :: "byte \<Rightarrow> byte \<Rightarrow> bytes" where
  "server_hello hi lo = [0x03, 0x03] @ hv_server_random @ [0x07, 0, 0, 0, 0, 0, 0, 0] @ [hi, lo] @ [0x00]"

definition rt1_msgs :: "byte \<Rightarrow> byte \<Rightarrow> (byte \<times> bytes) list" where
  "rt1_msgs hi lo = [(0x02, server_hello hi lo), (0x0b, [0x00, 0x01, 0x90, 0x00, 0x01, 0x90, 0x00, 0x00] @ sensor_cert_400),
     (0x0d, [0x01, 0x40, 0x00, 0x00]), (0x0e, [])]"

lemma server_rt1_record: "server_rt1[51 := hi, 52 := lo] = rec_enc (0x16, (0x03, 0x03), concat (map msg_enc (rt1_msgs hi lo)))"
  by (simp add: rec_enc_def msg_enc_def hs_bytes_def rt1_msgs_def server_hello_def server_rt1_def list_update_append)
    (simp add: hv_server_random_def)

lemma golden_rt1_record: "server_rt1 = rec_enc (0x16, (0x03, 0x03), concat (map msg_enc (rt1_msgs 0xc0 0x2e)))"
  unfolding server_rt1_record [symmetric] by (simp add: server_rt1_def)

lemma rt1_msgs_fit: "\<forall>m \<in> set (rt1_msgs hi lo). msg_fits m" "rec_fits (0x16, (0x03, 0x03), concat (map msg_enc (rt1_msgs hi lo)))"
  by (simp_all add: rt1_msgs_def msg_fits_def server_hello_def rec_fits_def msg_enc_def)

lemma process_golden_rt1: "hs_process_rt1 t server_rt1 = (Inr (), rt1_after (rt1_msgs 0xc0 0x2e) t)"
proof -
  have "rt1_wire server_rt1 (rt1_msgs 0xc0 0x2e)"
    using golden_rt1_record rt1_msgs_fit [of "0xc0" "0x2e"]
    by (auto simp: rt1_wire_def list_all_iff intro!: exI [of _ "[(0x16, (0x03, 0x03), concat (map msg_enc (rt1_msgs 0xc0 0x2e)))]"])
  moreover have "rt1_valid (rt1_msgs 0xc0 0x2e)"
    by (simp add: rt1_valid_def rt1_msgs_def rt1_msg_ok_def server_hello_ok_def server_hello_def cert_request_ok_def nth_append u16_of_be_def)
  ultimately show ?thesis by (auto simp: hs_process_rt1_accepts)
qed

lemma test_process_rt1:
  "\<exists>t'. verimark_tls__test_process_rt1 t server_rt1 = (Inr hv_server_random, t')"
  by (simp add: verimark_tls__test_process_rt1_def process_golden_rt1 rt1_after_def rt1_msgs_def server_hello_def)

text \<open>The cipher suite is at bytes 51 and 52.\<close>

lemma test_process_rt1_rejects_bad_suite:
  "\<exists>e t'. verimark_tls__test_process_rt1 t (server_rt1[51 := 0xc0, 52 := 0x05]) = (Inl e, t')"
proof -
  have "\<not> server_hello_ok (server_hello 0xc0 0x05)"
    by (simp add: server_hello_ok_def server_hello_def nth_append u16_of_be_def)
  note bad = this
  define u where "u = t\<lparr>t_transcript := t_transcript t @ hs_bytes 0x02 (server_hello 0xc0 0x05)\<rparr>"
  obtain b u' where b: "rt1_server_hello u (server_hello 0xc0 0x05) = (b, u')" by (metis surj_pair)
  then obtain e where "b = Inl e" using rt1_server_hello_Inr [of u "server_hello 0xc0 0x05" u'] bad by (cases b) auto
  with b have run: "run_msgs (rt1_msgs 0xc0 0x05) False False t = (Inl e, u')"
    by (simp add: rt1_msgs_def rt1_switch_def Let_def u_def)
  let ?msgs = "concat (map msg_enc (rt1_msgs 0xc0 0x05))"
  have "rec_loop ''RT1'' rt1_record (server_rt1[51 := 0xc0, 52 := 0x05]) 0 [] = (Inr (), ?msgs)"
    using rec_loop_enc [of "[(0x16, (0x03, 0x03), ?msgs)]" "''RT1''" rt1_record "[]" "[]"] rt1_msgs_fit(2) [of "0xc0" "0x05"]
    by (simp only: server_rt1_record) (simp add: rt1_record_def)
  moreover have "rt1_messages ?msgs 0 False False t = (Inl e, u')"
    using rt1_messages_enc [OF rt1_msgs_fit(1), of "[]"] run by simp
  ultimately show ?thesis
    by (simp add: verimark_tls__test_process_rt1_def hs_process_rt1_def)
qed

subsection \<open>\<open>test_tls_channel.c\<close>: the second round trip\<close>

definition golden_pd :: "pairing \<Rightarrow> bool" where
  "golden_pd pd \<longleftrightarrow> verimark_cert_parse host_cert_400 = Inr (host_cert pd) \<and> verimark_cert_parse sensor_cert_400 = Inr (sensor_cert pd)"

abbreviation golden_start :: "pairing \<Rightarrow> tls" where
  "golden_start pd \<equiv> verimark_tls_set_pairing verimark_tls_new pd"

definition after_rt1 :: "pairing \<Rightarrow> tls" where
  "after_rt1 pd = (golden_start pd)\<lparr>t_client_random := hv_client_random, t_server_random := hv_server_random,
     t_transcript := drop 5 golden_client_rt1 @ drop 5 server_rt1\<rparr>"

definition after_rt2 :: "pairing \<Rightarrow> tls" where
  "after_rt2 pd = (after_rt1 pd)\<lparr>t_eph_priv := hv_eph_priv, t_master_secret := hv_master_secret, t_keys := hv_keys,
     t_verify_digest := hv_verify_digest, t_encr_seq := 1, t_decr_seq := 0, t_transcript := golden_messages\<rparr>"

lemma golden_start_transcript: "t_transcript (golden_start pd) = []"
  by (simp add: verimark_tls_set_pairing_def verimark_tls_new_def)

lemma golden_hello_run:
  "hs_build_client_hello_pinned P golden_pins (golden_start pd) w =
     (golden_client_rt1, (golden_start pd)\<lparr>t_client_random := hv_client_random, t_transcript := drop 5 golden_client_rt1\<rparr>, w)"
  by (simp add: hs_build_client_hello_pinned_def golden_pins_def hs_msg_def golden_client_hello golden_start_transcript)
    (simp add: hello_message)

lemma golden_rt1_run:
  "hs_process_rt1 ((golden_start pd)\<lparr>t_client_random := hv_client_random, t_transcript := drop 5 golden_client_rt1\<rparr>) server_rt1 =
     (Inr (), after_rt1 pd)"
proof -
  have "drop 5 server_rt1 = concat (map msg_enc (rt1_msgs 0xc0 0x2e))"
    unfolding golden_rt1_record by (simp add: rec_enc_def)
  moreover have "rt1_random (rt1_msgs 0xc0 0x2e) r = hv_server_random" for r
    by (simp add: rt1_msgs_def server_hello_def)
  ultimately show ?thesis by (simp add: process_golden_rt1 rt1_after_def after_rt1_def)
qed

lemma golden_flight:
  "hs_bytes 0x0b ([0x00, 0x01, 0x90, 0x00, 0x01, 0x90, 0x00, 0x00] @ host_cert_400) @ golden_cke @ golden_cert_verify =
     take 557 (drop 5 golden_client_rt2)"
  by (simp add: hs_bytes_def golden_client_rt2_def)

lemma golden_client_rt2_records:
  "rec_write_plain (rec_write_plain (rec_write_plain [] 0x16 (take 557 (drop 5 golden_client_rt2))) 0x14 [0x01]) 0x16 golden_finished =
     golden_client_rt2"
  by (simp add: rec_write_plain_def golden_client_rt2_def)

lemma golden_cke_message: "hs_bytes 0x10 ([0x04] @ take 32 (drop 5 golden_cke) @ drop 37 golden_cke) = golden_cke"
  by (simp add: hs_bytes_def) (simp add: golden_cke_def)

lemma golden_cert_verify_message: "hs_bytes 0x0f (drop 4 golden_cert_verify) = golden_cert_verify"
  by (simp add: hs_bytes_def) (simp add: golden_cert_verify_def)

lemma golden_rt2_run:
  assumes "known_answers (lib P)" "golden_pd pd"
  shows "hs_build_rt2_pinned P golden_pins (after_rt1 pd, w) = (Inr golden_client_rt2, after_rt2 pd, w)"
proof -
  have pd: "verimark_cert_serialize (host_cert pd) = host_cert_400" "pub_x (sensor_cert pd) = sensor_cert_pub_x"
    "pub_y (sensor_cert pd) = sensor_cert_pub_y"
    using assms(2) host_cert_roundtrip test_cert_roundtrip by (auto simp: golden_pd_def)
  let ?t = "(after_rt1 pd)\<lparr>t_eph_priv := hv_eph_priv, t_transcript := golden_messages\<rparr>"
  have "t_pd (after_rt1 pd) = pd" by (simp add: after_rt1_def verimark_tls_set_pairing_def)
  then have flight: "rt2_flight_pinned P golden_pins (after_rt1 pd, w) =
      (Inr (rec_write_plain [] 0x16 (take 557 (drop 5 golden_client_rt2))), ?t, w)"
    using assms(1) golden_flight
    by (simp add: rt2_flight_pinned_def golden_pins_def hs_msg_def pd(1) verimark_pub_from_priv_def known_answers_def
        golden_cke_message [simplified] golden_cert_verify_message golden_messages_def after_rt1_def Let_def)
  let ?u = "?t\<lparr>t_master_secret := hv_master_secret, t_keys := hv_keys, t_encr_seq := 0, t_decr_seq := 0\<rparr>"
  have keys: "rt2_keys (lib P) ?t = (Inr (), ?u)"
    using assms(1) known_prfs(1,2) [OF assms(1)]
    by (simp add: rt2_keys_def verimark_ecdh_premaster_def known_answers_def after_rt1_def verimark_tls_set_pairing_def pd(2,3))
  have aad: "gcm_build_aad 0 0x16 (length client_verify) = finished_aad" "client_verify = hs_bytes 0x14 (drop 4 client_verify)"
    by (simp_all add: gcm_build_aad_def finished_aad_def client_verify_def hs_bytes_def)
  have seal: "gcm_encrypt (lib P) (encr_key hv_keys) (gcm_iv (encr_iv hv_keys) hv_gcm_nonce) finished_aad client_verify =
      Some (take 16 (drop 8 golden_finished), drop 24 golden_finished)"
    using assms(1) by (simp add: known_answers_def gcm_iv_def hv_keys_def Let_def)
  have "hv_gcm_nonce = take 8 golden_finished" by (simp add: hv_gcm_nonce_def golden_finished_def)
  moreover have "golden_finished = take 8 golden_finished @ take 16 (drop 8 golden_finished) @ drop 24 golden_finished"
    by (simp add: golden_finished_def)
  ultimately have frag: "hv_gcm_nonce @ take 16 (drop 8 golden_finished) @ drop 24 golden_finished = golden_finished" by simp
  have "verimark_tls_gcm_wrap (lib P) (encr_key hv_keys) (encr_iv hv_keys) 0 0x16 hv_gcm_nonce client_verify = Inr golden_finished"
    by (simp add: verimark_tls_gcm_wrap_def aad(1) seal frag)
  then have "rt2_finished_pinned P golden_pins (rec_write_plain [] 0x16 (take 557 (drop 5 golden_client_rt2))) (?u, w) =
      (Inr golden_client_rt2, after_rt2 pd, w)"
    using assms(1) known_prfs(3) [OF assms(1)] aad(2)
    by (simp add: rt2_finished_pinned_def transcript_snapshot_def hs_msg_def golden_pins_def golden_client_rt2_records
        known_answers_def after_rt2_def)
  then show ?thesis using flight keys by (simp add: hs_build_rt2_pinned_def)
qed

text \<open>The whole exchange with the golden sensor: every byte sent is the one the prototype sent.\<close>

lemma test_build_rt2:
  assumes "known_answers (lib P)" "golden_pd pd"
    and "verimark_tls__test_build_client_hello P golden_pins (golden_start pd, w) = (ch, t1, w1)"
    and "verimark_tls__test_process_rt1 t1 server_rt1 = (rnd, t2)"
  shows "ch = golden_client_rt1 \<and> rnd = Inr hv_server_random
    \<and> fst (verimark_tls__test_build_rt2 P golden_pins (t2, w1)) = Inr (golden_client_rt2, hv_master_secret)"
proof -
  have t: "ch = golden_client_rt1" "t1 = (golden_start pd)\<lparr>t_client_random := hv_client_random, t_transcript := drop 5 golden_client_rt1\<rparr>" "w1 = w"
    using assms(3) by (simp_all add: verimark_tls__test_build_client_hello_def golden_hello_run)
  then have "t2 = after_rt1 pd" "rnd = Inr hv_server_random"
    using assms(4) by (auto simp: verimark_tls__test_process_rt1_def golden_rt1_run after_rt1_def)
  with t(1,3) golden_rt2_run [OF assms(1,2)] show ?thesis
    by (simp add: verimark_tls__test_build_rt2_def after_rt2_def)
qed

text \<open>The mock: it fails when it is sent anything else.\<close>

record mock_world = world +
  mw_script :: "(bytes \<times> bytes) list"

definition mock_io :: "mock_world tls_io" where
  "mock_io w out =
     (case mw_script w of
        [] \<Rightarrow> (Inr [], w)
      | (expect_out, resp) # rest \<Rightarrow>
          if out = expect_out then (Inr resp, w\<lparr>mw_script := rest\<rparr>) else (Inl Assert_Not_Reached, w))"

definition golden_script :: "(bytes \<times> bytes) list" where
  "golden_script = [(golden_client_rt1, server_rt1), (golden_client_rt2, server_rt2)]"

lemma golden_rt2_response:
  assumes "known_answers C"
  shows "hs_process_rt2 C (after_rt2 pd) server_rt2 = (Inr (), (after_rt2 pd)\<lparr>t_decr_seq := 1, t_established := True\<rparr>)"
proof -
  let ?rs = "[(0x14, (0x03, 0x03), [0x01]), (0x16, (0x03, 0x03), server_finished)] :: tls_record list"
  have wire: "server_rt2 = concat (map rec_enc ?rs)" by (simp add: rec_enc_def server_rt2_def)
  have "\<forall>r \<in> set ?rs. rec_fits r" by (simp add: rec_fits_def)
  from rec_loop_enc [OF this, of "''RT2''" "rt2_record C" "[]"] have
    loop: "rec_loop ''RT2'' (rt2_record C) server_rt2 0 s = run_recs (rt2_record C) ?rs s" for s
    by (simp add: wire)
  have aad: "gcm_build_aad 0 0x16 16 = finished_aad" by (simp add: gcm_build_aad_def finished_aad_def)
  have "verimark_tls_gcm_unwrap C (decr_key hv_keys) (decr_iv hv_keys) 0 0x16 server_finished = Inr server_verify"
    using assms by (simp add: verimark_tls_gcm_unwrap_def aad known_answers_def gcm_iv_def hv_keys_def Let_def)
  moreover have "length server_verify = 16" "server_verify ! 0 = 0x14" by (simp_all add: server_verify_def)
  moreover have "t_decr_seq (after_rt2 pd) = 0" by (simp add: after_rt2_def after_rt1_def verimark_tls_set_pairing_def verimark_tls_new_def)
  ultimately have "rt2_server_finished C (after_rt2 pd) server_finished = (Inr (), (after_rt2 pd)\<lparr>t_decr_seq := 1\<rparr>)"
    using known_prfs(4) [OF assms] by (simp add: rt2_server_finished_def after_rt2_def)
  then show ?thesis by (simp add: hs_process_rt2_def loop rt2_record_def)
qed

lemma test_handshake_end_to_end:
  assumes "known_answers (lib P)" "golden_pd pd"
  shows "\<exists>t'. verimark_tls_handshake_pinned P golden_pins mock_io (golden_start pd, w\<lparr>mw_script := golden_script\<rparr>) =
      (Inr True, t', w\<lparr>mw_script := []\<rparr>)
    \<and> verimark_tls_is_established (Some t') \<and> t_master_secret t' = hv_master_secret"
proof -
  have start: "t_have_pairing (golden_start pd)" by (simp add: verimark_tls_set_pairing_def)
  have io: "mock_io (w\<lparr>mw_script := golden_script\<rparr>) golden_client_rt1 = (Inr server_rt1, w\<lparr>mw_script := tl golden_script\<rparr>)"
    "mock_io (w\<lparr>mw_script := tl golden_script\<rparr>) golden_client_rt2 = (Inr server_rt2, w\<lparr>mw_script := []\<rparr>)"
    by (simp_all add: mock_io_def golden_script_def)
  have "t_master_secret (after_rt2 pd) = hv_master_secret" by (simp add: after_rt2_def)
  then show ?thesis
    using start by (simp add: verimark_tls_handshake_pinned_def golden_hello_run io golden_rt1_run golden_rt2_run [OF assms]
        golden_rt2_response [OF assms(1)] verimark_tls_is_established_def)
qed

lemma test_wrap_unwrap_passthrough_before_established:
  "verimark_tls_wrap P (verimark_tls_new, w) plain = (Inr plain, verimark_tls_new, w)
    \<and> verimark_tls_unwrap C verimark_tls_new plain = (Inr plain, verimark_tls_new)"
  by (simp add: verimark_tls_wrap_def verimark_tls_unwrap_def verimark_tls_new_def)

subsection \<open>\<open>test_tls_channel.c\<close>: pairing\<close>

lemma test_hs_key:
  assumes "known_answers C"
  shows "verimark_pairing__test_hs_key_scalar C = Inr golden_hs_priv_scalar"
proof -
  have "map (\<lambda>i. hs_key_mac_b1 ! (31 - i)) [0..<32] = golden_hs_priv_scalar" by code_simp
  then show ?thesis
    using known_prfs(5) [OF assms] by (simp add: verimark_pairing__test_hs_key_scalar_def hs_key_scalar_def)
qed

text \<open>What is signed does not depend on the signature that follows.\<close>

lemma golden_host_cert_fields:
  "verimark_cert_serialize \<lparr>pub_x = rev (take 32 (drop 4 golden_host_cert_signed)), pub_y = rev (take 32 (drop 72 golden_host_cert_signed)),
     cert_type = 0, sign_size = n, signature = sig\<rparr> = golden_host_cert_signed @ [u16_lo n, u16_hi n] @ sig"
proof -
  have "[0x3f, 0x5f, 23, 0] @ be32_to_le_field (rev (take 32 (drop 4 golden_host_cert_signed))) 68
      @ be32_to_le_field (rev (take 32 (drop 72 golden_host_cert_signed))) 68 @ [0, 0] = golden_host_cert_signed"
    by code_simp
  then show ?thesis by (simp add: verimark_cert_serialize_def)
qed

definition signs :: "'w platform \<Rightarrow> bool" where
  "signs P \<longleftrightarrow> (\<forall>w k m. \<exists>sig w'. evp_digest_sign P w k m = (Some sig, w') \<and> length sig \<le> 256)"

lemma test_host_cert_build:
  assumes "known_answers (lib P)" "signs P"
  shows "\<exists>c buf w'. verimark_pairing__test_build_host_cert P golden_pair_host_priv w = (Inr (c, buf), w')
    \<and> cert_type c = 0 \<and> take 142 buf = golden_host_cert_signed \<and> length buf = 400"
proof -
  obtain sig w' where sig: "evp_digest_sign P w golden_hs_priv_scalar golden_host_cert_signed = (Some sig, w')" "length sig \<le> 256"
    using assms(2) unfolding signs_def by blast
  have len: "length golden_host_cert_signed = 142"
    by (simp only: golden_host_cert_signed_def list.size One_nat_def add_Suc_right add_0_right)
  have "hs_key_scalar (lib P) = Inr golden_hs_priv_scalar"
    using test_hs_key [OF assms(1)] by (simp add: verimark_pairing__test_hs_key_scalar_def)
  with sig assms(1) len show ?thesis
    by (auto simp: verimark_pairing__test_build_host_cert_def build_host_cert_def verimark_pub_from_priv_def known_answers_def
        verimark_cert_signbytes_def golden_host_cert_fields verimark_ecdsa_sign_def Let_def)
qed

definition mock_pair_io :: "'w \<Rightarrow> bytes \<Rightarrow> bytes res \<times> 'w" where
  "mock_pair_io w out = (if length out = 401 \<and> hd out = 0x93 then Inr golden_pair_resp_802 else Inl Assert_Not_Reached, w)"

lemma test_pairing_do:
  assumes "known_answers (lib P)" "signs P" "ec_generate P w = (Some (golden_pair_host_priv, x, y), w1)"
  shows "\<exists>pd w'. verimark_pairing_do P mock_pair_io w = (Inr pd, w') \<and> golden_pd pd"
proof -
  obtain c buf w2 where "build_host_cert P golden_pair_host_priv w1 = (Inr (c, buf), w2)" "length buf = 400"
    using test_host_cert_build [OF assms(1,2), of w1] by (auto simp: verimark_pairing__test_build_host_cert_def)
  moreover obtain host sensor where "verimark_cert_parse host_cert_400 = Inr host" "verimark_cert_parse sensor_cert_400 = Inr sensor"
    using host_cert_roundtrip test_cert_roundtrip by (auto split: sum.split_asm)
  ultimately show ?thesis
    using assms(3) by (simp add: verimark_pairing_do_def ec_keygen_def mock_pair_io_def golden_pair_resp_802_def rd_slice_def golden_pd_def)
qed

subsection \<open>Property\<close>

text \<open>C37: The handshake of the driver is the one recorded from the prototype that works with the device: with the
  recorded random inputs, OpenSSL's answers to the calls of that handshake and the recorded replies of
  the sensor, it sends exactly the recorded bytes, both flights of them, ends in an established session
  and computes the recorded master secret. The mock ends the handshake at any other byte.\<close>

theorem golden_handshake:
  assumes "known_answers (lib P)" "golden_pd pd" "ec_set_private_key (lib P) (priv_scalar pd)"
  shows "\<exists>t'. verimark_tls_handshake (pinned golden_pins P) mock_io
        (verimark_tls_set_pairing verimark_tls_new pd, w\<lparr>mw_script := golden_script\<rparr>) = (Inr True, t', w\<lparr>mw_script := []\<rparr>)
    \<and> t_established t' \<and> t_master_secret t' = hv_master_secret"
proof -
  have "pins_wf golden_pins" by (simp add: pins_wf_def golden_pins_def sized_def)
  moreover have "t_pd (golden_start pd) = pd" by (simp add: verimark_tls_set_pairing_def)
  ultimately show ?thesis
    using handshake_is_pinned [of golden_pins P "golden_start pd" mock_io "w\<lparr>mw_script := golden_script\<rparr>"] assms(3)
      test_handshake_end_to_end [OF assms(1,2), of w] by (simp add: verimark_tls_is_established_def)
qed

definition mock_bench :: "mock_world platform" where
  "mock_bench = sample\<lparr>lib := answer_book\<rparr>"

definition mock_world0 :: mock_world where
  "mock_world0 = world.extend world0 (mock_world.fields [])"

lemma golden_handshake_witness:
  "\<exists>pd t'. verimark_cert_serialize (host_cert pd) = host_cert_400
    \<and> verimark_tls_handshake (pinned golden_pins mock_bench) mock_io
        (verimark_tls_set_pairing verimark_tls_new pd, mock_world0\<lparr>mw_script := golden_script\<rparr>) = (Inr True, t', mock_world0\<lparr>mw_script := []\<rparr>)"
proof -
  obtain host sensor where certs: "verimark_cert_parse host_cert_400 = Inr host" "verimark_cert_parse sensor_cert_400 = Inr sensor"
    using host_cert_roundtrip test_cert_roundtrip by (auto split: sum.split_asm)
  let ?pd = "\<lparr>priv_scalar = replicate 32 1, host_cert = host, sensor_cert = sensor\<rparr>"
  have "known_answers (lib mock_bench)" "ec_set_private_key (lib mock_bench) (priv_scalar ?pd)"
    using answer_book_known by (simp_all add: mock_bench_def answer_book_def)
  moreover have "golden_pd ?pd" by (simp add: golden_pd_def certs)
  moreover have "verimark_cert_serialize (host_cert ?pd) = host_cert_400" using host_cert_roundtrip by (simp add: certs)
  ultimately show ?thesis using golden_handshake [of mock_bench ?pd mock_world0] by blast
qed

end
