(* ===== verification/Spec2Isabelle.thy ===== *)
theory Spec2Isabelle
  imports Object_Store Safety Cancel Bus_Log Channel Unit_Tests Golden_Vectors
begin

text \<open>
  A model of the libfprint driver for the Kensington VeriMark Desktop, \<open>src/driver\<close>. The sensor
  matches on the chip. The driver opens a USB device, pairs with it once, runs a TLS 1.2 dialect
  with it over EP0 control transfers, and sends match-on-chip commands through the resulting
  channel to capture, enroll, verify, identify, list, delete and clear.

  \<^bold>\<open>How the C code is rendered.\<close> A function that returns \<open>gboolean\<close> and fills a \<open>GError\<close> is a
  function into \<open>gerror + 'a\<close>; bytes and counters are words of their width, and buffers are lists
  whose reads say when they leave the buffer (\<open>Out_Of_Bounds\<close>), as do the points where an
  assertion could fail (\<open>Assert_Not_Reached\<close>) and where a nested callback resumes the machine in
  \<open>task_ssm\<close> and finds another one, or none (\<open>No_Machine\<close>). The world is a type parameter \<open>'w\<close>: libusb,
  OpenSSL, the clock, the random generator, files, the user id and libfprint's dispatcher of state
  machines are the fields of a \<open>platform\<close> (theory \<open>Platform\<close>), and what is documented about them is
  stated by predicates named \<open>..._doc\<close>, which only the theorems that need them assume. Calls back into
  libfprint (completions, reports, progress) are appended to the list \<open>reports\<close> of the device
  object, in order. A state machine is a step function, from the current state and context to the
  call its callback makes on the dispatcher; \<open>ssm_run\<close> in theory \<open>Ssm\<close> runs it. A callback and the
  transfer it belongs to are one step, which loses nothing because the driver has one transfer in
  flight and a machine is parked until its callback runs.

  \<^bold>\<open>The theories.\<close>

  \<^item> \<open>Prelude\<close>, \<open>Codec\<close>, \<open>Platform\<close>, \<open>Ssm\<close>: words, errors and buffers (an \<open>in_buffer\<close> result is one that is
    no \<open>defect\<close>, that is, none of \<open>Out_Of_Bounds\<close>, \<open>Assert_Not_Reached\<close> and \<open>No_Machine\<close>); the locales \<open>byte_codec\<close> and
    \<open>checked_codec\<close> every wire format is an instance of; the parameters; the machine runner with the
    locales \<open>ssm_contract\<close> (an invariant per state and what holds at the end) and \<open>ssm_measured\<close> (a
    measure that makes the run end), interpreted by the interrupt wait, enrollment and verification.
  \<^item> \<open>Framing\<close>, \<open>Transport\<close>, \<open>Interrupt\<close> (\<open>verimark-transport-framing.c\<close>, \<open>verimark-transport.c\<close>, the
    synchronous transfers of \<open>verimark.c\<close>): chunking of commands and replies, the asynchronous
    command machine and its synchronous twin, which are shown to agree, the wait for an interrupt
    event and the drain at open.
  \<^item> \<open>Crypto\<close>, \<open>Tls\<close> (\<open>verimark-tls-crypto.c\<close>, \<open>verimark-tls.c\<close>): the PRF, key derivation, certificate and
    pairing formats and record protection; the handshake and the record layer. \<open>Tls_Records\<close>: what their loops
    accept. \<open>Tls_Auth\<close>: an established session was authenticated. \<open>Tls_Session\<close>, \<open>Channel\<close>: what a session
    delivers, and exactly what it accepts. \<open>Sensor\<close>: a sensor written from the other end of the protocol, against which the handshake completes.
  \<^item> \<open>Pairing\<close>, \<open>Device\<close> (\<open>verimark-pairing.c\<close>, \<open>dev_open\<close> and \<open>dev_close\<close> of \<open>verimark.c\<close>): the pairing
    exchange and file, and the device object (\<open>verimark\<close>, the C struct) with its states
    \<open>dev_closed\<close> and \<open>dev_opened\<close>.
  \<^item> \<open>Moc_Wire\<close>, \<open>Moc_Send\<close>, \<open>Capture\<close>, \<open>Moc_Path\<close>, \<open>Prints\<close> (\<open>verimark-moc.c\<close>): command builders and reply
    parsers; one command through the channel; the seven-state capture machine and its refinement of the
    straight-line \<open>capture_spec\<close>; the print data and the SID of user and machine. \<open>moc_path\<close>
    in \<open>Moc_Path\<close> is the abstract record of what passed between driver and sensor, which the
    properties of all operations above it speak about.
  \<^item> \<open>Enroll\<close>, \<open>Verify\<close>, \<open>Storage\<close> (\<open>verimark-moc.c\<close>): the machines of the user-visible operations, one
    definition per callback, handler, completion and entry point, under the name of the C function.
    \<open>Enroll_Runs\<close>: the enrollments that succeed.
  \<^item> \<open>Driver\<close> (\<open>verimark.c\<close>): the virtual functions and the class, sequences of requests to them, and the
    invariant of the device object across such sequences. \<open>Safety\<close>: no such sequence runs into a
    defect. \<open>Cancel_Calls\<close>, \<open>Cancel\<close>: what a command, a wait, a capture and a connection, and then each
    request, make of a cancellation that comes before or while they run. \<open>Bus_Log\<close>: what a send and a
    wait put on the bus.
  \<^item> \<open>App_Link\<close>: the locale \<open>app_link\<close>, the interface between the operations and the connection below them
    (a command is answered by the sensor's application, a press arrives, nothing else changes), in which
    captures, enrollment, verification and the storage operations are shown to succeed. \<open>Answering\<close>
    interprets it (\<open>ans\<close>) for a sensor on an unprotected session, where the examples run.
  \<^item> \<open>Usb_Device\<close>, \<open>Usb_Sensor\<close>, \<open>Link\<close>: the other end of the cable, a device that reassembles frames and
    serves its reply in chunks (\<open>frame_device\<close>), behind it a sensor that answers GET_VERSION, pairs,
    shakes hands and runs an application over its session (\<open>usb_step\<close>), what a bench with such a
    sensor promises (\<open>honest\<close>), and the proof that opening succeeds with it and that the open device is an
    \<open>app_link\<close> (\<open>sublocale\<close> of \<open>usb_link\<close>). \<open>Lifecycle\<close> puts both halves together, and interprets \<open>usb_link\<close>
    (\<open>wire\<close>) for a concrete platform with such a sensor. \<open>Object_Store\<close>: over an open device the
    storage requests implement an abstract list of template ids.
  \<^item> \<open>Testing\<close> (the parts of \<open>verimark-tls.c\<close> and \<open>verimark-pairing.c\<close> under \<open>VERIMARK_TESTING\<close>): the hooks
    the unit tests use, and the handshake as they compile it. \<open>Unit_Tests\<close>, \<open>Golden_Vectors\<close>: the repository's own
    unit tests, run on the model, among them the handshake recorded from the prototype, byte for byte.
  \<^item> \<open>Sample\<close>: a concrete platform, at which the hypotheses of the properties hold.

  \<^bold>\<open>What is shown.\<close> The whole: with a sensor that follows the protocol, open, enroll, close, open and verify
  succeed through every layer, and the open device is a transparent channel to the sensor's
  application; with any sensor, no request runs into a defect, and the device object keeps its invariant.
  The lower half: framing and both command paths deliver whole messages and
  agree with each other; the formats round-trip and their parsers accept exactly the encodings; the
  handshake authenticates the session before it is established; the channel delivers; pairing is trust on
  first use; the handshake the unit tests pin down is the one the driver runs, and the model passes these tests. The upper half: a capture that
  succeeds has run its documented commands; an enrollment that hands out a print has been committed on
  the sensor with the id it stored; a verdict is traced back to the id the sensor echoed after a
  capture; list and delete speak of the same objects; every request but an enrollment ends, and unwinds
  whenever it is cancelled. Below in this theory: the properties that span
  these (enrolled prints verify, listed prints can be deleted, the two kinds are not confused,
  the commands of an open device travel as sealed records of its session and nothing else does).

  \<^bold>\<open>Fuel.\<close> A run of a machine gets a number of states it may enter; \<open>None\<close> means that this was not enough.
  For a command it is \<open>cmd_fuel\<close> (8 chunks, and 26 states per byte the reply may have: each read that is
  not the last one brings a byte and is retried at most 25 times), for the wait for a press
  \<open>press_fuel\<close> (one state per microsecond of its 30 s), for a capture's polling
  \<open>cap_polls\<close> (one poll per 15 ms of the 4 s window), for a verification
  \<open>vfy_fuel\<close> (eight captures and the match), and one per state for the storage operations. Each is
  proved to be enough, so that these operations are total. An enrollment has no bound in the C code: an
  accepted sample is not held against its deadline, and \<open>enroll_unbounded\<close> in \<open>Lifecycle\<close> shows a sensor that
  keeps it going past any fuel. So its fuel is a parameter: \<open>2 * n + 8\<close> is proved to be enough for a sensor
  that is satisfied after \<open>n + 1\<close> samples, and the other properties speak of the enrollments that end.

  \<^bold>\<open>What is not modelled.\<close> Allocation and reference counts, which have no
  counterpart on values. The type macro of GObject. The logging calls.
  OpenSSL, GUsb and libfprint themselves, which are not in the repository and are the parameters
  above. The Python prototype and the tools are not part of the driver.
\<close>

subsection \<open>Enrollment and verification\<close>

text \<open>C10: What an enrollment stores is what a verification looks for: when an enrollment has handed out
  a print, a later verification of that print, from any state and on the same or another
  connection, reports a match exactly when the sensor echoes the id it minted in the last sample
  of that enrollment.\<close>

theorem enroll_then_verify:
  assumes "platform_doc P T"
    and "verimark_moc_enroll P gen fuel print (dev, w) = Some (dev1, w1)"
    and "reports dev1 = rs @ [Enroll_Complete (Some p) e]"
    and "verimark_moc_verify P \<lparr>verify_data = Some p, identify_data = None\<rparr> (dev2, w2) = Some (dev3, w3)"
    and "reports dev3 = reports dev2 @ [Verify_Report verdict q None, c]"
  shows "\<exists>tid tr tr' st resp. moc_path P (dev, w) tr (dev1, w1) \<and> enrolled P tid (moc_ops tr)
    \<and> moc_path P (dev2, w2) (tr' @ [Replied verimark_moc_build_begin_id st resp]) (dev3, w3)
    \<and> (verdict = MATCH_SUCCESS \<longleftrightarrow> echoed resp tid)"
proof -
  from enroll_print [OF assms(1-3)] obtain tr tid where e: "moc_path P (dev, w) tr (dev1, w1)" "enrolled P tid (moc_ops tr)"
    "fpi_data p = Some (Print_Data 1 tid zero16 (label_bytes (gen print)))" by auto
  from verify_verdict [OF assms(1,4,5)] obtain tr0 cap st resp where
    "moc_path P (dev2, w2) (tr0 @ cap @ [Replied verimark_moc_build_begin_id st resp]) (dev3, w3)"
    and verdict: "verdict = MATCH_SUCCESS \<longleftrightarrow> (\<exists>tid. echoed resp tid \<and> print_matches_tid p tid)"
    by (simp only: vfy_data.simps option.inject simp_thms) blast
  then have path: "moc_path P (dev2, w2) ((tr0 @ cap) @ [Replied verimark_moc_build_begin_id st resp]) (dev3, w3)" by simp
  have "echoed resp tid' \<and> print_matches_tid p tid' \<longleftrightarrow> echoed resp tid \<and> tid' = tid" for tid'
    by (auto simp: print_matches_tid_iff e(3) zero16_def echoed_def)
  with e(1,2) path verdict show ?thesis by blast
qed

text \<open>A sensor that enrolls and from then on recognizes the finger.\<close>

definition both_sensor :: "bytes \<Rightarrow> bytes" where
  "both_sensor cmd = (if cmd = verimark_moc_build_begin_id then match_reply else enroll_sensor cmd)"

lemma both_sensor_answers: "enroll_answers both_sensor" "verify_answers both_sensor"
  using enroll_sensor_answers verify_sensor_answers
  by (auto simp: enroll_answers_def verify_answers_def captures_def both_sensor_def verify_sensor_def capture_cmd_def
      verimark_moc_build_begin_id_def verimark_moc_build_enroll_sample_def verimark_moc_build_enroll_create_def
      verimark_moc_build_enroll_commit_def VERIMARK_CMD_EVENT_READ_def match_reply_def)

lemma enroll_then_verify_witness:
  "\<exists>s1 s3 p tid tr. verimark_moc_enroll (answering both_sensor) (\<lambda>_. ''FP1'') 8 blank_print (plain_device, two_presses) = Some s1
    \<and> moc_path (answering both_sensor) (plain_device, two_presses) tr s1 \<and> enrolled (answering both_sensor) tid (moc_ops tr)
    \<and> verimark_moc_verify (answering both_sensor) \<lparr>verify_data = Some p, identify_data = None\<rparr>
        (plain_device, world0\<lparr>w_events := [[0x01]]\<rparr>) = Some s3"
proof -
  from enroll_run_sample [OF both_sensor_answers(1) idle_start, of "\<lambda>_. ''FP1''" blank_print] obtain dev1 w1 p rs where
    enr: "verimark_moc_enroll (answering both_sensor) (\<lambda>_. ''FP1'') 8 blank_print (plain_device, two_presses) = Some (dev1, w1)"
    "reports dev1 = rs @ [Enroll_Complete (Some p) None]" by blast
  from verify_run_sample [OF both_sensor_answers(2) idle_start, of "\<lparr>verify_data = Some p, identify_data = None\<rparr>" False]
  obtain dev3 w3 verdict q where
    vfy: "verimark_moc_verify (answering both_sensor) \<lparr>verify_data = Some p, identify_data = None\<rparr>
        (plain_device, world0\<lparr>w_events := [[0x01]]\<rparr>) = Some (dev3, w3)"
    "reports dev3 = reports plain_device @ [Verify_Report verdict q None, Verify_Complete None]"
    by (auto simp: verimark_moc_verify_def vfy_verdict_def split: option.splits)
  from enroll_then_verify [OF answering_doc enr vfy] enr(1) vfy(1) show ?thesis by blast
qed

subsection \<open>List and delete\<close>

text \<open>C28: What a list shows, a delete removes: when a list has handed out prints, a later delete of any of
  them that completes without an error has asked the sensor for the object standing at that
  print's place in the list reply, and deleted the id the sensor gave for it.\<close>

theorem list_then_delete:
  assumes "platform_doc P T" "print_lib_doc L"
    and "verimark_moc_list P L (dev, w) = Some (dev1, w1)" "reports dev1 = reports dev @ [List_Complete (Some ps) e]"
    and "i < length ps" "verimark_moc_delete P (Some (ps ! i)) (dev2, w2) = Some (dev3, w3)"
    and "reports dev3 = reports dev2 @ [Delete_Complete None]"
  shows "\<exists>st resp ids rest. moc_path P (dev, w) [Replied [VERIMARK_CMD_DB2_GET_OBJ_LIST, 0x01] st resp] (dev1, w1)
    \<and> resp = obj_list_enc 0 ids @ rest \<and> length ids = length ps \<and> ids ! i \<noteq> zero16
    \<and> (\<exists>st1 resp1 st2 resp2. 36 \<le> length resp1
        \<and> moc_path P (dev2, w2) [Replied (del_info_cmd (ids ! i)) st1 resp1,
             Replied (del_delete_cmd (take 16 (drop 20 resp1))) st2 resp2] (dev3, w3))"
proof -
  from list_reply [OF assms(1), of L dev w] assms(3,4) obtain st resp ids rest where
    l: "moc_path P (dev, w) [Replied [VERIMARK_CMD_DB2_GET_OBJ_LIST, 0x01] st resp] (dev1, w1)"
    "resp = obj_list_enc 0 ids @ rest" "\<forall>v. v \<in> set ids \<longrightarrow> length v = 16" "ps = map (list_print L) ids" by auto
  have len: "length (ids ! i) = 16" using l(3,4) assms(5) by simp
  have p: "ps ! i = list_print L (ids ! i)" using l(4) assms(5) by simp
  note target = listed_target [OF assms(2) len]
  note d = delete_reply [OF assms(1), of "Some (ps ! i)" dev2 w2]
  have nz: "ids ! i \<noteq> zero16"
    using d assms(6,7) target by (auto simp: p)
  from d assms(6,7) target nz obtain st1 resp1 st2 resp2 where
    "36 \<le> length resp1" "moc_path P (dev2, w2) [Replied (del_info_cmd (ids ! i)) st1 resp1,
       Replied (del_delete_cmd (take 16 (drop 20 resp1))) st2 resp2] (dev3, w3)" by (auto simp: p)
  moreover have "length ids = length ps" using l(4) by simp
  ultimately show ?thesis using l(1,2) nz by blast
qed

lemma list_then_delete_witness:
  "\<exists>s1 s3 p. verimark_moc_list (answering storage_sensor) (make_print sample_fpi) (plain_device, world0) = Some s1
    \<and> verimark_moc_delete (answering storage_sensor) (Some p) (plain_device, world0) = Some s3
    \<and> (\<exists>st resp ids rest. moc_path (answering storage_sensor) (plain_device, world0)
           [Replied [VERIMARK_CMD_DB2_GET_OBJ_LIST, 0x01] st resp] s1 \<and> resp = obj_list_enc 0 ids @ rest \<and> ids ! 0 \<noteq> zero16)"
proof -
  let ?L = "make_print sample_fpi" and ?gid = "replicate 16 (5 :: byte)"
  obtain dev1 w1 where list: "verimark_moc_list (answering storage_sensor) ?L (plain_device, world0) = Some (dev1, w1)"
    "reports dev1 = reports plain_device @ [List_Complete (Some [list_print ?L ?gid]) None]"
    using list_run [of storage_sensor, OF storage_sensor_list] by blast
  have "delete_target (Some (list_print ?L ?gid)) = Some ?gid"
    using listed_target [OF sample_fpi_doc, of ?gid] by (simp add: zero16_def)
  from delete_run_sample [OF this] obtain dev3 w3 where
    del: "verimark_moc_delete (answering storage_sensor) (Some ([list_print ?L ?gid] ! 0)) (plain_device, world0) = Some (dev3, w3)"
    "reports dev3 = reports plain_device @ [Delete_Complete None]" by auto
  from list_then_delete [OF answering_doc sample_fpi_doc list _ del] list(1) del(1) show ?thesis by auto
qed

text \<open>C29: Enrolled and listed prints cannot be reconciled, which is why the driver does not announce that
  it can list: the data of a print an enrollment handed out differs from the data of every print
  any list hands out, unless the sensor minted the all-zero id, so a caller that deletes what it
  does not find in the list would delete it; and the list feature is not among those the class
  declares, while the delete feature is.\<close>

theorem enrolled_not_listed:
  assumes "platform_doc P T" "print_lib_doc L"
    and "verimark_moc_enroll P gen fuel print (dev, w) = Some (dev1, w1)" "reports dev1 = rs @ [Enroll_Complete (Some p) e]"
    and "verimark_moc_list P L (dev2, w2) = Some (dev3, w3)" "reports dev3 = reports dev2 @ [List_Complete (Some ps) e']"
  shows "\<exists>tid tr. moc_path P (dev, w) tr (dev1, w1) \<and> enrolled P tid (moc_ops tr)
    \<and> (tid \<noteq> zero16 \<longrightarrow> fpi_data p \<notin> fpi_data ` set ps)
    \<and> FEATURE_STORAGE_LIST \<notin> set (features (fpi_device_verimark_class_init P E))
    \<and> FEATURE_STORAGE_DELETE \<in> set (features (fpi_device_verimark_class_init P E))"
proof -
  from enroll_print [OF assms(1,3,4)] obtain tr tid where e: "moc_path P (dev, w) tr (dev1, w1)" "enrolled P tid (moc_ops tr)"
    "fpi_data p = Some (Print_Data 1 tid zero16 (label_bytes (gen print)))" by auto
  from list_reply [OF assms(1), of L dev2 w2] assms(5,6) obtain ids where "ps = map (list_print L) ids" by auto
  then have "tid \<noteq> zero16 \<longrightarrow> fpi_data p \<notin> fpi_data ` set ps"
    using list_print_fields [OF assms(2)] e(3) by auto
  with e(1,2) show ?thesis by (auto simp: fpi_device_verimark_class_init_def class_features_def)
qed

text \<open>A sensor that enrolls and lists.\<close>

definition listing_sensor :: "bytes \<Rightarrow> bytes" where
  "listing_sensor cmd =
     (if cmd = [VERIMARK_CMD_DB2_GET_OBJ_LIST, 0x01] then obj_list_enc 0 [replicate 16 5] else enroll_sensor cmd)"

lemma listing_sensor_answers: "enroll_answers listing_sensor"
proof -
  have other: "listing_sensor cmd = enroll_sensor cmd" if "length cmd \<noteq> 2 \<or> hd cmd \<noteq> VERIMARK_CMD_DB2_GET_OBJ_LIST" for cmd
    using that by (auto simp: listing_sensor_def)
  have "listing_sensor cmd = enroll_sensor cmd" if "capture_cmd cmd" for cmd
    using that by (intro other) (auto simp: capture_cmd_def VERIMARK_CMD_DB2_GET_OBJ_LIST_def)
  then show ?thesis
    using enroll_sensor_answers
    by (simp add: enroll_answers_def captures_def other verimark_moc_build_begin_id_def verimark_moc_build_enroll_sample_def
        verimark_moc_build_enroll_create_def verimark_moc_build_enroll_commit_def VERIMARK_CMD_DB2_GET_OBJ_LIST_def)
qed

lemma enrolled_not_listed_witness:
  "\<exists>s1 s3 tid tr (p :: fp_print) (ps :: fp_print list). verimark_moc_enroll (answering listing_sensor) (\<lambda>_. ''FP1'') 8 blank_print (plain_device, two_presses) = Some s1
    \<and> verimark_moc_list (answering listing_sensor) (make_print sample_fpi) (plain_device, world0) = Some s3
    \<and> moc_path (answering listing_sensor) (plain_device, two_presses) tr s1 \<and> enrolled (answering listing_sensor) tid (moc_ops tr)
    \<and> ps \<noteq> [] \<and> (tid \<noteq> zero16 \<longrightarrow> fpi_data p \<notin> fpi_data ` set ps)"
proof -
  have "listing_sensor [VERIMARK_CMD_DB2_GET_OBJ_LIST, 0x01] = obj_list_enc 0 [replicate 16 5]"
    by (simp add: listing_sensor_def)
  from list_run [of listing_sensor "make_print sample_fpi", OF this] obtain dev3 w3 where
    list: "verimark_moc_list (answering listing_sensor) (make_print sample_fpi) (plain_device, world0) = Some (dev3, w3)"
    "reports dev3 = reports plain_device @ [List_Complete (Some [list_print (make_print sample_fpi) (replicate 16 5)]) None]"
    by blast
  from enroll_run_sample [OF listing_sensor_answers idle_start, of "\<lambda>_. ''FP1''" blank_print] obtain dev1 w1 p rs where
    enr: "verimark_moc_enroll (answering listing_sensor) (\<lambda>_. ''FP1'') 8 blank_print (plain_device, two_presses) = Some (dev1, w1)"
    "reports dev1 = rs @ [Enroll_Complete (Some p) None]" by blast
  from enrolled_not_listed [OF answering_doc sample_fpi_doc enr list] obtain tid tr where
    r: "moc_path (answering listing_sensor) (plain_device, two_presses) tr (dev1, w1)"
    "enrolled (answering listing_sensor) tid (moc_ops tr)"
    "tid \<noteq> zero16 \<longrightarrow> fpi_data p \<notin> fpi_data ` set [list_print (make_print sample_fpi) (replicate 16 5)]" by blast
  have "[list_print (make_print sample_fpi) (replicate 16 5)] \<noteq> []" by simp
  with r enr(1) list(1) show ?thesis by blast
qed

subsection \<open>The channel commands travel on\<close>

text \<open>C9: No command of an open device travels in the clear or under another session. At any point of
  any sequence of commands, captures and waits after a successful open, the device is still open
  and its session is established and authenticated against the device's pairing; and when the
  driver then sends a command, what appears on the bus, whatever comes of it, is the frames of one
  application-data record that seals the command under this session's write key, IV and current
  sequence number, all of them or, when a transfer fails, the first few, and nothing else. The
  device stays open, with the same keys and the sequence number counted up, so that the next
  record is sealed under another one. A wait for a press puts nothing on the bus.\<close>

theorem commands_protected:
  assumes "fpi_ssm_doc (fpi P)" "aead_doc (lib P)" "rand_doc P" "bus_log P B"
    and "dev_opened (lib P) dev" "moc_path P (dev, w) tr (dev', w')"
    and "length cmd \<le> 65536" "verimark_moc_send P cmd hint (dev', w') = Some (r, dev'', w'')"
  shows "dev_opened (lib P) dev' \<and> dev_opened (lib P) dev''
    \<and> (\<exists>t pd t'' rcd k. d_tls dev' = Some t \<and> t_established t
         \<and> d_pairing dev' = Some pd \<and> authenticated (lib P) (verimark_tls_set_pairing verimark_tls_new pd) t
         \<and> sealed_record (lib P) t cmd rcd \<and> 0 < k \<and> B w'' = B w' @ take k (write_frames rcd)
         \<and> ((\<exists>reply. r = Inr reply) \<longrightarrow> k = length (write_frames rcd))
         \<and> d_tls dev'' = Some t'' \<and> t_keys t'' = t_keys t \<and> t_encr_seq t'' = t_encr_seq t + 1)
    \<and> (\<forall>q s. cap_wait_press P (dev', w') = Some (q, s) \<longrightarrow> B (snd s) = B w')"
proof -
  have opened: "dev_opened (lib P) dev'" by (rule opened_path [OF assms(6,5)])
  have "moc_path P (dev', w') (case r of Inl e \<Rightarrow> [] | Inr (st, resp) \<Rightarrow> [Replied cmd st resp]) (dev'', w'')"
    by (rule path_send [OF assms(8)])
  from opened_path [OF this opened] have "dev_opened (lib P) dev''" .
  moreover from opened obtain t pd where "d_tls dev' = Some t" "t_established t" "d_pairing dev' = Some pd"
    "authenticated (lib P) (verimark_tls_set_pairing verimark_tls_new pd) t" by (auto simp: dev_opened_def)
  moreover note bus_send [OF assms(1-4,7) this(1,2) assms(8)]
  moreover have "B (snd s) = B w'" if "cap_wait_press P (dev', w') = Some (q, s)" for q s
    using bus_wait [OF assms(1,4), of dev' w' q "fst s" "snd s"] that by simp
  ultimately show ?thesis using opened by blast
qed

lemma sample_bus: "bus_log sample w_sent"
  by (auto simp: bus_log_def sample_def split: list.split)

lemma commands_protected_witness:
  "\<exists>dev (w :: sensor_world) r dev' w' t rcd k. verimark_moc_send sample verimark_moc_build_enroll_commit 2 (dev, w) = Some (r, dev', w')
    \<and> d_tls dev = Some t \<and> t_established t \<and> sealed_record sample_crypto t verimark_moc_build_enroll_commit rcd
    \<and> 0 < k \<and> w_sent w' = w_sent w @ take k (write_frames rcd)"
proof -
  let ?P = "sample :: sensor_world platform" and ?cmd = verimark_moc_build_enroll_commit
  from handshake_with_sensor [of ?P sample_tls w_sensor sensor_world0 sample_io "\<lambda>_. True"]
  obtain t w0 where run: "verimark_tls_handshake ?P sample_io (sample_tls, sensor_world0) = (Inr True, t, w0)"
    by (auto simp: sample_crypto_docs sample_rand sample_dh sample_keys sample_tls_start sample_link
        sensor_world0_sensor sample_sensor_start sample_paired)
  from handshake_authenticated [OF run] have auth: "t_established t" "authenticated sample_crypto sample_tls t" by auto
  let ?dev = "dev_init\<lparr>d_iface := VERIMARK_IFACE, d_ep_intr_in := VERIMARK_EP_INTR_IN, d_tls := Some t,
      d_sid := Some ''0102030405060708'', d_pairing := Some sample_pairing\<rparr>"
  have "t_pd sample_tls = sample_pairing" by (simp add: sample_tls_def verimark_tls_set_pairing_def)
  then have opened: "dev_opened (lib ?P) ?dev"
    using auth by (auto simp: dev_opened_def sample_tls_def authenticated_def)
  have docs: "fpi_ssm_doc (fpi ?P)" "aead_doc (lib ?P)" "length ?cmd \<le> 65536"
    using sample_ssm_doc sample_crypto_docs by simp_all
  obtain r dev' w' where send: "verimark_moc_send ?P ?cmd 2 (?dev, w0) = Some (r, dev', w')"
    using moc_send_exchange [OF docs(1,2) sample_rand docs(3)] by (metis surj_pair)
  from commands_protected [OF docs(1,2) sample_rand sample_bus opened moc_path.start docs(3) send]
  obtain t' rcd k where "d_tls ?dev = Some t'" "t_established t'" "sealed_record sample_crypto t' ?cmd rcd" "0 < k"
    "w_sent w' = w_sent w0 @ take k (write_frames rcd)" unfolding sample_sel by blast
  with send show ?thesis by blast
qed

end
